(* ===== verification/Prelude.thy ===== *)
theory Prelude
  imports Main "HOL-Library.Word"
begin

text \<open>
  The Go values and standard-library behaviour that the components share.

  \<^item> \<open>uint8\<close>, \<open>uint16\<close>, \<open>uint32\<close>, \<open>uint64\<close> are words of that width, Go's \<open>int\<close> on the
    64-bit target is \<open>int\<close> where it only counts and a \<open>64 word\<close> where the code
    works on its bits; a \<open>[]byte\<close> is a list of bytes and a \<open>string\<close> is a list of
    characters (bytes), as in Go;
  \<^item> \<open>gerror\<close> is the value of Go's \<open>error\<close> interface: the sentinels the code
    compares with (\<open>sql.ErrNoRows\<close>, the \<open>RpcError\<close> values of src/error.go), fresh
    errors with their message, and wrapping (\<open>errors.Wrap\<close>), which \<open>errors.Is\<close> and
    \<open>errors.As\<close> look through. Of a formatted message only the text of the format
    is kept, not the printed arguments;
  \<^item> \<open>'a res\<close> is the outcome of a call: a value, a returned error, or a run-time
    panic, so that an out-of-range index is a value of the model and not an
    unspecified term;
  \<^item> \<open>hex\<close> and \<open>binary.BigEndian\<close> are the two encoders of the standard library that the code uses;
    \<open>hex.DecodeString\<close> returns the bytes before the first
    bad character together with the error, and the code relies on both results.
\<close>

unbundle bit_operations_syntax

named_theorems go_simps \<open>unfolding rules of the Go run-time model\<close>

subsection \<open>Machine types\<close>

type_synonym byte = "8 word"
type_synonym bytes = "8 word list"
type_synonym uint16 = "16 word"
type_synonym uint32 = "32 word"
type_synonym uint64 = "64 word"

subsection \<open>Errors (src/error.go and pkg/errors)\<close>

record RpcError =
  rpc_Msg :: string
  rpc_Details :: string
  rpc_Code :: int

datatype gerror =
    ErrNoRows
  | ErrRpc RpcError
  | ErrMsg string
  | ErrWrap string gerror

fun errors_Cause :: "gerror \<Rightarrow> gerror" where
  "errors_Cause (ErrWrap m e) = errors_Cause e"
| "errors_Cause e = e"

definition RpcError_Error :: "RpcError \<Rightarrow> string" where
  "RpcError_Error r = rpc_Msg r"

text \<open>\<open>RpcError.Is\<close>: two RPC errors match when their messages do.\<close>

fun RpcError_Is :: "RpcError \<Rightarrow> gerror \<Rightarrow> bool" where
  "RpcError_Is r target = (case errors_Cause target of ErrRpc t \<Rightarrow> rpc_Msg t = rpc_Msg r | _ \<Rightarrow> False)"

text \<open>\<open>errors.Is(err, target)\<close> walks the chain of \<open>err\<close>; an \<open>RpcError\<close> in it answers by
  its own \<open>Is\<close> method.\<close>

fun errors_Is :: "gerror \<Rightarrow> gerror \<Rightarrow> bool" where
  "errors_Is (ErrWrap m e) target = (ErrWrap m e = target \<or> errors_Is e target)"
| "errors_Is (ErrRpc r) target = (ErrRpc r = target \<or> RpcError_Is r target)"
| "errors_Is e target = (e = target)"

text \<open>\<open>errors.As(err, &RpcError)\<close>: the RPC error at the root of the chain, if there is one.\<close>

fun errors_As_Rpc :: "gerror \<Rightarrow> RpcError option" where
  "errors_As_Rpc (ErrWrap m e) = errors_As_Rpc e"
| "errors_As_Rpc (ErrRpc r) = Some r"
| "errors_As_Rpc e = None"

text \<open>The sentinel values: message and HTTP status code.\<close>

definition rpc_sentinel :: "string \<Rightarrow> int \<Rightarrow> gerror" where
  "rpc_sentinel msg code = ErrRpc \<lparr>rpc_Msg = msg, rpc_Details = [], rpc_Code = code\<rparr>"

definition ErrBlockProcessorStarting :: gerror where "ErrBlockProcessorStarting = rpc_sentinel ''block processor starting'' 404"
definition ErrPointNotFound :: gerror where "ErrPointNotFound = rpc_sentinel ''point not found'' 404"
definition ErrBlockNotFound :: gerror where "ErrBlockNotFound = rpc_sentinel ''block not found'' 404"
definition ErrTransactionNotFound :: gerror where "ErrTransactionNotFound = rpc_sentinel ''transaction not found'' 404"
definition ErrNotEnoughFunds :: gerror where "ErrNotEnoughFunds = rpc_sentinel ''not enough funds'' 400"
definition ErrInvalidPrivateKey :: gerror where "ErrInvalidPrivateKey = rpc_sentinel ''invalid private key'' 400"
definition ErrInvalidPublicKey :: gerror where "ErrInvalidPublicKey = rpc_sentinel ''invalid public key'' 400"
definition ErrInvalidPublicKeyType :: gerror where "ErrInvalidPublicKeyType = rpc_sentinel ''invalid public key type'' 400"
definition ErrInvalidCliResponse :: gerror where "ErrInvalidCliResponse = rpc_sentinel ''invalid cardano-cli response'' 400"
definition ErrRpcFailed :: gerror where "ErrRpcFailed = rpc_sentinel ''rpc failed'' 0"
definition ErrNodeCommandFailed :: gerror where "ErrNodeCommandFailed = rpc_sentinel ''node command failed'' 400"
definition ErrNetworkInvalid :: gerror where "ErrNetworkInvalid = rpc_sentinel ''network invalid'' 400"
definition ErrNodeUnavailable :: gerror where "ErrNodeUnavailable = rpc_sentinel ''node unavailable'' 500"

lemmas rpc_sentinels =
  ErrBlockProcessorStarting_def
  ErrPointNotFound_def
  ErrBlockNotFound_def
  ErrTransactionNotFound_def
  ErrNotEnoughFunds_def
  ErrInvalidPrivateKey_def
  ErrInvalidPublicKey_def
  ErrInvalidPublicKeyType_def
  ErrInvalidCliResponse_def
  ErrRpcFailed_def
  ErrNodeCommandFailed_def
  ErrNetworkInvalid_def
  ErrNodeUnavailable_def

lemma errors_As_Rpc_Cause: "errors_As_Rpc e = (case errors_Cause e of ErrRpc r \<Rightarrow> Some r | _ \<Rightarrow> None)"
  by (induction e) auto

subsection \<open>Outcomes of calls\<close>

datatype 'a res = Ok 'a | Err gerror | Panic string

fun res_bind :: "'a res \<Rightarrow> ('a \<Rightarrow> 'b res) \<Rightarrow> 'b res" where
  "res_bind (Ok a) f = f a"
| "res_bind (Err e) f = Err e"
| "res_bind (Panic p) f = Panic p"

fun is_ok :: "'a res \<Rightarrow> bool" where
  "is_ok (Ok a) = True"
| "is_ok _ = False"

fun is_panic :: "'a res \<Rightarrow> bool" where
  "is_panic (Panic p) = True"
| "is_panic _ = False"

fun is_err :: "'a res \<Rightarrow> bool" where
  "is_err (Err e) = True"
| "is_err _ = False"

lemma res_bind_eq_Ok [simp]: "res_bind r f = Ok b \<longleftrightarrow> (\<exists>a. r = Ok a \<and> f a = Ok b)"
  by (cases r) auto

lemma res_bind_assoc: "res_bind (res_bind r f) g = res_bind r (\<lambda>a. res_bind (f a) g)"
  by (cases r) auto

subsection \<open>encoding/hex\<close>

definition hex_digits :: string where
  "hex_digits = ''0123456789abcdef''"

definition hex_char :: "nat \<Rightarrow> char" where
  "hex_char n = hex_digits ! n"

fun hex_EncodeToString :: "bytes \<Rightarrow> string" where
  "hex_EncodeToString [] = []"
| "hex_EncodeToString (b # bs) =
     hex_char (unat b div 16) # hex_char (unat b mod 16) # hex_EncodeToString bs"

text \<open>\<open>reverseHexTable\<close>: the value of a hexadecimal digit of either case.\<close>

definition fromHexChar :: "char \<Rightarrow> nat option" where
  "fromHexChar c =
     (let n = (of_char c :: nat) in
      if 48 \<le> n \<and> n \<le> 57 then Some (n - 48)
      else if 97 \<le> n \<and> n \<le> 102 then Some (n - 87)
      else if 65 \<le> n \<and> n \<le> 70 then Some (n - 55)
      else None)"

fun hex_DecodeString :: "string \<Rightarrow> bytes \<times> gerror option" where
  "hex_DecodeString [] = ([], None)"
| "hex_DecodeString [p] =
     ([], Some (if fromHexChar p = None then ErrMsg ''encoding/hex: invalid byte''
                else ErrMsg ''encoding/hex: odd length hex string''))"
| "hex_DecodeString (p # q # cs) =
     (case (fromHexChar p, fromHexChar q) of
        (Some a, Some b) \<Rightarrow>
          (let (bs, e) = hex_DecodeString cs in (of_nat (16 * a + b) # bs, e))
      | _ \<Rightarrow> ([], Some (ErrMsg ''encoding/hex: invalid byte'')))"

lemma less_16_cases: "n < 16 \<Longrightarrow> n \<in> {0, 1, 2, 3, 4, 5, 6, 7, 8, 9, 10, 11, 12, 13, 14, 15 :: nat}"
  by simp presburger

lemma fromHexChar_hex_char [simp]: "n < 16 \<Longrightarrow> fromHexChar (hex_char n) = Some n"
  by (drule less_16_cases) (auto simp: fromHexChar_def hex_char_def hex_digits_def)

lemma hex_char_lower:
  assumes "n < 16" shows "hex_char n \<in> set hex_digits"
  using assms by (simp only: hex_char_def) (rule nth_mem, simp add: hex_digits_def)

lemma unat_byte_less [simp]: "unat (b :: byte) < 256"
  using unsigned_less [of b, where 'a = nat] by simp

lemma unat_byte_div16 [simp]: "unat (b :: byte) div 16 < 16"
  using unat_byte_less [of b] by linarith

lemma hex_EncodeToString_digits: "set (hex_EncodeToString bs) \<subseteq> set hex_digits"
proof (induction bs)
  case (Cons b bs)
  then show ?case by (simp add: hex_char_lower)
qed simp

lemma hex_Decode_Encode [simp]: "hex_DecodeString (hex_EncodeToString bs) = (bs, None)"
proof (induction bs)
  case (Cons b bs)
  then show ?case by (simp add: mult.commute div_mult_mod_eq del: of_nat_add of_nat_mult)
qed simp

lemma length_hex_Encode [simp]: "length (hex_EncodeToString bs) = 2 * length bs"
  by (induction bs) auto

subsection \<open>encoding/binary, big endian\<close>

definition PutUint16 :: "uint16 \<Rightarrow> bytes" where
  "PutUint16 v = [ucast (drop_bit 8 v), ucast v]"

definition PutUint32 :: "uint32 \<Rightarrow> bytes" where
  "PutUint32 v = [ucast (drop_bit 24 v), ucast (drop_bit 16 v), ucast (drop_bit 8 v), ucast v]"

definition Uint16 :: "bytes \<Rightarrow> uint16" where
  "Uint16 b = (case b of b0 # b1 # _ \<Rightarrow> push_bit 8 (ucast b0) OR ucast b1 | _ \<Rightarrow> 0)"

lemma bit_byte_ge [simp]: "8 \<le> n \<Longrightarrow> \<not> bit (b :: byte) n"
  using bit_imp_le_length [of b n] by auto

lemma length_PutUint [simp]: "length (PutUint16 v) = 2" "length (PutUint32 u) = 4"
  by (simp_all add: PutUint16_def PutUint32_def)

lemma Uint16_PutUint16 [simp]: "Uint16 (PutUint16 v) = v"
  by (rule bit_word_eqI) (auto simp: Uint16_def PutUint16_def bit_simps not_le less_diff_conv2)

lemma PutUint16_Uint16 [simp]: "PutUint16 (Uint16 [a, b]) = [a, b]"
  by (auto simp: Uint16_def PutUint16_def bit_simps intro!: bit_word_eqI)

subsection \<open>Cutting a slice into chunks\<close>

text \<open>\<open>for i := 0; i < len(xs); i += n { xs[i:min(i+n, len(xs))] }\<close>, the loop that
  \<open>ChunkString\<close> and \<open>AddTxsForBlock\<close> both run.\<close>

function chunks :: "nat \<Rightarrow> 'a list \<Rightarrow> 'a list list" where
  "chunks n xs = (if n = 0 \<or> xs = [] then [] else take n xs # chunks n (drop n xs))"
  by pat_completeness auto
termination
  by (relation "measure (\<lambda>(n, xs). length xs)") auto

declare chunks.simps [simp del]

lemma chunks_Nil [simp]: "chunks n [] = []"
  by (simp add: chunks.simps)

lemma concat_chunks: "0 < n \<Longrightarrow> concat (chunks n xs) = xs"
  by (induction n xs rule: chunks.induct) (subst chunks.simps, auto)

lemma chunks_bound: "c \<in> set (chunks n xs) \<Longrightarrow> 0 < length c \<and> length c \<le> n"
proof (induction n xs rule: chunks.induct)
  case (1 n xs)
  then show ?case
    by (cases "n = 0 \<or> xs = []") (auto simp: chunks.simps [of n xs])
qed

lemma length_chunks: "0 < n \<Longrightarrow> length (chunks n xs) = (length xs + n - 1) div n"
proof (induction n xs rule: chunks.induct)
  case (1 n xs)
  show ?case
  proof (cases "xs = []")
    case False
    then have "length (chunks n xs) = Suc ((length xs - n + n - 1) div n)"
      using 1 by (simp add: chunks.simps [of n xs])
    also have "\<dots> = (length xs + n - 1) div n"
    proof (cases "n \<le> length xs")
      case True
      then have "length xs + n - 1 = (length xs - n + n - 1) + n" using 1(2) by simp
      then show ?thesis using 1(2) by (metis div_add_self2 less_numeral_extra(3) plus_1_eq_Suc add.commute)
    next
      case False
      then have "(length xs + n - 1) div n = 1"
        using \<open>xs \<noteq> []\<close> 1(2) by (intro div_nat_eqI) (auto simp: length_greater_0_conv [symmetric] simp del: length_greater_0_conv)
      with False 1(2) show ?thesis by simp
    qed
    finally show ?thesis .
  qed (use 1 in simp)
qed

subsection \<open>Association lists and keys\<close>

lemma map_of_map_key:
  "map_of (map f xs) k = (case filter (\<lambda>x. fst (f x) = k) xs of [] \<Rightarrow> None | x # _ \<Rightarrow> Some (snd (f x)))"
  by (induction xs) auto

lemma map_of_filter_keys:
  assumes "\<And>x. x \<in> set xs \<Longrightarrow> P x \<longleftrightarrow> Q (fst (f x))"
  shows "map_of (map f (filter P xs)) = map_of (map f xs) |` {k. Q k}"
  using assms by (induction xs) (auto simp: restrict_map_def fun_eq_iff)

lemma map_of_distinct_rev: "distinct (map fst xs) \<Longrightarrow> map_of (rev xs) = map_of xs"
  by (rule map_of_inject_set [THEN iffD2]) (simp_all flip: rev_map)

lemma map_of_append_disjoint:
  "set (map fst xs) \<inter> set (map fst ys) = {} \<Longrightarrow> map_of (xs @ ys) = map_of xs ++ map_of ys"
  by (simp add: map_of_append) (rule map_add_comm, simp add: dom_map_of_conv_image_fst Int_commute)

lemma map_of_filter_le:
  "distinct (map g xs) \<Longrightarrow> map_of (map (\<lambda>x. (g x, v x)) (filter P xs)) \<subseteq>\<^sub>m map_of (map (\<lambda>x. (g x, v x)) xs)"
  by (induction xs) (auto simp: map_le_def dom_map_of_conv_image_fst image_iff)

lemma filter_unique: "distinct (map f xs) \<Longrightarrow> x \<in> set xs \<Longrightarrow> filter (\<lambda>y. f y = f x) xs = [x]"
  by (induction xs) (auto simp: filter_empty_conv image_iff)

lemma distinct_singleton: "distinct xs \<Longrightarrow> set xs = {x} \<Longrightarrow> xs = [x]"
  by (cases xs; cases "tl xs") auto

end
