(* ===== verification/Network.thy ===== *)
theory Network
  imports Prelude
begin

text \<open>
  The supported networks and their parameters (src/network.go). \<open>Network\<close> is a Go string
  type, so any string can reach \<open>Params\<close>; the three package variables that \<open>init\<close>
  fills are constants here, since nothing writes them afterwards.
\<close>

type_synonym Network = string
type_synonym NetworkMagic = uint64

definition NetworkMainNet :: Network where "NetworkMainNet = ''mainnet''"
definition NetworkPreProd :: Network where "NetworkPreProd = ''preprod''"
definition NetworkPrivateNet :: Network where "NetworkPrivateNet = ''privnet''"

lemmas network_names = NetworkMainNet_def NetworkPreProd_def NetworkPrivateNet_def

definition NetworkMagicMainNet :: NetworkMagic where "NetworkMagicMainNet = 764824073"
definition NetworkMagicLegacyTestnet :: NetworkMagic where "NetworkMagicLegacyTestnet = 1097911063"
definition NetworkMagicPreProd :: NetworkMagic where "NetworkMagicPreProd = 1"
definition NetworkMagicPreview :: NetworkMagic where "NetworkMagicPreview = 2"
definition NetworkMagicSanchonet :: NetworkMagic where "NetworkMagicSanchonet = 4"
definition NetworkMagicPrivateNet :: NetworkMagic where "NetworkMagicPrivateNet = 42"

definition MayaProtocolAuxKey :: nat where "MayaProtocolAuxKey = 6676"

record NetworkParams =
  np_Name :: Network
  np_Magic :: NetworkMagic
  np_StartTime :: uint64
  np_ByronBlock :: uint64
  np_AddressPrefix :: string
  np_DelegationPrefix :: string

definition MainNetParams :: NetworkParams where
  "MainNetParams = \<lparr>np_Name = NetworkMainNet, np_Magic = NetworkMagicMainNet,
     np_StartTime = 1506203091, np_ByronBlock = 4492800,
     np_AddressPrefix = ''addr'', np_DelegationPrefix = ''stake''\<rparr>"

definition PreProdParams :: NetworkParams where
  "PreProdParams = \<lparr>np_Name = NetworkPreProd, np_Magic = NetworkMagicPreProd,
     np_StartTime = 1564020236, np_ByronBlock = 46,
     np_AddressPrefix = ''addr'', np_DelegationPrefix = ''stake''\<rparr>"

definition PrivateNetParams :: NetworkParams where
  "PrivateNetParams = \<lparr>np_Name = NetworkPrivateNet, np_Magic = NetworkMagicPrivateNet,
     np_StartTime = 0, np_ByronBlock = 0,
     np_AddressPrefix = ''addr_test'', np_DelegationPrefix = ''stake_test''\<rparr>"

definition Network_Valid :: "Network \<Rightarrow> bool" where
  "Network_Valid n \<longleftrightarrow> n = NetworkMainNet \<or> n = NetworkPreProd \<or> n = NetworkPrivateNet"

definition Network_Validate :: "Network \<Rightarrow> unit res" where
  "Network_Validate n = (if \<not> Network_Valid n then Err (ErrMsg ''invalid network'') else Ok ())"

definition Network_Params :: "Network \<Rightarrow> NetworkParams res" where
  "Network_Params n =
     (case Network_Validate n of
        Ok _ \<Rightarrow>
          (if n = NetworkMainNet then Ok MainNetParams
           else if n = NetworkPreProd then Ok PreProdParams
           else Ok PrivateNetParams)
      | Err e \<Rightarrow> Err e
      | Panic p \<Rightarrow> Panic p)"

lemma Network_Params_Ok:
  "Network_Params n = Ok p \<longleftrightarrow>
     (n = NetworkMainNet \<and> p = MainNetParams) \<or> (n = NetworkPreProd \<and> p = PreProdParams) \<or>
     (n = NetworkPrivateNet \<and> p = PrivateNetParams)"
  by (auto simp: Network_Params_def Network_Validate_def Network_Valid_def network_names)

lemma Network_Params_total: "is_ok (Network_Params n) = Network_Valid n"
  by (auto simp: Network_Params_def Network_Validate_def)

lemma Network_Params_no_panic [simp]: "Network_Params n \<noteq> Panic p"
  by (auto simp: Network_Params_def Network_Validate_def)

lemma Network_Params_invalid:
  "\<not> Network_Valid n \<Longrightarrow> Network_Params n = Err (ErrMsg ''invalid network'')"
  by (simp add: Network_Params_def Network_Validate_def)

lemma Network_Params_Name: "Network_Params n = Ok p \<Longrightarrow> np_Name p = n"
  by (auto simp: Network_Params_Ok MainNetParams_def PreProdParams_def PrivateNetParams_def)

lemma Network_Params_prefix:
  "Network_Params n = Ok p \<Longrightarrow>
     (np_AddressPrefix p = ''addr'' \<and> np_DelegationPrefix p = ''stake'') \<or>
     (np_AddressPrefix p = ''addr_test'' \<and> np_DelegationPrefix p = ''stake_test'')"
  by (auto simp: Network_Params_Ok MainNetParams_def PreProdParams_def PrivateNetParams_def)

end
