(* ===== verification/Bech32.thy ===== *)
theory Bech32
  imports Prelude
begin

text \<open>
  The bech32 codec the addresses go through: the two vendored copies of btcutil's
  \<open>bech32\<close> package (src/vendor/github.com/cosmos/btcutil/bech32 with a caller-given length
  limit, src/vendor/github.com/btcsuite/btcutil/bech32 with the fixed limit of 90) and the
  cosmos-sdk wrappers \<open>ConvertAndEncode\<close> and \<open>DecodeAndConvert\<close>. \<open>toBytes\<close>,
  \<open>bech32Polymod\<close>, \<open>writeBech32Checksum\<close>, \<open>Encode\<close> and \<open>ConvertBits\<close> are the same
  text in both copies and are modelled once.

  Go's \<open>int\<close> is a \<open>64 word\<close> in the checksum: it stays below \<open>2 ^ 30\<close>
  (\<open>polymod_step_bound\<close>), so the arithmetic shift of the source is the logical one.
  The lemmas lead to the two round trips: the checksum the encoder writes is accepted
  by the decoder (the checksum is linear over XOR), and regrouping 8-bit into padded 5-bit
  groups and back is the identity (both directions refine the regrouping of one bit string).
\<close>

subsection \<open>Characters and strings\<close>

definition charset :: string where
  "charset = ''qpzry9x8gf2tvdw0s3jn54khce6mua7l''"

fun IndexByte :: "string \<Rightarrow> char \<Rightarrow> nat option" where
  "IndexByte [] c = None"
| "IndexByte (x # xs) c = (if x = c then Some 0 else map_option Suc (IndexByte xs c))"

fun LastIndexByte :: "string \<Rightarrow> char \<Rightarrow> nat option" where
  "LastIndexByte [] c = None"
| "LastIndexByte (x # xs) c =
     (case LastIndexByte xs c of
        Some i \<Rightarrow> Some (Suc i)
      | None \<Rightarrow> if x = c then Some 0 else None)"

definition ascii :: "char \<Rightarrow> nat" where
  "ascii c = of_char c"

definition is_upper :: "char \<Rightarrow> bool" where
  "is_upper c \<longleftrightarrow> 65 \<le> ascii c \<and> ascii c \<le> 90"

definition is_lower :: "char \<Rightarrow> bool" where
  "is_lower c \<longleftrightarrow> 97 \<le> ascii c \<and> ascii c \<le> 122"

text \<open>\<open>strings.ToLower\<close> on the ASCII strings it is given.\<close>

definition ToLower :: "string \<Rightarrow> string" where
  "ToLower s = map (\<lambda>c. if is_upper c then char_of (ascii c + 32) else c) s"

fun toBytes :: "string \<Rightarrow> bytes res" where
  "toBytes [] = Ok []"
| "toBytes (c # cs) =
     (case IndexByte charset c of
        None \<Rightarrow> Err (ErrMsg ''invalid character not part of charset'')
      | Some index \<Rightarrow> res_bind (toBytes cs) (\<lambda>decoded. Ok (of_nat index # decoded)))"

subsection \<open>Checksum\<close>

definition gen :: "uint64 list" where
  "gen = [0x3b6a57b2, 0x26508e6d, 0x1ea119fa, 0x3d4233dd, 0x2a1462b3]"

definition apply_gen :: "uint64 \<Rightarrow> uint64 \<Rightarrow> uint64" where
  "apply_gen b chk = fold (\<lambda>i chk. if drop_bit i b AND 1 = 1 then chk XOR gen ! i else chk) [0..<5] chk"

definition polymod_step :: "uint64 \<Rightarrow> uint64 \<Rightarrow> uint64" where
  "polymod_step chk v =
     (let b = drop_bit 25 chk
      in apply_gen b (push_bit 5 (chk AND 0x1ffffff) XOR v))"

definition bech32Polymod :: "string \<Rightarrow> bytes \<Rightarrow> bytes option \<Rightarrow> uint64" where
  "bech32Polymod hrp values checksum =
     (let chk = 1;
          chk = fold (\<lambda>c chk. polymod_step chk (of_nat (ascii c div 32))) hrp chk;
          chk = polymod_step chk 0;
          chk = fold (\<lambda>c chk. polymod_step chk (of_nat (ascii c mod 32))) hrp chk;
          chk = fold (\<lambda>v chk. polymod_step chk (ucast v)) values chk
      in case checksum of
           None \<Rightarrow> fold (\<lambda>v chk. polymod_step chk 0) [0..<6] chk
         | Some cs \<Rightarrow> fold (\<lambda>v chk. polymod_step chk (ucast v)) cs chk)"

definition writeBech32Checksum :: "string \<Rightarrow> bytes \<Rightarrow> string" where
  "writeBech32Checksum hrp data =
     (let polymod = bech32Polymod hrp data None XOR 1
      in map (\<lambda>i. charset ! unat (drop_bit (5 * (5 - i)) polymod AND 31)) [0..<6])"

definition VerifyChecksum :: "string \<Rightarrow> bytes \<Rightarrow> bytes \<Rightarrow> bool" where
  "VerifyChecksum hrp values checksum \<longleftrightarrow> bech32Polymod hrp values (Some checksum) = 1"

subsection \<open>Encode and Decode\<close>

definition Encode :: "string \<Rightarrow> bytes \<Rightarrow> string res" where
  "Encode hrp0 data =
     (let hrp = ToLower hrp0 in
      if \<exists>b\<in>set data. 32 \<le> unat b then Err (ErrMsg ''invalid data byte'')
      else Ok (hrp @ ''1'' @ map (\<lambda>b. charset ! unat b) data @ writeBech32Checksum hrp data))"

fun Normalize_scan :: "string \<Rightarrow> bool \<Rightarrow> bool \<Rightarrow> bool res" where
  "Normalize_scan [] hasLower hasUpper = Ok hasUpper"
| "Normalize_scan (c # cs) hasLower hasUpper =
     (if ascii c < 33 \<or> ascii c > 126 then Err (ErrMsg ''invalid character in string'')
      else let hasLower = (hasLower \<or> is_lower c); hasUpper = (hasUpper \<or> is_upper c)
           in if hasLower \<and> hasUpper then Err (ErrMsg ''string not all lowercase or all uppercase'')
              else Normalize_scan cs hasLower hasUpper)"

definition Normalize :: "string \<Rightarrow> string res" where
  "Normalize bech = res_bind (Normalize_scan bech False False)
     (\<lambda>hasUpper. Ok (if hasUpper then ToLower bech else bech))"

definition DecodeUnsafe :: "string \<Rightarrow> (string \<times> bytes \<times> bytes) res" where
  "DecodeUnsafe bech =
     (case LastIndexByte bech (CHR ''1'') of
        None \<Rightarrow> Err (ErrMsg ''invalid separator index'')
      | Some one \<Rightarrow>
          if one < 1 \<or> one + 7 > length bech then Err (ErrMsg ''invalid separator index'')
          else let hrp = take one bech; data = drop (one + 1) bech
               in res_bind (toBytes data) (\<lambda>decoded.
                    Ok (hrp, take (length decoded - 6) decoded, drop (length decoded - 6) decoded)))"

definition DecodeNoLimit :: "string \<Rightarrow> (string \<times> bytes) res" where
  "DecodeNoLimit bech =
     (if length bech < 8 then Err (ErrMsg ''invalid bech32 string length'')
      else res_bind (Normalize bech) (\<lambda>bech.
             res_bind (DecodeUnsafe bech) (\<lambda>(hrp, values, checksum).
               if \<not> VerifyChecksum hrp values checksum then Err (ErrMsg ''invalid checksum'')
               else Ok (hrp, values))))"

definition Decode :: "string \<Rightarrow> nat \<Rightarrow> (string \<times> bytes) res" where
  "Decode bech limit =
     (if length bech > limit then Err (ErrMsg ''invalid bech32 string length'')
      else DecodeNoLimit bech)"

text \<open>The btcsuite copy: one function for the scan, the split and the checksum, limit 90.\<close>

definition btc_bech32VerifyChecksum :: "string \<Rightarrow> bytes \<Rightarrow> bool" where
  "btc_bech32VerifyChecksum hrp data =
     (let checksum = drop (length data - 6) data; values = take (length data - 6) data
      in bech32Polymod hrp values (Some checksum) = 1)"

definition btc_DecodeNoLimit :: "string \<Rightarrow> (string \<times> bytes) res" where
  "btc_DecodeNoLimit bech0 =
     (if length bech0 < 8 then Err (ErrMsg ''invalid bech32 string length'')
      else res_bind (Normalize_scan bech0 False False) (\<lambda>hasUpper.
        let bech = (if hasUpper then ToLower bech0 else bech0) in
        case LastIndexByte bech (CHR ''1'') of
          None \<Rightarrow> Err (ErrMsg ''invalid separator index'')
        | Some one \<Rightarrow>
            if one < 1 \<or> one + 7 > length bech then Err (ErrMsg ''invalid separator index'')
            else let hrp = take one bech; data = drop (one + 1) bech
                 in res_bind (toBytes data) (\<lambda>decoded.
                      if \<not> btc_bech32VerifyChecksum hrp decoded then Err (ErrMsg ''invalid checksum'')
                      else Ok (hrp, take (length decoded - 6) decoded))))"

definition btc_Decode :: "string \<Rightarrow> (string \<times> bytes) res" where
  "btc_Decode bech =
     (if length bech > 90 then Err (ErrMsg ''invalid bech32 string length'')
      else btc_DecodeNoLimit bech)"

subsection \<open>ConvertBits\<close>

text \<open>
  The inner loop moves the \<open>remFromBits\<close> high bits of \<open>b\<close> into the current group. The state
  is (\<open>regrouped\<close>, \<open>nextByte\<close>, \<open>filledBits\<close>). A group is emitted when it is full, so
  \<open>filledBits < toBits\<close> at every iteration and the loop always makes progress; the second
  disjunct of the guard never decides (see \<open>extract_bits_regroup\<close>).
\<close>

function extract_bits :: "nat \<Rightarrow> byte \<Rightarrow> nat \<Rightarrow> bytes \<times> byte \<times> nat \<Rightarrow> bytes \<times> byte \<times> nat" where
  "extract_bits toBits b remFromBits (regrouped, nextByte, filledBits) =
     (if remFromBits = 0 \<or> toBits \<le> filledBits then (regrouped, nextByte, filledBits)
      else let remToBits = toBits - filledBits;
               toExtract = (if remToBits < remFromBits then remToBits else remFromBits);
               nextByte' = push_bit toExtract nextByte OR drop_bit (8 - toExtract) b;
               b' = push_bit toExtract b;
               remFromBits' = remFromBits - toExtract;
               filledBits' = filledBits + toExtract
           in if filledBits' = toBits
              then extract_bits toBits b' remFromBits' (regrouped @ [nextByte'], 0, 0)
              else extract_bits toBits b' remFromBits' (regrouped, nextByte', filledBits'))"
  by pat_completeness auto
termination
  by (relation "measure (\<lambda>(t, b, r, s). r)") auto

declare extract_bits.simps [simp del]

definition ConvertBits :: "bytes \<Rightarrow> nat \<Rightarrow> nat \<Rightarrow> bool \<Rightarrow> bytes res" where
  "ConvertBits data fromBits toBits pad =
     (if fromBits < 1 \<or> fromBits > 8 \<or> toBits < 1 \<or> toBits > 8 then Err (ErrMsg ''invalid bit groups'')
      else let (regrouped, nextByte, filledBits) =
                 fold (\<lambda>b st. extract_bits toBits (push_bit (8 - fromBits) b) fromBits st) data ([], 0, 0);
               (regrouped, nextByte, filledBits) =
                 (if pad \<and> filledBits > 0
                  then (regrouped @ [push_bit (toBits - filledBits) nextByte], 0, 0)
                  else (regrouped, nextByte, filledBits))
           in if filledBits > 0 \<and> (filledBits > 4 \<or> nextByte \<noteq> 0)
              then Err (ErrMsg ''invalid incomplete group'')
              else Ok regrouped)"

subsection \<open>The cosmos-sdk wrappers\<close>

definition ConvertAndEncode :: "string \<Rightarrow> bytes \<Rightarrow> string res" where
  "ConvertAndEncode hrp data =
     (case ConvertBits data 8 5 True of
        Ok converted \<Rightarrow> Encode hrp converted
      | Err e \<Rightarrow> Err (ErrWrap ''encoding bech32 failed'' e)
      | Panic p \<Rightarrow> Panic p)"

definition DecodeAndConvert :: "string \<Rightarrow> (string \<times> bytes) res" where
  "DecodeAndConvert bech =
     (case Decode bech 1023 of
        Ok (hrp, data) \<Rightarrow>
          (case ConvertBits data 5 8 False of
             Ok converted \<Rightarrow> Ok (hrp, converted)
           | Err e \<Rightarrow> Err (ErrWrap ''decoding bech32 failed'' e)
           | Panic p \<Rightarrow> Panic p)
      | Err e \<Rightarrow> Err (ErrWrap ''decoding bech32 failed'' e)
      | Panic p \<Rightarrow> Panic p)"

subsection \<open>The checksum is linear\<close>

lemma apply_gen_bits:
  "apply_gen b chk = fold (\<lambda>i chk. if bit b i then chk XOR gen ! i else chk) [0..<5] chk"
  by (simp add: apply_gen_def flip: bit_iff_and_drop_bit_eq_1)

lemma fold_xor_linear:
  fixes g :: "nat \<Rightarrow> uint64"
  shows "fold (\<lambda>i c. if P i \<noteq> Q i then c XOR g i else c) is (x XOR y) =
     fold (\<lambda>i c. if P i then c XOR g i else c) is x XOR fold (\<lambda>i c. if Q i then c XOR g i else c) is y"
proof (induction "is" arbitrary: x y)
  case (Cons i "is")
  have "(if P i \<noteq> Q i then (x XOR y) XOR g i else x XOR y) =
      (if P i then x XOR g i else x) XOR (if Q i then y XOR g i else y)"
    by (auto simp: ac_simps)
  then show ?case by (simp only: fold_Cons comp_apply Cons.IH [symmetric])
qed simp

lemma apply_gen_linear: "apply_gen (a XOR b) (x XOR y) = apply_gen a x XOR apply_gen b y"
  unfolding apply_gen_bits bit_xor_iff by (rule fold_xor_linear)

lemma apply_gen_0 [simp]: "apply_gen 0 x = x"
  by (simp add: apply_gen_bits fold_invariant [where Q = "\<lambda>_. True" and P = "\<lambda>y. y = x"])

lemma polymod_step_alt:
  "polymod_step chk v = apply_gen (drop_bit 25 chk) (push_bit 5 (take_bit 25 chk) XOR v)"
  by (simp add: polymod_step_def Let_def take_bit_eq_mask mask_eq_exp_minus_1)

lemma polymod_step_linear: "polymod_step (x XOR y) (v XOR w) = polymod_step x v XOR polymod_step y w"
proof -
  have "push_bit 5 (take_bit 25 (x XOR y)) XOR (v XOR w)
      = (push_bit 5 (take_bit 25 x) XOR v) XOR (push_bit 5 (take_bit 25 y) XOR w)"
    by (simp add: take_bit_xor push_bit_xor ac_simps)
  then show ?thesis by (simp add: polymod_step_alt drop_bit_xor apply_gen_linear)
qed

lemma polymod_step_0 [simp]: "polymod_step 0 v = v"
  by (simp add: polymod_step_alt)

text \<open>A state is \<open>small\<close> when it fits the 30 bits of the checksum.\<close>

abbreviation small30 :: "uint64 \<Rightarrow> bool" where
  "small30 x \<equiv> drop_bit 30 x = 0"

lemma small30_gen: "i < 5 \<Longrightarrow> small30 (gen ! i)"
proof -
  assume "i < 5"
  moreover have "\<forall>i\<in>{0,1,2,3,4}. small30 (gen ! i)" by (simp add: gen_def)
  ultimately show ?thesis by (auto simp: less_Suc_eq numeral_eq_Suc)
qed

lemma fold_gen_small:
  "small30 c \<Longrightarrow> set is \<subseteq> {..<5} \<Longrightarrow>
   small30 (fold (\<lambda>i c. if P i then c XOR gen ! i else c) is c)"
  by (induction "is" arbitrary: c) (auto simp: drop_bit_xor small30_gen)

lemma polymod_step_bound: "small30 v \<Longrightarrow> small30 (polymod_step x v)"
proof -
  assume v: "small30 v"
  have "small30 (push_bit 5 (take_bit 25 x))"
    by (rule bit_word_eqI) (simp add: bit_simps)
  with v show ?thesis
    unfolding polymod_step_alt apply_gen_bits by (intro fold_gen_small) (auto simp: drop_bit_xor)
qed

text \<open>Feeding six zeros shifts the state; feeding six digits adds them in.\<close>

abbreviation feed :: "uint64 list \<Rightarrow> uint64 \<Rightarrow> uint64" where
  "feed vs x \<equiv> fold (\<lambda>v chk. polymod_step chk v) vs x"

lemma feed_linear: "length vs = length ws \<Longrightarrow>
   feed (map2 (XOR) vs ws) (x XOR y) = feed vs x XOR feed ws y"
  by (induction vs ws arbitrary: x y rule: list_induct2) (simp_all add: polymod_step_linear)

lemma map2_xor_zeros: "map2 (XOR) (replicate (length vs) 0) vs = (vs :: uint64 list)"
  by (induction vs) auto

lemma feed_digits: "feed vs x = feed (replicate (length vs) 0) x XOR feed vs 0"
  using feed_linear [of "replicate (length vs) 0" vs x 0] by (simp add: map2_xor_zeros)

text \<open>The six 5-bit digits of a 30-bit number, fed from the zero state, rebuild the number.\<close>

lemma small30_bit: assumes "small30 p" and "30 \<le> k" shows "\<not> bit p k"
proof -
  have "bit (drop_bit 30 p) (k - 30) = bit p k"
    using assms(2) by (simp add: bit_drop_bit_eq)
  with assms(1) show ?thesis by simp
qed

lemma polymod_step_digit:
  assumes "small30 p"
  shows "polymod_step (drop_bit (m + 5) p) (take_bit 5 (drop_bit m p)) = drop_bit m p"
proof -
  have hi: "drop_bit 25 (drop_bit (m + 5) p) = 0"
    using small30_bit [OF assms] by (intro bit_word_eqI) (simp add: bit_simps)
  have "push_bit 5 (take_bit 25 (drop_bit (m + 5) p)) XOR take_bit 5 (drop_bit m p) = drop_bit m p"
  proof (rule bit_word_eqI)
    fix n assume "n < LENGTH(64)"
    show "bit (push_bit 5 (take_bit 25 (drop_bit (m + 5) p)) XOR take_bit 5 (drop_bit m p)) n =
        bit (drop_bit m p) n"
      using small30_bit [OF assms, of "m + n"] \<open>n < LENGTH(64)\<close>
      by (cases "30 \<le> n") (auto simp: bit_simps)
  qed
  with hi show ?thesis by (simp add: polymod_step_alt)
qed

definition digits30 :: "uint64 \<Rightarrow> uint64 list" where
  "digits30 p = map (\<lambda>i. take_bit 5 (drop_bit (5 * (5 - i)) p)) [0..<6]"

lemma feed_digits30: "small30 p \<Longrightarrow> feed (digits30 p) 0 = p"
  using polymod_step_digit [of p 25] polymod_step_digit [of p 20] polymod_step_digit [of p 15]
    polymod_step_digit [of p 10] polymod_step_digit [of p 5] polymod_step_digit [of p 0]
  by (simp add: digits30_def upt_rec)

definition polymod_values :: "string \<Rightarrow> bytes \<Rightarrow> uint64" where
  "polymod_values hrp values =
     feed (map ucast values)
       (feed (map (\<lambda>c. of_nat (ascii c mod 32)) hrp)
         (polymod_step (feed (map (\<lambda>c. of_nat (ascii c div 32)) hrp) 1) 0))"

lemma replicate_6: "replicate 6 x = [x, x, x, x, x, x]"
  by (simp add: numeral_eq_Suc)

lemma bech32Polymod_feed:
  "bech32Polymod hrp values None = feed (replicate 6 0) (polymod_values hrp values)"
  "bech32Polymod hrp values (Some cs) = feed (map ucast cs) (polymod_values hrp values)"
proof -
  have z: "fold (\<lambda>v chk. polymod_step chk 0) [0..<6] x = feed (replicate 6 0) x" for x
    by (simp add: upt_rec replicate_6)
  show "bech32Polymod hrp values None = feed (replicate 6 0) (polymod_values hrp values)"
    by (simp add: bech32Polymod_def polymod_values_def fold_map comp_def z)
  show "bech32Polymod hrp values (Some cs) = feed (map ucast cs) (polymod_values hrp values)"
    by (simp add: bech32Polymod_def polymod_values_def fold_map comp_def)
qed

lemma polymod_checksum_small: "small30 (bech32Polymod hrp values None XOR 1)"
  by (simp add: bech32Polymod_feed replicate_6 drop_bit_xor polymod_step_bound)

lemma polymod_checksum:
  assumes "map ucast cs = digits30 (bech32Polymod hrp values None XOR 1)"
  shows "bech32Polymod hrp values (Some cs) = 1"
proof -
  let ?p = "bech32Polymod hrp values None XOR 1"
  have "length (digits30 ?p) = 6" by (simp add: digits30_def)
  then have "bech32Polymod hrp values (Some cs) =
      feed (replicate 6 0) (polymod_values hrp values) XOR feed (digits30 ?p) 0"
    using feed_digits [of "digits30 ?p" "polymod_values hrp values"] assms
    by (simp add: bech32Polymod_feed)
  also have "\<dots> = bech32Polymod hrp values None XOR ?p"
    by (simp only: feed_digits30 [OF polymod_checksum_small] bech32Polymod_feed(1) [symmetric])
  finally show ?thesis by simp
qed

subsection \<open>Reading back the character set\<close>

lemma length_charset [simp]: "length charset = 32"
  by (simp add: charset_def)

lemma charset_index: "i < 32 \<Longrightarrow> IndexByte charset (charset ! i) = Some i"
proof -
  have "\<forall>i<32. IndexByte charset (charset ! i) = Some i" by code_simp
  then show "i < 32 \<Longrightarrow> ?thesis" by blast
qed

definition plain_char :: "char \<Rightarrow> bool" where
  "plain_char c \<longleftrightarrow> 33 \<le> ascii c \<and> ascii c \<le> 126 \<and> \<not> is_upper c"

lemma charset_plain: "c \<in> set charset \<Longrightarrow> plain_char c \<and> c \<noteq> CHR ''1''"
proof -
  have "\<forall>c\<in>set charset. plain_char c \<and> c \<noteq> CHR ''1''" by code_simp
  then show "c \<in> set charset \<Longrightarrow> ?thesis" by blast
qed

definition base32 :: "bytes \<Rightarrow> bool" where
  "base32 data \<longleftrightarrow> (\<forall>b\<in>set data. unat b < 32)"

abbreviation to_chars :: "bytes \<Rightarrow> string" where
  "to_chars data \<equiv> map (\<lambda>b. charset ! unat b) data"

lemma toBytes_to_chars: "base32 data \<Longrightarrow> toBytes (to_chars data) = Ok data"
  by (induction data) (auto simp: base32_def charset_index)

lemma Normalize_scan_plain:
  "(\<forall>c\<in>set s. plain_char c) \<Longrightarrow> Normalize_scan s l False = Ok False"
  by (induction s arbitrary: l) (auto simp: plain_char_def Let_def)

lemma Normalize_plain: "(\<forall>c\<in>set s. plain_char c) \<Longrightarrow> Normalize s = Ok s"
  by (simp add: Normalize_def Normalize_scan_plain)

lemma ToLower_plain: "(\<forall>c\<in>set s. plain_char c) \<Longrightarrow> ToLower s = s"
  by (induction s) (auto simp: ToLower_def plain_char_def)

lemma LastIndexByte_append_notin:
  "c \<notin> set ys \<Longrightarrow> LastIndexByte (xs @ c # ys) c = Some (length xs)"
proof -
  assume "c \<notin> set ys"
  then have "LastIndexByte ys c = None" by (induction ys) auto
  then show ?thesis by (induction xs) auto
qed

definition checksum_digits :: "string \<Rightarrow> bytes \<Rightarrow> bytes" where
  "checksum_digits hrp data = map ucast (digits30 (bech32Polymod hrp data None XOR 1))"

lemma take_bit_5_less: "unat (take_bit 5 (x :: uint64)) < 32"
  using take_bit_nat_less_exp [of 5 "unat x"] by (simp add: unsigned_take_bit_eq)

lemma and_31: "x AND 31 = take_bit 5 (x :: uint64)"
  by (simp add: take_bit_eq_mask mask_eq_exp_minus_1)

lemma digits30_less: "d \<in> set (digits30 p) \<Longrightarrow> unat d < 32"
  by (auto simp: digits30_def take_bit_5_less)

lemma unat_ucast_digit: "unat (d :: uint64) < 32 \<Longrightarrow> unat (ucast d :: byte) = unat d"
  by (simp add: unsigned_ucast_eq take_bit_nat_eq_self)

lemma ucast_ucast_digit: "unat (d :: uint64) < 32 \<Longrightarrow> ucast (ucast d :: byte) = d"
  by (simp add: word_unat_eq_iff unsigned_ucast_eq unsigned_take_bit_eq take_bit_nat_eq_self)

lemma checksum_digits_ucast:
  "map ucast (checksum_digits hrp data) = digits30 (bech32Polymod hrp data None XOR 1)"
  using digits30_less by (auto simp: checksum_digits_def ucast_ucast_digit map_idI)

lemma base32_checksum_digits: "base32 (checksum_digits hrp data)"
  using digits30_less by (auto simp: checksum_digits_def base32_def unat_ucast_digit)

lemma length_checksum_digits [simp]: "length (checksum_digits hrp data) = 6"
  by (simp add: checksum_digits_def digits30_def)

lemma writeBech32Checksum_digits: "writeBech32Checksum hrp data = to_chars (checksum_digits hrp data)"
proof -
  let ?p = "bech32Polymod hrp data None XOR 1"
  have "charset ! unat (drop_bit k ?p AND 31) = charset ! unat (ucast (take_bit 5 (drop_bit k ?p)) :: byte)" for k
    by (simp only: and_31 unat_ucast_digit [OF take_bit_5_less])
  then show ?thesis
    by (simp only: writeBech32Checksum_def checksum_digits_def digits30_def Let_def map_map comp_def)
qed

lemma VerifyChecksum_written: "VerifyChecksum hrp data (checksum_digits hrp data)"
  by (simp add: VerifyChecksum_def polymod_checksum checksum_digits_ucast)

subsection \<open>Decoding what was encoded\<close>

lemma base32_append: "base32 (xs @ ys) \<longleftrightarrow> base32 xs \<and> base32 ys"
  by (auto simp: base32_def)

lemma to_chars_charset: "base32 data \<Longrightarrow> set (to_chars data) \<subseteq> set charset"
  by (auto simp: base32_def intro: nth_mem)

lemma Encode_Ok:
  assumes "base32 data" and "\<forall>c\<in>set hrp. plain_char c"
  shows "Encode hrp data = Ok (hrp @ CHR ''1'' # to_chars (data @ checksum_digits hrp data))"
  using assms by (auto simp: Encode_def base32_def ToLower_plain writeBech32Checksum_digits)

lemma DecodeUnsafe_Encode:
  assumes "base32 data" and "hrp \<noteq> []"
  shows "DecodeUnsafe (hrp @ CHR ''1'' # to_chars (data @ checksum_digits hrp data)) =
    Ok (hrp, data, checksum_digits hrp data)"
proof -
  let ?ds = "data @ checksum_digits hrp data"
  have b: "base32 ?ds" using assms(1) base32_checksum_digits by (simp add: base32_append)
  have "CHR ''1'' \<notin> set (to_chars ?ds)"
    using to_chars_charset [OF b] charset_plain by blast
  then have "LastIndexByte (hrp @ CHR ''1'' # to_chars ?ds) (CHR ''1'') = Some (length hrp)"
    by (rule LastIndexByte_append_notin)
  moreover have "length hrp \<ge> 1" using assms(2) by (cases hrp) auto
  ultimately show ?thesis
    using toBytes_to_chars [OF b] assms(2) by (simp add: DecodeUnsafe_def)
qed

lemma plain_1 [simp]: "plain_char (CHR ''1'')"
  by code_simp

lemma DecodeNoLimit_Encode:
  assumes "base32 data" and "hrp \<noteq> []" and "\<forall>c\<in>set hrp. plain_char c"
  shows "DecodeNoLimit (hrp @ CHR ''1'' # to_chars (data @ checksum_digits hrp data)) = Ok (hrp, data)"
proof -
  let ?ds = "data @ checksum_digits hrp data"
  let ?s = "hrp @ CHR ''1'' # to_chars ?ds"
  have b: "base32 ?ds" using assms(1) base32_checksum_digits by (simp add: base32_append)
  have "\<forall>c\<in>set ?s. plain_char c"
    using assms(3) to_chars_charset [OF b] charset_plain by auto
  then have "Normalize ?s = Ok ?s" by (rule Normalize_plain)
  moreover have "8 \<le> length ?s" using assms(2) by (cases hrp) auto
  ultimately show ?thesis
    using DecodeUnsafe_Encode [OF assms(1,2)] VerifyChecksum_written [of hrp data] assms(2)
    by (simp add: DecodeNoLimit_def)
qed

lemma btc_DecodeNoLimit_eq: "btc_DecodeNoLimit s = DecodeNoLimit s"
proof (cases "Normalize_scan s False False")
  case (Ok u)
  then show ?thesis
    by (cases u; cases "LastIndexByte s (CHR ''1'')"; cases "LastIndexByte (ToLower s) (CHR ''1'')")
       (auto simp: btc_DecodeNoLimit_def DecodeNoLimit_def Normalize_def DecodeUnsafe_def Let_def
          VerifyChecksum_def btc_bech32VerifyChecksum_def res_bind_assoc)
qed (simp_all add: btc_DecodeNoLimit_def DecodeNoLimit_def Normalize_def)

subsection \<open>ConvertBits regroups one bit string\<close>

definition bits_val :: "bool list \<Rightarrow> byte" where
  "bits_val bs = horner_sum of_bool 2 (rev bs)"

definition top_bits :: "nat \<Rightarrow> byte \<Rightarrow> bool list" where
  "top_bits t b = map (\<lambda>i. bit b (7 - i)) [0..<t]"

lemma bit_bits_val: "bit (bits_val bs) n \<longleftrightarrow> n < 8 \<and> n < length bs \<and> bs ! (length bs - Suc n)"
  by (auto simp: bits_val_def bit_horner_sum_bit_iff rev_nth)

lemma length_top_bits [simp]: "length (top_bits t b) = t"
  by (simp add: top_bits_def)

lemma nth_top_bits: "i < t \<Longrightarrow> top_bits t b ! i = bit b (7 - i)"
  by (simp add: top_bits_def)

lemma bits_val_Nil [simp]: "bits_val [] = 0"
  by (simp add: bits_val_def)

lemma bits_val_append:
  assumes "t \<le> 8" "length acc + t \<le> 8"
  shows "bits_val (acc @ top_bits t b) = push_bit t (bits_val acc) OR drop_bit (8 - t) b"
proof (rule bit_word_eqI)
  fix n assume n: "n < LENGTH(8)"
  show "bit (bits_val (acc @ top_bits t b)) n = bit (push_bit t (bits_val acc) OR drop_bit (8 - t) b) n"
  proof (cases "n < t")
    case True
    then have "7 - (t - Suc n) = 8 - t + n" using assms by simp
    with True n show ?thesis
      by (auto simp: bit_bits_val bit_simps nth_append nth_top_bits)
  next
    case False
    then have "length acc + t - Suc n = length acc - Suc (n - t)" by simp
    with False n assms show ?thesis
      by (auto simp: bit_bits_val bit_simps nth_append)
  qed
qed

lemma top_bits_split:
  assumes "t \<le> r" "r \<le> 8" shows "top_bits r b = top_bits t b @ top_bits (r - t) (push_bit t b)"
proof (rule nth_equalityI)
  fix i assume "i < length (top_bits r b)"
  then show "top_bits r b ! i = (top_bits t b @ top_bits (r - t) (push_bit t b)) ! i"
    using assms by (auto simp: nth_top_bits nth_append bit_simps)
qed (use assms in simp)

text \<open>The specification: cut a bit string into groups of \<open>n\<close>, the first of which
  starts with \<open>acc\<close>; the result is the full groups and the rest.\<close>

fun regroup :: "nat \<Rightarrow> bool list \<Rightarrow> bool list \<Rightarrow> bool list list \<times> bool list" where
  "regroup n acc [] = ([], acc)"
| "regroup n acc (x # xs) =
     (if length acc + 1 = n
      then (let (gs, r) = regroup n [] xs in ((acc @ [x]) # gs, r))
      else regroup n (acc @ [x]) xs)"

lemma regroup_append:
  "regroup n acc (xs @ ys) =
     (let (gs, r) = regroup n acc xs; (hs, r') = regroup n r ys in (gs @ hs, r'))"
  by (induction n acc xs rule: regroup.induct) (auto split: prod.splits)

lemma regroup_short: "length acc + length xs < n \<Longrightarrow> regroup n acc xs = ([], acc @ xs)"
  by (induction n acc xs rule: regroup.induct) auto

lemma regroup_full: "length acc + length xs = n \<Longrightarrow> xs \<noteq> [] \<Longrightarrow> regroup n acc xs = ([acc @ xs], [])"
proof (induction xs arbitrary: acc)
  case (Cons x xs)
  then show ?case by (cases "xs = []") auto
qed simp

lemma regroup_groups:
  "\<forall>g\<in>set gs. length g = n \<Longrightarrow> 0 < n \<Longrightarrow> length r < n \<Longrightarrow> regroup n [] (concat gs @ r) = (gs, r)"
proof (induction gs)
  case (Cons g gs)
  then have "g \<noteq> []" by auto
  with Cons show ?case by (simp add: regroup_append regroup_full)
qed (simp add: regroup_short)

lemma regroup_inv:
  "regroup n acc xs = (gs, r) \<Longrightarrow> length acc < n \<Longrightarrow>
     acc @ xs = concat gs @ r \<and> (\<forall>g\<in>set gs. length g = n) \<and> length r < n"
proof (induction n acc xs arbitrary: gs r rule: regroup.induct)
  case (2 n acc x xs)
  show ?case
  proof (cases "length acc + 1 = n")
    case True
    with "2.prems" obtain hs where hs: "regroup n [] xs = (hs, r)" "gs = (acc @ [x]) # hs"
      by (auto split: prod.splits)
    with "2.IH"(1) [OF True hs(1)] True show ?thesis by auto
  next
    case False
    with "2.prems" have "regroup n (acc @ [x]) xs = (gs, r)" by simp
    with "2.IH"(2) [OF False] "2.prems" False show ?thesis by simp
  qed
qed simp

text \<open>The loop of the source refines the specification.\<close>

definition emit :: "bytes \<Rightarrow> bool list list \<times> bool list \<Rightarrow> bytes \<times> byte \<times> nat" where
  "emit out gr = (out @ map bits_val (fst gr), bits_val (snd gr), length (snd gr))"

lemma extract_bits_regroup:
  assumes "length acc < toBits" "toBits \<le> 8" "rem \<le> 8"
  shows "extract_bits toBits b rem (out, bits_val acc, length acc) =
    emit out (regroup toBits acc (top_bits rem b))"
  using assms
proof (induction rem arbitrary: b out acc rule: less_induct)
  case (less rem)
  define t where "t = (if toBits - length acc < rem then toBits - length acc else rem)"
  show ?case
  proof (cases "rem = 0")
    case True
    then show ?thesis by (simp add: extract_bits.simps top_bits_def emit_def)
  next
    case False
    have t: "0 < t" "t \<le> rem" "t \<le> 8" "length acc + t \<le> toBits"
      using less.prems False by (auto simp: t_def)
    have split: "top_bits rem b = top_bits t b @ top_bits (rem - t) (push_bit t b)"
      using t less.prems by (intro top_bits_split) auto
    have val: "push_bit t (bits_val acc) OR drop_bit (8 - t) b = bits_val (acc @ top_bits t b)"
      using t less.prems by (simp add: bits_val_append)
    have ne: "top_bits t b \<noteq> []" using t by (metis length_top_bits less_not_refl list.size(3))
    have step: "extract_bits toBits b rem (out, bits_val acc, length acc) =
        (if length acc + t = toBits
         then extract_bits toBits (push_bit t b) (rem - t) (out @ [bits_val (acc @ top_bits t b)], 0, 0)
         else extract_bits toBits (push_bit t b) (rem - t) (out, bits_val (acc @ top_bits t b), length acc + t))"
      using False less.prems by (simp add: extract_bits.simps [of toBits b rem] Let_def t_def [symmetric] val)
    show ?thesis
    proof (cases "length acc + t = toBits")
      case True
      have "extract_bits toBits (push_bit t b) (rem - t) (out @ [bits_val (acc @ top_bits t b)], 0, 0) =
         emit (out @ [bits_val (acc @ top_bits t b)]) (regroup toBits [] (top_bits (rem - t) (push_bit t b)))"
        using less.IH [of "rem - t" "[]"] t less.prems by simp
      with True ne step show ?thesis
        by (simp add: split regroup_append regroup_full emit_def split: prod.splits)
    next
      case False
      have "extract_bits toBits (push_bit t b) (rem - t) (out, bits_val (acc @ top_bits t b), length acc + t) =
         emit out (regroup toBits (acc @ top_bits t b) (top_bits (rem - t) (push_bit t b)))"
        using less.IH [of "rem - t" "acc @ top_bits t b"] t less.prems False by simp
      with False t step show ?thesis
        by (simp add: split regroup_append regroup_short emit_def split: prod.splits)
    qed
  qed
qed

definition in_bits :: "nat \<Rightarrow> bytes \<Rightarrow> bool list" where
  "in_bits fromBits data = concat (map (\<lambda>b. top_bits fromBits (push_bit (8 - fromBits) b)) data)"

lemma fold_extract_bits:
  assumes "toBits \<le> 8" "fromBits \<le> 8" "length acc < toBits"
  shows "fold (\<lambda>b st. extract_bits toBits (push_bit (8 - fromBits) b) fromBits st) data
      (out, bits_val acc, length acc) = emit out (regroup toBits acc (in_bits fromBits data))"
  using assms(3)
proof (induction data arbitrary: out acc)
  case Nil
  then show ?case by (simp add: in_bits_def emit_def)
next
  case (Cons b data)
  obtain gs r where gr: "regroup toBits acc (top_bits fromBits (push_bit (8 - fromBits) b)) = (gs, r)"
    by fastforce
  with regroup_inv [OF gr Cons.prems] have r: "length r < toBits" by simp
  have "extract_bits toBits (push_bit (8 - fromBits) b) fromBits (out, bits_val acc, length acc) =
      (out @ map bits_val gs, bits_val r, length r)"
    using Cons.prems assms gr by (simp add: extract_bits_regroup emit_def)
  then show ?case
    using Cons.IH [OF r, of "out @ map bits_val gs"] gr
    by (simp add: in_bits_def regroup_append emit_def split: prod.splits)
qed

lemma ConvertBits_regroup:
  assumes "1 \<le> fromBits" "fromBits \<le> 8" "1 \<le> toBits" "toBits \<le> 8"
    and "regroup toBits [] (in_bits fromBits data) = (gs, r)"
  shows "ConvertBits data fromBits toBits pad =
    (if pad \<and> r \<noteq> [] then Ok (map bits_val gs @ [push_bit (toBits - length r) (bits_val r)])
     else if r \<noteq> [] \<and> (length r > 4 \<or> bits_val r \<noteq> 0) then Err (ErrMsg ''invalid incomplete group'')
     else Ok (map bits_val gs))"
proof -
  have "fold (\<lambda>b st. extract_bits toBits (push_bit (8 - fromBits) b) fromBits st) data ([], 0, 0) =
      (map bits_val gs, bits_val r, length r)"
    using fold_extract_bits [of toBits fromBits "[]" data "[]"] assms by (simp add: emit_def)
  then show ?thesis using assms(1-4) by (auto simp: ConvertBits_def)
qed

lemma push_bits_val:
  "length r + k \<le> 8 \<Longrightarrow> push_bit k (bits_val r) = bits_val (r @ replicate k False)"
  by (rule bit_word_eqI) (auto simp: bit_bits_val bit_simps nth_append)

lemma top_bits_bits_val: "length g = n \<Longrightarrow> n \<le> 8 \<Longrightarrow> top_bits n (push_bit (8 - n) (bits_val g)) = g"
  by (rule nth_equalityI) (auto simp: nth_top_bits bit_bits_val bit_simps)

lemma bits_val_top_bits [simp]: "bits_val (top_bits 8 b) = b"
  by (rule bit_word_eqI) (auto simp: bit_bits_val nth_top_bits)

lemma bits_val_zeros [simp]: "bits_val (replicate k False) = 0"
  by (rule bit_word_eqI) (auto simp: bit_bits_val)

lemma bits_val_less: "length g = 5 \<Longrightarrow> unat (bits_val g) < 32"
proof -
  assume "length g = 5"
  then have "take_bit 5 (bits_val g) = bits_val g"
    by (intro bit_word_eqI) (auto simp: bit_bits_val bit_simps)
  then have "unat (bits_val g) = take_bit 5 (unat (bits_val g))"
    by (metis unsigned_take_bit_eq)
  then show ?thesis using take_bit_nat_less_exp [of 5 "unat (bits_val g)"] by simp
qed

text \<open>What the encoder's regrouping yields: 5-bit groups whose concatenation is the
  input's bits and fewer than five padding zeros.\<close>

lemma ConvertBits_8_5:
  obtains gs k where "ConvertBits data 8 5 True = Ok (map bits_val gs)" "\<forall>g\<in>set gs. length g = 5"
    "concat gs = concat (map (top_bits 8) data) @ replicate k False" "k < 5"
proof -
  have bits: "in_bits 8 data = concat (map (top_bits 8) data)" by (simp add: in_bits_def)
  obtain gs r where gr: "regroup 5 [] (in_bits 8 data) = (gs, r)" by fastforce
  have inv: "in_bits 8 data = concat gs @ r" "\<forall>g\<in>set gs. length g = 5" "length r < 5"
    using regroup_inv [OF gr] by auto
  show ?thesis
  proof (cases "r = []")
    case True
    then show ?thesis using that [of gs 0] ConvertBits_regroup [OF _ _ _ _ gr, of True] inv bits by simp
  next
    case False
    then have conv: "ConvertBits data 8 5 True = Ok (map bits_val (gs @ [r @ replicate (5 - length r) False]))"
      using ConvertBits_regroup [OF _ _ _ _ gr, of True] inv by (simp add: push_bits_val)
    have "concat (gs @ [r @ replicate (5 - length r) False]) =
        concat (map (top_bits 8) data) @ replicate (5 - length r) False"
      using inv(1) bits by simp
    moreover have "5 - length r < 5" using False by (cases r) auto
    ultimately show ?thesis using inv by (intro that [OF conv]) auto
  qed
qed

lemma in_bits_5: "\<forall>g\<in>set gs. length g = 5 \<Longrightarrow> in_bits 5 (map bits_val gs) = concat gs"
  by (induction gs) (auto simp: in_bits_def top_bits_bits_val [of _ 5, simplified])

lemma ConvertBits_5_8:
  assumes "\<forall>g\<in>set gs. length g = 5" "concat gs = concat (map (top_bits 8) data) @ replicate k False" "k < 5"
  shows "ConvertBits (map bits_val gs) 5 8 False = Ok data"
proof -
  have "regroup 8 [] (in_bits 5 (map bits_val gs)) = (map (top_bits 8) data, replicate k False)"
    using assms by (simp add: in_bits_5 regroup_groups)
  then show ?thesis
    using assms(3) by (subst ConvertBits_regroup) (auto simp: comp_def)
qed

lemma ConvertBits_length:
  assumes "ConvertBits data 8 5 True = Ok out" shows "8 * length data \<le> 5 * length out \<and> 5 * length out < 8 * length data + 5"
proof -
  obtain gs k where g: "ConvertBits data 8 5 True = Ok (map bits_val gs)" "\<forall>g\<in>set gs. length g = 5"
    "concat gs = concat (map (top_bits 8) data) @ replicate k False" "k < 5"
    by (rule ConvertBits_8_5)
  have "length (concat gs) = 5 * length gs" using g(2) by (induction gs) auto
  moreover have "length (concat (map (top_bits 8) data)) = 8 * length data" by (induction data) auto
  ultimately show ?thesis using g assms by simp
qed

lemma ConvertBits_base32: "ConvertBits data 8 5 True = Ok out \<Longrightarrow> base32 out"
  using ConvertBits_8_5 [of data "base32 out"] by (auto simp: base32_def bits_val_less)

lemma ConvertBits_roundtrip:
  "\<exists>out. ConvertBits data 8 5 True = Ok out \<and> ConvertBits out 5 8 False = Ok data"
  by (rule ConvertBits_8_5 [of data]) (auto intro: ConvertBits_5_8)

subsection \<open>Encoding followed by decoding\<close>

definition conv :: "bytes \<Rightarrow> bytes" where
  "conv data = (case ConvertBits data 8 5 True of Ok out \<Rightarrow> out | _ \<Rightarrow> [])"

lemma conv_Ok: "ConvertBits data 8 5 True = Ok (conv data)"
  using ConvertBits_roundtrip [of data] by (auto simp: conv_def)

lemma conv_back: "ConvertBits (conv data) 5 8 False = Ok data"
  using ConvertBits_roundtrip [of data] by (auto simp: conv_def)

lemma length_conv: "length (conv data) = (8 * length data + 4) div 5"
  using ConvertBits_length [OF conv_Ok [of data]] by linarith

lemma ConvertAndEncode_Ok:
  assumes "\<forall>c\<in>set hrp. plain_char c"
  shows "ConvertAndEncode hrp data =
    Ok (hrp @ CHR ''1'' # to_chars (conv data @ checksum_digits hrp (conv data)))"
  using Encode_Ok [OF ConvertBits_base32 [OF conv_Ok] assms] by (simp add: ConvertAndEncode_def conv_Ok)

lemma ConvertAndEncode_decodes:
  assumes "\<forall>c\<in>set hrp. plain_char c" "hrp \<noteq> []" "ConvertAndEncode hrp data = Ok s"
  shows "DecodeNoLimit s = Ok (hrp, conv data)"
    and "length s = length hrp + 7 + (8 * length data + 4) div 5"
  using DecodeNoLimit_Encode [OF ConvertBits_base32 [OF conv_Ok] assms(2,1)] assms(3)
  by (auto simp: ConvertAndEncode_Ok [OF assms(1)] length_conv)

subsection \<open>Single errors\<close>

lemma xor_eq_0D: assumes "(x :: uint64) XOR y = 0" shows "x = y"
proof -
  have "(x XOR y) XOR y = y" by (simp add: assms)
  then show ?thesis by (simp add: xor.assoc)
qed

lemma xor_neq_self: assumes "y \<noteq> 0" shows "(x :: uint64) XOR y \<noteq> x"
proof
  assume "x XOR y = x"
  then have "x XOR (x XOR y) = x XOR x" by simp
  with assms show False by (simp flip: xor.assoc)
qed

lemma apply_gen_low:
  assumes "drop_bit 5 t = 0" "take_bit 5 (apply_gen t 0) = 0" shows "t = 0"
proof -
  have all: "\<forall>n\<in>set [0..<32]. take_bit 5 (apply_gen (of_nat n) 0) = 0 \<longrightarrow> n = 0" by code_simp
  have "take_bit 5 t = t" using assms(1) by (simp only: take_bit_eq_self_iff_drop_bit_eq_0)
  then have "unat t < 32" using take_bit_5_less [of t] by simp
  with all assms(2) have "unat t = 0" by (auto dest!: bspec [where x = "unat t"])
  then show ?thesis by (simp add: unat_eq_0)
qed

lemma push_take_0:
  assumes "push_bit 5 (take_bit 25 x) = (0 :: uint64)" shows "take_bit 25 x = 0"
proof (rule bit_word_eqI)
  fix n
  have "bit (push_bit 5 (take_bit 25 x)) (n + 5) = bit (0 :: uint64) (n + 5)" by (simp only: assms)
  then show "bit (take_bit 25 x) n = bit 0 n" by (auto simp: bit_simps)
qed

lemma polymod_step_nonzero:
  assumes "small30 x" "polymod_step x 0 = 0" shows "x = 0"
proof -
  have "apply_gen (drop_bit 25 x) 0 XOR push_bit 5 (take_bit 25 x) = 0"
    using apply_gen_linear [of "drop_bit 25 x" 0 0 "push_bit 5 (take_bit 25 x)"] assms(2)
    by (simp add: polymod_step_alt)
  then have eq: "apply_gen (drop_bit 25 x) 0 = push_bit 5 (take_bit 25 x)" by (rule xor_eq_0D)
  have "take_bit 5 (push_bit 5 (take_bit 25 x)) = 0"
    by (rule bit_word_eqI) (simp add: bit_simps)
  then have "take_bit 5 (apply_gen (drop_bit 25 x) 0) = 0" by (simp only: eq)
  moreover have "drop_bit 5 (drop_bit 25 x) = 0" using assms(1) by simp
  ultimately have z: "drop_bit 25 x = 0" using apply_gen_low by blast
  with eq have "push_bit 5 (take_bit 25 x) = 0" by simp
  then have "take_bit 25 x = 0" by (rule push_take_0)
  with z show ?thesis using bits_ident [of 25 x] by simp
qed

lemma feed_zeros_nonzero: "small30 e \<Longrightarrow> e \<noteq> 0 \<Longrightarrow> feed (replicate n 0) e \<noteq> 0"
proof (induction n arbitrary: e)
  case (Suc n)
  then have "polymod_step e 0 \<noteq> 0" using polymod_step_nonzero by blast
  moreover have "small30 (polymod_step e 0)" by (simp add: polymod_step_bound)
  ultimately show ?case using Suc.IH by (simp del: fold_replicate)
qed simp

lemma feed_zeros_0: "feed (replicate n 0) 0 = 0"
  by (induction n) (simp_all del: fold_replicate)

lemma map2_xor_update:
  "i < length ds \<Longrightarrow> map2 (XOR) ds ((replicate (length ds) 0)[i := ds ! i XOR v]) = (ds[i := v] :: uint64 list)"
  by (rule nth_equalityI) (auto simp: nth_list_update)

lemma feed_single_error:
  assumes "i < length ds" "small30 (ds ! i)" "small30 v" "v \<noteq> ds ! i"
  shows "feed (ds[i := v]) x \<noteq> feed ds x"
proof -
  let ?e = "ds ! i XOR v"
  have "(replicate (length ds) 0)[i := ?e] = replicate i 0 @ ?e # replicate (length ds - Suc i) 0"
    using assms(1) by (simp add: upd_conv_take_nth_drop min_def)
  then have err: "feed ((replicate (length ds) 0)[i := ?e]) 0 = feed (replicate (length ds - Suc i) 0) ?e"
    by (simp add: feed_zeros_0 del: fold_replicate)
  have "?e \<noteq> 0" using assms(4) xor_eq_0D [of "ds ! i" v] by auto
  moreover have "small30 ?e" using assms by (simp add: drop_bit_xor)
  ultimately have nz: "feed (replicate (length ds - Suc i) 0) ?e \<noteq> 0" by (rule feed_zeros_nonzero [rotated])
  have "feed (ds[i := v]) x = feed ds x XOR feed (replicate (length ds - Suc i) 0) ?e"
    using feed_linear [of ds "(replicate (length ds) 0)[i := ?e]" x 0] err assms(1)
    by (simp add: map2_xor_update del: fold_replicate)
  with nz show ?thesis using xor_neq_self by simp
qed

lemma ucast_byte_inject: "ucast (v :: byte) = (ucast w :: uint64) \<longleftrightarrow> v = w"
proof -
  have "unat (ucast b :: uint64) = unat b" for b :: byte
    by (simp add: unsigned_ucast_eq take_bit_nat_eq_self order_less_trans [OF unat_byte_less])
  then show ?thesis by (metis word_unat_eq_iff)
qed


lemma convert_roundtrip:
  assumes "hrp \<noteq> []" "\<forall>c\<in>set hrp. plain_char c"
    and "length hrp + 7 + (8 * length data + 4) div 5 \<le> 1023"
  shows "\<exists>s. ConvertAndEncode hrp data = Ok s \<and> DecodeAndConvert s = Ok (hrp, data)"
proof -
  obtain s where s: "ConvertAndEncode hrp data = Ok s"
    using ConvertAndEncode_Ok [OF assms(2)] by blast
  then have "DecodeAndConvert s = Ok (hrp, data)"
    using ConvertAndEncode_decodes [OF assms(2,1) s] assms(3)
    by (simp add: DecodeAndConvert_def Decode_def conv_back)
  with s show ?thesis by blast
qed

subsection \<open>Properties\<close>

text \<open>Claim C12 (bech32_roundtrip): encoding any bytes under a lower-case human-readable part and
  decoding the result gives the part and the bytes back, as long as the encoded string
  stays within the decoder's limit of 1023 characters.\<close>

theorem bech32_roundtrip:
  assumes "hrp \<noteq> []" "\<forall>c\<in>set hrp. plain_char c"
    and "length hrp + 7 + (8 * length data + 4) div 5 \<le> 1023"
  shows "\<exists>s. ConvertAndEncode hrp data = Ok s \<and> DecodeAndConvert s = Ok (hrp, data)"
  using assms by (rule convert_roundtrip)

theorem bech32_roundtrip_witness:
  "\<exists>s. ConvertAndEncode ''addr'' [97, 255, 0] = Ok s \<and> DecodeAndConvert s = Ok (''addr'', [97, 255, 0])"
  by (rule bech32_roundtrip) (simp_all add: plain_char_def ascii_def is_upper_def)

text \<open>Claim C31 (bech32_single_error): if the checksum of a string of 5-bit values is accepted, it is
  rejected after any one value (of the data or of the checksum itself) is replaced.\<close>

theorem bech32_single_error:
  assumes "VerifyChecksum hrp (take (length ds - 6) ds) (drop (length ds - 6) ds)"
    and "i < length ds" "v \<noteq> ds ! i"
  shows "\<not> VerifyChecksum hrp (take (length ds - 6) (ds[i := v])) (drop (length ds - 6) (ds[i := v]))"
proof -
  let ?pre = "polymod_values hrp []"
  have whole: "VerifyChecksum hrp (take n xs) (drop n xs) \<longleftrightarrow> feed (map ucast xs) ?pre = 1" for n and xs :: bytes
  proof -
    have "feed (map ucast (drop n xs)) (feed (map ucast (take n xs)) y) = feed (map ucast xs) y" for y
      by (metis append_take_drop_id fold_append comp_apply map_append)
    then show ?thesis
      by (simp add: VerifyChecksum_def bech32Polymod_feed polymod_values_def)
  qed
  have s: "small30 (ucast (b :: byte))" for b
    by (rule bit_word_eqI) (simp add: bit_simps)
  have "feed (map ucast (ds[i := v])) ?pre \<noteq> feed (map ucast ds) ?pre"
    using feed_single_error [of i "map ucast ds" "ucast v" ?pre] assms(2,3) s
    by (simp add: map_update ucast_byte_inject)
  with assms(1) show ?thesis by (simp add: whole)
qed

theorem bech32_single_error_witness:
  "VerifyChecksum ''a'' (take 0 (checksum_digits ''a'' [])) (drop 0 (checksum_digits ''a'' [])) \<and>
   \<not> VerifyChecksum ''a'' (take 0 ((checksum_digits ''a'' [])[2 := 77])) (drop 0 ((checksum_digits ''a'' [])[2 := 77]))"
proof -
  have len: "length (checksum_digits ''a'' []) = 6" by simp
  have ok: "VerifyChecksum ''a'' (take (length (checksum_digits ''a'' []) - 6) (checksum_digits ''a'' []))
      (drop (length (checksum_digits ''a'' []) - 6) (checksum_digits ''a'' []))"
    using VerifyChecksum_written [of "''a''" "[]"] by simp
  have "checksum_digits ''a'' [] ! 2 \<in> set (checksum_digits ''a'' [])" by simp
  then have "unat (checksum_digits ''a'' [] ! 2) < 32"
    using base32_checksum_digits [of "''a''" "[]"] unfolding base32_def by blast
  then have "77 \<noteq> checksum_digits ''a'' [] ! 2" by auto
  with ok bech32_single_error [OF ok, of 2 77] show ?thesis by simp
qed

end
