(* ===== verification/Address.thy ===== *)
theory Address
  imports Network Bech32 "HOL-Library.Multiset"
begin

text \<open>
  Addresses (src/address.go): the header byte with its type and network nibbles, the table
  of address types, the bech32 text form and the construction of an address from a public key.

  \<^item> \<open>AddressHeaderType\<close> and \<open>AddressHeaderNetwork\<close> are four-byte arrays of bits, most
    significant first, as in the source; \<open>AddressHeader_toBytes\<close> and
    \<open>AddressHeader_fromBytes\<close> spread a byte over eight such bits and back;
  \<^item> \<open>AddressTypeMap\<close> is a Go map, whose iteration order is random: the lookups over it
    (\<open>Type\<close>, \<open>Format\<close>) are defined on a list of its entries and shown to give the same result in every order;
  \<^item> \<open>blake2b\<close> is a hash function of golang.org/x/crypto, an argument of
    \<open>EncodeAddress\<close>; the only fact used of it is that \<open>New(28, nil)\<close> gives 28 bytes.
\<close>

type_synonym Address = bytes
type_synonym AddressHeader = byte
type_synonym AddressHeaderType = bytes
type_synonym AddressHeaderNetwork = bytes

datatype AddressType =
    AddressTypePaymentAndStake
  | AddressTypeScriptAndStake
  | AddressTypePaymentAndScript
  | AddressTypeScriptAndScript
  | AddressTypePaymentAndPointer
  | AddressTypeScriptAndPointer
  | AddressTypePayment
  | AddressTypeScript
  | AddressTypeStakeReward
  | AddressTypeScriptReward
  | AddressTypeOther int

fun AddressType_String :: "AddressType \<Rightarrow> string" where
  "AddressType_String AddressTypePaymentAndStake = ''payment and stake''"
| "AddressType_String AddressTypeScriptAndStake = ''script and stake''"
| "AddressType_String AddressTypePaymentAndScript = ''payment and script''"
| "AddressType_String AddressTypeScriptAndScript = ''script and script''"
| "AddressType_String AddressTypePaymentAndPointer = ''payment and pointer''"
| "AddressType_String AddressTypeScriptAndPointer = ''script and pointer''"
| "AddressType_String AddressTypePayment = ''payment''"
| "AddressType_String AddressTypeScript = ''script''"
| "AddressType_String AddressTypeStakeReward = ''stake reward''"
| "AddressType_String AddressTypeScriptReward = ''script reward''"
| "AddressType_String (AddressTypeOther n) = ''invalid''"

definition AddressHeaderTypeStakePaymentKeyHash :: AddressHeaderType where
  "AddressHeaderTypeStakePaymentKeyHash = [0, 0, 0, 0]"
definition AddressHeaderTypeStakeScriptHash :: AddressHeaderType where
  "AddressHeaderTypeStakeScriptHash = [0, 0, 0, 1]"
definition AddressHeaderTypeScriptPaymentKeyHash :: AddressHeaderType where
  "AddressHeaderTypeScriptPaymentKeyHash = [0, 0, 1, 0]"
definition AddressHeaderTypeScriptScriptHash :: AddressHeaderType where
  "AddressHeaderTypeScriptScriptHash = [0, 0, 1, 1]"
definition AddressHeaderTypePointerPaymentKeyHash :: AddressHeaderType where
  "AddressHeaderTypePointerPaymentKeyHash = [0, 1, 0, 0]"
definition AddressHeaderTypePointerScriptHash :: AddressHeaderType where
  "AddressHeaderTypePointerScriptHash = [0, 1, 0, 1]"
definition AddressHeaderTypePaymentKeyHash :: AddressHeaderType where
  "AddressHeaderTypePaymentKeyHash = [0, 1, 1, 0]"
definition AddressHeaderTypeScriptHash :: AddressHeaderType where
  "AddressHeaderTypeScriptHash = [0, 1, 1, 1]"
definition AddressHeaderTypeStakeRewardHash :: AddressHeaderType where
  "AddressHeaderTypeStakeRewardHash = [1, 1, 1, 0]"
definition AddressHeaderTypeScriptRewardHash :: AddressHeaderType where
  "AddressHeaderTypeScriptRewardHash = [1, 1, 1, 1]"

definition AddressHeaderNetworkTestnet :: AddressHeaderNetwork where
  "AddressHeaderNetworkTestnet = [0, 0, 0, 0]"
definition AddressHeaderNetworkMainnet :: AddressHeaderNetwork where
  "AddressHeaderNetworkMainnet = [0, 0, 0, 1]"

lemmas header_types =
  AddressHeaderTypeStakePaymentKeyHash_def AddressHeaderTypeStakeScriptHash_def
  AddressHeaderTypeScriptPaymentKeyHash_def AddressHeaderTypeScriptScriptHash_def
  AddressHeaderTypePointerPaymentKeyHash_def AddressHeaderTypePointerScriptHash_def
  AddressHeaderTypePaymentKeyHash_def AddressHeaderTypeScriptHash_def
  AddressHeaderTypeStakeRewardHash_def AddressHeaderTypeScriptRewardHash_def

lemmas header_networks = AddressHeaderNetworkTestnet_def AddressHeaderNetworkMainnet_def

definition AddressHeaderNetwork_String :: "AddressHeaderNetwork \<Rightarrow> string" where
  "AddressHeaderNetwork_String a =
     (if a = AddressHeaderNetworkTestnet then ''testnet''
      else if a = AddressHeaderNetworkMainnet then ''mainnet''
      else ''unknown'')"

record AddressFormat =
  fmt_Type :: AddressType
  fmt_HeaderType :: AddressHeaderType

text \<open>The entries of the map, in one of its orders.\<close>

definition AddressTypeMap :: "AddressFormat list" where
  "AddressTypeMap =
    [\<lparr>fmt_Type = AddressTypePaymentAndStake, fmt_HeaderType = AddressHeaderTypeStakePaymentKeyHash\<rparr>,
     \<lparr>fmt_Type = AddressTypeScriptAndStake, fmt_HeaderType = AddressHeaderTypeStakeScriptHash\<rparr>,
     \<lparr>fmt_Type = AddressTypePaymentAndScript, fmt_HeaderType = AddressHeaderTypeScriptPaymentKeyHash\<rparr>,
     \<lparr>fmt_Type = AddressTypeScriptAndScript, fmt_HeaderType = AddressHeaderTypeScriptScriptHash\<rparr>,
     \<lparr>fmt_Type = AddressTypePaymentAndPointer, fmt_HeaderType = AddressHeaderTypePointerPaymentKeyHash\<rparr>,
     \<lparr>fmt_Type = AddressTypeScriptAndPointer, fmt_HeaderType = AddressHeaderTypePointerScriptHash\<rparr>,
     \<lparr>fmt_Type = AddressTypePayment, fmt_HeaderType = AddressHeaderTypePaymentKeyHash\<rparr>,
     \<lparr>fmt_Type = AddressTypeScript, fmt_HeaderType = AddressHeaderTypeScriptHash\<rparr>,
     \<lparr>fmt_Type = AddressTypeStakeReward, fmt_HeaderType = AddressHeaderTypeStakeRewardHash\<rparr>,
     \<lparr>fmt_Type = AddressTypeScriptReward, fmt_HeaderType = AddressHeaderTypeScriptRewardHash\<rparr>]"

text \<open>\<open>for _, t := range AddressTypeMap\<close> in the order \<open>ms\<close>: the first entry that matches.\<close>

definition AddressType_Format_in :: "AddressFormat list \<Rightarrow> AddressType \<Rightarrow> AddressFormat res" where
  "AddressType_Format_in ms a =
     (case find (\<lambda>t. fmt_Type t = a) ms of
        Some t \<Rightarrow> Ok t
      | None \<Rightarrow> Err (ErrMsg ''invalid address type''))"

abbreviation AddressType_Format :: "AddressType \<Rightarrow> AddressFormat res" where
  "AddressType_Format \<equiv> AddressType_Format_in AddressTypeMap"

subsection \<open>The header byte\<close>

definition AddressHeader_toBytes :: "AddressHeader \<Rightarrow> bytes" where
  "AddressHeader_toBytes a =
     fold (\<lambda>i extracted. if a AND push_bit i 1 > 0 then extracted[7 - i := 1] else extracted)
       [0..<8] (replicate 8 0)"

definition AddressHeader_fromBytes :: "bytes \<Rightarrow> AddressHeader" where
  "AddressHeader_fromBytes bitAsBytes =
     fold (\<lambda>i x. if bitAsBytes ! (7 - i) > 0 then x OR push_bit i 1 else x) [0..<8] 0"

definition HasPrefix :: "bytes \<Rightarrow> bytes \<Rightarrow> bool" where
  "HasPrefix s p \<longleftrightarrow> length p \<le> length s \<and> take (length p) s = p"

definition HasSuffix :: "bytes \<Rightarrow> bytes \<Rightarrow> bool" where
  "HasSuffix s p \<longleftrightarrow> length p \<le> length s \<and> drop (length s - length p) s = p"

definition AddressHeader_Network :: "AddressHeader \<Rightarrow> AddressHeaderNetwork res" where
  "AddressHeader_Network a =
     (case find (\<lambda>n. HasSuffix (AddressHeader_toBytes a) n)
             [AddressHeaderNetworkMainnet, AddressHeaderNetworkTestnet] of
        Some n \<Rightarrow> Ok n
      | None \<Rightarrow> Err (ErrMsg ''invalid network bits in address header''))"

definition AddressHeader_Type_in :: "AddressFormat list \<Rightarrow> AddressHeader \<Rightarrow> AddressType res" where
  "AddressHeader_Type_in ms a =
     (case find (\<lambda>t. HasPrefix (AddressHeader_toBytes a) (fmt_HeaderType t)) ms of
        Some t \<Rightarrow> Ok (fmt_Type t)
      | None \<Rightarrow> Err (ErrMsg ''invalid type bits in address header''))"

abbreviation AddressHeader_Type :: "AddressHeader \<Rightarrow> AddressType res" where
  "AddressHeader_Type \<equiv> AddressHeader_Type_in AddressTypeMap"

text \<open>The verbs \<open>%08b\<close> and \<open>0x%x\<close> on a byte.\<close>

definition fmt_08b :: "byte \<Rightarrow> string" where
  "fmt_08b a = map (\<lambda>i. if bit a (7 - i) then CHR ''1'' else CHR ''0'') [0..<8]"

definition fmt_0x :: "byte \<Rightarrow> string" where
  "fmt_0x a = ''0x'' @ (if a < 16 then tl (hex_EncodeToString [a]) else hex_EncodeToString [a])"

definition AddressHeader_String :: "AddressHeader \<Rightarrow> string" where
  "AddressHeader_String a =
     (case AddressHeader_Type a of
        Ok typ \<Rightarrow>
          (case AddressHeader_Network a of
             Ok network \<Rightarrow> AddressType_String typ @ ''/'' @ AddressHeaderNetwork_String network @ '' | '' @ fmt_0x a @ '' | '' @ fmt_08b a
           | _ \<Rightarrow> fmt_08b a @ '' (invalid)'')
      | _ \<Rightarrow> fmt_08b a @ '' (invalid)'')"

definition AddressHeader_Validate :: "AddressHeader \<Rightarrow> unit res" where
  "AddressHeader_Validate a =
     (case AddressHeader_Network a of
        Ok _ \<Rightarrow> (case AddressHeader_Type a of Ok _ \<Rightarrow> Ok () | Err e \<Rightarrow> Err e | Panic p \<Rightarrow> Panic p)
      | Err e \<Rightarrow> Err e
      | Panic p \<Rightarrow> Panic p)"

definition AddressHeader_Valid :: "AddressHeader \<Rightarrow> bool" where
  "AddressHeader_Valid a \<longleftrightarrow> is_ok (AddressHeader_Validate a)"

definition AddressHeader_Format :: "AddressHeader \<Rightarrow> AddressFormat res" where
  "AddressHeader_Format a = res_bind (AddressHeader_Type a) AddressType_Format"

definition AddressHeader_IsForNetwork :: "AddressHeader \<Rightarrow> NetworkParams \<Rightarrow> bool res" where
  "AddressHeader_IsForNetwork a params =
     res_bind (AddressHeader_Network a) (\<lambda>network. Ok
       (if network = AddressHeaderNetworkMainnet then np_Name params = np_Name MainNetParams
        else if network = AddressHeaderNetworkTestnet
        then np_Name params = np_Name PreProdParams \<or> np_Name params = np_Name PrivateNetParams
        else False))"

definition AddressHeader_SetType :: "AddressHeaderType \<Rightarrow> AddressHeader \<Rightarrow> AddressHeader" where
  "AddressHeader_SetType headerType a =
     (let b = AddressHeader_toBytes a in AddressHeader_fromBytes (headerType @ drop 4 b))"

definition AddressHeader_SetNetwork :: "AddressHeaderNetwork \<Rightarrow> AddressHeader \<Rightarrow> AddressHeader" where
  "AddressHeader_SetNetwork network a =
     (let b = AddressHeader_toBytes a in AddressHeader_fromBytes (take 4 b @ network))"

subsection \<open>Addresses\<close>

definition Address_String :: "Address \<Rightarrow> string" where
  "Address_String a = hex_EncodeToString a"

definition Address_MarshalJSON :: "Address \<Rightarrow> string" where
  "Address_MarshalJSON a = [CHR 34] @ Address_String a @ [CHR 34]"

definition Address_Header :: "Address \<Rightarrow> AddressHeader res" where
  "Address_Header a =
     (case a of [] \<Rightarrow> Err (ErrMsg ''cannot get header for empty address'') | b # _ \<Rightarrow> Ok b)"

definition Address_Type :: "Address \<Rightarrow> AddressType res" where
  "Address_Type a = res_bind (Address_Header a) AddressHeader_Type"

definition Address_Network :: "Address \<Rightarrow> AddressHeaderNetwork res" where
  "Address_Network a = res_bind (Address_Header a) AddressHeader_Network"

definition Address_Bech32String :: "Address \<Rightarrow> Network \<Rightarrow> string res" where
  "Address_Bech32String a network =
     (case Network_Params network of
        Ok params \<Rightarrow>
          (case ConvertAndEncode (np_AddressPrefix params) a of
             Ok encoded \<Rightarrow> Ok encoded
           | Err e \<Rightarrow> Err (ErrMsg ''failed to convert to bech32'')
           | Panic p \<Rightarrow> Panic p)
      | Err e \<Rightarrow> Err e
      | Panic p \<Rightarrow> Panic p)"

definition Address_Binary :: "Address \<Rightarrow> bytes res" where
  "Address_Binary a =
     (case Address_Bech32String a NetworkMainNet of
        Ok bech \<Rightarrow>
          (case btc_Decode bech of
             Ok (hrp, data) \<Rightarrow>
               (case ConvertBits data 5 8 False of
                  Ok converted \<Rightarrow> Ok converted
                | Err e \<Rightarrow> Err (ErrWrap ''failed to convert bits'' e)
                | Panic p \<Rightarrow> Panic p)
           | Err e \<Rightarrow> Err (ErrWrap ''failed to decode bech32 address'' e)
           | Panic p \<Rightarrow> Panic p)
      | Err e \<Rightarrow> Err e
      | Panic p \<Rightarrow> Panic p)"

text \<open>\<open>ParseBech32String\<close> reads \<open>addr[0]\<close> without a length check, which panics when the
  decoded data is empty. The result is the address the pointer receiver is set to.\<close>

definition Address_ParseBech32String :: "string \<Rightarrow> Network \<Rightarrow> Address res" where
  "Address_ParseBech32String encoded network =
     (case DecodeAndConvert encoded of
        Err e \<Rightarrow> Err (ErrMsg ''failed to decode bech32 address'')
      | Panic p \<Rightarrow> Panic p
      | Ok (prefix, addr) \<Rightarrow>
          (case addr of
             [] \<Rightarrow> Panic ''index out of range [0] with length 0''
           | header # _ \<Rightarrow>
               res_bind (AddressHeader_Format header) (\<lambda>format.
                 res_bind (Network_Params network) (\<lambda>params.
                   if prefix \<noteq> np_AddressPrefix params \<and> prefix \<noteq> np_DelegationPrefix params
                   then Err (ErrMsg ''invalid payment prefix'')
                   else Ok addr))))"

text \<open>\<open>DecodeAddress\<close> returns the parsed address; on an error the fresh, empty address.\<close>

definition DecodeAddress :: "string \<Rightarrow> Network \<Rightarrow> Address res" where
  "DecodeAddress address network = Address_ParseBech32String address network"

definition ed25519_PublicKeySize :: nat where "ed25519_PublicKeySize = 32"

text \<open>\<open>blake2b n d\<close> stands for the unkeyed blake2b digest of \<open>n\<close> bytes; \<open>New(28, nil)\<close> cannot fail.\<close>

definition Blake2bSum224 :: "(nat \<Rightarrow> bytes \<Rightarrow> bytes) \<Rightarrow> bytes \<Rightarrow> bytes res" where
  "Blake2bSum224 blake2b data = Ok (blake2b 28 data)"

definition EncodeAddress ::
  "(nat \<Rightarrow> bytes \<Rightarrow> bytes) \<Rightarrow> bytes \<Rightarrow> Network \<Rightarrow> AddressType \<Rightarrow> Address res" where
  "EncodeAddress blake2b publicKey net typ =
     res_bind (Network_Params net) (\<lambda>params.
     res_bind (AddressType_Format typ) (\<lambda>format.
     if length publicKey \<noteq> ed25519_PublicKeySize
     then Err (ErrMsg ''expected a %d length ed25519 public key, got %d bytes'')
     else res_bind (Blake2bSum224 blake2b publicKey) (\<lambda>hash.
       let networkBits = (if np_Name params \<noteq> NetworkMainNet then AddressHeaderNetworkTestnet
                          else AddressHeaderNetworkMainnet);
           header = AddressHeader_SetNetwork networkBits
                      (AddressHeader_SetType (fmt_HeaderType format) 0)
       in Ok (header # hash))))"

subsection \<open>Bits of the header\<close>

definition bit_byte :: "bool \<Rightarrow> byte" where "bit_byte b = (if b then 1 else 0)"

lemma bit_byte_simps [simp]: "bit_byte True = 1" "bit_byte False = 0"
  by (simp_all add: bit_byte_def)

lemma bit_byte_pos [simp]: "bit_byte b > 0 \<longleftrightarrow> b" "bit_byte b = 1 \<longleftrightarrow> b" "bit_byte b = 0 \<longleftrightarrow> \<not> b"
  "1 = bit_byte b \<longleftrightarrow> b" "0 = bit_byte b \<longleftrightarrow> \<not> b"
  by (auto simp: bit_byte_def)

lemma upt_8: "[0..<8] = [0, 1, 2, 3, 4, 5, 6, 7]"
  by (simp add: upt_rec)

lemma replicate_8: "replicate 8 x = [x, x, x, x, x, x, x, x]"
  by (simp add: numeral_eq_Suc)

lemma and_bit_pos: "(a :: byte) AND push_bit i 1 > 0 \<longleftrightarrow> bit a i"
  by (simp add: push_bit_of_1 and_exp_eq_0_iff_not_bit flip: word_neq_0_conv)

lemma toBytes_bits: "AddressHeader_toBytes a =
  [bit_byte (bit a 7), bit_byte (bit a 6), bit_byte (bit a 5), bit_byte (bit a 4),
   bit_byte (bit a 3), bit_byte (bit a 2), bit_byte (bit a 1), bit_byte (bit a 0)]"
  unfolding AddressHeader_toBytes_def and_bit_pos upt_8 replicate_8
  by (simp add: bit_byte_def)

lemma length_toBytes [simp]: "length (AddressHeader_toBytes a) = 8"
  by (simp add: toBytes_bits)

lemma bit_fold_or:
  "k < 8 \<Longrightarrow> bit (fold (\<lambda>i x. if P i then x OR push_bit i 1 else x) is x) k \<longleftrightarrow>
     bit (x :: byte) k \<or> k \<in> set is \<and> P k"
  by (induction "is" arbitrary: x) (auto simp: bit_simps)

lemma bit_fromBytes: "i < 8 \<Longrightarrow> bit (AddressHeader_fromBytes bs) i \<longleftrightarrow> bs ! (7 - i) > 0"
  by (simp add: AddressHeader_fromBytes_def bit_fold_or)

lemma fromBytes_toBytes [simp]: "AddressHeader_fromBytes (AddressHeader_toBytes a) = a"
  by (rule bit_word_eqI) (auto simp: bit_fromBytes toBytes_bits nth_Cons' numeral_eq_Suc less_Suc_eq)

text \<open>A list of eight bits, as the header arrays are.\<close>

definition bit_array :: "nat \<Rightarrow> bytes \<Rightarrow> bool" where
  "bit_array n bs \<longleftrightarrow> length bs = n \<and> set bs \<subseteq> {0, 1}"

lemma length_8_cases: "length bs = 8 \<Longrightarrow> bs = [bs!0, bs!1, bs!2, bs!3, bs!4, bs!5, bs!6, bs!7]"
  by (rule nth_equalityI) (auto simp: nth_Cons' numeral_eq_Suc less_Suc_eq)

lemma toBytes_fromBytes: "bit_array 8 bs \<Longrightarrow> AddressHeader_toBytes (AddressHeader_fromBytes bs) = bs"
proof -
  assume bs: "bit_array 8 bs"
  have "bit_byte (bs ! i > 0) = bs ! i" if "i < 8" for i
  proof -
    have "bs ! i \<in> set bs" "set bs \<subseteq> {0, 1}" using bs that by (simp_all add: bit_array_def)
    then have "bs ! i \<in> {0, 1}" by blast
    then show ?thesis by auto
  qed
  then show ?thesis
    using length_8_cases [of bs] bs by (simp add: toBytes_bits bit_fromBytes bit_array_def)
qed

lemma toBytes_bit_array: "bit_array 8 (AddressHeader_toBytes a)"
  by (auto simp: bit_array_def toBytes_bits bit_byte_def)

lemma bit_array_take_drop:
  "bit_array 8 bs \<Longrightarrow> bit_array 4 (take 4 bs)" "bit_array 8 bs \<Longrightarrow> bit_array 4 (drop 4 bs)"
  by (auto simp: bit_array_def dest: in_set_takeD in_set_dropD)

lemma bit_array_append: "bit_array 4 xs \<Longrightarrow> bit_array 4 ys \<Longrightarrow> bit_array 8 (xs @ ys)"
  by (auto simp: bit_array_def)

lemma toBytes_SetType:
  "bit_array 4 t \<Longrightarrow> AddressHeader_toBytes (AddressHeader_SetType t a) = t @ drop 4 (AddressHeader_toBytes a)"
  by (simp add: AddressHeader_SetType_def toBytes_fromBytes bit_array_append bit_array_take_drop toBytes_bit_array)

lemma toBytes_SetNetwork:
  "bit_array 4 n \<Longrightarrow> AddressHeader_toBytes (AddressHeader_SetNetwork n a) = take 4 (AddressHeader_toBytes a) @ n"
  by (simp add: AddressHeader_SetNetwork_def toBytes_fromBytes bit_array_append bit_array_take_drop toBytes_bit_array)

lemma header_types_bit_array: "f \<in> set AddressTypeMap \<Longrightarrow> bit_array 4 (fmt_HeaderType f)"
  by (auto simp: AddressTypeMap_def header_types bit_array_def)

lemma header_networks_bit_array:
  "n \<in> {AddressHeaderNetworkMainnet, AddressHeaderNetworkTestnet} \<Longrightarrow> bit_array 4 n"
  by (auto simp: header_networks bit_array_def)

text \<open>The prefixes are pairwise different, so a lookup has one answer in every order of the map.\<close>

lemma AddressTypeMap_distinct:
  "distinct (map fmt_Type AddressTypeMap)" "distinct (map fmt_HeaderType AddressTypeMap)"
  by (simp_all add: AddressTypeMap_def header_types)

lemma find_unique:
  assumes "\<And>x y. x \<in> set xs \<Longrightarrow> y \<in> set xs \<Longrightarrow> P x \<Longrightarrow> P y \<Longrightarrow> x = y" and "set ys = set xs"
  shows "find P ys = find P xs"
proof (cases "find P xs")
  case None
  then have "find P ys = None" using assms(2) by (simp add: find_None_iff)
  with None show ?thesis by simp
next
  case (Some x)
  then have x: "x \<in> set xs" "P x" by (auto simp: find_Some_iff)
  then have "find P ys \<noteq> None" using assms(2) by (auto simp: find_None_iff)
  then obtain y where "find P ys = Some y" by auto
  moreover from this have "y \<in> set ys" "P y" by (auto simp: find_Some_iff)
  ultimately show ?thesis using assms x Some by auto
qed

lemma HasPrefix_type:
  "f \<in> set AddressTypeMap \<Longrightarrow> HasPrefix (AddressHeader_toBytes a) (fmt_HeaderType f) \<longleftrightarrow>
     take 4 (AddressHeader_toBytes a) = fmt_HeaderType f"
  using header_types_bit_array [of f] by (simp add: HasPrefix_def bit_array_def)

lemma AddressHeader_Type_order:
  "set ms = set AddressTypeMap \<Longrightarrow> AddressHeader_Type_in ms a = AddressHeader_Type a"
  unfolding AddressHeader_Type_in_def
  by (subst find_unique [where xs = AddressTypeMap and ys = ms])
     (auto simp: HasPrefix_type dest: inj_onD [OF iffD1 [OF distinct_map, OF AddressTypeMap_distinct(2), THEN conjunct2]])

lemma AddressType_Format_order:
  "set ms = set AddressTypeMap \<Longrightarrow> AddressType_Format_in ms t = AddressType_Format t"
  unfolding AddressType_Format_in_def
  by (subst find_unique [where xs = AddressTypeMap and ys = ms])
     (auto dest: inj_onD [OF iffD1 [OF distinct_map, OF AddressTypeMap_distinct(1), THEN conjunct2]])

lemma find_distinct:
  "distinct (map f xs) \<Longrightarrow> x \<in> set xs \<Longrightarrow> find (\<lambda>y. f y = f x) xs = Some x"
  by (induction xs) (auto simp: image_iff)

lemma AddressHeader_Type_iff:
  assumes "f \<in> set AddressTypeMap"
  shows "take 4 (AddressHeader_toBytes a) = fmt_HeaderType f \<Longrightarrow> AddressHeader_Type a = Ok (fmt_Type f)"
proof -
  assume eq: "take 4 (AddressHeader_toBytes a) = fmt_HeaderType f"
  have "find (\<lambda>t. HasPrefix (AddressHeader_toBytes a) (fmt_HeaderType t)) AddressTypeMap =
      find (\<lambda>t. fmt_HeaderType t = fmt_HeaderType f) AddressTypeMap"
    by (rule find_cong) (auto simp: HasPrefix_type eq)
  then show ?thesis
    using find_distinct [OF AddressTypeMap_distinct(2) assms] by (simp add: AddressHeader_Type_in_def)
qed

lemma AddressType_Format_Ok: "f \<in> set AddressTypeMap \<Longrightarrow> AddressType_Format (fmt_Type f) = Ok f"
  using find_distinct [OF AddressTypeMap_distinct(1)] by (simp add: AddressType_Format_in_def)

lemma AddressType_Format_OkD:
  "AddressType_Format t = Ok f \<Longrightarrow> f \<in> set AddressTypeMap \<and> fmt_Type f = t"
  by (auto simp: AddressType_Format_in_def find_Some_iff split: option.splits)

lemma AddressHeader_Network_iff:
  assumes "n \<in> {AddressHeaderNetworkMainnet, AddressHeaderNetworkTestnet}"
    and "drop 4 (AddressHeader_toBytes a) = n"
  shows "AddressHeader_Network a = Ok n"
  using assms by (auto simp: AddressHeader_Network_def HasSuffix_def header_networks)

lemma make_header:
  fixes a :: AddressHeader
  assumes "f \<in> set AddressTypeMap" "n \<in> {AddressHeaderNetworkMainnet, AddressHeaderNetworkTestnet}"
  defines "h \<equiv> AddressHeader_SetNetwork n (AddressHeader_SetType (fmt_HeaderType f) a)"
  shows "AddressHeader_toBytes h = fmt_HeaderType f @ n" "AddressHeader_Type h = Ok (fmt_Type f)"
    "AddressHeader_Network h = Ok n" "AddressHeader_Format h = Ok f"
proof -
  have b: "bit_array 4 (fmt_HeaderType f)" "bit_array 4 n"
    using assms header_types_bit_array header_networks_bit_array by auto
  then show tb: "AddressHeader_toBytes h = fmt_HeaderType f @ n"
    by (simp add: h_def toBytes_SetNetwork toBytes_SetType bit_array_def)
  show t: "AddressHeader_Type h = Ok (fmt_Type f)"
    using b by (intro AddressHeader_Type_iff [OF assms(1)]) (simp add: tb bit_array_def)
  show "AddressHeader_Network h = Ok n"
    using b by (intro AddressHeader_Network_iff [OF assms(2)]) (simp add: tb bit_array_def)
  show "AddressHeader_Format h = Ok f"
    by (simp add: AddressHeader_Format_def t AddressType_Format_Ok [OF assms(1)])
qed

lemma Network_prefix_plain:
  "Network_Params n = Ok p \<Longrightarrow> np_AddressPrefix p \<noteq> [] \<and> (\<forall>c\<in>set (np_AddressPrefix p). plain_char c)"
  by (drule Network_Params_prefix) (auto simp: plain_char_def is_upper_def ascii_def)

lemma Bech32String_Ok:
  assumes "Network_Params net = Ok p"
  obtains s where "Address_Bech32String a net = Ok s" "ConvertAndEncode (np_AddressPrefix p) a = Ok s"
proof -
  obtain s where "ConvertAndEncode (np_AddressPrefix p) a = Ok s"
    using ConvertAndEncode_Ok Network_prefix_plain [OF assms] by blast
  then show ?thesis using that assms by (simp add: Address_Bech32String_def)
qed

lemma prefix_length: "Network_Params net = Ok p \<Longrightarrow> length (np_AddressPrefix p) \<le> 9"
  by (drule Network_Params_prefix) auto

lemma Parse_Bech32String:
  assumes "Network_Params net = Ok p" "Address_Bech32String a net = Ok s" "length a \<le> 600"
  shows "Address_ParseBech32String s net =
    (case a of [] \<Rightarrow> Panic ''index out of range [0] with length 0''
     | h # _ \<Rightarrow> res_bind (AddressHeader_Format h) (\<lambda>_. Ok a))"
proof -
  have len: "length (np_AddressPrefix p) + 7 + (8 * length a + 4) div 5 \<le> 1023"
    using prefix_length [OF assms(1)] assms(3) by linarith
  obtain s' where s': "ConvertAndEncode (np_AddressPrefix p) a = Ok s'" "DecodeAndConvert s' = Ok (np_AddressPrefix p, a)"
    using convert_roundtrip [of "np_AddressPrefix p" a] Network_prefix_plain [OF assms(1)] len by blast
  then have "DecodeAndConvert s = Ok (np_AddressPrefix p, a)"
    using assms by (auto simp: Address_Bech32String_def)
  with assms(1) show ?thesis by (auto simp: Address_ParseBech32String_def split: list.splits)
qed

lemma EncodeAddress_Ok:
  assumes "EncodeAddress blake2b pk net typ = Ok a"
  obtains p f n where "Network_Params net = Ok p" "f \<in> set AddressTypeMap" "fmt_Type f = typ"
    "n = (if net = NetworkMainNet then AddressHeaderNetworkMainnet else AddressHeaderNetworkTestnet)"
    "a = AddressHeader_SetNetwork n (AddressHeader_SetType (fmt_HeaderType f) 0) # blake2b 28 pk"
  using assms Network_Params_Name [of net]
  by (auto simp: EncodeAddress_def Blake2bSum224_def Let_def split: if_splits dest!: AddressType_Format_OkD)

lemma plain_prefix_r: "Network_Params net = Ok p \<Longrightarrow> CHR ''r'' \<in> set (np_AddressPrefix p)"
  by (drule Network_Params_prefix) auto

lemma ConvertAndEncode_prefix:
  "\<forall>c\<in>set hrp. plain_char c \<Longrightarrow> ConvertAndEncode hrp a = Ok s \<Longrightarrow> set hrp \<subseteq> set s"
  by (auto simp: ConvertAndEncode_Ok)

lemma hex_no_r: "CHR ''r'' \<notin> set (hex_EncodeToString a)"
  using hex_EncodeToString_digits [of a] by (auto simp: hex_digits_def)

lemma Bech32String_decodes:
  assumes "Address_Bech32String a NetworkMainNet = Ok s"
  shows "DecodeNoLimit s = Ok (''addr'', conv a)" "length s = 11 + (8 * length a + 4) div 5"
proof -
  have p: "Network_Params NetworkMainNet = Ok MainNetParams" by (simp add: Network_Params_Ok)
  then have e: "ConvertAndEncode ''addr'' a = Ok s"
    using assms by (auto simp: Address_Bech32String_def MainNetParams_def split: res.splits)
  have "\<forall>c\<in>set ''addr''. plain_char c" "''addr'' \<noteq> []"
    using Network_prefix_plain [OF p] by (auto simp: MainNetParams_def)
  from ConvertAndEncode_decodes [OF this e]
  show "DecodeNoLimit s = Ok (''addr'', conv a)" "length s = 11 + (8 * length a + 4) div 5"
    by simp_all
qed

lemma Bech32String_mainnet: "\<exists>s. Address_Bech32String a NetworkMainNet = Ok s"
  using Bech32String_Ok [of NetworkMainNet MainNetParams a] by (auto simp: Network_Params_Ok)

subsection \<open>Properties\<close>

text \<open>Claim C3 (address_roundtrip): for every supported network, every address type of the table and
  every 32-byte public key, \<open>EncodeAddress\<close> gives an address whose bech32 text parses back
  (\<open>DecodeAddress\<close>) to the same bytes, whose header has the requested type and whose
  network nibble is mainnet exactly for the main network.\<close>

theorem address_roundtrip:
  assumes "\<And>d. length (blake2b 28 d) = 28"
    and "Network_Valid net" "AddressType_Format typ = Ok f" "length pk = 32"
  shows "\<exists>a s. EncodeAddress blake2b pk net typ = Ok a \<and> length a = 29 \<and>
     Address_Bech32String a net = Ok s \<and> DecodeAddress s net = Ok a \<and>
     Address_Type a = Ok typ \<and>
     Address_Network a = Ok (if net = NetworkMainNet then AddressHeaderNetworkMainnet
                             else AddressHeaderNetworkTestnet)"
proof -
  obtain p where p: "Network_Params net = Ok p"
    using assms(2) Network_Params_total [of net] by (cases "Network_Params net") auto
  then obtain a where enc: "EncodeAddress blake2b pk net typ = Ok a"
    using assms by (auto simp: EncodeAddress_def Blake2bSum224_def ed25519_PublicKeySize_def Let_def)
  then obtain f' n where f: "f' \<in> set AddressTypeMap" "fmt_Type f' = typ"
    and n: "n = (if net = NetworkMainNet then AddressHeaderNetworkMainnet else AddressHeaderNetworkTestnet)"
    and a: "a = AddressHeader_SetNetwork n (AddressHeader_SetType (fmt_HeaderType f') 0) # blake2b 28 pk"
    by (rule EncodeAddress_Ok)
  have "n \<in> {AddressHeaderNetworkMainnet, AddressHeaderNetworkTestnet}" using n by simp
  note h = make_header [OF f(1) this, of 0]
  obtain s where s: "Address_Bech32String a net = Ok s" using Bech32String_Ok [OF p] by blast
  have "DecodeAddress s net = Ok a"
    using Parse_Bech32String [OF p s] h a assms(1) by (simp add: DecodeAddress_def)
  with enc s h f n a assms(1) show ?thesis
    by (auto simp: Address_Type_def Address_Network_def Address_Header_def)
qed

theorem address_roundtrip_witness:
  "\<exists>a s. EncodeAddress (\<lambda>n d. replicate n 7) (replicate 32 1) NetworkPreProd AddressTypePayment = Ok a \<and>
     length a = 29 \<and> Address_Bech32String a NetworkPreProd = Ok s \<and> DecodeAddress s NetworkPreProd = Ok a \<and>
     Address_Type a = Ok AddressTypePayment \<and>
     Address_Network a = Ok (if NetworkPreProd = NetworkMainNet then AddressHeaderNetworkMainnet
                             else AddressHeaderNetworkTestnet)"
  by (rule address_roundtrip)
     (simp_all add: Network_Valid_def AddressType_Format_in_def AddressTypeMap_def)

text \<open>The address-type table is a Go map whose iteration order
  is random; \<open>AddressHeader.Type\<close> and \<open>AddressType.Format\<close> return the same result whatever
  order the loop meets the entries in.\<close>

theorem address_type_any_map_order:
  assumes "mset ms = mset AddressTypeMap"
  shows "AddressHeader_Type_in ms a = AddressHeader_Type a \<and>
         AddressType_Format_in ms t = AddressType_Format t"
  using mset_eq_setD [OF assms] AddressHeader_Type_order AddressType_Format_order by blast

theorem address_type_any_map_order_witness:
  "AddressHeader_Type_in (rev AddressTypeMap) 0x61 = AddressHeader_Type 0x61 \<and>
   AddressType_Format_in (rev AddressTypeMap) AddressTypeScript = AddressType_Format AddressTypeScript"
  by (rule address_type_any_map_order) simp

text \<open>Setting a type of the table and a network on any header byte
  makes a valid header from which \<open>Type\<close> and \<open>Network\<close> read back exactly what was set, and
  no two combinations share a header byte.\<close>

theorem address_header_set_get:
  assumes "f \<in> set AddressTypeMap" "g \<in> set AddressTypeMap"
    and "n \<in> {AddressHeaderNetworkMainnet, AddressHeaderNetworkTestnet}"
    and "m \<in> {AddressHeaderNetworkMainnet, AddressHeaderNetworkTestnet}"
  shows "AddressHeader_Valid (AddressHeader_SetNetwork n (AddressHeader_SetType (fmt_HeaderType f) a)) \<and>
     AddressHeader_Type (AddressHeader_SetNetwork n (AddressHeader_SetType (fmt_HeaderType f) a)) = Ok (fmt_Type f) \<and>
     AddressHeader_Network (AddressHeader_SetNetwork n (AddressHeader_SetType (fmt_HeaderType f) a)) = Ok n \<and>
     (AddressHeader_SetNetwork n (AddressHeader_SetType (fmt_HeaderType f) a) =
      AddressHeader_SetNetwork m (AddressHeader_SetType (fmt_HeaderType g) b) \<longrightarrow> f = g \<and> n = m)"
proof -
  note hf = make_header [OF assms(1,3), of a] and hg = make_header [OF assms(2,4), of b]
  show ?thesis
    using hf hg by (auto simp: AddressHeader_Valid_def AddressHeader_Validate_def)
qed

theorem address_header_set_get_witness:
  "AddressHeader_Valid (AddressHeader_SetNetwork AddressHeaderNetworkMainnet
      (AddressHeader_SetType AddressHeaderTypePaymentKeyHash 255))"
  using address_header_set_get [of "AddressTypeMap ! 6" "AddressTypeMap ! 6"
      AddressHeaderNetworkMainnet AddressHeaderNetworkMainnet 255 255]
  by (simp add: AddressTypeMap_def)

text \<open>\<open>Address.Binary\<close> goes through the 90-character bech32 decoder, so it
  returns the address bytes for up to 49 bytes and fails for every longer address, in particular
  for every 57-byte base address (payment and stake credentials).\<close>

theorem address_binary:
  "Address_Binary a =
     (if length a \<le> 49 then Ok a
      else Err (ErrWrap ''failed to decode bech32 address'' (ErrMsg ''invalid bech32 string length'')))"
proof -
  obtain s where s: "Address_Bech32String a NetworkMainNet = Ok s" using Bech32String_mainnet by blast
  note d = Bech32String_decodes [OF s]
  have "90 < length s \<longleftrightarrow> \<not> length a \<le> 49" using d(2) by linarith
  then show ?thesis
    using s d(1) conv_back [of a] by (simp add: Address_Binary_def btc_Decode_def btc_DecodeNoLimit_eq)
qed

text \<open>\<open>ParseBech32String\<close> indexes the decoded bytes without a
  length check: the bech32 text of the empty address, which is well formed and
  has a valid checksum, makes it panic on every network.\<close>

theorem parse_empty_payload_panics:
  assumes "Network_Valid net"
  shows "\<exists>s. Address_Bech32String [] net = Ok s \<and> is_panic (DecodeAddress s net)"
proof -
  obtain p where p: "Network_Params net = Ok p"
    using assms Network_Params_total [of net] by (cases "Network_Params net") auto
  then obtain s where s: "Address_Bech32String [] net = Ok s" using Bech32String_Ok by blast
  with Parse_Bech32String [OF p s] show ?thesis by (auto simp: DecodeAddress_def)
qed

theorem parse_empty_payload_panics_witness:
  "\<exists>s. Address_Bech32String [] NetworkMainNet = Ok s \<and> is_panic (DecodeAddress s NetworkMainNet)"
  by (rule parse_empty_payload_panics) (simp add: Network_Valid_def)

text \<open>\<open>Address.String\<close> is the hexadecimal form and differs from
  the bech32 form of the address on every network, although
  \<open>TestAddress_EncodeDecode\<close> expects the two to be equal.\<close>

theorem address_string_not_bech32: "Address_Bech32String a net \<noteq> Ok (Address_String a)"
proof
  assume eq: "Address_Bech32String a net = Ok (Address_String a)"
  then obtain p where p: "Network_Params net = Ok p"
    by (auto simp: Address_Bech32String_def split: res.splits)
  then have "ConvertAndEncode (np_AddressPrefix p) a = Ok (Address_String a)"
    using eq by (auto simp: Address_Bech32String_def split: res.splits)
  then have "set (np_AddressPrefix p) \<subseteq> set (Address_String a)"
    using ConvertAndEncode_prefix Network_prefix_plain [OF p] by blast
  then show False using plain_prefix_r [OF p] hex_no_r [of a] by (auto simp: Address_String_def)
qed

end
