(* ===== verification/AddrTools.thy ===== *)
theory AddrTools
  imports Address
begin

text \<open>
  The address tools (src/cmd/addr_gen, addr_decode and addr_build).

  \<^item> A run is the list of the printed sections and, when \<open>log.Fatal\<close> ended it, the error. A section has the network, the header
    byte, the address bytes and the bech32 text.
  \<^item> Random seeds, ed25519 and the CBOR decoder are arguments; the heading lines and the flags are left out.
\<close>

definition networks :: "Network list" where
  "networks = [NetworkMainNet, NetworkPreProd, NetworkPrivateNet]"

record addr_section =
  sc_network :: Network
  sc_header :: AddressHeader
  sc_bytes :: bytes
  sc_bech32 :: string

type_synonym 'a run = "'a list \<times> gerror option"

text \<open>The part of the three loops that they share: an error is fatal.\<close>

definition address_section :: "Address \<Rightarrow> Network \<Rightarrow> addr_section res" where
  "address_section addr net =
     res_bind (Address_Bech32String addr net) (\<lambda>encoded.
     res_bind (Address_Header addr) (\<lambda>header.
     res_bind (btc_Decode encoded) (\<lambda>(hrp, data).
     res_bind (ConvertBits data 5 8 False) (\<lambda>converted.
       Ok \<lparr>sc_network = net, sc_header = header, sc_bytes = converted, sc_bech32 = encoded\<rparr>))))"

fun fatal_or :: "'a res \<Rightarrow> ('a \<Rightarrow> 'b run) \<Rightarrow> 'b run" where
  "fatal_or (Ok a) f = f a"
| "fatal_or (Err e) f = ([], Some e)"
| "fatal_or (Panic p) f = ([], Some (ErrMsg p))"

fun run_cons :: "'a \<Rightarrow> 'a run \<Rightarrow> 'a run" where
  "run_cons x (xs, e) = (x # xs, e)"

subsection \<open>addr_gen\<close>

fun gen_networks :: "(nat \<Rightarrow> bytes \<Rightarrow> bytes) \<Rightarrow> bytes \<Rightarrow> Network list \<Rightarrow> addr_section run" where
  "gen_networks blake2b pub [] = ([], None)"
| "gen_networks blake2b pub (net # nets) =
     fatal_or (EncodeAddress blake2b pub net AddressTypePayment) (\<lambda>addr.
     fatal_or (address_section addr net) (\<lambda>sec. run_cons sec (gen_networks blake2b pub nets)))"

text \<open>\<open>seed\<close> is the result of \<open>rand.Read\<close>, \<open>public\<close> the public key of a seed.\<close>

definition addr_gen :: "(nat \<Rightarrow> bytes \<Rightarrow> bytes) \<Rightarrow> (bytes \<Rightarrow> bytes) \<Rightarrow> bytes res \<Rightarrow> addr_section run" where
  "addr_gen blake2b public seed = fatal_or seed (\<lambda>sd. gen_networks blake2b (public sd) networks)"

subsection \<open>addr_build\<close>

fun encodePubkeyAllNetworks :: "(nat \<Rightarrow> bytes \<Rightarrow> bytes) \<Rightarrow> bytes \<Rightarrow> Network list \<Rightarrow> addr_section run" where
  "encodePubkeyAllNetworks blake2b pub [] = ([], None)"
| "encodePubkeyAllNetworks blake2b pub (net # nets) =
     (case EncodeAddress blake2b pub net AddressTypePayment of
        Ok addr \<Rightarrow> fatal_or (address_section addr net) (\<lambda>sec. run_cons sec (encodePubkeyAllNetworks blake2b pub nets))
      | _ \<Rightarrow> encodePubkeyAllNetworks blake2b pub nets)"

definition strings_Trim :: "string \<Rightarrow> string" where
  "strings_Trim s = rev (dropWhile (\<lambda>c. c = CHR '' '' \<or> c = CHR 0x22) (rev (dropWhile (\<lambda>c. c = CHR '' '' \<or> c = CHR 0x22) s)))"

text \<open>\<open>Some\<close> the run when the attempt returns true. A key of 64 bytes is refused like any other length but 32.\<close>

definition attemptPrivateHex :: "(nat \<Rightarrow> bytes \<Rightarrow> bytes) \<Rightarrow> (bytes \<Rightarrow> bytes) \<Rightarrow> string \<Rightarrow> addr_section run option" where
  "attemptPrivateHex blake2b public key =
     (case hex_DecodeString key of
        (b, Some e) \<Rightarrow> None
      | (b, None) \<Rightarrow>
          if length b = 64 then None
          else if length b \<noteq> 32 then None
          else Some (encodePubkeyAllNetworks blake2b (public b) networks))"

definition attemptPrivateCbor :: "(nat \<Rightarrow> bytes \<Rightarrow> bytes) \<Rightarrow> (bytes \<Rightarrow> bytes) \<Rightarrow> (bytes \<Rightarrow> bytes res) \<Rightarrow> string \<Rightarrow> addr_section run option" where
  "attemptPrivateCbor blake2b public unmarshal key =
     (case hex_DecodeString key of
        (b, Some e) \<Rightarrow> None
      | (b, None) \<Rightarrow>
          (case unmarshal b of
             Ok k \<Rightarrow>
               if length k = 64 then None
               else if length k \<noteq> 32 then None
               else Some (encodePubkeyAllNetworks blake2b (public k) networks)
           | _ \<Rightarrow> None))"

text \<open>\<open>None\<close>: the tool prints that the key is invalid.\<close>

definition addr_build :: "(nat \<Rightarrow> bytes \<Rightarrow> bytes) \<Rightarrow> (bytes \<Rightarrow> bytes) \<Rightarrow> (bytes \<Rightarrow> bytes res) \<Rightarrow> string \<Rightarrow> addr_section run option" where
  "addr_build blake2b public unmarshal arg =
     (let key = strings_Trim arg in
      case attemptPrivateCbor blake2b public unmarshal key of
        Some r \<Rightarrow> Some r
      | None \<Rightarrow> attemptPrivateHex blake2b public key)"

subsection \<open>addr_decode\<close>

text \<open>A section, or \<open>None\<close> for a network under which the address is invalid; a panic ends the tool as well.\<close>

fun decode_networks :: "string \<Rightarrow> Network list \<Rightarrow> addr_section option run" where
  "decode_networks address [] = ([], None)"
| "decode_networks address (net # nets) =
     (case DecodeAddress address net of
        Err e \<Rightarrow> run_cons None (decode_networks address nets)
      | Panic p \<Rightarrow> ([], Some (ErrMsg p))
      | Ok decoded \<Rightarrow> fatal_or (address_section decoded net) (\<lambda>sec. run_cons (Some sec) (decode_networks address nets)))"

definition addr_decode :: "string \<Rightarrow> addr_section option run" where
  "addr_decode arg = decode_networks (strings_Trim arg) networks"

subsection \<open>Properties\<close>

lemma Bech32String_decodes_net:
  assumes "Network_Params net = Ok p" "Address_Bech32String a net = Ok s"
  shows "DecodeNoLimit s = Ok (np_AddressPrefix p, conv a)" "length s = length (np_AddressPrefix p) + 7 + (8 * length a + 4) div 5"
proof -
  have e: "ConvertAndEncode (np_AddressPrefix p) a = Ok s"
    using assms by (auto simp: Address_Bech32String_def split: res.splits)
  have "\<forall>c\<in>set (np_AddressPrefix p). plain_char c" "np_AddressPrefix p \<noteq> []" using Network_prefix_plain [OF assms(1)] by auto
  from ConvertAndEncode_decodes [OF this e]
  show "DecodeNoLimit s = Ok (np_AddressPrefix p, conv a)" "length s = length (np_AddressPrefix p) + 7 + (8 * length a + 4) div 5"
    by simp_all
qed

text \<open>The tools show an address when its text has at most 90 characters and stop with an error otherwise.\<close>

lemma address_section_cases:
  assumes "Network_Params net = Ok p" "Address_Bech32String a net = Ok s" "a = h # t"
  shows "address_section a net =
    (if length s \<le> 90 then Ok \<lparr>sc_network = net, sc_header = h, sc_bytes = a, sc_bech32 = s\<rparr>
     else Err (ErrMsg ''invalid bech32 string length''))"
proof -
  note d = Bech32String_decodes_net [OF assms(1,2)]
  show ?thesis
    using assms d(1) conv_back [of a] by (simp add: address_section_def Address_Header_def btc_Decode_def btc_DecodeNoLimit_eq)
qed

lemma payment_section:
  assumes "\<And>d. length (blake2b 28 d) = 28" "Network_Valid net" "length pub = 32"
  shows "\<exists>addr sec. EncodeAddress blake2b pub net AddressTypePayment = Ok addr \<and> address_section addr net = Ok sec \<and>
    sc_network sec = net \<and> sc_bytes sec = addr \<and> tl addr = blake2b 28 pub \<and> DecodeAddress (sc_bech32 sec) net = Ok addr"
proof -
  obtain p where p: "Network_Params net = Ok p"
    using assms(2) Network_Params_total [of net] by (cases "Network_Params net") auto
  have "is_ok (AddressType_Format AddressTypePayment)" by code_simp
  then obtain g where "AddressType_Format AddressTypePayment = Ok g" by (cases "AddressType_Format AddressTypePayment") auto
  then obtain a where enc: "EncodeAddress blake2b pub net AddressTypePayment = Ok a"
    using p assms(3) by (auto simp: EncodeAddress_def Blake2bSum224_def ed25519_PublicKeySize_def Let_def)
  then obtain f n where f: "f \<in> set AddressTypeMap" "fmt_Type f = AddressTypePayment"
    and n: "n = (if net = NetworkMainNet then AddressHeaderNetworkMainnet else AddressHeaderNetworkTestnet)"
    and a: "a = AddressHeader_SetNetwork n (AddressHeader_SetType (fmt_HeaderType f) 0) # blake2b 28 pub"
    by (rule EncodeAddress_Ok)
  have "n \<in> {AddressHeaderNetworkMainnet, AddressHeaderNetworkTestnet}" using n by simp
  note h = make_header [OF f(1) this, of 0]
  have len: "length a = 29" using a assms(1) by simp
  obtain s where s: "Address_Bech32String a net = Ok s" using Bech32String_Ok [OF p] by blast
  have "length s \<le> 90" using Bech32String_decodes_net(2) [OF p s] prefix_length [OF p] len by simp
  then have "address_section a net = Ok \<lparr>sc_network = net, sc_header = hd a, sc_bytes = a, sc_bech32 = s\<rparr>"
    using address_section_cases [OF p s a] a by simp
  moreover have "DecodeAddress s net = Ok a"
    using Parse_Bech32String [OF p s] h a len by (simp add: DecodeAddress_def)
  ultimately show ?thesis using enc a by auto
qed

lemma encode_all:
  assumes "\<And>d. length (blake2b 28 d) = 28" "length pub = 32" "\<forall>net\<in>set nets. Network_Valid net"
  shows "\<exists>secs. encodePubkeyAllNetworks blake2b pub nets = (secs, None) \<and> gen_networks blake2b pub nets = (secs, None) \<and>
    list_all2 (\<lambda>net sec. sc_network sec = net \<and> tl (sc_bytes sec) = blake2b 28 pub \<and> DecodeAddress (sc_bech32 sec) net = Ok (sc_bytes sec)) nets secs"
  using assms(3)
proof (induction nets)
  case (Cons net nets)
  then obtain secs where "encodePubkeyAllNetworks blake2b pub nets = (secs, None)" "gen_networks blake2b pub nets = (secs, None)"
    "list_all2 (\<lambda>net sec. sc_network sec = net \<and> tl (sc_bytes sec) = blake2b 28 pub \<and> DecodeAddress (sc_bech32 sec) net = Ok (sc_bytes sec)) nets secs"
    by auto
  moreover obtain addr sec where "EncodeAddress blake2b pub net AddressTypePayment = Ok addr" "address_section addr net = Ok sec"
    "sc_network sec = net \<and> sc_bytes sec = addr \<and> tl addr = blake2b 28 pub \<and> DecodeAddress (sc_bech32 sec) net = Ok addr"
    using payment_section [of blake2b net pub, OF assms(1) _ assms(2)] Cons.prems by auto
  ultimately show ?case by auto
qed simp

text \<open>For a key of 64 hexadecimal digits that is not the CBOR form of a key, \<open>addr_build\<close> prints one section for each of
  the three networks, with the hash of the public key in the address and a text that decodes to it.\<close>

theorem build_tool_addresses:
  assumes "\<And>d. length (blake2b 28 d) = 28" "\<And>k. length (public k) = 32" "length key = 32" "is_err (unmarshal key)"
  shows "\<exists>secs. addr_build blake2b public unmarshal (hex_EncodeToString key) = Some (secs, None) \<and>
    list_all2 (\<lambda>net sec. sc_network sec = net \<and> tl (sc_bytes sec) = blake2b 28 (public key) \<and>
      DecodeAddress (sc_bech32 sec) net = Ok (sc_bytes sec)) [NetworkMainNet, NetworkPreProd, NetworkPrivateNet] secs"
proof -
  have "CHR '' '' \<notin> set hex_digits" "CHR 0x22 \<notin> set hex_digits" by (simp_all add: hex_digits_def)
  then have no: "c \<in> set (hex_EncodeToString key) \<Longrightarrow> \<not> (c = CHR '' '' \<or> c = CHR 0x22)" for c
    using hex_EncodeToString_digits [of key] by auto
  have t: "strings_Trim (hex_EncodeToString key) = hex_EncodeToString key"
  proof -
    have "dropWhile (\<lambda>c. c = CHR '' '' \<or> c = CHR 0x22) w = w" if "set w \<subseteq> set (hex_EncodeToString key)" for w
      using that no by (cases w) auto
    then show ?thesis by (simp add: strings_Trim_def)
  qed
  have v: "\<forall>net\<in>set networks. Network_Valid net" by (simp add: networks_def Network_Valid_def)
  obtain secs where "encodePubkeyAllNetworks blake2b (public key) networks = (secs, None)"
    "list_all2 (\<lambda>net sec. sc_network sec = net \<and> tl (sc_bytes sec) = blake2b 28 (public key) \<and> DecodeAddress (sc_bech32 sec) net = Ok (sc_bytes sec)) networks secs"
    using encode_all [of blake2b "public key" networks, OF assms(1) assms(2) v] by blast
  moreover have "attemptPrivateCbor blake2b public unmarshal (hex_EncodeToString key) = None"
    using assms(4) by (cases "unmarshal key") (simp_all add: attemptPrivateCbor_def)
  ultimately show ?thesis
    using t assms(3) by (simp add: addr_build_def attemptPrivateHex_def networks_def Let_def)
qed

theorem build_tool_addresses_witness:
  "\<exists>secs. addr_build (\<lambda>n d. replicate n 7) (\<lambda>_. replicate 32 1) (\<lambda>_. Err ErrNoRows) (hex_EncodeToString (replicate 32 0xAB)) = Some (secs, None) \<and>
    list_all2 (\<lambda>net sec. sc_network sec = net \<and> tl (sc_bytes sec) = replicate 28 7 \<and>
      DecodeAddress (sc_bech32 sec) net = Ok (sc_bytes sec)) [NetworkMainNet, NetworkPreProd, NetworkPrivateNet] secs"
  using build_tool_addresses [of "\<lambda>n d. replicate n 7" "\<lambda>_. replicate 32 1" "replicate 32 0xAB" "\<lambda>_. Err ErrNoRows"] by simp

text \<open>A base address of 57 bytes has a text of more than 90 characters, and the decoder tool stops.\<close>

lemma decode_tool_stops:
  assumes "Address_Bech32String (h # t) NetworkMainNet = Ok s" "AddressHeader_Format h = Ok f" "length t = 56" "strings_Trim s = s"
  shows "addr_decode s = ([], Some (ErrMsg ''invalid bech32 string length''))"
proof -
  have p: "Network_Params NetworkMainNet = Ok MainNetParams" by (simp add: Network_Params_Ok)
  have "90 < length s" using Bech32String_decodes_net(2) [OF p assms(1)] assms(3) by simp
  then have "address_section (h # t) NetworkMainNet = Err (ErrMsg ''invalid bech32 string length'')"
    using address_section_cases [OF p assms(1) refl] by simp
  moreover have "DecodeAddress s NetworkMainNet = Ok (h # t)"
    using Parse_Bech32String [OF p assms(1)] assms(2,3) by (simp add: DecodeAddress_def)
  ultimately show ?thesis using assms(4) by (simp add: addr_decode_def networks_def)
qed

end
