(* ===== verification/Database.thy ===== *)
theory Database
  imports Prelude
begin

text \<open>
  The \<open>Database\<close> interface (src/db.go) and its SQLite implementation (src/db_sqlite.go).

  \<^item> A Go interface value is a record of its methods over the state \<open>'db\<close>: \<open>Database\<close>. A method
    that writes returns its outcome and the new state.
  \<^item> \<open>SqlLiteDatabase\<close> is the committed content of the three tables of
    \<open>initTables\<close>, each a list of rows in the order a scan meets them. SQL
    gives no order without ORDER BY; every statement below is about arbitrary tables, so about
    every order. SQL integers are \<open>int\<close>.
  \<^item> Passing a \<open>uint64\<close> as a parameter fails when its high bit is set and scanning a
    negative integer into a \<open>uint64\<close> fails, as \<open>database/sql\<close> does (\<open>sql_arg\<close>, \<open>scan_uint64\<close>).
  \<^item> Primary-key conflicts are errors of the statement. Every transaction but that of
    \<open>AddTxsForBlock\<close> is rolled back on an error return (\<open>defer tx.Rollback()\<close>).
    \<open>AddTxsForBlock\<close> returns without ending its transaction; the open transaction keeps
    the write lock, so \<open>sq_lockHeld\<close> is set and every later write is refused.
  \<^item> Not modelled: I/O failures of the driver, the index definitions and
    \<open>rollback_time\<close> (no query reads them), SQLite's limit on the number of parameters of a query.
\<close>

subsection \<open>The interface (src/db.go)\<close>

record PointRef =
  pr_Slot :: uint64
  pr_Hash :: string
  pr_Type :: int
  pr_Height :: uint64

record TxRef =
  tr_Hash :: string
  tr_BlockHeight :: uint64

definition empty_PointRef :: PointRef where
  "empty_PointRef = \<lparr>pr_Slot = 0, pr_Hash = [], pr_Type = 0, pr_Height = 0\<rparr>"

record common_Point =
  cp_Slot :: uint64
  cp_Hash :: bytes

text \<open>\<open>HexString.Bytes\<close> drops the error of the decoder and keeps the bytes before it.\<close>

definition HexString_Bytes :: "string \<Rightarrow> bytes" where
  "HexString_Bytes hs = fst (hex_DecodeString hs)"

definition PointRef_Common :: "PointRef \<Rightarrow> common_Point" where
  "PointRef_Common pr = \<lparr>cp_Slot = pr_Slot pr, cp_Hash = HexString_Bytes (pr_Hash pr)\<rparr>"

record 'db Database =
  db_AddTxsForBlock :: "TxRef list \<Rightarrow> 'db \<Rightarrow> unit res \<times> 'db"
  db_GetTxs :: "string list \<Rightarrow> 'db \<Rightarrow> TxRef list res"
  db_GetBlockNumForTx :: "string \<Rightarrow> 'db \<Rightarrow> uint64 res"
  db_AddPoints :: "PointRef list \<Rightarrow> 'db \<Rightarrow> unit res \<times> 'db"
  db_SetPointHeights :: "PointRef list \<Rightarrow> 'db \<Rightarrow> unit res \<times> 'db"
  db_GetPointByHash :: "string \<Rightarrow> 'db \<Rightarrow> PointRef res"
  db_GetPointByHeight :: "uint64 \<Rightarrow> 'db \<Rightarrow> PointRef res"
  db_GetBoundaryPointBehind :: "string \<Rightarrow> 'db \<Rightarrow> PointRef res"
  db_GetPointsBySlot :: "uint64 \<Rightarrow> 'db \<Rightarrow> PointRef list res"
  db_GetPointsForLastSlot :: "'db \<Rightarrow> PointRef list res"
  db_GetPointsForProcessing :: "int \<Rightarrow> 'db \<Rightarrow> PointRef list res"
  db_GetHighestPoint :: "'db \<Rightarrow> PointRef res"
  db_HandleRollback :: "uint64 \<Rightarrow> 'db \<Rightarrow> unit res \<times> 'db"

subsection \<open>Tables\<close>

record tx_row =
  tx_txhash :: string
  tx_block_number :: int

record point_row =
  pt_slot :: int
  pt_hash :: string
  pt_type :: int
  pt_height :: int

record rollback_row =
  rb_slot :: int
  rb_hash :: string
  rb_height :: int

record SqlLiteDatabase =
  sq_tx :: "tx_row list"
  sq_point :: "point_row list"
  sq_point_rollback :: "rollback_row list"
  sq_lockHeld :: bool

text \<open>\<open>initTables\<close> on a fresh file.\<close>

definition initTables :: SqlLiteDatabase where
  "initTables = \<lparr>sq_tx = [], sq_point = [], sq_point_rollback = [], sq_lockHeld = False\<rparr>"

text \<open>\<open>NewSqlLiteDatabase\<close>: the results of \<open>sql.Open\<close>, of \<open>Ping\<close> and of the statements of \<open>initTables\<close>, which create
  the tables if they do not exist, so that a file keeps its rows. \<open>file\<close> is what the file holds, \<open>None\<close> when it is new.\<close>

definition wrapping :: "string \<Rightarrow> unit res \<Rightarrow> 'a res \<Rightarrow> 'a res" where
  "wrapping msg r next = (case r of Ok _ \<Rightarrow> next | Err e \<Rightarrow> Err (ErrWrap msg e) | Panic p \<Rightarrow> Panic p)"

definition NewSqlLiteDatabase :: "unit res \<Rightarrow> unit res \<Rightarrow> unit res \<Rightarrow> SqlLiteDatabase option \<Rightarrow> SqlLiteDatabase res" where
  "NewSqlLiteDatabase opened pinged created file =
     wrapping ''failed to open database'' opened
       (wrapping ''failed to ping database'' pinged
         (wrapping ''failed to init tables'' created
           (Ok (case file of None \<Rightarrow> initTables | Some db \<Rightarrow> db\<lparr>sq_lockHeld := False\<rparr>))))"

definition sql_arg :: "uint64 \<Rightarrow> int res" where
  "sql_arg v =
     (if 2 ^ 63 \<le> unat v then Err (ErrMsg ''uint64 values with high bit set are not supported'')
      else Ok (uint v))"

definition scan_uint64 :: "int \<Rightarrow> uint64 res" where
  "scan_uint64 n =
     (if n < 0 then Err (ErrMsg ''converting driver.Value type int64 to a uint64: invalid syntax'')
      else Ok (of_int n))"

definition ErrConstraint :: gerror where "ErrConstraint = ErrMsg ''UNIQUE constraint failed''"
definition ErrLocked :: gerror where "ErrLocked = ErrMsg ''database is locked''"

text \<open>A write transaction: refused while another transaction holds the lock, undone on an error.\<close>

definition sql_tx :: "(SqlLiteDatabase \<Rightarrow> SqlLiteDatabase res) \<Rightarrow> SqlLiteDatabase \<Rightarrow> unit res \<times> SqlLiteDatabase" where
  "sql_tx body db =
     (if sq_lockHeld db then (Err ErrLocked, db)
      else case body db of
        Ok db' \<Rightarrow> (Ok (), db')
      | Err e \<Rightarrow> (Err e, db)
      | Panic p \<Rightarrow> (Panic p, db))"

subsection \<open>HandleRollback\<close>

definition pt_key :: "point_row \<Rightarrow> int \<times> string" where
  "pt_key r = (pt_slot r, pt_hash r)"

definition rb_key :: "rollback_row \<Rightarrow> int \<times> string" where
  "rb_key r = (rb_slot r, rb_hash r)"

definition to_rollback :: "point_row \<Rightarrow> rollback_row" where
  "to_rollback r = \<lparr>rb_slot = pt_slot r, rb_hash = pt_hash r, rb_height = pt_height r\<rparr>"

text \<open>The statements of the transaction: move the points to the rollback table (a row that is
  already there is a constraint error), delete them, delete the transactions of the heights the
  rollback table lists from that slot on.\<close>

definition rollback_stmts :: "int \<Rightarrow> SqlLiteDatabase \<Rightarrow> SqlLiteDatabase res" where
  "rollback_stmts from db =
     (let moved = map to_rollback (filter (\<lambda>r. from \<le> pt_slot r) (sq_point db));
          rolled = sq_point_rollback db @ moved
      in if distinct (map rb_key rolled)
         then Ok (db\<lparr>sq_point_rollback := rolled,
                     sq_point := filter (\<lambda>r. \<not> from \<le> pt_slot r) (sq_point db),
                     sq_tx := filter (\<lambda>t. \<not> (\<exists>r\<in>set rolled. from \<le> rb_slot r \<and> 0 \<le> rb_height r \<and>
                                               rb_height r = tx_block_number t)) (sq_tx db)\<rparr>)
         else Err ErrConstraint)"

definition HandleRollback :: "uint64 \<Rightarrow> SqlLiteDatabase \<Rightarrow> unit res \<times> SqlLiteDatabase" where
  "HandleRollback fromSlot = sql_tx (\<lambda>db. res_bind (sql_arg fromSlot) (\<lambda>from. rollback_stmts from db))"

subsection \<open>Transactions\<close>

text \<open>One INSERT statement with many rows: all of them or a constraint error.\<close>

definition insert_txs :: "tx_row list \<Rightarrow> tx_row list \<Rightarrow> tx_row list res" where
  "insert_txs rows table =
     (if distinct (map tx_txhash rows) \<and> set (map tx_txhash rows) \<inter> set (map tx_txhash table) = {}
      then Ok (table @ rows) else Err ErrConstraint)"

fun tx_args :: "TxRef list \<Rightarrow> tx_row list res" where
  "tx_args [] = Ok []"
| "tx_args (r # rs) =
     res_bind (sql_arg (tr_BlockHeight r)) (\<lambda>n.
     res_bind (tx_args rs) (\<lambda>rows. Ok (\<lparr>tx_txhash = tr_Hash r, tx_block_number = n\<rparr> # rows)))"

text \<open>
  The loop over the chunks. \<open>wrote\<close> says whether a statement of the transaction has reached
  SQLite: from then on the transaction holds the write lock, and an error return leaves
  it open. A parameter that cannot be converted fails before its statement runs.
\<close>

fun insert_chunks :: "TxRef list list \<Rightarrow> bool \<Rightarrow> SqlLiteDatabase \<Rightarrow> tx_row list \<Rightarrow> unit res \<times> SqlLiteDatabase" where
  "insert_chunks [] wrote db table = (Ok (), db\<lparr>sq_tx := table\<rparr>)"
| "insert_chunks (c # cs) wrote db table =
     (case tx_args c of
        Err e \<Rightarrow> (Err e, db\<lparr>sq_lockHeld := wrote\<rparr>)
      | Panic p \<Rightarrow> (Panic p, db\<lparr>sq_lockHeld := wrote\<rparr>)
      | Ok rows \<Rightarrow>
          (case insert_txs rows table of
             Ok table' \<Rightarrow> insert_chunks cs True db table'
           | Err e \<Rightarrow> (Err e, db\<lparr>sq_lockHeld := True\<rparr>)
           | Panic p \<Rightarrow> (Panic p, db\<lparr>sq_lockHeld := True\<rparr>)))"

definition chunkSize :: nat where "chunkSize = 499"

definition AddTxsForBlock :: "TxRef list \<Rightarrow> SqlLiteDatabase \<Rightarrow> unit res \<times> SqlLiteDatabase" where
  "AddTxsForBlock refs db =
     (if refs = [] then (Ok (), db)
      else if sq_lockHeld db then (Err ErrLocked, db)
      else insert_chunks (chunks chunkSize refs) False db (sq_tx db))"

text \<open>\<open>rows.Scan\<close> of \<open>GetTxs\<close>: its error is bound to \<open>err2\<close> but \<open>err\<close> is tested, so a height that
  does not scan is left at zero.\<close>

definition scan_tx :: "tx_row \<Rightarrow> TxRef" where
  "scan_tx t = \<lparr>tr_Hash = tx_txhash t,
     tr_BlockHeight = (case scan_uint64 (tx_block_number t) of Ok n \<Rightarrow> n | _ \<Rightarrow> 0)\<rparr>"

definition GetTxs :: "string list \<Rightarrow> SqlLiteDatabase \<Rightarrow> TxRef list res" where
  "GetTxs txHashes db =
     (if txHashes = [] then Ok []
      else Ok (map scan_tx (filter (\<lambda>t. tx_txhash t \<in> set txHashes) (sq_tx db))))"

text \<open>\<open>QueryRow\<close>: the first row of the result, or \<open>sql.ErrNoRows\<close>.\<close>

definition query_row :: "'a list \<Rightarrow> 'a res" where
  "query_row rows = (case rows of [] \<Rightarrow> Err ErrNoRows | r # _ \<Rightarrow> Ok r)"

definition GetBlockNumForTx :: "string \<Rightarrow> SqlLiteDatabase \<Rightarrow> uint64 res" where
  "GetBlockNumForTx txhash db =
     (case res_bind (query_row (filter (\<lambda>t. tx_txhash t = txhash) (sq_tx db)))
             (\<lambda>t. scan_uint64 (tx_block_number t)) of
        Err e \<Rightarrow> if errors_Is e ErrNoRows then Err (ErrWrap ''tx not found by hash'' ErrTransactionNotFound)
                 else Err e
      | r \<Rightarrow> r)"

subsection \<open>Points\<close>

text \<open>\<open>COALESCE((SELECT height FROM point WHERE slot = ? AND hash = ?), -1)\<close>\<close>

definition old_height :: "int \<times> string \<Rightarrow> point_row list \<Rightarrow> int" where
  "old_height key table = (case filter (\<lambda>r. pt_key r = key) table of [] \<Rightarrow> -1 | r # _ \<Rightarrow> pt_height r)"

definition upsert_point :: "PointRef \<Rightarrow> point_row list \<Rightarrow> point_row list res" where
  "upsert_point p table =
     res_bind (sql_arg (pr_Slot p)) (\<lambda>slot.
       Ok (filter (\<lambda>r. pt_key r \<noteq> (slot, pr_Hash p)) table @
           [\<lparr>pt_slot = slot, pt_hash = pr_Hash p, pt_type = pr_Type p,
             pt_height = old_height (slot, pr_Hash p) table\<rparr>]))"

fun upsert_points :: "PointRef list \<Rightarrow> point_row list \<Rightarrow> point_row list res" where
  "upsert_points [] table = Ok table"
| "upsert_points (p # ps) table = res_bind (upsert_point p table) (upsert_points ps)"

definition AddPoints :: "PointRef list \<Rightarrow> SqlLiteDatabase \<Rightarrow> unit res \<times> SqlLiteDatabase" where
  "AddPoints points =
     sql_tx (\<lambda>db. res_bind (upsert_points points (sq_point db)) (\<lambda>table. Ok (db\<lparr>sq_point := table\<rparr>)))"

definition set_height :: "PointRef \<Rightarrow> point_row list \<Rightarrow> point_row list res" where
  "set_height u table =
     res_bind (sql_arg (pr_Height u)) (\<lambda>h.
       Ok (map (\<lambda>r. if pt_hash r = pr_Hash u then r\<lparr>pt_height := h\<rparr> else r) table))"

fun set_heights :: "PointRef list \<Rightarrow> point_row list \<Rightarrow> point_row list res" where
  "set_heights [] table = Ok table"
| "set_heights (u # us) table = res_bind (set_height u table) (set_heights us)"

definition SetPointHeights :: "PointRef list \<Rightarrow> SqlLiteDatabase \<Rightarrow> unit res \<times> SqlLiteDatabase" where
  "SetPointHeights updates =
     sql_tx (\<lambda>db. res_bind (set_heights updates (sq_point db)) (\<lambda>table. Ok (db\<lparr>sq_point := table\<rparr>)))"

text \<open>Scanning \<open>slot, hash, type, height\<close> and \<open>slot, hash, type\<close> into a \<open>PointRef\<close>.\<close>

definition scan_point :: "point_row \<Rightarrow> PointRef res" where
  "scan_point r =
     res_bind (scan_uint64 (pt_slot r)) (\<lambda>slot.
     res_bind (scan_uint64 (pt_height r)) (\<lambda>height.
       Ok \<lparr>pr_Slot = slot, pr_Hash = pt_hash r, pr_Type = pt_type r, pr_Height = height\<rparr>))"

definition scan_point3 :: "point_row \<Rightarrow> PointRef res" where
  "scan_point3 r =
     res_bind (scan_uint64 (pt_slot r)) (\<lambda>slot.
       Ok \<lparr>pr_Slot = slot, pr_Hash = pt_hash r, pr_Type = pt_type r, pr_Height = 0\<rparr>)"

fun scan_rows :: "point_row list \<Rightarrow> PointRef list res" where
  "scan_rows [] = Ok []"
| "scan_rows (r # rs) = res_bind (scan_point3 r) (\<lambda>p. res_bind (scan_rows rs) (\<lambda>ps. Ok (p # ps)))"

text \<open>\<open>LIMIT n\<close>: no limit when \<open>n\<close> is negative.\<close>

definition sql_limit :: "int \<Rightarrow> 'a list \<Rightarrow> 'a list" where
  "sql_limit n xs = (if n < 0 then xs else take (nat n) xs)"

definition GetPointsForProcessing :: "int \<Rightarrow> SqlLiteDatabase \<Rightarrow> PointRef list res" where
  "GetPointsForProcessing batchSize db =
     scan_rows (sql_limit batchSize (sort_key pt_slot (filter (\<lambda>r. pt_height r = -1) (sq_point db))))"

definition processed_heights :: "point_row list \<Rightarrow> int list" where
  "processed_heights table = filter (\<lambda>h. 0 \<le> h) (map pt_height table)"

definition GetHighestPoint :: "SqlLiteDatabase \<Rightarrow> PointRef res" where
  "GetHighestPoint db =
     res_bind (query_row (filter (\<lambda>r. processed_heights (sq_point db) \<noteq> [] \<and>
                                   pt_height r = Max (set (processed_heights (sq_point db))) \<and>
                                   pt_type r \<noteq> 0) (sq_point db)))
       scan_point"

definition GetPointByHash :: "string \<Rightarrow> SqlLiteDatabase \<Rightarrow> PointRef res" where
  "GetPointByHash blockHash db =
     (case res_bind (query_row (filter (\<lambda>r. pt_hash r = blockHash) (sq_point db))) scan_point of
        Err e \<Rightarrow> if errors_Is e ErrNoRows then Err (ErrWrap ''point not found by block hash'' ErrBlockNotFound)
                 else Err e
      | r \<Rightarrow> r)"

definition GetPointByHeight :: "uint64 \<Rightarrow> SqlLiteDatabase \<Rightarrow> PointRef res" where
  "GetPointByHeight height db =
     (case res_bind (sql_arg height) (\<lambda>h.
             res_bind (query_row (filter (\<lambda>r. pt_height r = h \<and> pt_type r \<noteq> 0) (sq_point db))) scan_point) of
        Err e \<Rightarrow> if errors_Is e ErrNoRows then Err (ErrWrap ''point not found by height'' ErrPointNotFound)
                 else Err e
      | r \<Rightarrow> r)"

definition GetBoundaryPointBehind :: "string \<Rightarrow> SqlLiteDatabase \<Rightarrow> PointRef res" where
  "GetBoundaryPointBehind blockHash db =
     (case res_bind (query_row (filter (\<lambda>r. pt_hash r = blockHash) (sq_point db)))
             (\<lambda>r. scan_uint64 (pt_slot r)) of
        Err e \<Rightarrow> if errors_Is e ErrNoRows
                 then Err (ErrWrap ''boundary point not found by behind hash'' ErrPointNotFound)
                 else Err e
      | Panic p \<Rightarrow> Panic p
      | Ok targetSlot \<Rightarrow>
          res_bind (sql_arg targetSlot) (\<lambda>target.
          res_bind (query_row (rev (sort_key pt_slot
              (filter (\<lambda>r. pt_slot r < target \<and> pt_height r = -1) (sq_point db)))))
            scan_point))"

definition GetPointsBySlot :: "uint64 \<Rightarrow> SqlLiteDatabase \<Rightarrow> PointRef list res" where
  "GetPointsBySlot slot db =
     res_bind (sql_arg slot) (\<lambda>s.
     res_bind (scan_rows (filter (\<lambda>r. pt_slot r = s) (sq_point db))) (\<lambda>points.
       if points = [] then Err (ErrWrap ''no points found for slot'' ErrBlockNotFound) else Ok points))"

definition GetPointsForLastSlot :: "SqlLiteDatabase \<Rightarrow> PointRef list res" where
  "GetPointsForLastSlot db =
     res_bind (scan_rows (filter (\<lambda>r. pt_slot r = Max (set (map pt_slot (sq_point db)))) (sq_point db)))
       (\<lambda>points. if points = [] then Err (ErrMsg ''no points found in database'') else Ok points)"

text \<open>The implementation as an interface value.\<close>

definition sqlite :: "SqlLiteDatabase Database" where
  "sqlite = \<lparr>
     db_AddTxsForBlock = AddTxsForBlock,
     db_GetTxs = GetTxs,
     db_GetBlockNumForTx = GetBlockNumForTx,
     db_AddPoints = AddPoints,
     db_SetPointHeights = SetPointHeights,
     db_GetPointByHash = GetPointByHash,
     db_GetPointByHeight = GetPointByHeight,
     db_GetBoundaryPointBehind = GetBoundaryPointBehind,
     db_GetPointsBySlot = GetPointsBySlot,
     db_GetPointsForLastSlot = GetPointsForLastSlot,
     db_GetPointsForProcessing = GetPointsForProcessing,
     db_GetHighestPoint = GetHighestPoint,
     db_HandleRollback = HandleRollback\<rparr>"

subsection \<open>Well-formed databases\<close>

definition int63 :: "int \<Rightarrow> bool" where "int63 n \<longleftrightarrow> 0 \<le> n \<and> n < 2 ^ 63"

definition point_ok :: "point_row \<Rightarrow> bool" where
  "point_ok r \<longleftrightarrow> int63 (pt_slot r) \<and> (pt_height r = -1 \<or> int63 (pt_height r))"

definition db_wf :: "SqlLiteDatabase \<Rightarrow> bool" where
  "db_wf db \<longleftrightarrow> distinct (map pt_key (sq_point db)) \<and> list_all point_ok (sq_point db) \<and>
     distinct (map rb_key (sq_point_rollback db)) \<and>
     distinct (map tx_txhash (sq_tx db)) \<and> list_all (\<lambda>t. int63 (tx_block_number t)) (sq_tx db)"

lemma sql_arg_Ok: "sql_arg v = Ok n \<longleftrightarrow> n = uint v \<and> unat v < 2 ^ 63"
  by (auto simp: sql_arg_def)

lemma sql_arg_int63: assumes "sql_arg v = Ok n" shows "int63 n"
proof -
  have "int (unat v) < int (2 ^ 63)" using assms by (simp only: of_nat_less_iff sql_arg_Ok)
  then show ?thesis using assms by (simp add: int63_def sql_arg_Ok)
qed

lemma scan_uint64_Ok: "scan_uint64 n = Ok v \<longleftrightarrow> 0 \<le> n \<and> v = of_int n"
  by (auto simp: scan_uint64_def)

lemma sql_arg_scan: "sql_arg v = Ok n \<Longrightarrow> scan_uint64 n = Ok v"
  by (auto simp: sql_arg_Ok scan_uint64_Ok)

lemma scan_sql_arg: "int63 n \<Longrightarrow> scan_uint64 n = Ok v \<Longrightarrow> sql_arg v = Ok n"
proof -
  assume n: "int63 n" and "scan_uint64 n = Ok v"
  then have v: "v = of_int n" by (simp add: scan_uint64_Ok)
  have "uint v = n" using n by (simp add: v int63_def uint_word_of_int take_bit_int_eq_self)
  moreover have "unat v < 2 ^ 63" using n \<open>uint v = n\<close> by (simp add: int63_def unat_eq_nat_uint nat_less_iff)
  ultimately show ?thesis by (simp add: sql_arg_Ok)
qed

lemma sql_arg_no_panic [simp]: "sql_arg v \<noteq> Panic p" and scan_uint64_no_panic [simp]: "scan_uint64 n \<noteq> Panic p"
  by (simp_all add: sql_arg_def scan_uint64_def)

lemma sql_tx_cases:
  obtains (locked) "sq_lockHeld db" "sql_tx body db = (Err ErrLocked, db)"
  | (committed) db' where "\<not> sq_lockHeld db" "body db = Ok db'" "sql_tx body db = (Ok (), db')"
  | (failed) e where "\<not> sq_lockHeld db" "body db = Err e" "sql_tx body db = (Err e, db)"
  | (panicked) p where "\<not> sq_lockHeld db" "body db = Panic p" "sql_tx body db = (Panic p, db)"
proof (cases "sq_lockHeld db")
  case True
  then show ?thesis by (intro locked) (simp_all add: sql_tx_def)
next
  case False
  then show ?thesis
    by (cases "body db") (auto simp: sql_tx_def intro: committed failed panicked)
qed

lemma sql_tx_Ok: "sql_tx body db = (Ok u, db') \<longleftrightarrow> \<not> sq_lockHeld db \<and> body db = Ok db'"
  by (auto simp: sql_tx_def split: res.splits)

lemma sql_tx_error_keeps: "sql_tx body db = (r, db') \<Longrightarrow> \<not> is_ok r \<Longrightarrow> db' = db"
  by (auto simp: sql_tx_def split: res.splits if_splits)

lemma sql_tx_wf: "db_wf db \<Longrightarrow> (\<And>db'. body db = Ok db' \<Longrightarrow> db_wf db') \<Longrightarrow> db_wf (snd (sql_tx body db))"
  by (auto simp: sql_tx_def split: res.splits)

lemma rollback_stmts_Ok:
  "rollback_stmts from db = Ok db' \<Longrightarrow>
     distinct (map rb_key (sq_point_rollback db')) \<and>
     sq_point db' = filter (\<lambda>r. \<not> from \<le> pt_slot r) (sq_point db) \<and>
     (\<exists>P. sq_tx db' = filter P (sq_tx db)) \<and> sq_lockHeld db' = sq_lockHeld db"
  unfolding rollback_stmts_def Let_def by (simp only: split: if_splits) (auto simp del: distinct_append map_append)

lemma rollback_stmts_wf: "db_wf db \<Longrightarrow> rollback_stmts from db = Ok db' \<Longrightarrow> db_wf db'"
  by (drule rollback_stmts_Ok) (auto simp: db_wf_def list_all_iff distinct_map_filter)

lemma HandleRollback_wf: "db_wf db \<Longrightarrow> db_wf (snd (HandleRollback s db))"
  unfolding HandleRollback_def by (rule sql_tx_wf) (auto dest: rollback_stmts_wf)

lemma old_height_cases: "old_height k t = -1 \<or> (\<exists>r\<in>set t. pt_key r = k \<and> old_height k t = pt_height r)"
  by (auto simp: old_height_def split: list.splits dest!: filter_eq_ConsD)

lemma upsert_point_wf:
  assumes "distinct (map pt_key t)" "list_all point_ok t" "upsert_point p t = Ok t'"
  shows "distinct (map pt_key t') \<and> list_all point_ok t'"
proof -
  obtain slot where s: "sql_arg (pr_Slot p) = Ok slot"
    and t': "t' = filter (\<lambda>r. pt_key r \<noteq> (slot, pr_Hash p)) t @
       [\<lparr>pt_slot = slot, pt_hash = pr_Hash p, pt_type = pr_Type p, pt_height = old_height (slot, pr_Hash p) t\<rparr>]"
    using assms(3) by (auto simp: upsert_point_def)
  have "old_height (slot, pr_Hash p) t = -1 \<or> int63 (old_height (slot, pr_Hash p) t)"
    using old_height_cases [of "(slot, pr_Hash p)" t] assms(2) by (auto simp: list_all_iff point_ok_def)
  moreover have "distinct (map pt_key t')"
    using assms(1) by (auto simp: t' distinct_map_filter pt_key_def)
  ultimately show ?thesis using assms(2) sql_arg_int63 [OF s]
    by (auto simp: t' point_ok_def list_all_iff)
qed

lemma upsert_points_wf:
  "distinct (map pt_key t) \<Longrightarrow> list_all point_ok t \<Longrightarrow> upsert_points ps t = Ok t' \<Longrightarrow>
     distinct (map pt_key t') \<and> list_all point_ok t'"
proof (induction ps arbitrary: t)
  case (Cons p ps)
  then obtain t1 where t1: "upsert_point p t = Ok t1" "upsert_points ps t1 = Ok t'" by auto
  then show ?case using upsert_point_wf [OF Cons.prems(1,2) t1(1)] Cons.IH by blast
qed simp

lemma AddPoints_wf: "db_wf db \<Longrightarrow> db_wf (snd (AddPoints ps db))"
  unfolding AddPoints_def
  by (rule sql_tx_wf) (auto simp: db_wf_def dest: upsert_points_wf)

lemma set_height_Ok: "set_height u t = Ok t' \<longleftrightarrow> (\<exists>h. sql_arg (pr_Height u) = Ok h \<and>
   t' = map (\<lambda>r. if pt_hash r = pr_Hash u then r\<lparr>pt_height := h\<rparr> else r) t)"
  by (auto simp: set_height_def)

lemma set_height_wf: "set_height u t = Ok t' \<Longrightarrow> list_all point_ok t \<Longrightarrow>
   map pt_key t' = map pt_key t \<and> list_all point_ok t'"
  by (clarsimp simp: set_height_Ok list_all_iff) (frule sql_arg_int63, auto simp: pt_key_def point_ok_def)

lemma set_heights_wf: "set_heights us t = Ok t' \<Longrightarrow> list_all point_ok t \<Longrightarrow>
   map pt_key t' = map pt_key t \<and> list_all point_ok t'"
proof (induction us arbitrary: t)
  case (Cons u us)
  then obtain t1 where t1: "set_height u t = Ok t1" "set_heights us t1 = Ok t'" by auto
  then show ?case using set_height_wf [OF t1(1) Cons.prems(2)] Cons.IH [OF t1(2)] by simp
qed simp

lemma SetPointHeights_wf: "db_wf db \<Longrightarrow> db_wf (snd (SetPointHeights us db))"
  unfolding SetPointHeights_def
  by (rule sql_tx_wf) (auto simp: db_wf_def dest: set_heights_wf)

lemma tx_args_Ok: "tx_args rs = Ok rows \<Longrightarrow>
   list_all (\<lambda>t. int63 (tx_block_number t)) rows \<and> map tx_txhash rows = map tr_Hash rs \<and> map scan_tx rows = rs"
proof (induction rs arbitrary: rows)
  case (Cons r rs)
  then obtain n rest where n: "sql_arg (tr_BlockHeight r) = Ok n" and rest: "tx_args rs = Ok rest"
    and rows: "rows = \<lparr>tx_txhash = tr_Hash r, tx_block_number = n\<rparr> # rest" by auto
  show ?case using Cons.IH [OF rest] sql_arg_int63 [OF n] sql_arg_scan [OF n]
    by (simp add: rows scan_tx_def)
qed simp

lemma insert_txs_Ok: "insert_txs rows t = Ok t' \<longleftrightarrow>
   t' = t @ rows \<and> distinct (map tx_txhash rows) \<and> set (map tx_txhash rows) \<inter> set (map tx_txhash t) = {}"
  by (auto simp: insert_txs_def)

lemma insert_chunks_wf:
  assumes "db_wf db" "distinct (map tx_txhash t)" "list_all (\<lambda>t. int63 (tx_block_number t)) t"
  shows "db_wf (snd (insert_chunks cs w db t))"
  using assms(2,3)
proof (induction cs arbitrary: w t)
  case Nil
  then show ?case using assms(1) by (simp add: db_wf_def)
next
  case (Cons c cs)
  have keep: "db_wf (db\<lparr>sq_lockHeld := b\<rparr>)" for b using assms(1) by (simp add: db_wf_def)
  show ?case
  proof (cases "tx_args c")
    case (Ok rows)
    show ?thesis
    proof (cases "insert_txs rows t")
      case ins: (Ok t')
      then have "distinct (map tx_txhash t') \<and> list_all (\<lambda>t. int63 (tx_block_number t)) t'"
        using Cons.prems conjunct1 [OF tx_args_Ok [OF Ok]] by (auto simp: insert_txs_Ok)
      then show ?thesis by (simp add: Ok ins Cons.IH)
    qed (simp_all add: Ok keep)
  qed (simp_all add: keep)
qed

lemma AddTxsForBlock_wf: "db_wf db \<Longrightarrow> db_wf (snd (AddTxsForBlock refs db))"
  by (auto simp: AddTxsForBlock_def intro!: insert_chunks_wf) (auto simp: db_wf_def)

lemma initTables_wf: "db_wf initTables"
  by (simp add: db_wf_def initTables_def)

text \<open>Opening keeps the invariant, and frees the lock that a failed call of an earlier run left.\<close>

lemma NewSqlLiteDatabase_wf:
  assumes "NewSqlLiteDatabase opened pinged created file = Ok db" "\<And>old. file = Some old \<Longrightarrow> db_wf old"
  shows "db_wf db \<and> \<not> sq_lockHeld db"
  using assms by (auto simp: NewSqlLiteDatabase_def wrapping_def db_wf_def initTables_def split: res.splits option.splits)

end
