(* ===== verification/DatabaseSpec.thy ===== *)
theory DatabaseSpec
  imports Database
begin

text \<open>
  What the components that hold a \<open>Database\<close> may rely on, and that the SQLite implementation
  provides it.

  \<^item> \<open>ledger\<close> is the abstract state: a map from (slot, hash) to the era type and the height, if the point
    has been processed, and a map from transaction hash to height. The \<open>spec_\<close> functions
    say what each write makes of it.
  \<^item> \<open>abs_db\<close> reads the ledger off the tables; the \<open>_abs\<close> lemmas are the refinement of
    each method.
  \<^item> The locale \<open>database_contract\<close> is the interface: invariant, effect of each write, ledger
    unchanged by a failed write, what the queries return. It is
    interpreted on \<open>sqlite\<close>; the lemmas proved in it hold for every implementation.
\<close>

subsection \<open>The abstract ledger\<close>

record ledger =
  lg_points :: "uint64 \<times> string \<rightharpoonup> int \<times> uint64 option"
  lg_txs :: "string \<rightharpoonup> uint64"

definition empty_ledger :: ledger where
  "empty_ledger = \<lparr>lg_points = Map.empty, lg_txs = Map.empty\<rparr>"

definition spec_AddPoint :: "PointRef \<Rightarrow> ledger \<Rightarrow> ledger" where
  "spec_AddPoint p l = l\<lparr>lg_points := (lg_points l)((pr_Slot p, pr_Hash p) \<mapsto>
     (pr_Type p, Option.bind (lg_points l (pr_Slot p, pr_Hash p)) snd))\<rparr>"

definition spec_SetHeight :: "PointRef \<Rightarrow> ledger \<Rightarrow> ledger" where
  "spec_SetHeight u l = l\<lparr>lg_points := (\<lambda>k. if snd k = pr_Hash u
     then map_option (\<lambda>v. (fst v, Some (pr_Height u))) (lg_points l k) else lg_points l k)\<rparr>"

definition spec_AddTx :: "TxRef \<Rightarrow> ledger \<Rightarrow> ledger" where
  "spec_AddTx t l = l\<lparr>lg_txs := (lg_txs l)(tr_Hash t \<mapsto> tr_BlockHeight t)\<rparr>"

definition abs_height :: "int \<Rightarrow> uint64 option" where
  "abs_height h = (if h = -1 then None else Some (of_int h))"

definition abs_point :: "point_row \<Rightarrow> (uint64 \<times> string) \<times> int \<times> uint64 option" where
  "abs_point r = ((of_int (pt_slot r), pt_hash r), pt_type r, abs_height (pt_height r))"

definition abs_db :: "SqlLiteDatabase \<Rightarrow> ledger" where
  "abs_db db = \<lparr>lg_points = map_of (map abs_point (sq_point db)),
     lg_txs = map_of (map (\<lambda>t. (tx_txhash t, of_int (tx_block_number t))) (sq_tx db))\<rparr>"

lemma of_int_int63_eq: "int63 m \<Longrightarrow> int63 n \<Longrightarrow> (of_int m :: uint64) = of_int n \<longleftrightarrow> m = n"
  by (auto simp: int63_def word_of_int_eq_iff take_bit_int_eq_self)

lemma uint_of_int63: "int63 n \<Longrightarrow> uint (of_int n :: uint64) = n"
  by (simp add: int63_def uint_word_of_int take_bit_int_eq_self)

lemma of_int_uint64 [simp]: "of_int (uint v) = (v :: uint64)"
  by simp

lemma abs_point_key: "point_ok r \<Longrightarrow> int63 s \<Longrightarrow> fst (abs_point r) = (of_int s, h) \<longleftrightarrow> pt_key r = (s, h)"
  by (auto simp: abs_point_def pt_key_def point_ok_def of_int_int63_eq)

lemma abs_points_lookup:
  assumes "list_all point_ok t" "int63 s"
  shows "map_of (map abs_point t) (of_int s, h) =
     (case filter (\<lambda>r. pt_key r = (s, h)) t of [] \<Rightarrow> None | r # _ \<Rightarrow> Some (pt_type r, abs_height (pt_height r)))"
proof -
  have "filter (\<lambda>r. fst (abs_point r) = (of_int s, h)) t = filter (\<lambda>r. pt_key r = (s, h)) t"
    using assms by (intro filter_cong) (auto simp: abs_point_key list_all_iff)
  then show ?thesis by (simp add: map_of_map_key abs_point_def split: list.split)
qed

lemma upsert_point_abs:
  assumes "list_all point_ok t" "upsert_point p t = Ok t'"
  shows "map_of (map abs_point t') = (map_of (map abs_point t))((pr_Slot p, pr_Hash p) \<mapsto>
     (pr_Type p, Option.bind (map_of (map abs_point t) (pr_Slot p, pr_Hash p)) snd))"
proof -
  obtain s where s: "sql_arg (pr_Slot p) = Ok s"
    and t': "t' = filter (\<lambda>r. pt_key r \<noteq> (s, pr_Hash p)) t @
       [\<lparr>pt_slot = s, pt_hash = pr_Hash p, pt_type = pr_Type p, pt_height = old_height (s, pr_Hash p) t\<rparr>]"
    using assms(2) by (auto simp: upsert_point_def)
  have s63: "int63 s" and ps: "pr_Slot p = of_int s" using sql_arg_int63 [OF s] s by (auto simp: sql_arg_Ok)
  have keep: "map_of (map abs_point (filter (\<lambda>r. pt_key r \<noteq> (s, pr_Hash p)) t)) =
     map_of (map abs_point t) |` {k. k \<noteq> (pr_Slot p, pr_Hash p)}"
    using assms(1) by (intro map_of_filter_keys) (simp add: ps list_all_iff abs_point_key s63)
  have "abs_height (old_height (s, pr_Hash p) t) = Option.bind (map_of (map abs_point t) (pr_Slot p, pr_Hash p)) snd"
    using abs_points_lookup [OF assms(1) s63, of "pr_Hash p"]
    by (auto simp: ps old_height_def abs_height_def split: list.splits)
  then show ?thesis
    unfolding t' map_append map_of_append keep
    by (auto simp: abs_point_def ps map_add_def restrict_map_def fun_eq_iff split: option.split)
qed

lemma upsert_points_abs:
  "distinct (map pt_key t) \<Longrightarrow> list_all point_ok t \<Longrightarrow> upsert_points ps t = Ok t' \<Longrightarrow>
   abs_db (db\<lparr>sq_point := t'\<rparr>) = fold spec_AddPoint ps (abs_db (db\<lparr>sq_point := t\<rparr>))"
proof (induction ps arbitrary: t)
  case (Cons p ps)
  then obtain t1 where t1: "upsert_point p t = Ok t1" "upsert_points ps t1 = Ok t'" by auto
  have "abs_db (db\<lparr>sq_point := t1\<rparr>) = spec_AddPoint p (abs_db (db\<lparr>sq_point := t\<rparr>))"
    by (simp add: abs_db_def spec_AddPoint_def upsert_point_abs [OF Cons.prems(2) t1(1)])
  then show ?case using Cons.IH [OF _ _ t1(2)] upsert_point_wf [OF Cons.prems(1,2) t1(1)] by simp
qed simp

lemma set_height_abs:
  assumes "set_height u t = Ok t'"
  shows "abs_db (db\<lparr>sq_point := t'\<rparr>) = spec_SetHeight u (abs_db (db\<lparr>sq_point := t\<rparr>))"
proof -
  obtain h where h: "sql_arg (pr_Height u) = Ok h"
    and t': "t' = map (\<lambda>r. if pt_hash r = pr_Hash u then r\<lparr>pt_height := h\<rparr> else r) t"
    using assms by (auto simp: set_height_Ok)
  have ah: "abs_height h = Some (pr_Height u)" using sql_arg_int63 [OF h] h by (simp add: abs_height_def int63_def) (auto simp: sql_arg_Ok)
  have "map_of (map abs_point t') k = (if snd k = pr_Hash u
     then map_option (\<lambda>v. (fst v, Some (pr_Height u))) (map_of (map abs_point t) k) else map_of (map abs_point t) k)" for k
    unfolding t' by (induction t) (auto simp: abs_point_def [abs_def] ah)
  then show ?thesis by (simp add: abs_db_def spec_SetHeight_def fun_eq_iff)
qed

lemma set_heights_abs:
  "set_heights us t = Ok t' \<Longrightarrow>
   abs_db (db\<lparr>sq_point := t'\<rparr>) = fold spec_SetHeight us (abs_db (db\<lparr>sq_point := t\<rparr>))"
proof (induction us arbitrary: t)
  case (Cons u us)
  then obtain t1 where t1: "set_height u t = Ok t1" "set_heights us t1 = Ok t'" by auto
  show ?case using Cons.IH [OF t1(2)] set_height_abs [OF t1(1)] by simp
qed simp

lemma AddPoints_abs:
  "db_wf db \<Longrightarrow> AddPoints ps db = (Ok (), db') \<Longrightarrow> abs_db db' = fold spec_AddPoint ps (abs_db db)"
  using upsert_points_abs [of "sq_point db" ps _ db] by (auto simp: AddPoints_def sql_tx_Ok db_wf_def)

lemma SetPointHeights_abs:
  "SetPointHeights us db = (Ok (), db') \<Longrightarrow> abs_db db' = fold spec_SetHeight us (abs_db db)"
  using set_heights_abs [of us "sq_point db" _ db] by (auto simp: SetPointHeights_def sql_tx_Ok)

lemma HandleRollback_points_abs:
  assumes "db_wf db" "HandleRollback s db = (Ok (), db')"
  shows "lg_points (abs_db db') = lg_points (abs_db db) |` {k. fst k < s}"
proof -
  obtain from' where f: "sql_arg s = Ok from'" and st: "rollback_stmts from' db = Ok db'"
    using assms(2) by (auto simp: HandleRollback_def sql_tx_Ok)
  have "\<not> from' \<le> pt_slot r \<longleftrightarrow> fst (fst (abs_point r)) < s" if "r \<in> set (sq_point db)" for r
    using that assms(1) f by (auto simp: db_wf_def list_all_iff point_ok_def abs_point_def word_less_def uint_of_int63 sql_arg_Ok)
  then show ?thesis using rollback_stmts_Ok [OF st]
    by (simp add: abs_db_def map_of_filter_keys [where Q = "\<lambda>k. fst k < s"])
qed

lemma tx_args_append: "tx_args (xs @ ys) = res_bind (tx_args xs) (\<lambda>a. res_bind (tx_args ys) (\<lambda>b. Ok (a @ b)))"
proof (induction xs)
  case Nil
  show ?case by (cases "tx_args ys") auto
next
  case (Cons x xs)
  then show ?case by (cases "sql_arg (tr_BlockHeight x)"; cases "tx_args xs"; cases "tx_args ys") auto
qed

lemma insert_txs_append:
  "insert_txs (rows @ rest) t = Ok (t @ rows @ rest) \<longleftrightarrow>
     insert_txs rows t = Ok (t @ rows) \<and> insert_txs rest (t @ rows) = Ok (t @ rows @ rest)"
  by (auto simp: insert_txs_Ok)

lemma insert_txs_cases: "insert_txs rows t = Ok (t @ rows) \<or> insert_txs rows t = Err ErrConstraint"
  by (simp add: insert_txs_def)

lemma insert_chunks_Ok:
  "insert_chunks cs w db t = (Ok (), db') \<longleftrightarrow>
     (\<exists>rows. tx_args (concat cs) = Ok rows \<and> insert_txs rows t = Ok (t @ rows) \<and> db' = db\<lparr>sq_tx := t @ rows\<rparr>)"
proof (induction cs arbitrary: w t db')
  case Nil
  then show ?case by (auto simp: insert_txs_def)
next
  case (Cons c cs)
  show ?case
  proof (cases "tx_args c")
    case (Ok rows)
    show ?thesis using insert_txs_cases [of rows t] by (auto simp: Ok tx_args_append Cons.IH insert_txs_append)
  qed (simp_all add: tx_args_append)
qed

lemma insert_chunks_error_tables:
  "insert_chunks cs w db t = (r, db') \<Longrightarrow> \<not> is_ok r \<Longrightarrow> \<exists>b. db' = db\<lparr>sq_lockHeld := b\<rparr>"
  by (induction cs arbitrary: w t) (auto split: res.splits)

lemma concat_chunkSize [simp]: "concat (chunks chunkSize refs) = refs"
  by (simp add: concat_chunks chunkSize_def)

lemma AddTxsForBlock_Ok:
  "AddTxsForBlock refs db = (Ok (), db') \<longleftrightarrow>
     refs = [] \<and> db' = db \<or> refs \<noteq> [] \<and> \<not> sq_lockHeld db \<and>
     (\<exists>rows. tx_args refs = Ok rows \<and> insert_txs rows (sq_tx db) = Ok (sq_tx db @ rows) \<and>
        db' = db\<lparr>sq_tx := sq_tx db @ rows\<rparr>)"
  by (auto simp: AddTxsForBlock_def insert_chunks_Ok)

lemma AddTxsForBlock_error_tables:
  "AddTxsForBlock refs db = (r, db') \<Longrightarrow> \<not> is_ok r \<Longrightarrow> \<exists>b. db' = db\<lparr>sq_lockHeld := b\<rparr>"
  by (auto simp: AddTxsForBlock_def dest: insert_chunks_error_tables split: if_splits)
     (metis SqlLiteDatabase.surjective SqlLiteDatabase.update_convs(4))

lemma spec_AddTxs_txs: "lg_txs (fold spec_AddTx refs l) = lg_txs l ++ map_of (rev (map (\<lambda>t. (tr_Hash t, tr_BlockHeight t)) refs))"
  by (induction refs arbitrary: l) (auto simp: spec_AddTx_def map_add_def fun_eq_iff split: option.split)

lemma spec_AddTxs_points [simp]: "lg_points (fold spec_AddTx refs l) = lg_points l"
  by (induction refs arbitrary: l) (auto simp: spec_AddTx_def)

lemma AddTxsForBlock_abs:
  assumes "AddTxsForBlock refs db = (Ok (), db')"
  shows "abs_db db' = fold spec_AddTx refs (abs_db db) \<and> distinct (map tr_Hash refs) \<and>
     (\<forall>t\<in>set refs. lg_txs (abs_db db) (tr_Hash t) = None)"
proof (cases "refs = []")
  case True
  then show ?thesis using assms by (simp add: AddTxsForBlock_Ok)
next
  case False
  then obtain rows where rows: "tx_args refs = Ok rows" and ins: "insert_txs rows (sq_tx db) = Ok (sq_tx db @ rows)"
    and db': "db' = db\<lparr>sq_tx := sq_tx db @ rows\<rparr>"
    using assms by (auto simp: AddTxsForBlock_Ok)
  let ?f = "\<lambda>t. (tx_txhash t, of_int (tx_block_number t) :: uint64)"
  note ok = tx_args_Ok [OF rows]
  have heights: "map ?f rows = map (\<lambda>t. (tr_Hash t, tr_BlockHeight t)) refs"
  proof -
    have "map (\<lambda>t. (tr_Hash t, tr_BlockHeight t)) (map scan_tx rows) = map ?f rows"
      using conjunct1 [OF ok] by (simp add: scan_tx_def scan_uint64_def list_all_iff int63_def) (auto simp: not_less)
    then show ?thesis using ok by simp
  qed
  have hashes: "map tx_txhash rows = map tr_Hash refs" using ok by simp
  have dist: "distinct (map tr_Hash refs)" and fresh: "set (map tr_Hash refs) \<inter> set (map tx_txhash (sq_tx db)) = {}"
    using ins unfolding insert_txs_Ok hashes by simp_all
  have "map_of (map ?f (sq_tx db) @ map ?f rows) = map_of (map ?f (sq_tx db)) ++ map_of (map ?f rows)"
    using fresh by (intro map_of_append_disjoint) (auto simp: heights image_image)
  moreover have "map_of (rev (map ?f rows)) = map_of (map ?f rows)"
    using dist by (intro map_of_distinct_rev) (simp add: heights comp_def)
  moreover have "map_of (map ?f (sq_tx db)) (tr_Hash t) = None" if "t \<in> set refs" for t
    using fresh that by (auto simp: map_of_eq_None_iff image_image)
  ultimately show ?thesis using dist spec_AddTxs_txs [of refs "abs_db db"]
    by (auto simp: db' abs_db_def heights intro!: ledger.equality)
qed

lemma HandleRollback_txs_abs:
  assumes "db_wf db" "HandleRollback s db = (Ok (), db')"
  shows "lg_txs (abs_db db') \<subseteq>\<^sub>m lg_txs (abs_db db)"
proof -
  obtain P where "sq_tx db' = filter P (sq_tx db)"
    using assms(2) by (auto simp: HandleRollback_def sql_tx_Ok dest: rollback_stmts_Ok)
  moreover have "distinct (map tx_txhash (sq_tx db))" using assms(1) by (simp add: db_wf_def)
  ultimately show ?thesis by (auto simp: abs_db_def intro!: map_of_filter_le)
qed

definition point_key :: "PointRef \<Rightarrow> uint64 \<times> string" where
  "point_key p = (pr_Slot p, pr_Hash p)"

definition pending :: "ledger \<Rightarrow> (uint64 \<times> string) set" where
  "pending l = {k. \<exists>ty. lg_points l k = Some (ty, None)}"

definition pending_batch :: "int \<Rightarrow> PointRef list \<Rightarrow> ledger \<Rightarrow> bool" where
  "pending_batch n ps l \<longleftrightarrow>
     distinct (map point_key ps) \<and> sorted (map pr_Slot ps) \<and>
     (\<forall>p\<in>set ps. lg_points l (point_key p) = Some (pr_Type p, None) \<and> pr_Height p = 0) \<and>
     (\<forall>k\<in>pending l. k \<in> point_key ` set ps \<or> (\<forall>p\<in>set ps. pr_Slot p \<le> fst k)) \<and>
     int (length ps) = (if n < 0 then int (card (pending l)) else min n (int (card (pending l))))"

lemma db_wf_points: "db_wf db \<Longrightarrow> distinct (map pt_key (sq_point db)) \<and> list_all point_ok (sq_point db)"
  by (simp add: db_wf_def)

definition row_key :: "point_row \<Rightarrow> uint64 \<times> string" where
  "row_key r = (of_int (pt_slot r), pt_hash r)"

lemma inj_row_key:
  assumes "db_wf db" "r \<in> set (sq_point db)" "r' \<in> set (sq_point db)" "row_key r = row_key r'"
  shows "r = r'"
proof -
  have "pt_key r = pt_key r'"
    using assms by (auto simp: row_key_def pt_key_def db_wf_def list_all_iff point_ok_def of_int_int63_eq)
  then show ?thesis using assms by (auto simp: db_wf_def distinct_map inj_on_def)
qed

lemma lookup_row:
  assumes "db_wf db"
  shows "lg_points (abs_db db) k = Some (ty, h) \<longleftrightarrow>
     (\<exists>r\<in>set (sq_point db). row_key r = k \<and> pt_type r = ty \<and> abs_height (pt_height r) = h)"
proof -
  have "distinct (map fst (map abs_point (sq_point db)))"
    using assms inj_row_key [OF assms]
    by (auto simp: distinct_map inj_on_def db_wf_def abs_point_def row_key_def comp_def)
  then have "lg_points (abs_db db) k = Some (ty, h) \<longleftrightarrow> (k, ty, h) \<in> set (map abs_point (sq_point db))"
    by (simp add: abs_db_def)
  then show ?thesis by (auto simp: abs_point_def row_key_def image_iff)
qed

lemma abs_height_None [simp]: "abs_height h = None \<longleftrightarrow> h = -1"
  by (simp add: abs_height_def)

lemma abs_height_Some: "abs_height h = Some v \<longleftrightarrow> h \<noteq> -1 \<and> v = of_int h"
  by (auto simp: abs_height_def)

lemma pending_rows: "db_wf db \<Longrightarrow> pending (abs_db db) = row_key ` set (filter (\<lambda>r. pt_height r = -1) (sq_point db))"
  by (auto simp: pending_def lookup_row abs_height_None image_iff Bex_def intro: sym; metis)

definition scanned :: "point_row \<Rightarrow> PointRef" where
  "scanned r = \<lparr>pr_Slot = of_int (pt_slot r), pr_Hash = pt_hash r, pr_Type = pt_type r, pr_Height = 0\<rparr>"

lemma scan_rows_Ok: "list_all point_ok rs \<Longrightarrow> scan_rows rs = Ok (map scanned rs)"
  by (induction rs) (auto simp: scan_point3_def scan_uint64_def scanned_def point_ok_def int63_def)

lemma point_key_scanned [simp]: "point_key (scanned r) = row_key r"
  by (simp add: point_key_def scanned_def row_key_def)

lemma scanned_simps [simp]:
  "pr_Slot (scanned r) = of_int (pt_slot r)" "pr_Type (scanned r) = pt_type r" "pr_Height (scanned r) = 0"
  by (simp_all add: scanned_def)

lemma of_int_mono63: "int63 m \<Longrightarrow> int63 n \<Longrightarrow> m \<le> n \<Longrightarrow> (of_int m :: uint64) \<le> of_int n"
  by (simp add: word_le_def uint_of_int63)

lemma length_sql_limit: "int (length (sql_limit n xs)) = (if n < 0 then int (length xs) else min n (int (length xs)))"
  by (auto simp: sql_limit_def)

lemma set_sql_limit: "set (sql_limit n xs) \<subseteq> set xs"
  by (auto simp: sql_limit_def dest: in_set_takeD)

lemma sorted_sql_limit:
  assumes "sorted (map f xs)"
  shows "sorted (map f (sql_limit n xs)) \<and> (\<forall>x\<in>set xs. x \<in> set (sql_limit n xs) \<or> (\<forall>y\<in>set (sql_limit n xs). f y \<le> f x))"
proof -
  have "(\<forall>x\<in>set (take m xs) \<union> set (drop m xs). x \<in> set (take m xs) \<or> (\<forall>y\<in>set (take m xs). f y \<le> f x)) \<and> sorted (map f (take m xs))" for m
    using assms by (subst (asm) append_take_drop_id [of m, symmetric]) (auto simp: sorted_append simp del: append_take_drop_id)
  moreover have "set (take m xs) \<union> set (drop m xs) = set xs" for m
    by (metis append_take_drop_id set_append)
  ultimately show ?thesis using assms by (auto simp: sql_limit_def)
qed

lemma GetPointsForProcessing_pending:
  assumes "db_wf db"
  shows "\<exists>ps. GetPointsForProcessing n db = Ok ps \<and> pending_batch n ps (abs_db db)"
proof -
  define cand where "cand = sort_key pt_slot (filter (\<lambda>r. pt_height r = -1) (sq_point db))"
  define rs where "rs = sql_limit n cand"
  have cand: "set cand \<subseteq> set (sq_point db)" "sorted (map pt_slot cand)" "distinct cand"
    "pending (abs_db db) = row_key ` set cand" "\<forall>r\<in>set cand. pt_height r = -1"
    using assms pending_rows [OF assms] by (auto simp: cand_def db_wf_def distinct_map)
  have inj: "inj_on row_key (set (sq_point db))" using inj_row_key [OF assms] by (auto intro: inj_onI)
  have sub: "set rs \<subseteq> set cand" by (simp add: rs_def set_sql_limit)
  have ok: "list_all point_ok rs" "\<And>r. r \<in> set cand \<Longrightarrow> int63 (pt_slot r)"
    using assms sub cand(1) by (auto simp: db_wf_def list_all_iff point_ok_def)
  have srt: "sorted (map pt_slot rs)" "\<forall>x\<in>set cand. x \<in> set rs \<or> (\<forall>y\<in>set rs. pt_slot y \<le> pt_slot x)"
    using sorted_sql_limit [OF cand(2)] by (auto simp: rs_def)
  have "distinct (map row_key rs)"
    using cand(3) inj_on_subset [OF inj subset_trans [OF sub cand(1)]] by (simp add: distinct_map) (simp add: rs_def sql_limit_def)
  moreover have "sorted (map pr_Slot (map scanned rs))"
    using srt(1) sub ok(2) by (auto simp: sorted_map comp_def elim!: sorted_wrt_mono_rel [rotated] intro!: of_int_mono63)
  moreover have "\<forall>r\<in>set rs. lg_points (abs_db db) (row_key r) = Some (pt_type r, None)"
    using sub cand(1,5) by (auto simp: lookup_row [OF assms])
  moreover have "\<forall>k\<in>pending (abs_db db). k \<in> row_key ` set rs \<or> (\<forall>r\<in>set rs. of_int (pt_slot r) \<le> fst k)"
    using srt(2) cand(4) sub ok(2) by (auto simp: row_key_def intro!: of_int_mono63)
  moreover have "card (pending (abs_db db)) = length cand"
    using cand inj by (simp add: card_image inj_on_subset distinct_card)
  ultimately have "pending_batch n (map scanned rs) (abs_db db)"
    by (auto simp: pending_batch_def comp_def length_sql_limit image_image) (simp_all add: rs_def length_sql_limit, simp add: sql_limit_def)
  then show ?thesis using scan_rows_Ok [OF ok(1)] by (simp add: GetPointsForProcessing_def rs_def cand_def)
qed

lemma query_row_Ok: "query_row rs = Ok r \<Longrightarrow> r \<in> set rs"
  by (auto simp: query_row_def split: list.splits)

lemma query_row_Err: "query_row rs = Err e \<longleftrightarrow> rs = [] \<and> e = ErrNoRows"
  by (auto simp: query_row_def split: list.splits)

lemma scan_point_Ok:
  assumes "point_ok r" "scan_point r = Ok p"
  shows "point_key p = row_key r \<and> pr_Type p = pt_type r \<and> abs_height (pt_height r) = Some (pr_Height p) \<and>
     uint (pr_Height p) = pt_height r"
proof -
  have "int63 (pt_height r)" using assms by (auto simp: point_ok_def scan_point_def scan_uint64_def split: if_splits)
  then show ?thesis using assms
    by (auto simp: scan_point_def scan_uint64_Ok point_key_def row_key_def abs_height_def uint_of_int63 int63_def)
qed

definition stored :: "ledger \<Rightarrow> PointRef \<Rightarrow> bool" where
  "stored l p \<longleftrightarrow> lg_points l (point_key p) = Some (pr_Type p, Some (pr_Height p))"

lemma scan_point_stored:
  "db_wf db \<Longrightarrow> r \<in> set (sq_point db) \<Longrightarrow> scan_point r = Ok p \<Longrightarrow> stored (abs_db db) p"
  using scan_point_Ok [of r p] by (auto simp: stored_def lookup_row db_wf_def list_all_iff)

lemma GetHighestPoint_stored:
  assumes "db_wf db" "GetHighestPoint db = Ok p"
  shows "stored (abs_db db) p \<and> pr_Type p \<noteq> 0 \<and>
    (\<forall>k ty h. lg_points (abs_db db) k = Some (ty, Some h) \<longrightarrow> h \<le> pr_Height p)"
proof -
  let ?H = "processed_heights (sq_point db)"
  obtain r where r: "r \<in> set (sq_point db)" "pt_height r = Max (set ?H)" "pt_type r \<noteq> 0" "scan_point r = Ok p"
    using assms(2) by (auto simp: GetHighestPoint_def dest!: query_row_Ok)
  have ok: "point_ok r'" if "r' \<in> set (sq_point db)" for r' using assms(1) that by (simp add: db_wf_def list_all_iff)
  note p = scan_point_Ok [OF ok [OF r(1)] r(4)]
  have "h \<le> pr_Height p" if look: "lg_points (abs_db db) k = Some (ty, Some h)" for k ty h
  proof -
    obtain r' where r': "r' \<in> set (sq_point db)" "pt_height r' \<noteq> -1" "h = of_int (pt_height r')"
      using look by (auto simp: lookup_row [OF assms(1)] abs_height_Some)
    then have h: "int63 (pt_height r')" using ok [OF r'(1)] by (simp add: point_ok_def)
    then have "pt_height r' \<in> set ?H" using r'(1) by (auto simp: processed_heights_def int63_def)
    then have "pt_height r' \<le> pt_height r" using r(2) by simp
    then show ?thesis using p h r'(3) by (simp add: word_le_def uint_of_int63)
  qed
  then show ?thesis using scan_point_stored [OF assms(1) r(1,4)] p r(3) by auto
qed

lemma GetPointByHash_stored:
  "db_wf db \<Longrightarrow> GetPointByHash h db = Ok p \<Longrightarrow> stored (abs_db db) p \<and> pr_Hash p = h"
  by (auto simp: GetPointByHash_def split: res.splits if_splits dest!: query_row_Ok)
     (auto simp: scan_point_stored, auto simp: scan_point_def)

lemma GetPointByHeight_stored:
  "db_wf db \<Longrightarrow> GetPointByHeight h db = Ok p \<Longrightarrow> stored (abs_db db) p \<and> pr_Height p = h \<and> pr_Type p \<noteq> 0"
  by (auto simp: GetPointByHeight_def split: res.splits if_splits dest!: query_row_Ok)
     (auto simp: scan_point_stored, auto simp: scan_point_def scan_uint64_Ok sql_arg_Ok)

lemma sql_tx_error_snd: "\<not> is_ok (fst (sql_tx body db)) \<Longrightarrow> snd (sql_tx body db) = db"
  by (auto simp: sql_tx_def split: res.splits if_splits)

lemma write_error_abs:
  "\<not> is_ok (fst (AddPoints ps db)) \<Longrightarrow> abs_db (snd (AddPoints ps db)) = abs_db db"
  "\<not> is_ok (fst (SetPointHeights ps db)) \<Longrightarrow> abs_db (snd (SetPointHeights ps db)) = abs_db db"
  "\<not> is_ok (fst (HandleRollback s db)) \<Longrightarrow> abs_db (snd (HandleRollback s db)) = abs_db db"
  by (simp_all add: AddPoints_def SetPointHeights_def HandleRollback_def sql_tx_error_snd)

lemma AddTxsForBlock_error_abs:
  "\<not> is_ok (fst (AddTxsForBlock ts db)) \<Longrightarrow> abs_db (snd (AddTxsForBlock ts db)) = abs_db db"
proof -
  assume "\<not> is_ok (fst (AddTxsForBlock ts db))"
  then obtain b where "snd (AddTxsForBlock ts db) = db\<lparr>sq_lockHeld := b\<rparr>"
    using AddTxsForBlock_error_tables [of ts db] by (metis prod.collapse)
  then show ?thesis by (simp add: abs_db_def)
qed

subsection \<open>The contract\<close>

locale database_contract =
  fixes D :: "'db Database" and inv :: "'db \<Rightarrow> bool" and abs :: "'db \<Rightarrow> ledger"
  assumes inv_AddPoints: "inv db \<Longrightarrow> inv (snd (db_AddPoints D ps db))"
    and inv_SetPointHeights: "inv db \<Longrightarrow> inv (snd (db_SetPointHeights D ps db))"
    and inv_AddTxsForBlock: "inv db \<Longrightarrow> inv (snd (db_AddTxsForBlock D ts db))"
    and inv_HandleRollback: "inv db \<Longrightarrow> inv (snd (db_HandleRollback D s db))"
    and abs_AddPoints: "inv db \<Longrightarrow> db_AddPoints D ps db = (Ok (), db') \<Longrightarrow> abs db' = fold spec_AddPoint ps (abs db)"
    and abs_SetPointHeights: "inv db \<Longrightarrow> db_SetPointHeights D ps db = (Ok (), db') \<Longrightarrow> abs db' = fold spec_SetHeight ps (abs db)"
    and abs_AddTxsForBlock: "inv db \<Longrightarrow> db_AddTxsForBlock D ts db = (Ok (), db') \<Longrightarrow>
       abs db' = fold spec_AddTx ts (abs db) \<and> distinct (map tr_Hash ts) \<and> (\<forall>t\<in>set ts. lg_txs (abs db) (tr_Hash t) = None)"
    and abs_HandleRollback: "inv db \<Longrightarrow> db_HandleRollback D s db = (Ok (), db') \<Longrightarrow>
       lg_points (abs db') = lg_points (abs db) |` {k. fst k < s} \<and> lg_txs (abs db') \<subseteq>\<^sub>m lg_txs (abs db)"
    and error_AddPoints: "inv db \<Longrightarrow> \<not> is_ok (fst (db_AddPoints D ps db)) \<Longrightarrow> abs (snd (db_AddPoints D ps db)) = abs db"
    and error_SetPointHeights: "inv db \<Longrightarrow> \<not> is_ok (fst (db_SetPointHeights D ps db)) \<Longrightarrow> abs (snd (db_SetPointHeights D ps db)) = abs db"
    and error_AddTxsForBlock: "inv db \<Longrightarrow> \<not> is_ok (fst (db_AddTxsForBlock D ts db)) \<Longrightarrow> abs (snd (db_AddTxsForBlock D ts db)) = abs db"
    and error_HandleRollback: "inv db \<Longrightarrow> \<not> is_ok (fst (db_HandleRollback D s db)) \<Longrightarrow> abs (snd (db_HandleRollback D s db)) = abs db"
    and get_pending: "inv db \<Longrightarrow> \<exists>ps. db_GetPointsForProcessing D n db = Ok ps \<and> pending_batch n ps (abs db)"
    and get_highest: "inv db \<Longrightarrow> db_GetHighestPoint D db = Ok p \<Longrightarrow> stored (abs db) p \<and> pr_Type p \<noteq> 0 \<and>
       (\<forall>k ty h. lg_points (abs db) k = Some (ty, Some h) \<longrightarrow> h \<le> pr_Height p)"

interpretation sq: database_contract sqlite db_wf abs_db
  by unfold_locales
    (simp_all add: sqlite_def AddPoints_wf SetPointHeights_wf AddTxsForBlock_wf HandleRollback_wf AddPoints_abs
      SetPointHeights_abs AddTxsForBlock_abs HandleRollback_points_abs HandleRollback_txs_abs write_error_abs
      AddTxsForBlock_error_abs GetPointsForProcessing_pending GetHighestPoint_stored)

datatype db_op =
    OpAddPoints "PointRef list"
  | OpSetPointHeights "PointRef list"
  | OpAddTxs "TxRef list"
  | OpRollback uint64

fun run_op :: "'db Database \<Rightarrow> db_op \<Rightarrow> 'db \<Rightarrow> 'db" where
  "run_op D (OpAddPoints ps) db = snd (db_AddPoints D ps db)"
| "run_op D (OpSetPointHeights us) db = snd (db_SetPointHeights D us db)"
| "run_op D (OpAddTxs ts) db = snd (db_AddTxsForBlock D ts db)"
| "run_op D (OpRollback s) db = snd (db_HandleRollback D s db)"

fun op_ok :: "'db Database \<Rightarrow> db_op \<Rightarrow> 'db \<Rightarrow> bool" where
  "op_ok D (OpAddPoints ps) db = is_ok (fst (db_AddPoints D ps db))"
| "op_ok D (OpSetPointHeights us) db = is_ok (fst (db_SetPointHeights D us db))"
| "op_ok D (OpAddTxs ts) db = is_ok (fst (db_AddTxsForBlock D ts db))"
| "op_ok D (OpRollback s) db = is_ok (fst (db_HandleRollback D s db))"

text \<open>What an operation that succeeds may make of the ledger.\<close>

fun spec_op :: "db_op \<Rightarrow> ledger \<Rightarrow> ledger \<Rightarrow> bool" where
  "spec_op (OpAddPoints ps) l l' = (l' = fold spec_AddPoint ps l)"
| "spec_op (OpSetPointHeights us) l l' = (l' = fold spec_SetHeight us l)"
| "spec_op (OpAddTxs ts) l l' = (l' = fold spec_AddTx ts l \<and> distinct (map tr_Hash ts) \<and>
     (\<forall>t\<in>set ts. lg_txs l (tr_Hash t) = None))"
| "spec_op (OpRollback s) l l' = (lg_points l' = lg_points l |` {k. fst k < s} \<and> lg_txs l' \<subseteq>\<^sub>m lg_txs l)"

fun op_keeps :: "uint64 \<times> string \<Rightarrow> db_op \<Rightarrow> bool" where
  "op_keeps k (OpAddPoints ps) = (k \<notin> point_key ` set ps)"
| "op_keeps k (OpSetPointHeights us) = (snd k \<notin> pr_Hash ` set us)"
| "op_keeps k (OpAddTxs ts) = True"
| "op_keeps k (OpRollback s) = (fst k < s)"

lemma AddPoints_lookup:
  "lg_points (fold spec_AddPoint ps l) k = (case filter (\<lambda>p. point_key p = k) (rev ps) of
     [] \<Rightarrow> lg_points l k | p # _ \<Rightarrow> Some (pr_Type p, Option.bind (lg_points l k) snd))"
  by (induction ps rule: rev_induct) (auto simp: spec_AddPoint_def point_key_def split: list.splits)

lemma SetHeights_other:
  "snd k \<notin> pr_Hash ` set us \<Longrightarrow> lg_points (fold spec_SetHeight us l) k = lg_points l k"
  by (induction us arbitrary: l) (auto simp: spec_SetHeight_def)

lemma SetHeights_lookup:
  "lg_points (fold spec_SetHeight us l) k = (case filter (\<lambda>u. pr_Hash u = snd k) (rev us) of
     [] \<Rightarrow> lg_points l k | u # _ \<Rightarrow> map_option (\<lambda>v. (fst v, Some (pr_Height u))) (lg_points l k))"
  by (induction us rule: rev_induct) (auto simp: spec_SetHeight_def option.map_comp comp_def split: list.splits option.splits)

lemma SetHeights_None:
  "lg_points (fold spec_SetHeight us l) k = Some (ty, None) \<longleftrightarrow>
     snd k \<notin> pr_Hash ` set us \<and> lg_points l k = Some (ty, None)"
proof (cases "filter (\<lambda>u. pr_Hash u = snd k) (rev us)")
  case Nil
  then have "snd k \<notin> pr_Hash ` set us" by (auto simp: filter_empty_conv)
  then show ?thesis by (simp add: SetHeights_other)
next
  case (Cons u rest)
  then have "u \<in> set (filter (\<lambda>u. pr_Hash u = snd k) (rev us))" by simp
  then have "snd k \<in> pr_Hash ` set us" by (auto intro: rev_image_eqI)
  then show ?thesis by (simp add: SetHeights_lookup Cons)
qed

lemma spec_points_txs [simp]:
  "lg_txs (fold spec_AddPoint ps l) = lg_txs l" "lg_txs (fold spec_SetHeight ps l) = lg_txs l"
  by (induction ps arbitrary: l) (auto simp: spec_AddPoint_def spec_SetHeight_def)

lemma spec_op_keeps: "op_keeps k oper \<Longrightarrow> spec_op oper l l' \<Longrightarrow> lg_points l' k = lg_points l k"
proof (cases oper)
  case (OpAddPoints ps)
  assume "op_keeps k oper" "spec_op oper l l'"
  moreover from this have "filter (\<lambda>p. point_key p = k) (rev ps) = []"
    using OpAddPoints by (auto simp: filter_empty_conv)
  ultimately show ?thesis using OpAddPoints by (simp add: AddPoints_lookup)
qed (auto simp: SetHeights_other restrict_map_def)

context database_contract
begin

lemma inv_run_op: "inv db \<Longrightarrow> inv (run_op D oper db)"
  by (cases oper) (simp_all add: inv_AddPoints inv_SetPointHeights inv_AddTxsForBlock inv_HandleRollback)

lemma inv_run: "inv db \<Longrightarrow> inv (fold (run_op D) ops db)"
  by (induction ops arbitrary: db) (simp_all add: inv_run_op)

lemma refines:
  assumes "inv db"
  shows "if op_ok D oper db then spec_op oper (abs db) (abs (run_op D oper db)) else abs (run_op D oper db) = abs db"
proof (cases oper)
  case (OpAddPoints ps)
  then show ?thesis using abs_AddPoints [OF assms] error_AddPoints [OF assms, of ps]
    by (cases "db_AddPoints D ps db"; cases "fst (db_AddPoints D ps db)") auto
next
  case (OpSetPointHeights us)
  then show ?thesis using abs_SetPointHeights [OF assms] error_SetPointHeights [OF assms, of us]
    by (cases "db_SetPointHeights D us db"; cases "fst (db_SetPointHeights D us db)") auto
next
  case (OpAddTxs ts)
  then show ?thesis using abs_AddTxsForBlock [OF assms, of ts] error_AddTxsForBlock [OF assms, of ts]
    by (cases "db_AddTxsForBlock D ts db"; cases "fst (db_AddTxsForBlock D ts db)") auto
next
  case (OpRollback s)
  then show ?thesis using abs_HandleRollback [OF assms, of s] error_HandleRollback [OF assms, of s]
    by (cases "db_HandleRollback D s db"; cases "fst (db_HandleRollback D s db)") auto
qed

lemma run_op_keeps:
  assumes "inv db" "op_keeps k oper"
  shows "lg_points (abs (run_op D oper db)) k = lg_points (abs db) k"
  using refines [OF assms(1), of oper] spec_op_keeps [OF assms(2), of "abs db"]
  by (auto split: if_splits)

lemma run_keeps:
  "inv db \<Longrightarrow> list_all (op_keeps k) ops \<Longrightarrow> lg_points (abs (fold (run_op D) ops db)) k = lg_points (abs db) k"
  by (induction ops arbitrary: db) (simp_all add: inv_run_op run_op_keeps)

text \<open>A batch whose heights have been set is not handed out again.\<close>

lemma batch_not_pending_again:
  assumes "inv db" "db_SetPointHeights D us db = (Ok (), db')" "db_GetPointsForProcessing D n db' = Ok ps"
    "p \<in> set ps"
  shows "pr_Hash p \<notin> pr_Hash ` set us \<and> point_key p \<in> pending (abs db)"
proof -
  have inv': "inv db'" using inv_SetPointHeights [OF assms(1), of us] assms(2) by simp
  obtain ty where look: "lg_points (abs db') (point_key p) = Some (ty, None)"
    using get_pending [OF inv', of n] assms(3,4) by (auto simp: pending_batch_def)
  then show ?thesis
    by (auto simp: abs_SetPointHeights [OF assms(1,2)] SetHeights_None pending_def point_key_def)
qed

lemma processed_monotone:
  assumes "inv db" "db_SetPointHeights D us db = (Ok (), db')"
  shows "pending (abs db') = {k \<in> pending (abs db). snd k \<notin> pr_Hash ` set us}"
  by (auto simp: abs_SetPointHeights [OF assms] pending_def SetHeights_None)

end

subsection \<open>Transaction lookups\<close>

lemma find_tx_row:
  "db_wf db \<Longrightarrow> t \<in> set (sq_tx db) \<Longrightarrow> filter (\<lambda>x. tx_txhash x = tx_txhash t) (sq_tx db) = [t]"
  by (rule filter_unique) (simp_all add: db_wf_def)

lemma txs_lookup:
  assumes "db_wf db"
  shows "lg_txs (abs_db db) h = Some n \<longleftrightarrow> (\<exists>t\<in>set (sq_tx db). tx_txhash t = h \<and> of_int (tx_block_number t) = n)"
proof -
  have "distinct (map fst (map (\<lambda>t. (tx_txhash t, of_int (tx_block_number t) :: uint64)) (sq_tx db)))"
    using assms by (simp add: db_wf_def comp_def)
  then show ?thesis by (auto simp: abs_db_def image_iff)
qed

lemma GetBlockNumForTx_lookup:
  assumes "db_wf db"
  shows "GetBlockNumForTx h db = (case lg_txs (abs_db db) h of Some n \<Rightarrow> Ok n
     | None \<Rightarrow> Err (ErrWrap ''tx not found by hash'' ErrTransactionNotFound))"
proof (cases "lg_txs (abs_db db) h")
  case None
  then have "filter (\<lambda>t. tx_txhash t = h) (sq_tx db) = []"
    by (auto simp: abs_db_def map_of_eq_None_iff filter_empty_conv image_iff)
  then show ?thesis by (simp add: None GetBlockNumForTx_def query_row_def)
next
  case (Some n)
  then obtain t where t: "t \<in> set (sq_tx db)" "tx_txhash t = h" "of_int (tx_block_number t) = n"
    using txs_lookup [OF assms] by blast
  have "int63 (tx_block_number t)" using assms t(1) by (simp add: db_wf_def list_all_iff)
  then show ?thesis using find_tx_row [OF assms t(1)] t(2,3)
    by (simp add: Some GetBlockNumForTx_def query_row_def scan_uint64_def int63_def)
qed

lemma GetTxs_lookup:
  assumes "db_wf db" "hs \<noteq> []"
  shows "\<exists>ts. GetTxs hs db = Ok ts \<and> distinct (map tr_Hash ts) \<and>
     set ts = {\<lparr>tr_Hash = h, tr_BlockHeight = n\<rparr> | h n. h \<in> set hs \<and> lg_txs (abs_db db) h = Some n}"
proof -
  let ?rows = "filter (\<lambda>t. tx_txhash t \<in> set hs) (sq_tx db)"
  have scan: "scan_tx t = \<lparr>tr_Hash = tx_txhash t, tr_BlockHeight = of_int (tx_block_number t)\<rparr>" if "t \<in> set (sq_tx db)" for t
    using assms(1) that by (auto simp: scan_tx_def scan_uint64_def db_wf_def list_all_iff int63_def)
  have "distinct (map tr_Hash (map scan_tx ?rows))"
    using assms(1) by (simp add: db_wf_def scan_tx_def comp_def distinct_map_filter)
  moreover have "set (map scan_tx ?rows) =
     {\<lparr>tr_Hash = h, tr_BlockHeight = n\<rparr> | h n. h \<in> set hs \<and> lg_txs (abs_db db) h = Some n}"
    by (auto simp: txs_lookup [OF assms(1)] scan image_iff)
  ultimately show ?thesis using assms(2) by (auto simp: GetTxs_def)
qed

lemma AddTxs_lookup:
  assumes "distinct (map tr_Hash ts)" "t \<in> set ts"
  shows "lg_txs (fold spec_AddTx ts l) (tr_Hash t) = Some (tr_BlockHeight t)"
proof -
  have "map_of (rev (map (\<lambda>t. (tr_Hash t, tr_BlockHeight t)) ts)) (tr_Hash t) = Some (tr_BlockHeight t)"
    using assms by (simp add: map_of_distinct_rev comp_def)
  then show ?thesis by (simp add: spec_AddTxs_txs)
qed

lemma AddTxs_lookup_other:
  "h \<notin> tr_Hash ` set ts \<Longrightarrow> lg_txs (fold spec_AddTx ts l) h = lg_txs l h"
  by (induction ts arbitrary: l) (auto simp: spec_AddTx_def)

subsection \<open>Properties\<close>

lemmas sqlite_eval = sqlite_def AddPoints_def SetPointHeights_def AddTxsForBlock_def HandleRollback_def
  GetPointsForProcessing_def sql_tx_def initTables_def sql_arg_def upsert_point_def old_height_def pt_key_def
  set_height_def rollback_stmts_def to_rollback_def rb_key_def sql_limit_def scan_point3_def scan_uint64_def
  chunks.simps chunkSize_def insert_txs_def Let_def

definition ex_point :: "uint64 \<Rightarrow> string \<Rightarrow> uint64 \<Rightarrow> PointRef" where
  "ex_point s h n = \<lparr>pr_Slot = s, pr_Hash = h, pr_Type = 6, pr_Height = n\<rparr>"

definition ex_db :: "point_row list \<Rightarrow> rollback_row list \<Rightarrow> SqlLiteDatabase" where
  "ex_db ps rbs = \<lparr>sq_tx = [], sq_point = ps, sq_point_rollback = rbs, sq_lockHeld = False\<rparr>"

definition ex_row :: "int \<Rightarrow> string \<Rightarrow> int \<Rightarrow> point_row" where
  "ex_row s h n = \<lparr>pt_slot = s, pt_hash = h, pt_type = 6, pt_height = n\<rparr>"

text \<open>Claim C16 (db_reachable_wf): whatever sequence of writes, failed ones included, is run on a fresh
  database, the primary keys stay unique and every slot and height stays in the range that comes
  back from SQLite as the same \<open>uint64\<close> (a height of -1 marks a point that has not been
  processed).\<close>

theorem db_reachable_wf: "db_wf (fold (run_op sqlite) ops initTables)"
  by (rule sq.inv_run [OF initTables_wf])

text \<open>Claim C1 (db_refines_ledger): the SQLite implementation refines the ledger. A write that succeeds
  has the effect of its specification (adding a point keeps the height it had, setting heights
  touches exactly the points with the given hashes, transactions are inserted only when fresh and
  distinct, a rollback keeps exactly the points before the slot and adds no transaction); a write
  that fails leaves the ledger as it was.\<close>

theorem db_refines_ledger:
  assumes "db_wf db"
  shows "if op_ok sqlite oper db then spec_op oper (abs_db db) (abs_db (run_op sqlite oper db))
         else abs_db (run_op sqlite oper db) = abs_db db"
  by (rule sq.refines [OF assms])

theorem db_refines_ledger_witness:
  "spec_op (OpRollback 7) (abs_db (run_op sqlite (OpAddPoints [\<lparr>pr_Slot = 9, pr_Hash = ''aa'', pr_Type = 6, pr_Height = 0\<rparr>]) initTables))
     (abs_db (fold (run_op sqlite) [OpAddPoints [\<lparr>pr_Slot = 9, pr_Hash = ''aa'', pr_Type = 6, pr_Height = 0\<rparr>], OpRollback 7] initTables))"
  using db_refines_ledger [OF sq.inv_run_op [OF initTables_wf],
      of "OpRollback 7" "OpAddPoints [\<lparr>pr_Slot = 9, pr_Hash = ''aa'', pr_Type = 6, pr_Height = 0\<rparr>]"]
  by (simp add: sqlite_def AddPoints_def HandleRollback_def sql_tx_def initTables_def sql_arg_def upsert_point_def
      rollback_stmts_def)

text \<open>Claim C17 (pending_queue): \<open>GetPointsForProcessing\<close> never fails on a well-formed
  database and returns a batch of the pending points: distinct, of unset height, in slot order, none
  of them after a pending point that was left out, and as many as the limit allows.\<close>

theorem pending_queue:
  assumes "db_wf db"
  shows "\<exists>ps. GetPointsForProcessing n db = Ok ps \<and> pending_batch n ps (abs_db db)"
  by (rule GetPointsForProcessing_pending [OF assms])

theorem pending_queue_witness:
  "\<exists>ps. GetPointsForProcessing 1 (run_op sqlite (OpAddPoints [ex_point 9 ''aa'' 0, ex_point 7 ''bb'' 0]) initTables) = Ok ps \<and>
     ps = [ex_point 7 ''bb'' 0] \<and>
     pending_batch 1 ps (abs_db (run_op sqlite (OpAddPoints [ex_point 9 ''aa'' 0, ex_point 7 ''bb'' 0]) initTables))"
  using pending_queue [OF sq.inv_run_op [OF initTables_wf], of 1 "OpAddPoints [ex_point 9 ''aa'' 0, ex_point 7 ''bb'' 0]"]
  by (simp add: sqlite_eval ex_point_def)

text \<open>Claim C30 (processed_point_kept): once a point has been given a height it keeps type and height
  through every further sequence of writes that neither sets the height of that hash, nor adds the
  point again, nor rolls back to its slot or before.\<close>

theorem processed_point_kept:
  assumes "lg_points (abs_db (fold (run_op sqlite) ops initTables)) k = Some (ty, Some h)"
    and "list_all (op_keeps k) ops'"
  shows "lg_points (abs_db (fold (run_op sqlite) (ops @ ops') initTables)) k = Some (ty, Some h)"
  using sq.run_keeps [OF sq.inv_run [OF initTables_wf, of ops] assms(2)] assms(1) by simp

theorem processed_point_kept_witness:
  "lg_points (abs_db (fold (run_op sqlite) [OpAddPoints [ex_point 9 ''aa'' 0], OpSetPointHeights [ex_point 9 ''aa'' 3],
      OpAddPoints [ex_point 8 ''bb'' 0], OpRollback 10] initTables)) (9, ''aa'') = Some (6, Some 3)"
  using processed_point_kept [of "[OpAddPoints [ex_point 9 ''aa'' 0], OpSetPointHeights [ex_point 9 ''aa'' 3]]"
      "(9, ''aa'')" 6 3 "[OpAddPoints [ex_point 8 ''bb'' 0], OpRollback 10]"]
  by (simp add: sqlite_eval ex_point_def abs_db_def abs_point_def abs_height_def point_key_def)

text \<open>When the heights of a batch have been set, the next batch is
  disjoint from it and only holds points that were pending before.\<close>

theorem batch_handed_out_once:
  assumes "db_wf db" "GetPointsForProcessing n db = Ok batch"
    and "pr_Hash ` set batch \<subseteq> pr_Hash ` set us" "SetPointHeights us db = (Ok (), db')"
  shows "\<exists>ps. GetPointsForProcessing m db' = Ok ps \<and> set ps \<inter> set batch = {} \<and>
     point_key ` set ps \<subseteq> pending (abs_db db) - point_key ` set batch"
proof -
  have wf': "db_wf db'" using SetPointHeights_wf [OF assms(1), of us] assms(4) by simp
  obtain ps where ps: "GetPointsForProcessing m db' = Ok ps" using GetPointsForProcessing_pending [OF wf'] by blast
  have n: "pr_Hash p \<notin> pr_Hash ` set us \<and> point_key p \<in> pending (abs_db db)" if "p \<in> set ps" for p
    using sq.batch_not_pending_again [of db us db' m ps p] assms(1,4) ps that by (simp add: sqlite_def)
  then have h: "pr_Hash p \<notin> pr_Hash ` set batch" "point_key p \<in> pending (abs_db db)" if "p \<in> set ps" for p
    using n [OF that] contra_subsetD [OF assms(3)] by (simp_all only: simp_thms)
  then have k: "point_key p \<notin> point_key ` set batch" if "p \<in> set ps" for p
    using h(1) [OF that] by (auto simp: point_key_def)
  have "set ps \<inter> set batch = {}" using h(1) by auto
  then show ?thesis using h(2) k ps by (simp add: image_subset_iff)
qed

theorem batch_handed_out_once_witness:
  "\<exists>ps. GetPointsForProcessing 5 (fold (run_op sqlite) [OpAddPoints [ex_point 9 ''aa'' 0], OpSetPointHeights [ex_point 9 ''aa'' 3]] initTables) = Ok ps \<and>
     set ps \<inter> {ex_point 9 ''aa'' 0} = {}"
  using batch_handed_out_once [OF sq.inv_run_op [OF initTables_wf],
      of 5 "OpAddPoints [ex_point 9 ''aa'' 0]" "[ex_point 9 ''aa'' 0]" "[ex_point 9 ''aa'' 3]" _ 5]
  by (simp add: sqlite_eval ex_point_def)

text \<open>After \<open>AddTxsForBlock\<close> succeeds (however many chunks it
  took), each of its transactions is found by \<open>GetBlockNumForTx\<close> and
  \<open>GetTxs\<close> with its height, and the lookups of all other hashes are unchanged.\<close>

theorem txs_insert_lookup:
  assumes "db_wf db" "AddTxsForBlock ts db = (Ok (), db')"
  shows "(\<forall>t\<in>set ts. GetBlockNumForTx (tr_Hash t) db' = Ok (tr_BlockHeight t) \<and> GetTxs [tr_Hash t] db' = Ok [t]) \<and>
     (\<forall>h. h \<notin> tr_Hash ` set ts \<longrightarrow> GetBlockNumForTx h db' = GetBlockNumForTx h db)"
proof -
  have wf': "db_wf db'" using AddTxsForBlock_wf [OF assms(1), of ts] assms(2) by simp
  note a = AddTxsForBlock_abs [OF assms(2)]
  have "GetTxs [tr_Hash t] db' = Ok [t]" if "t \<in> set ts" for t
  proof -
    have look: "lg_txs (abs_db db') (tr_Hash t) = Some (tr_BlockHeight t)" using AddTxs_lookup a that by simp
    obtain xs where xs: "GetTxs [tr_Hash t] db' = Ok xs" "distinct (map tr_Hash xs)" "set xs = {t}"
      using GetTxs_lookup [OF wf', of "[tr_Hash t]"] look by auto
    then show ?thesis using distinct_singleton [of xs t] by (simp add: distinct_map)
  qed
  then show ?thesis using a AddTxs_lookup AddTxs_lookup_other
    by (simp add: GetBlockNumForTx_lookup [OF wf'] GetBlockNumForTx_lookup [OF assms(1)])
qed

theorem txs_insert_lookup_witness:
  "GetBlockNumForTx ''t1'' (snd (AddTxsForBlock [\<lparr>tr_Hash = ''t1'', tr_BlockHeight = 5\<rparr>] initTables)) = Ok 5"
  using txs_insert_lookup [OF initTables_wf, of "[\<lparr>tr_Hash = ''t1'', tr_BlockHeight = 5\<rparr>]"]
  by (simp add: sqlite_eval)

lemma insert_chunks_conflict:
  "tx_args (concat cs) = Ok rows \<Longrightarrow> insert_txs rows t = Err ErrConstraint \<Longrightarrow>
     insert_chunks cs w db t = (Err ErrConstraint, db\<lparr>sq_lockHeld := True\<rparr>)"
proof (induction cs arbitrary: w t rows)
  case (Cons c cs)
  then obtain r1 r2 where r: "tx_args c = Ok r1" "tx_args (concat cs) = Ok r2" "rows = r1 @ r2"
    by (auto simp: tx_args_append)
  have "insert_txs r2 (t @ r1) = Err ErrConstraint" if "insert_txs r1 t = Ok (t @ r1)"
    using Cons.prems(2) that insert_txs_append [of r1 r2 t] insert_txs_cases [of r2 "t @ r1"] by (auto simp: r(3))
  then show ?case using Cons.IH [OF r(2)] insert_txs_cases [of r1 t] by (auto simp: r(1))
qed (simp add: insert_txs_def)

lemma locked_refuses: "sq_lockHeld db \<Longrightarrow> run_op sqlite oper db = db"
  by (cases oper) (simp_all add: sqlite_def AddPoints_def SetPointHeights_def AddTxsForBlock_def HandleRollback_def sql_tx_def)

lemma locked_forever: "sq_lockHeld db \<Longrightarrow> fold (run_op sqlite) ops db = db"
  by (induction ops) (simp_all add: locked_refuses)

text \<open>Claim C34 (failed_add_txs_locks): \<open>AddTxsForBlock\<close> does not roll back when a statement
  fails: a batch with a hash that is already stored fails and leaves its transaction open, and from
  then on no write of any kind changes the database.\<close>

theorem failed_add_txs_locks:
  assumes "\<not> sq_lockHeld db" "tx_args ts = Ok rows" "t \<in> set ts" "tr_Hash t \<in> tx_txhash ` set (sq_tx db)"
  shows "AddTxsForBlock ts db = (Err ErrConstraint, db\<lparr>sq_lockHeld := True\<rparr>) \<and>
     fold (run_op sqlite) ops (snd (AddTxsForBlock ts db)) = db\<lparr>sq_lockHeld := True\<rparr>"
proof -
  have "tr_Hash t \<in> set (map tx_txhash rows)" using assms(3) tx_args_Ok [OF assms(2)] by auto
  then have "insert_txs rows (sq_tx db) = Err ErrConstraint" using assms(4) by (auto simp: insert_txs_def)
  then have "insert_chunks (chunks chunkSize ts) False db (sq_tx db) = (Err ErrConstraint, db\<lparr>sq_lockHeld := True\<rparr>)"
    using assms(2) by (intro insert_chunks_conflict) auto
  then have "AddTxsForBlock ts db = (Err ErrConstraint, db\<lparr>sq_lockHeld := True\<rparr>)"
    using assms(1,3) by (auto simp: AddTxsForBlock_def)
  then show ?thesis by (simp add: locked_forever)
qed

theorem failed_add_txs_locks_witness:
  "fold (run_op sqlite) [OpAddTxs [\<lparr>tr_Hash = ''t1'', tr_BlockHeight = 5\<rparr>], OpAddTxs [\<lparr>tr_Hash = ''t1'', tr_BlockHeight = 6\<rparr>],
      OpAddPoints [ex_point 9 ''aa'' 0]] initTables =
   (run_op sqlite (OpAddTxs [\<lparr>tr_Hash = ''t1'', tr_BlockHeight = 5\<rparr>]) initTables)\<lparr>sq_lockHeld := True\<rparr>"
  using failed_add_txs_locks [of "run_op sqlite (OpAddTxs [\<lparr>tr_Hash = ''t1'', tr_BlockHeight = 5\<rparr>]) initTables"
      "[\<lparr>tr_Hash = ''t1'', tr_BlockHeight = 6\<rparr>]" _ "\<lparr>tr_Hash = ''t1'', tr_BlockHeight = 6\<rparr>" "[OpAddPoints [ex_point 9 ''aa'' 0]]"]
  by (simp add: sqlite_eval)

lemma moved_key:
  assumes "r \<in> set t" "from \<le> pt_slot r"
  shows "pt_key r \<in> rb_key ` set (map to_rollback (filter (\<lambda>r. from \<le> pt_slot r) t))"
proof (rule image_eqI)
  show "pt_key r = rb_key (to_rollback r)" by (simp add: rb_key_def pt_key_def to_rollback_def)
  show "to_rollback r \<in> set (map to_rollback (filter (\<lambda>r. from \<le> pt_slot r) t))" using assms by simp
qed

lemma rollback_rejected:
  assumes "pt_key r \<in> rb_key ` set (sq_point_rollback db)" "r \<in> set (sq_point db)" "uint s \<le> pt_slot r"
    and "unat s < 2 ^ 63" "\<not> sq_lockHeld db"
  shows "HandleRollback s db = (Err ErrConstraint, db)"
proof -
  have "pt_key r \<in> rb_key ` set (map to_rollback (filter (\<lambda>r. uint s \<le> pt_slot r) (sq_point db)))"
    by (rule moved_key [OF assms(2,3)])
  then have "\<not> distinct (map rb_key (sq_point_rollback db @ map to_rollback (filter (\<lambda>r. uint s \<le> pt_slot r) (sq_point db))))"
    using assms(1) unfolding map_append distinct_append set_map [symmetric] by (metis IntI emptyE set_map)
  then show ?thesis using assms(4,5)
    by (simp add: HandleRollback_def sql_tx_def rollback_stmts_def sql_arg_def Let_def del: distinct_append map_append map_map)
qed

lemma HandleRollback_Ok:
  "HandleRollback s db = (Ok (), db') \<longleftrightarrow> \<not> sq_lockHeld db \<and> unat s < 2 ^ 63 \<and> rollback_stmts (uint s) db = Ok db'"
  by (auto simp: HandleRollback_def sql_tx_Ok sql_arg_Ok)

lemma rollback_stmts_moves:
  "rollback_stmts from db = Ok db' \<Longrightarrow>
     sq_point_rollback db' = sq_point_rollback db @ map to_rollback (filter (\<lambda>r. from \<le> pt_slot r) (sq_point db))"
  unfolding rollback_stmts_def Let_def by (simp only: split: if_splits) (auto simp del: distinct_append map_append)

text \<open>Claim C35 (readded_point_rollback_fails): a point that was rolled back once and is then added again
  (the chain returned to that block) can never be rolled back again: the second
  \<open>HandleRollback\<close> from the same slot fails on the primary key of
  \<open>point_rollback\<close>.\<close>

theorem readded_point_rollback_fails:
  assumes "r \<in> set (sq_point db)" "uint s \<le> pt_slot r" "HandleRollback s db = (Ok (), db1)"
    and "uint (pr_Slot p) = pt_slot r" "pr_Hash p = pt_hash r" "AddPoints [p] db1 = (Ok (), db2)"
  shows "HandleRollback s db2 = (Err ErrConstraint, db2)"
proof -
  have st: "rollback_stmts (uint s) db = Ok db1" "unat s < 2 ^ 63" using assms(3) by (simp_all add: HandleRollback_Ok)
  obtain t where t: "upsert_point p (sq_point db1) = Ok t" and db2: "db2 = db1\<lparr>sq_point := t\<rparr>" and l: "\<not> sq_lockHeld db1"
    using assms(6) by (auto simp: AddPoints_def sql_tx_Ok)
  then obtain r' where r': "r' \<in> set t" "pt_key r' = pt_key r" "uint s \<le> pt_slot r'"
    using assms(2,4,5) by (auto simp: upsert_point_def sql_arg_Ok pt_key_def)
  have "pt_key r \<in> rb_key ` set (sq_point_rollback db1)"
    using moved_key [OF assms(1,2)] by (simp only: rollback_stmts_moves [OF st(1)] set_append image_Un) (rule UnI2)
  then show ?thesis using r' st(2) l by (intro rollback_rejected [of r']) (simp_all add: db2)
qed

theorem readded_point_rollback_fails_witness:
  "HandleRollback 7 (fold (run_op sqlite) [OpAddPoints [ex_point 9 ''aa'' 0], OpRollback 7, OpAddPoints [ex_point 9 ''aa'' 0]] initTables) =
    (Err ErrConstraint, ex_db [ex_row 9 ''aa'' (-1)] [to_rollback (ex_row 9 ''aa'' (-1))])"
proof -
  have s1: "run_op sqlite (OpAddPoints [ex_point 9 ''aa'' 0]) initTables = ex_db [ex_row 9 ''aa'' (-1)] []"
    by (simp add: sqlite_eval ex_point_def ex_db_def ex_row_def)
  have s2: "HandleRollback 7 (ex_db [ex_row 9 ''aa'' (-1)] []) = (Ok (), ex_db [] [to_rollback (ex_row 9 ''aa'' (-1))])"
    by (simp add: sqlite_eval ex_db_def ex_row_def)
  have s3: "AddPoints [ex_point 9 ''aa'' 0] (ex_db [] [to_rollback (ex_row 9 ''aa'' (-1))]) =
      (Ok (), ex_db [ex_row 9 ''aa'' (-1)] [to_rollback (ex_row 9 ''aa'' (-1))])"
    by (simp add: sqlite_eval ex_point_def ex_db_def ex_row_def)
  have "HandleRollback 7 (ex_db [ex_row 9 ''aa'' (-1)] [to_rollback (ex_row 9 ''aa'' (-1))]) =
      (Err ErrConstraint, ex_db [ex_row 9 ''aa'' (-1)] [to_rollback (ex_row 9 ''aa'' (-1))])"
    by (rule readded_point_rollback_fails [OF _ _ s2 _ _ s3, of "ex_row 9 ''aa'' (-1)"])
       (simp_all add: ex_db_def ex_row_def ex_point_def)
  then show ?thesis using s1 s2 s3 by (simp add: sqlite_def)
qed

text \<open>\<open>GetBoundaryPointBehind\<close> never returns a
  point: it selects rows with height -1 and scans that height into a \<open>uint64\<close>.\<close>

theorem boundary_point_never_found: "\<not> is_ok (GetBoundaryPointBehind h db)"
proof
  assume "is_ok (GetBoundaryPointBehind h db)"
  then obtain p where "GetBoundaryPointBehind h db = Ok p" by (cases "GetBoundaryPointBehind h db") auto
  then show False
    by (auto simp: GetBoundaryPointBehind_def scan_point_def scan_uint64_def dest!: query_row_Ok split: res.splits if_splits)
qed

text \<open>Claim C36 (stale_rollback_deletes_txs): \<open>HandleRollback\<close> selects the heights to clean
  from all rows of \<open>point_rollback\<close>, old ones included: an earlier rollback of another
  block of the same height makes it delete the transactions of a block whose point stays.\<close>

theorem stale_rollback_deletes_txs:
  assumes "HandleRollback s db = (Ok (), db')" "rb \<in> set (sq_point_rollback db)" "uint s \<le> rb_slot rb"
    and "r \<in> set (sq_point db)" "pt_slot r < uint s" "pt_height r = rb_height rb" "0 \<le> rb_height rb"
  shows "r \<in> set (sq_point db') \<and> (\<forall>t\<in>set (sq_tx db'). tx_block_number t \<noteq> pt_height r)"
  using assms by (auto simp: HandleRollback_Ok rollback_stmts_def Let_def split: if_splits)

theorem stale_rollback_deletes_txs_witness:
  "ex_row 16 ''bb'' 5 \<in> set (sq_point (snd (HandleRollback 17
      (snd (AddTxsForBlock [\<lparr>tr_Hash = ''t1'', tr_BlockHeight = 5\<rparr>] (ex_db [ex_row 16 ''bb'' 5] [to_rollback (ex_row 20 ''aa'' 5)])))))) \<and>
   sq_tx (snd (AddTxsForBlock [\<lparr>tr_Hash = ''t1'', tr_BlockHeight = 5\<rparr>] (ex_db [ex_row 16 ''bb'' 5] [to_rollback (ex_row 20 ''aa'' 5)]))) =
     [\<lparr>tx_txhash = ''t1'', tx_block_number = 5\<rparr>] \<and>
   sq_tx (snd (HandleRollback 17
      (snd (AddTxsForBlock [\<lparr>tr_Hash = ''t1'', tr_BlockHeight = 5\<rparr>] (ex_db [ex_row 16 ''bb'' 5] [to_rollback (ex_row 20 ''aa'' 5)]))))) = []"
proof -
  let ?db = "ex_db [ex_row 16 ''bb'' 5] [to_rollback (ex_row 20 ''aa'' 5)]"
  have a: "snd (AddTxsForBlock [\<lparr>tr_Hash = ''t1'', tr_BlockHeight = 5\<rparr>] ?db) = ?db\<lparr>sq_tx := [\<lparr>tx_txhash = ''t1'', tx_block_number = 5\<rparr>]\<rparr>"
    by (simp add: sqlite_eval ex_db_def ex_row_def)
  have r: "HandleRollback 17 (?db\<lparr>sq_tx := [\<lparr>tx_txhash = ''t1'', tx_block_number = 5\<rparr>]\<rparr>) = (Ok (), ?db)"
    by (auto simp: sqlite_eval ex_db_def ex_row_def)
  have "ex_row 16 ''bb'' 5 \<in> set (sq_point ?db) \<and> (\<forall>t\<in>set (sq_tx ?db). tx_block_number t \<noteq> pt_height (ex_row 16 ''bb'' 5))"
    by (rule stale_rollback_deletes_txs [OF r, of "to_rollback (ex_row 20 ''aa'' 5)"]) (simp_all add: ex_db_def ex_row_def to_rollback_def)
  then show ?thesis unfolding a r by (simp add: ex_db_def)
qed

end
