(* ===== verification/BlockProcessor.thy ===== *)
theory BlockProcessor
  imports DatabaseSpec
begin

text \<open>
  The block processor (src/block_processor.go).

  \<^item> \<open>BlockProcessor\<close> is the struct without its handles: the database is a state \<open>'db\<close> with its
    interface value, the node connection is the result \<open>fetch_result\<close> of one \<open>GetBlockRange\<close>: an
    error and no callback, or the blocks for which \<open>onBlock\<close> is called, followed by
    \<open>onBatchDone\<close>. A \<open>Block\<close> has the methods of \<open>ledger.Block\<close> that the processor calls.
  \<^item> \<open>on_block\<close> is the body of the consumer loop, \<open>batch_start\<close> the part of an iteration before the
    goroutines, \<open>batch_commit\<close> the part after the select.
  \<^item> The goroutines of an iteration are the step relation \<open>batch_step\<close> over \<open>batch_state\<close>: the fetching
    goroutine with the callbacks, the consumer, and the select of the processing
    goroutine; channels are buffers with the capacities of the code. \<open>batch_outcomes\<close> lists what the
    select can see; the lemmas show that it is exactly what every interleaving gives.
  \<^item> \<open>processBlocks\<close> runs the loop over a list of fetch results, one per iteration, each with the
    choice of the select when both channels are ready; it returns \<open>None\<close> while it
    waits for a fetch that the list does not give.
  \<^item> \<open>bp_step\<close> is the concurrency of \<open>TryProcessBlocks\<close> and \<open>HandleRollback\<close>: the flag, the mutex
    and the goroutines.

  The reorganisation window is not negative (\<open>ClientOptions.setDefaults\<close>). Logging and timing are left out.
\<close>

subsection \<open>Data\<close>

definition BlockBatchSize :: int where "BlockBatchSize = 10000"

record Transaction =
  lt_Hash :: string

record Block =
  lb_Type :: int
  lb_Hash :: string
  lb_PrevHash :: string
  lb_Slot :: uint64
  lb_Transactions :: "Transaction list"

record BlockProcessor =
  bp_isProcessing :: bool
  bp_highestPoint :: PointRef
  bp_reorgWindow :: int

definition NewBlockProcessor :: "'db Database \<Rightarrow> int \<Rightarrow> 'db \<Rightarrow> BlockProcessor res" where
  "NewBlockProcessor D reorgWindow db =
     (case db_GetHighestPoint D db of
        Ok p \<Rightarrow> Ok \<lparr>bp_isProcessing = False, bp_highestPoint = p, bp_reorgWindow = reorgWindow\<rparr>
      | Err e \<Rightarrow>
          if errors_Is e ErrNoRows
          then Ok \<lparr>bp_isProcessing = False, bp_highestPoint = empty_PointRef, bp_reorgWindow = reorgWindow\<rparr>
          else Err e
      | Panic p \<Rightarrow> Panic p)"

subsection \<open>The consumer of the block channel\<close>

record consumer =
  cs_height :: uint64
  cs_prevHash :: string
  cs_prevBoundaryHash :: string
  cs_pointRefs :: "PointRef list"
  cs_txRefs :: "TxRef list"
  cs_maxPoint :: PointRef

definition block_point :: "uint64 \<Rightarrow> Block \<Rightarrow> PointRef" where
  "block_point height b = \<lparr>pr_Slot = lb_Slot b, pr_Hash = lb_Hash b, pr_Type = lb_Type b, pr_Height = height\<rparr>"

definition block_txs :: "uint64 \<Rightarrow> Block \<Rightarrow> TxRef list" where
  "block_txs height b = map (\<lambda>tx. \<lparr>tr_Hash = lt_Hash tx, tr_BlockHeight = height\<rparr>) (lb_Transactions b)"

definition on_block :: "Block \<Rightarrow> consumer \<Rightarrow> consumer res" where
  "on_block b c =
     (let isBoundary = (lb_Type b = 0) in
      if 0 < cs_height c \<and> \<not> isBoundary \<and> lb_PrevHash b \<noteq> cs_prevHash c \<and>
         lb_PrevHash b \<noteq> cs_prevBoundaryHash c
      then Err (ErrMsg ''block chain broken'')
      else
        let c1 = c\<lparr>cs_txRefs := cs_txRefs c @ block_txs (cs_height c) b,
                   cs_pointRefs := cs_pointRefs c @ [block_point (cs_height c) b],
                   cs_maxPoint := block_point (cs_height c) b\<rparr>
        in Ok (if isBoundary
               then c1\<lparr>cs_height := (if cs_height c = 0 then cs_height c + 1 else cs_height c),
                       cs_prevBoundaryHash := lb_Hash b\<rparr>
               else c1\<lparr>cs_height := cs_height c + 1, cs_prevHash := lb_Hash b\<rparr>))"

fun consume :: "Block list \<Rightarrow> consumer \<Rightarrow> consumer res" where
  "consume [] c = Ok c"
| "consume (b # bs) c = res_bind (on_block b c) (consume bs)"

subsection \<open>One iteration of the loop\<close>

datatype batch_begin =
    BeginReturn "unit res"
  | BeginFetch common_Point common_Point consumer

text \<open>Up to the start of the goroutines: read the pending points, hold back the reorganisation
  window, work out the height and the hashes the first block may follow.\<close>

definition batch_start :: "'db Database \<Rightarrow> BlockProcessor \<Rightarrow> 'db \<Rightarrow> batch_begin" where
  "batch_start D bp db =
     (case db_GetPointsForProcessing D (BlockBatchSize + bp_reorgWindow bp) db of
        Err e \<Rightarrow> BeginReturn (Err (ErrWrap ''failed to get points for processing'' e))
      | Panic p \<Rightarrow> BeginReturn (Panic p)
      | Ok ps \<Rightarrow>
          if 0 < bp_reorgWindow bp \<and> int (length ps) - bp_reorgWindow bp \<le> 0 then BeginReturn (Ok ())
          else
            let points = take (nat (int (length ps) - bp_reorgWindow bp)) ps in
            if points = [] then BeginReturn (Panic ''index out of range'')
            else
              let highest = bp_highestPoint bp;
                  height = (if pr_Hash highest \<noteq> [] then pr_Height highest + 1 else pr_Height highest);
                  fetch = (\<lambda>prevHash prevBoundaryHash.
                    BeginFetch (PointRef_Common (hd points)) (PointRef_Common (last points))
                      \<lparr>cs_height = height, cs_prevHash = prevHash, cs_prevBoundaryHash = prevBoundaryHash,
                       cs_pointRefs = [], cs_txRefs = [], cs_maxPoint = empty_PointRef\<rparr>)
              in if 0 < height
                 then (case db_GetBoundaryPointBehind D (pr_Hash highest) db of
                         Ok boundary \<Rightarrow> fetch (pr_Hash highest) (pr_Hash boundary)
                       | Err e \<Rightarrow>
                           if errors_Is e ErrNoRows then fetch (pr_Hash highest) []
                           else BeginReturn (Err (ErrWrap ''failed to get previous boundary point'' e))
                       | Panic p \<Rightarrow> BeginReturn (Panic p))
                 else fetch [] [])"

datatype fetch_result = FetchErr gerror | FetchOk "Block list"

datatype batch_outcome =
    BatchErr gerror
  | BatchDone PointRef "PointRef list" "TxRef list"

definition consumer_done :: "consumer \<Rightarrow> batch_outcome" where
  "consumer_done c = BatchDone (cs_maxPoint c) (cs_pointRefs c) (cs_txRefs c)"

text \<open>What the select may see. When the fetch fails, the error is sent before the channel is closed,
  and the consumer ends on the closed channel: both channels become ready.\<close>

fun batch_outcomes :: "fetch_result \<Rightarrow> consumer \<Rightarrow> batch_outcome list" where
  "batch_outcomes (FetchErr e) c = [BatchErr (ErrWrap ''failed to fetch block range'' e), consumer_done c]"
| "batch_outcomes (FetchOk bs) c =
     [case consume bs c of Ok c' \<Rightarrow> consumer_done c' | Err e \<Rightarrow> BatchErr e | Panic p \<Rightarrow> BatchErr (ErrMsg p)]"

text \<open>The branches of the select.\<close>

fun batch_commit :: "'db Database \<Rightarrow> batch_outcome \<Rightarrow> BlockProcessor \<Rightarrow> 'db \<Rightarrow> unit res \<times> BlockProcessor \<times> 'db" where
  "batch_commit D (BatchErr e) bp db = (Err e, bp, db)"
| "batch_commit D (BatchDone latest points txs) bp db =
     (case db_SetPointHeights D points db of
        (Err e, db1) \<Rightarrow> (Err (ErrWrap ''failed to update point heights'' e), bp, db1)
      | (Panic p, db1) \<Rightarrow> (Panic p, bp, db1)
      | (Ok _, db1) \<Rightarrow>
          (case db_AddTxsForBlock D txs db1 of
             (Err e, db2) \<Rightarrow> (Err (ErrWrap ''failed to store transactions'' e), bp, db2)
           | (Panic p, db2) \<Rightarrow> (Panic p, bp, db2)
           | (Ok _, db2) \<Rightarrow> (Ok (), bp\<lparr>bp_highestPoint := latest\<rparr>, db2)))"

text \<open>The loop. The flag of a fetch result is the choice of the select: \<open>True\<close> takes the error.\<close>

fun processBlocks :: "'db Database \<Rightarrow> (fetch_result \<times> bool) list \<Rightarrow> BlockProcessor \<Rightarrow> 'db \<Rightarrow>
    unit res option \<times> BlockProcessor \<times> 'db" where
  "processBlocks D fs bp db =
     (case batch_start D bp db of
        BeginReturn r \<Rightarrow> (Some r, bp, db)
      | BeginFetch _ _ c \<Rightarrow>
          (case fs of
             [] \<Rightarrow> (None, bp, db)
           | (f, pick) # rest \<Rightarrow>
               let outs = batch_outcomes f c in
               (case batch_commit D (if pick then hd outs else last outs) bp db of
                  (Ok _, bp', db') \<Rightarrow> processBlocks D rest bp' db'
                | (r, bp', db') \<Rightarrow> (Some r, bp', db'))))"

declare processBlocks.simps [simp del]

text \<open>\<open>errors.Wrap\<close> of a nil error is nil.\<close>

definition errors_Wrap :: "gerror option \<Rightarrow> string \<Rightarrow> unit res" where
  "errors_Wrap err msg = (case err of None \<Rightarrow> Ok () | Some e \<Rightarrow> Err (ErrWrap msg e))"

text \<open>The last error branch wraps \<open>err\<close>, the error of the first query, and not \<open>err2\<close>.\<close>

definition BlockProcessor_HandleRollback :: "'db Database \<Rightarrow> uint64 \<Rightarrow> BlockProcessor \<Rightarrow> 'db \<Rightarrow>
    unit res \<times> BlockProcessor \<times> 'db" where
  "BlockProcessor_HandleRollback D rollbackSlot bp db =
     (let rollback = (\<lambda>highestSlot err.
        if rollbackSlot < highestSlot then
          (case db_HandleRollback D rollbackSlot db of
             (Err e, db1) \<Rightarrow> (Err (ErrWrap ''failed to handle rollback'' e), bp, db1)
           | (Panic p, db1) \<Rightarrow> (Panic p, bp, db1)
           | (Ok _, db1) \<Rightarrow>
               (case db_GetHighestPoint D db1 of
                  Ok rollbackPoint \<Rightarrow> (Ok (), bp\<lparr>bp_highestPoint := rollbackPoint\<rparr>, db1)
                | Err err2 \<Rightarrow> (errors_Wrap err ''failed to fetch highest point after rollback'', bp, db1)
                | Panic p \<Rightarrow> (Panic p, bp, db1)))
        else (Ok (), bp, db))
      in case db_GetHighestPoint D db of
           Ok highestPoint \<Rightarrow> rollback (pr_Slot highestPoint) None
         | Err e \<Rightarrow> if errors_Is e ErrNoRows then rollback 0 (Some e)
                  else (Err (ErrWrap ''failed to get highest point'' e), bp, db)
         | Panic p \<Rightarrow> (Panic p, bp, db))"

subsection \<open>The goroutines of an iteration\<close>

datatype fetcher = Fetching fetch_result | Closing | FetcherDone

record batch_state =
  bs_fetcher :: fetcher
  bs_blockChan :: "Block list"
  bs_closed :: bool
  bs_errChan :: "gerror option"
  bs_doneChan :: "PointRef option"
  bs_consumer :: consumer
  bs_consuming :: bool
  bs_outcome :: "batch_outcome option"

definition batch_init :: "fetch_result \<Rightarrow> consumer \<Rightarrow> batch_state" where
  "batch_init f c = \<lparr>bs_fetcher = Fetching f, bs_blockChan = [], bs_closed = False, bs_errChan = None,
     bs_doneChan = None, bs_consumer = c, bs_consuming = True, bs_outcome = None\<rparr>"

text \<open>
  \<open>onBlock\<close> sends into a channel of capacity \<open>BlockBatchSize\<close>, \<open>onBatchDone\<close> closes it; the fetching
  goroutine sends its error into a channel of capacity 1 and then closes the block
  channel; the consumer receives, stops with an error on a broken chain, and reports its last point when
  the channel is closed and empty; the select takes whichever channel is ready.
\<close>

inductive batch_step :: "batch_state \<Rightarrow> batch_state \<Rightarrow> bool" where
  onBlock: "bs_fetcher s = Fetching (FetchOk (b # bs)) \<Longrightarrow> int (length (bs_blockChan s)) < BlockBatchSize \<Longrightarrow>
     batch_step s (s\<lparr>bs_fetcher := Fetching (FetchOk bs), bs_blockChan := bs_blockChan s @ [b]\<rparr>)"
| onBatchDone: "bs_fetcher s = Fetching (FetchOk []) \<Longrightarrow>
     batch_step s (s\<lparr>bs_fetcher := FetcherDone, bs_closed := True\<rparr>)"
| fetch_fails: "bs_fetcher s = Fetching (FetchErr e) \<Longrightarrow> bs_errChan s = None \<Longrightarrow>
     batch_step s (s\<lparr>bs_fetcher := Closing, bs_errChan := Some (ErrWrap ''failed to fetch block range'' e)\<rparr>)"
| close_chan: "bs_fetcher s = Closing \<Longrightarrow>
     batch_step s (s\<lparr>bs_fetcher := FetcherDone, bs_closed := True\<rparr>)"
| receive: "bs_consuming s \<Longrightarrow> bs_blockChan s = b # bs \<Longrightarrow> on_block b (bs_consumer s) = Ok c \<Longrightarrow>
     batch_step s (s\<lparr>bs_blockChan := bs, bs_consumer := c\<rparr>)"
| broken: "bs_consuming s \<Longrightarrow> bs_blockChan s = b # bs \<Longrightarrow> on_block b (bs_consumer s) = Err e \<Longrightarrow>
     bs_errChan s = None \<Longrightarrow>
     batch_step s (s\<lparr>bs_blockChan := bs, bs_consuming := False, bs_errChan := Some e\<rparr>)"
| drained: "bs_consuming s \<Longrightarrow> bs_blockChan s = [] \<Longrightarrow> bs_closed s \<Longrightarrow>
     batch_step s (s\<lparr>bs_consuming := False, bs_doneChan := Some (cs_maxPoint (bs_consumer s))\<rparr>)"
| select_err: "bs_outcome s = None \<Longrightarrow> bs_errChan s = Some e \<Longrightarrow>
     batch_step s (s\<lparr>bs_outcome := Some (BatchErr e), bs_errChan := None\<rparr>)"
| select_done: "bs_outcome s = None \<Longrightarrow> bs_doneChan s = Some p \<Longrightarrow>
     batch_step s (s\<lparr>bs_outcome := Some (BatchDone p (cs_pointRefs (bs_consumer s)) (cs_txRefs (bs_consumer s))),
                     bs_doneChan := None\<rparr>)"

inductive_cases batch_stepE: "batch_step s t"

abbreviation batch_reaches :: "fetch_result \<Rightarrow> consumer \<Rightarrow> batch_state \<Rightarrow> bool" where
  "batch_reaches f c s \<equiv> batch_step\<^sup>*\<^sup>* (batch_init f c) s"

subsection \<open>TryProcessBlocks, the mutex and the goroutines\<close>

text \<open>
  Goroutines that run the same code are counted: those started by \<open>TryProcessBlocks\<close> wait for
  \<open>processingMutex\<close>, are inside \<open>processBlocks\<close>, or have left it and not yet reset the flag; callers of
  \<open>HandleRollback\<close> wait or are inside.
\<close>

record bp_conc =
  cc_isProcessing :: bool
  cc_mutexHeld :: bool
  cc_procWaiting :: nat
  cc_procInside :: nat
  cc_procReturning :: nat
  cc_rbWaiting :: nat
  cc_rbInside :: nat

definition bp_idle :: bp_conc where
  "bp_idle = \<lparr>cc_isProcessing = False, cc_mutexHeld = False, cc_procWaiting = 0, cc_procInside = 0,
     cc_procReturning = 0, cc_rbWaiting = 0, cc_rbInside = 0\<rparr>"

definition TryProcessBlocks :: "bp_conc \<Rightarrow> bp_conc" where
  "TryProcessBlocks s =
     (if cc_isProcessing s then s
      else s\<lparr>cc_isProcessing := True, cc_procWaiting := cc_procWaiting s + 1\<rparr>)"

inductive bp_step :: "bp_conc \<Rightarrow> bp_conc \<Rightarrow> bool" where
  try_process: "bp_step s (TryProcessBlocks s)"
| proc_lock: "0 < cc_procWaiting s \<Longrightarrow> \<not> cc_mutexHeld s \<Longrightarrow>
    bp_step s (s\<lparr>cc_procWaiting := cc_procWaiting s - 1, cc_procInside := cc_procInside s + 1, cc_mutexHeld := True\<rparr>)"
| proc_unlock: "0 < cc_procInside s \<Longrightarrow>
    bp_step s (s\<lparr>cc_procInside := cc_procInside s - 1, cc_procReturning := cc_procReturning s + 1, cc_mutexHeld := False\<rparr>)"
| proc_store: "0 < cc_procReturning s \<Longrightarrow>
    bp_step s (s\<lparr>cc_procReturning := cc_procReturning s - 1, cc_isProcessing := False\<rparr>)"
| rb_call: "bp_step s (s\<lparr>cc_rbWaiting := cc_rbWaiting s + 1\<rparr>)"
| rb_lock: "0 < cc_rbWaiting s \<Longrightarrow> \<not> cc_mutexHeld s \<Longrightarrow>
    bp_step s (s\<lparr>cc_rbWaiting := cc_rbWaiting s - 1, cc_rbInside := cc_rbInside s + 1, cc_mutexHeld := True\<rparr>)"
| rb_unlock: "0 < cc_rbInside s \<Longrightarrow>
    bp_step s (s\<lparr>cc_rbInside := cc_rbInside s - 1, cc_mutexHeld := False\<rparr>)"

inductive_cases bp_stepE: "bp_step s t"

end
