(* ===== verification/BlockProcessorSpec.thy ===== *)
theory BlockProcessorSpec
  imports BlockProcessor
begin

text \<open>
  What the block processor guarantees: the interleavings of a batch against the sequential consumer,
  the numbering and linking of blocks, what a committed batch leaves in the database, rollbacks, and
  the exclusion of concurrent runs. The lemmas about the database part are proved for every
  implementation of the contract, in the locale of DatabaseSpec, and used at \<open>sqlite\<close>.
\<close>

subsection \<open>Interleavings of a batch\<close>

lemma on_block_no_panic [simp]: "on_block b c \<noteq> Panic p"
  by (simp add: on_block_def Let_def)

lemma consume_no_panic [simp]: "consume bs c \<noteq> Panic p"
proof (induction bs arbitrary: c)
  case (Cons b bs)
  then show ?case by (cases "on_block b c") auto
qed simp

lemma consume_append: "consume (xs @ ys) c = res_bind (consume xs c) (consume ys)"
proof (induction xs arbitrary: c)
  case (Cons b xs)
  then show ?case by (cases "on_block b c") auto
qed simp

fun to_deliver :: "fetcher \<Rightarrow> Block list" where
  "to_deliver (Fetching (FetchOk bs)) = bs"
| "to_deliver _ = []"

text \<open>All blocks of a successful fetch are consumed, in the channel or still to come.\<close>

definition ok_inv :: "Block list \<Rightarrow> consumer \<Rightarrow> batch_state \<Rightarrow> bool" where
  "ok_inv blocks c s \<longleftrightarrow>
     bs_fetcher s \<noteq> Closing \<and> (\<forall>e. bs_fetcher s \<noteq> Fetching (FetchErr e)) \<and>
     (bs_closed s \<longleftrightarrow> bs_fetcher s = FetcherDone) \<and>
     (if bs_consuming s
      then (\<exists>eaten. consume eaten c = Ok (bs_consumer s) \<and> blocks = eaten @ bs_blockChan s @ to_deliver (bs_fetcher s)) \<and>
           bs_errChan s = None \<and> bs_doneChan s = None \<and> bs_outcome s = None
      else case consume blocks c of
             Ok c' \<Rightarrow> bs_consumer s = c' \<and> bs_errChan s = None \<and>
               (bs_doneChan s = Some (cs_maxPoint c') \<and> bs_outcome s = None \<or>
                bs_doneChan s = None \<and> bs_outcome s = Some (consumer_done c'))
           | Err e \<Rightarrow> bs_doneChan s = None \<and>
               (bs_errChan s = Some e \<and> bs_outcome s = None \<or> bs_errChan s = None \<and> bs_outcome s = Some (BatchErr e))
           | Panic p \<Rightarrow> False)"

lemma ok_inv_init: "ok_inv blocks c (batch_init (FetchOk blocks) c)"
  by (auto simp: ok_inv_def batch_init_def intro: exI [of _ "[]"])

lemma ok_inv_step:
  assumes "ok_inv blocks c s" "batch_step s t"
  shows "ok_inv blocks c t"
  using assms(2)
proof cases
  case (receive b bs c')
  then obtain eaten where eaten: "consume eaten c = Ok (bs_consumer s)" "blocks = eaten @ b # bs @ to_deliver (bs_fetcher s)"
    using assms(1) by (auto simp: ok_inv_def)
  then have "consume (eaten @ [b]) c = Ok c'" using receive by (simp add: consume_append)
  then have "\<exists>eaten. consume eaten c = Ok c' \<and> blocks = eaten @ bs @ to_deliver (bs_fetcher s)"
    using eaten(2) by (intro exI [of _ "eaten @ [b]"]) simp
  then show ?thesis using assms(1) receive by (simp add: ok_inv_def)
next
  case (broken b bs e)
  then obtain eaten where eaten: "consume eaten c = Ok (bs_consumer s)" "blocks = eaten @ b # bs @ to_deliver (bs_fetcher s)"
    using assms(1) by (auto simp: ok_inv_def)
  then have "consume blocks c = Err e" using broken by (simp add: consume_append)
  then show ?thesis using assms(1) broken by (simp add: ok_inv_def)
next
  case drained
  then have "consume blocks c = Ok (bs_consumer s)" using assms(1) by (auto simp: ok_inv_def)
  then show ?thesis using assms(1) drained by (simp add: ok_inv_def)
qed (use assms(1) in \<open>auto simp: ok_inv_def consumer_done_def split: if_splits res.splits\<close>)

definition err_inv :: "gerror \<Rightarrow> consumer \<Rightarrow> batch_state \<Rightarrow> bool" where
  "err_inv e c s \<longleftrightarrow>
     bs_blockChan s = [] \<and> bs_consumer s = c \<and> (\<forall>bs. bs_fetcher s \<noteq> Fetching (FetchOk bs)) \<and>
     (\<forall>e'. bs_fetcher s = Fetching (FetchErr e') \<longrightarrow> e' = e \<and> bs_errChan s = None) \<and>
     (bs_closed s \<longleftrightarrow> bs_fetcher s = FetcherDone) \<and>
     (bs_errChan s = None \<or> bs_errChan s = Some (ErrWrap ''failed to fetch block range'' e)) \<and>
     (bs_doneChan s = None \<or> bs_doneChan s = Some (cs_maxPoint c)) \<and>
     (bs_outcome s = None \<or> (\<exists>o'\<in>set (batch_outcomes (FetchErr e) c). bs_outcome s = Some o')) \<and>
     (bs_outcome s = None \<longrightarrow> bs_fetcher s = Closing \<or> bs_fetcher s = FetcherDone \<longrightarrow> bs_errChan s \<noteq> None)"

lemma err_inv_init: "err_inv e c (batch_init (FetchErr e) c)"
  by (simp add: err_inv_def batch_init_def)

lemma err_inv_step: "err_inv e c s \<Longrightarrow> batch_step s t \<Longrightarrow> err_inv e c t"
  by (erule batch_stepE) (auto simp: err_inv_def consumer_done_def)

lemma ok_inv_reach: "batch_reaches (FetchOk blocks) c s \<Longrightarrow> ok_inv blocks c s"
  by (induction rule: rtranclp_induct) (auto intro: ok_inv_init ok_inv_step)

lemma err_inv_reach: "batch_reaches (FetchErr e) c s \<Longrightarrow> err_inv e c s"
  by (induction rule: rtranclp_induct) (auto intro: err_inv_init err_inv_step)

lemma outcome_listed:
  assumes "batch_reaches f c s" "bs_outcome s = Some out"
  shows "out \<in> set (batch_outcomes f c)"
proof (cases f)
  case (FetchErr e)
  then show ?thesis using err_inv_reach assms by (fastforce simp: err_inv_def)
next
  case (FetchOk blocks)
  then have "ok_inv blocks c s" using ok_inv_reach assms by blast
  then show ?thesis using assms(2) FetchOk by (auto simp: ok_inv_def split: if_splits res.splits)
qed

fun fetcher_work :: "fetcher \<Rightarrow> nat" where
  "fetcher_work (Fetching (FetchOk bs)) = 2 * length bs + 1"
| "fetcher_work (Fetching (FetchErr e)) = 3"
| "fetcher_work Closing = 1"
| "fetcher_work FetcherDone = 0"

definition batch_work :: "batch_state \<Rightarrow> nat" where
  "batch_work s = fetcher_work (bs_fetcher s) + length (bs_blockChan s) +
     (if bs_consuming s then 2 else 0) + (if bs_errChan s = None then 0 else 1) + (if bs_doneChan s = None then 0 else 1)"

lemma batch_step_work: "batch_step s t \<Longrightarrow> batch_work t < batch_work s"
  by (erule batch_stepE) (auto simp: batch_work_def)

lemma batch_not_stuck:
  assumes "batch_reaches f c s" "bs_outcome s = None"
  shows "\<exists>t. batch_step s t"
proof (cases f)
  case (FetchErr e)
  then have i: "err_inv e c s" using err_inv_reach assms by blast
  show ?thesis
  proof (cases "bs_fetcher s")
    case (Fetching f')
    then obtain e' where "bs_fetcher s = Fetching (FetchErr e')" using i by (cases f') (auto simp: err_inv_def)
    then show ?thesis using i by (auto simp: err_inv_def intro: fetch_fails)
  qed (use i assms(2) in \<open>auto simp: err_inv_def intro: select_err close_chan\<close>)
next
  case (FetchOk blocks)
  then have i: "ok_inv blocks c s" using ok_inv_reach assms by blast
  show ?thesis
  proof (cases "bs_consuming s")
    case False
    then show ?thesis using i assms(2)
      by (auto simp: ok_inv_def split: res.splits intro: select_err select_done)
  next
    case True
    show ?thesis
    proof (cases "bs_blockChan s")
      case (Cons b bs)
      then show ?thesis using True i
        by (cases "on_block b (bs_consumer s)") (auto simp: ok_inv_def intro: receive broken)
    next
      case Nil
      then show ?thesis
      proof (cases "bs_fetcher s")
        case (Fetching f')
        then obtain bs where "bs_fetcher s = Fetching (FetchOk bs)" using i by (cases f') (auto simp: ok_inv_def)
        moreover have "int (length (bs_blockChan s)) < BlockBatchSize" using Nil by (simp add: BlockBatchSize_def)
        ultimately show ?thesis by (cases bs) (auto intro: onBlock onBatchDone)
      qed (use i True Nil in \<open>auto simp: ok_inv_def intro: drained\<close>)
    qed
  qed
qed

subsection \<open>Numbering and linking\<close>

definition is_normal :: "Block \<Rightarrow> bool" where "is_normal b \<longleftrightarrow> lb_Type b \<noteq> 0"

definition height_at :: "uint64 \<Rightarrow> Block list \<Rightarrow> uint64" where
  "height_at h bs = h + of_nat (length (filter is_normal bs))"

definition with_heights :: "uint64 \<Rightarrow> Block list \<Rightarrow> (uint64 \<times> Block) list" where
  "with_heights h bs = map (\<lambda>i. (height_at h (take i bs), bs ! i)) [0..<length bs]"

definition last_hash :: "string \<Rightarrow> Block list \<Rightarrow> string" where
  "last_hash h bs = last (h # map lb_Hash bs)"

definition linked_at :: "consumer \<Rightarrow> Block list \<Rightarrow> Block \<Rightarrow> bool" where
  "linked_at c before b \<longleftrightarrow> (is_normal b \<longrightarrow>
     lb_PrevHash b = last_hash (cs_prevHash c) (filter is_normal before) \<or>
     lb_PrevHash b = last_hash (cs_prevBoundaryHash c) (filter (\<lambda>b. \<not> is_normal b) before))"

lemma last_hash_snoc [simp]: "last_hash h (bs @ [b]) = lb_Hash b"
  by (simp add: last_hash_def)

lemma on_block_pos:
  assumes "0 < cs_height c"
  shows "on_block b c = Ok c' \<longleftrightarrow>
     (is_normal b \<longrightarrow> lb_PrevHash b = cs_prevHash c \<or> lb_PrevHash b = cs_prevBoundaryHash c) \<and>
     c' = c\<lparr>cs_txRefs := cs_txRefs c @ block_txs (cs_height c) b,
            cs_pointRefs := cs_pointRefs c @ [block_point (cs_height c) b],
            cs_maxPoint := block_point (cs_height c) b,
            cs_height := (if is_normal b then cs_height c + 1 else cs_height c),
            cs_prevHash := (if is_normal b then lb_Hash b else cs_prevHash c),
            cs_prevBoundaryHash := (if is_normal b then cs_prevBoundaryHash c else lb_Hash b)\<rparr>"
  using assms by (auto simp: on_block_def Let_def is_normal_def)

lemma height_at_pos:
  assumes "0 < h" "unat h + length bs < 2 ^ 64"
  shows "0 < height_at h bs"
proof -
  let ?n = "length (filter is_normal bs)"
  have n: "?n \<le> length bs" by simp
  then have "?n < 2 ^ 64" using assms(2) by linarith
  then have "unat (of_nat ?n :: uint64) = ?n" by (simp add: unat_of_nat)
  then have "unat h + unat (of_nat ?n :: uint64) < 2 ^ 64" using assms(2) n by linarith
  then have "unat (height_at h bs) = unat h + ?n"
    using \<open>unat (of_nat ?n :: uint64) = ?n\<close> by (simp add: height_at_def unat_word_ariths)
  then show ?thesis using assms(1) by (simp add: word_less_nat_alt)
qed

lemma with_heights_snoc [simp]: "with_heights h (bs @ [b]) = with_heights h bs @ [(height_at h bs, b)]"
  by (auto simp: with_heights_def nth_append)

lemma with_heights_Nil [simp]: "with_heights h [] = []"
  by (simp add: with_heights_def)

lemma consume_facts:
  assumes "0 < cs_height c" "cs_pointRefs c = []" "cs_txRefs c = []"
  shows "unat (cs_height c) + length bs < 2 ^ 64 \<Longrightarrow> consume bs c = Ok c' \<Longrightarrow>
     cs_height c' = height_at (cs_height c) bs \<and>
     cs_prevHash c' = last_hash (cs_prevHash c) (filter is_normal bs) \<and>
     cs_prevBoundaryHash c' = last_hash (cs_prevBoundaryHash c) (filter (\<lambda>b. \<not> is_normal b) bs) \<and>
     cs_pointRefs c' = map (\<lambda>(h, b). block_point h b) (with_heights (cs_height c) bs) \<and>
     cs_txRefs c' = concat (map (\<lambda>(h, b). block_txs h b) (with_heights (cs_height c) bs)) \<and>
     (\<forall>i<length bs. linked_at c (take i bs) (bs ! i)) \<and>
     (bs \<noteq> [] \<longrightarrow> cs_maxPoint c' = last (cs_pointRefs c'))"
proof (induction bs arbitrary: c' rule: rev_induct)
  case Nil
  then show ?case using assms by (simp add: height_at_def last_hash_def)
next
  case (snoc b bs)
  then obtain c1 where c1: "consume bs c = Ok c1" "on_block b c1 = Ok c'"
    by (auto simp: consume_append)
  have len: "unat (cs_height c) + length bs < 2 ^ 64" using snoc.prems(1) by simp
  note ih = snoc.IH [OF len c1(1)]
  have pos: "0 < cs_height c1" using ih height_at_pos [OF assms(1) len] by simp
  note ob = c1(2) [unfolded on_block_pos [OF pos]]
  have "linked_at c bs b" using ob ih by (auto simp: linked_at_def)
  then have "linked_at c (take i (bs @ [b])) ((bs @ [b]) ! i)" if "i < length (bs @ [b])" for i
    using that ih by (cases "i = length bs") (auto simp: nth_append)
  then show ?case using ih ob by (auto simp: height_at_def)
qed

subsection \<open>Over any database that keeps the contract\<close>

context database_contract
begin

lemma commit_Ok:
  assumes "inv db" "batch_commit D (BatchDone latest points txs) bp db = (Ok (), bp', db')"
  shows "inv db' \<and> bp' = bp\<lparr>bp_highestPoint := latest\<rparr> \<and> distinct (map tr_Hash txs) \<and>
     abs db' = fold spec_AddTx txs (fold spec_SetHeight points (abs db))"
proof -
  obtain db1 where s: "db_SetPointHeights D points db = (Ok (), db1)" and t: "db_AddTxsForBlock D txs db1 = (Ok (), db')"
    and bp': "bp' = bp\<lparr>bp_highestPoint := latest\<rparr>"
    using assms(2) by (auto split: prod.splits res.splits)
  have i1: "inv db1" using inv_SetPointHeights [OF assms(1), of points] s by simp
  then have i2: "inv db'" using inv_AddTxsForBlock [OF i1, of txs] t by simp
  show ?thesis using i2 bp' abs_SetPointHeights [OF assms(1) s] abs_AddTxsForBlock [OF i1 t] by simp
qed

lemma commit_inv: "inv db \<Longrightarrow> inv (snd (snd (batch_commit D out bp db)))"
proof (cases out)
  case (BatchDone latest points txs)
  assume "inv db"
  then have i1: "inv (snd (db_SetPointHeights D points db))" by (rule inv_SetPointHeights)
  then have i2: "inv (snd (db_AddTxsForBlock D txs (snd (db_SetPointHeights D points db))))" by (rule inv_AddTxsForBlock)
  show ?thesis using i1 i2 by (auto simp: BatchDone split: prod.splits res.splits)
qed simp

lemma processBlocks_inv: "inv db \<Longrightarrow> inv (snd (snd (processBlocks D fs bp db)))"
proof (induction fs arbitrary: bp db)
  case Nil
  then show ?case by (simp add: processBlocks.simps split: batch_begin.splits)
next
  case (Cons f fs)
  show ?case
  proof (cases "batch_start D bp db")
    case (BeginFetch a b c)
    define r where "r = batch_commit D (if snd f then hd (batch_outcomes (fst f) c) else last (batch_outcomes (fst f) c)) bp db"
    have i: "inv (snd (snd r))" using commit_inv [OF Cons.prems] by (simp add: r_def)
    have "processBlocks D (f # fs) bp db =
      (case r of (Ok _, bp', db') \<Rightarrow> processBlocks D fs bp' db' | (q, bp', db') \<Rightarrow> (Some q, bp', db'))"
      by (subst processBlocks.simps) (simp add: BeginFetch r_def Let_def split: prod.splits)
    then show ?thesis using i Cons.IH by (auto split: prod.splits res.splits)
  qed (simp add: Cons.prems processBlocks.simps)
qed

lemma rollback_inv: "inv db \<Longrightarrow> inv (snd (snd (BlockProcessor_HandleRollback D s bp db)))"
  using inv_HandleRollback [of db s]
  by (auto simp: BlockProcessor_HandleRollback_def Let_def split: res.splits prod.splits)

text \<open>A rollback point is the highest processed point that is left, and no later point is left.\<close>

lemma rollback_Ok:
  assumes "inv db" "db_GetHighestPoint D db = Ok tip" "s < pr_Slot tip"
    and "BlockProcessor_HandleRollback D s bp db = (Ok (), bp', db')"
  shows "(\<forall>k\<in>dom (lg_points (abs db')). fst k < s) \<and>
     (bp_highestPoint bp' = bp_highestPoint bp \<or> stored (abs db') (bp_highestPoint bp'))"
proof -
  obtain db1 where r: "db_HandleRollback D s db = (Ok (), db1)" and db': "db' = db1"
    and "bp' = bp \<or> (\<exists>p. db_GetHighestPoint D db1 = Ok p \<and> bp' = bp\<lparr>bp_highestPoint := p\<rparr>)"
    using assms by (auto simp: BlockProcessor_HandleRollback_def errors_Wrap_def split: prod.splits res.splits)
  moreover have "inv db1" using inv_HandleRollback [OF assms(1), of s] r by simp
  ultimately show ?thesis using abs_HandleRollback [OF assms(1) r] get_highest by auto
qed

end

lemma SetHeights_hit:
  assumes "distinct (map pr_Hash us)" "u \<in> set us" "lg_points l (sl, pr_Hash u) = Some (ty, h)"
  shows "lg_points (fold spec_SetHeight us l) (sl, pr_Hash u) = Some (ty, Some (pr_Height u))"
proof -
  have "filter (\<lambda>v. pr_Hash v = pr_Hash u) (rev us) = [u]"
    using assms(1,2) by (intro filter_unique) (simp_all flip: rev_map)
  then show ?thesis using assms(3) by (simp add: SetHeights_lookup)
qed

lemma map_snd_with_heights [simp]: "map snd (with_heights h bs) = bs"
  by (simp add: with_heights_def comp_def map_nth)

lemma map_hash_block_points: "map (pr_Hash \<circ> (\<lambda>(h, b). block_point h b)) (with_heights h bs) = map lb_Hash bs"
proof -
  have "map (pr_Hash \<circ> (\<lambda>(h, b). block_point h b)) (with_heights h bs) = map lb_Hash (map snd (with_heights h bs))"
    by (simp add: block_point_def comp_def case_prod_beta del: map_snd_with_heights)
  then show ?thesis by (simp only: map_snd_with_heights)
qed

subsection \<open>Shared lemmas and example data\<close>

lemma failed_fetch_done_reachable:
  "\<exists>s. batch_reaches (FetchErr e) c s \<and> bs_outcome s = Some (consumer_done c)"
proof -
  define s1 where "s1 = (batch_init (FetchErr e) c)\<lparr>bs_fetcher := Closing, bs_errChan := Some (ErrWrap ''failed to fetch block range'' e)\<rparr>"
  define s2 where "s2 = s1\<lparr>bs_fetcher := FetcherDone, bs_closed := True\<rparr>"
  define s3 where "s3 = s2\<lparr>bs_consuming := False, bs_doneChan := Some (cs_maxPoint (bs_consumer s2))\<rparr>"
  define s4 where "s4 = s3\<lparr>bs_outcome := Some (BatchDone (cs_maxPoint c) (cs_pointRefs (bs_consumer s3)) (cs_txRefs (bs_consumer s3))),
                     bs_doneChan := None\<rparr>"
  have "batch_step (batch_init (FetchErr e) c) s1" unfolding s1_def by (rule fetch_fails) (simp_all add: batch_init_def)
  moreover have "batch_step s1 s2" unfolding s2_def by (rule close_chan) (simp add: s1_def)
  moreover have "batch_step s2 s3" unfolding s3_def by (rule drained) (simp_all add: s2_def s1_def batch_init_def)
  moreover have "batch_step s3 s4"
    unfolding s4_def by (rule select_done) (simp_all add: s3_def s2_def s1_def batch_init_def)
  ultimately have "batch_reaches (FetchErr e) c s4" by (meson converse_rtranclp_into_rtranclp rtranclp.rtrancl_refl)
  moreover have "bs_outcome s4 = Some (consumer_done c)"
    by (simp add: s4_def s3_def s2_def s1_def batch_init_def consumer_done_def)
  ultimately show ?thesis by blast
qed

lemma batch_start_fetch:
  assumes "batch_start D bp db = BeginFetch a b c"
  shows "cs_height c = (if pr_Hash (bp_highestPoint bp) \<noteq> [] then pr_Height (bp_highestPoint bp) + 1 else pr_Height (bp_highestPoint bp)) \<and>
     cs_pointRefs c = [] \<and> cs_txRefs c = [] \<and> cs_maxPoint c = empty_PointRef"
  using assms by (auto simp: batch_start_def Let_def split: res.splits if_splits)

lemma GetBoundaryPointBehind_orphan:
  assumes "db_wf db" "filter (\<lambda>r. pt_hash r = h) (sq_point db) = [top']" "r \<in> set (sq_point db)"
    and "pt_height r = -1" "pt_slot r < pt_slot top'"
  shows "\<exists>e. GetBoundaryPointBehind h db = Err e \<and> \<not> errors_Is e ErrNoRows"
proof -
  let ?c = "rev (sort_key pt_slot (filter (\<lambda>r. pt_slot r < pt_slot top' \<and> pt_height r = -1) (sq_point db)))"
  have "top' \<in> set (filter (\<lambda>r. pt_hash r = h) (sq_point db))" using assms(2) by simp
  then have ok: "int63 (pt_slot top')" using assms(1) by (simp add: db_wf_def list_all_iff point_ok_def)
  have scan: "scan_uint64 (pt_slot top') = Ok (of_int (pt_slot top'))" using ok by (simp add: scan_uint64_def int63_def)
  have arg: "sql_arg (of_int (pt_slot top')) = Ok (pt_slot top')" by (rule scan_sql_arg [OF ok scan])
  have "r \<in> set ?c" using assms(3-5) by simp
  then obtain x xs where c: "?c = x # xs" by (cases ?c) auto
  then have "x \<in> set ?c" by (metis list.set_intros(1))
  then have x: "pt_height x = -1" "x \<in> set (sq_point db)" by auto
  then have "int63 (pt_slot x)" using assms(1) by (simp add: db_wf_def list_all_iff point_ok_def)
  then have "scan_point x = Err (ErrMsg ''converting driver.Value type int64 to a uint64: invalid syntax'')"
    using x by (simp add: scan_point_def scan_uint64_def int63_def)
  then show ?thesis using assms(2) scan arg c
    by (simp add: GetBoundaryPointBehind_def query_row_def del: set_rev set_sort)
qed

definition bp_conc_inv :: "bp_conc \<Rightarrow> bool" where
  "bp_conc_inv s \<longleftrightarrow>
     cc_procWaiting s + cc_procInside s + cc_procReturning s = (if cc_isProcessing s then 1 else 0) \<and>
     cc_procInside s + cc_rbInside s = (if cc_mutexHeld s then 1 else 0)"

lemma bp_conc_inv_step: "bp_conc_inv s \<Longrightarrow> bp_step s t \<Longrightarrow> bp_conc_inv t"
  by (erule bp_stepE) (auto simp: bp_conc_inv_def TryProcessBlocks_def split: if_splits)

lemma bp_conc_inv_idle: "bp_conc_inv bp_idle"
  by (simp add: bp_conc_inv_def bp_idle_def)

lemma bp_conc_inv_reach: "bp_step\<^sup>*\<^sup>* bp_idle s \<Longrightarrow> bp_conc_inv s"
  by (induction rule: rtranclp_induct) (auto intro: bp_conc_inv_idle bp_conc_inv_step)

lemma bp_path: "bp_step\<^sup>*\<^sup>* bp_idle (TryProcessBlocks bp_idle)"
  using try_process by blast

definition ex_block :: "int \<Rightarrow> string \<Rightarrow> string \<Rightarrow> uint64 \<Rightarrow> string list \<Rightarrow> Block" where
  "ex_block ty h prev sl txs = \<lparr>lb_Type = ty, lb_Hash = h, lb_PrevHash = prev, lb_Slot = sl,
     lb_Transactions = map (\<lambda>t. \<lparr>lt_Hash = t\<rparr>) txs\<rparr>"

definition ex_bp :: BlockProcessor where
  "ex_bp = \<lparr>bp_isProcessing = True, bp_highestPoint = ex_point 9 ''aa'' 3, bp_reorgWindow = 0\<rparr>"

definition ex_chain :: SqlLiteDatabase where
  "ex_chain = ex_db [ex_row 9 ''aa'' 3, ex_row 11 ''bb'' (-1)] []"

lemma ex_chain_wf: "db_wf ex_chain"
  by (simp add: db_wf_def ex_chain_def ex_db_def ex_row_def pt_key_def point_ok_def int63_def)

lemma ex_chain_start:
  "batch_start sqlite ex_bp ex_chain = BeginFetch \<lparr>cp_Slot = 11, cp_Hash = [0xbb]\<rparr> \<lparr>cp_Slot = 11, cp_Hash = [0xbb]\<rparr>
     \<lparr>cs_height = 4, cs_prevHash = ''aa'', cs_prevBoundaryHash = [], cs_pointRefs = [], cs_txRefs = [], cs_maxPoint = empty_PointRef\<rparr>"
  by (simp add: batch_start_def ex_bp_def ex_chain_def ex_db_def ex_row_def ex_point_def sqlite_eval BlockBatchSize_def
      GetBoundaryPointBehind_def query_row_def PointRef_Common_def HexString_Bytes_def fromHexChar_def)

definition ex_consumer :: consumer where
  "ex_consumer = \<lparr>cs_height = 4, cs_prevHash = ''aa'', cs_prevBoundaryHash = [], cs_pointRefs = [], cs_txRefs = [],
     cs_maxPoint = empty_PointRef\<rparr>"

lemmas consume_eval = on_block_def Let_def block_point_def block_txs_def ex_block_def ex_consumer_def ex_bp_def ex_point_def
  is_normal_def height_at_def with_heights_def linked_at_def last_hash_def consumer_done_def

subsection \<open>Properties\<close>



text \<open>Claim C37 (failed_fetch_resets_height): when the fetch of a batch fails, there is a run in which
  the error is not returned: the consumer ends on the closed channel, the select takes its empty
  result, nothing is written and \<open>highestPoint\<close> becomes the zero point, so that the
  next batch is numbered from height 0.\<close>

theorem failed_fetch_resets_height:
  assumes "batch_start sqlite bp db = BeginFetch a b c" "\<not> sq_lockHeld db"
  shows "\<exists>s out. batch_reaches (FetchErr e) c s \<and> bs_outcome s = Some out \<and>
     batch_commit sqlite out bp db = (Ok (), bp\<lparr>bp_highestPoint := empty_PointRef\<rparr>, db) \<and>
     (\<forall>a' b' c'. batch_start sqlite (bp\<lparr>bp_highestPoint := empty_PointRef\<rparr>) db = BeginFetch a' b' c' \<longrightarrow> cs_height c' = 0)"
proof -
  note c = batch_start_fetch [OF assms(1)]
  have "batch_commit sqlite (consumer_done c) bp db = (Ok (), bp\<lparr>bp_highestPoint := empty_PointRef\<rparr>, db)"
    using c assms(2) by (simp add: consumer_done_def sqlite_def SetPointHeights_def AddTxsForBlock_def sql_tx_def)
  moreover have "cs_height c' = 0"
    if "batch_start sqlite (bp\<lparr>bp_highestPoint := empty_PointRef\<rparr>) db = BeginFetch a' b' c'" for a' b' c'
    using batch_start_fetch [OF that] by (simp add: empty_PointRef_def)
  ultimately show ?thesis using failed_fetch_done_reachable [of e c] by blast
qed

theorem failed_fetch_resets_height_witness:
  "\<exists>out. batch_commit sqlite out ex_bp ex_chain = (Ok (), ex_bp\<lparr>bp_highestPoint := empty_PointRef\<rparr>, ex_chain)"
  using failed_fetch_resets_height [OF ex_chain_start, of ErrNoRows] by (auto simp: ex_chain_def ex_db_def)

text \<open>Claim C18 (batch_heights_linked): a batch that the consumer accepts is numbered upwards from the
  height after \<open>highestPoint\<close>, one height per block and boundary blocks sharing the
  height of the block after them; transactions carry the height of their block; and every non-
  boundary block names as its predecessor the last non-boundary or the last boundary block before
  it.\<close>

theorem batch_heights_linked:
  assumes "batch_start D bp db = BeginFetch a b c" "pr_Hash (bp_highestPoint bp) \<noteq> []"
    and "unat (pr_Height (bp_highestPoint bp)) + 1 + length bs < 2 ^ 64" "consume bs c = Ok c'"
  shows "cs_pointRefs c' = map (\<lambda>(h, b). block_point h b) (with_heights (pr_Height (bp_highestPoint bp) + 1) bs) \<and>
     cs_txRefs c' = concat (map (\<lambda>(h, b). block_txs h b) (with_heights (pr_Height (bp_highestPoint bp) + 1) bs)) \<and>
     (\<forall>i<length bs. linked_at c (take i bs) (bs ! i))"
proof -
  note c = batch_start_fetch [OF assms(1)]
  let ?h = "pr_Height (bp_highestPoint bp)"
  have h: "cs_height c = ?h + 1" using c assms(2) by simp
  have u: "unat (?h + 1) = unat ?h + 1" using assms(3) by (simp add: unat_word_ariths)
  then have "0 < ?h + 1" by (simp add: word_less_nat_alt)
  then show ?thesis using consume_facts [of c bs c'] c h u assms(3,4) by simp
qed

theorem batch_heights_linked_witness:
  "cs_pointRefs (case consume [ex_block 6 ''bb'' ''aa'' 11 [''t1'']] ex_consumer of Ok c \<Rightarrow> c) = [ex_point 11 ''bb'' 4]"
  using batch_heights_linked [OF ex_chain_start [folded ex_consumer_def], of "[ex_block 6 ''bb'' ''aa'' 11 [''t1'']]"]
  by (simp add: consume_eval)

text \<open>Claim C13 (committed_batch_recorded): after a batch is committed to the SQLite database, each of
  its blocks that has a point in the database is stored with its height, and each of its
  transactions is found with that height.\<close>

theorem committed_batch_recorded:
  assumes "db_wf db" "consume bs c = Ok c'" "cs_pointRefs c = []" "cs_txRefs c = []"
    and "0 < cs_height c" "unat (cs_height c) + length bs < 2 ^ 64" "distinct (map lb_Hash bs)"
    and "batch_commit sqlite (consumer_done c') bp db = (Ok (), bp', db')"
    and "i < length bs" "lg_points (abs_db db) (sl, lb_Hash (bs ! i)) = Some (ty, ho)"
  shows "lg_points (abs_db db') (sl, lb_Hash (bs ! i)) = Some (ty, Some (height_at (cs_height c) (take i bs))) \<and>
     (\<forall>tx\<in>set (lb_Transactions (bs ! i)).
        GetBlockNumForTx (lt_Hash tx) db' = Ok (height_at (cs_height c) (take i bs)))"
proof -
  let ?h = "height_at (cs_height c) (take i bs)" and ?us = "cs_pointRefs c'" and ?ts = "cs_txRefs c'"
  note f = consume_facts [OF assms(5,3,4,6,2)]
  note k = sq.commit_Ok [OF assms(1) assms(8) [unfolded consumer_done_def]]
  have mem: "(?h, bs ! i) \<in> set (with_heights (cs_height c) bs)" using assms(9) by (auto simp: with_heights_def)
  have u: "block_point ?h (bs ! i) \<in> set ?us" using mem f by force
  have "distinct (map pr_Hash ?us)" using f assms(7) by (simp add: map_hash_block_points)
  from SetHeights_hit [OF this u, of "abs_db db" sl ty ho] assms(10)
  have "lg_points (abs_db db') (sl, lb_Hash (bs ! i)) = Some (ty, Some ?h)"
    using k by (simp add: block_point_def)
  moreover have "GetBlockNumForTx (lt_Hash tx) db' = Ok ?h" if "tx \<in> set (lb_Transactions (bs ! i))" for tx
  proof -
    have "\<lparr>tr_Hash = lt_Hash tx, tr_BlockHeight = ?h\<rparr> \<in> set (block_txs ?h (bs ! i))"
      using that by (simp add: block_txs_def)
    then have "\<lparr>tr_Hash = lt_Hash tx, tr_BlockHeight = ?h\<rparr> \<in> set ?ts" using mem f by force
    from AddTxs_lookup [OF _ this] k show ?thesis by (simp add: GetBlockNumForTx_lookup)
  qed
  ultimately show ?thesis by blast
qed

theorem committed_batch_recorded_witness:
  "case consume [ex_block 6 ''bb'' ''aa'' 11 [''t1'']] ex_consumer of Ok c' \<Rightarrow>
     (case batch_commit sqlite (consumer_done c') ex_bp ex_chain of (_, _, db') \<Rightarrow>
        lg_points (abs_db db') (11, ''bb'') = Some (6, Some 4) \<and> GetBlockNumForTx ''t1'' db' = Ok 4)"
proof -
  let ?b = "ex_block 6 ''bb'' ''aa'' 11 [''t1'']"
  let ?c' = "ex_consumer\<lparr>cs_height := 5, cs_prevHash := ''bb'', cs_pointRefs := [ex_point 11 ''bb'' 4],
     cs_txRefs := [\<lparr>tr_Hash = ''t1'', tr_BlockHeight = 4\<rparr>], cs_maxPoint := ex_point 11 ''bb'' 4\<rparr>"
  let ?db' = "(ex_db [ex_row 9 ''aa'' 3, ex_row 11 ''bb'' 4] [])\<lparr>sq_tx := [\<lparr>tx_txhash = ''t1'', tx_block_number = 4\<rparr>]\<rparr>"
  have c: "consume [?b] ex_consumer = Ok ?c'" by (simp add: consume_eval)
  have m: "batch_commit sqlite (consumer_done ?c') ex_bp ex_chain = (Ok (), ex_bp\<lparr>bp_highestPoint := ex_point 11 ''bb'' 4\<rparr>, ?db')"
    by (simp add: consume_eval sqlite_eval ex_chain_def ex_db_def ex_row_def)
  have l: "lg_points (abs_db ex_chain) (11, lb_Hash ([?b] ! 0)) = Some (6, None)"
    by (simp add: ex_chain_def ex_db_def ex_row_def abs_db_def abs_point_def abs_height_def ex_block_def)
  have "lg_points (abs_db ?db') (11, ''bb'') = Some (6, Some 4) \<and> GetBlockNumForTx ''t1'' ?db' = Ok 4"
    using committed_batch_recorded [OF ex_chain_wf c _ _ _ _ _ m _ l] by (simp add: consume_eval)
  then show ?thesis by (simp only: c res.case m prod.case)
qed

text \<open>The height of a block depends on where the batch was
  cut: the block after a boundary block gets the height of the boundary block when both are in one
  batch, and the next height when the batch ends with the boundary block.\<close>

theorem boundary_split_changes_heights:
  assumes "lb_Type e = 0" "lb_Type b \<noteq> 0" "0 < cs_height c" "cs_height c + 1 \<noteq> 0" "lb_Hash e \<noteq> []"
    and "consume [e, b] c = Ok one" "consume [e] c = Ok half"
    and "batch_start D (bp\<lparr>bp_highestPoint := cs_maxPoint half\<rparr>) db = BeginFetch p q c2" "consume [b] c2 = Ok two"
  shows "pr_Height (last (cs_pointRefs one)) = cs_height c \<and> pr_Height (last (cs_pointRefs two)) = cs_height c + 1"
proof -
  have half: "cs_maxPoint half = block_point (cs_height c) e" "half = half" and one: "pr_Height (last (cs_pointRefs one)) = cs_height c"
    using assms(1-3,6,7) by (auto simp: on_block_pos is_normal_def block_point_def split: if_splits)
  have "cs_height c2 = cs_height c + 1"
    using batch_start_fetch [OF assms(8)] assms(5) half by (simp add: block_point_def)
  then show ?thesis using assms(2,4,9) one
    by (auto simp: on_block_pos is_normal_def block_point_def word_gt_0)
qed

theorem boundary_split_changes_heights_witness:
  "\<exists>one (two :: consumer). pr_Height (last (cs_pointRefs one)) = 4 \<and> pr_Height (last (cs_pointRefs two)) = 5 \<and>
     consume [ex_block 0 ''e0'' ''aa'' 10 [], ex_block 6 ''bb'' ''e0'' 11 []] ex_consumer = Ok one"
proof -
  let ?e = "ex_block 0 ''e0'' ''aa'' 10 []" and ?b = "ex_block 6 ''bb'' ''e0'' 11 []"
  let ?db = "ex_db [\<lparr>pt_slot = 10, pt_hash = ''e0'', pt_type = 0, pt_height = 4\<rparr>, ex_row 11 ''bb'' (-1)] []"
  obtain one where one: "consume [?e, ?b] ex_consumer = Ok one" by (simp add: consume_eval)
  obtain half where half: "consume [?e] ex_consumer = Ok half" "cs_maxPoint half = block_point 4 ?e" by (simp add: consume_eval)
  obtain p q c2 where c2: "batch_start sqlite (ex_bp\<lparr>bp_highestPoint := cs_maxPoint half\<rparr>) ?db = BeginFetch p q c2"
    "cs_prevHash c2 = ''e0''"
    by (simp add: half(2) batch_start_def sqlite_eval BlockBatchSize_def GetBoundaryPointBehind_def query_row_def consume_eval
        ex_db_def ex_row_def)
  obtain two where two: "consume [?b] c2 = Ok two" using c2(2) by (simp add: consume_eval)
  have "pr_Height (last (cs_pointRefs one)) = 4 \<and> pr_Height (last (cs_pointRefs two)) = 5"
    using boundary_split_changes_heights [OF _ _ _ _ _ one half(1) c2(1) two] by (simp add: consume_eval)
  then show ?thesis using one by blast
qed

text \<open>If a pending point lies before the highest processed
  point (a point that was rolled back before it was processed stays in the table), every later call
  of \<open>processBlocks\<close> fails with the error of \<open>GetBoundaryPointBehind\<close> and
  changes nothing.\<close>

theorem orphan_point_stops_processing:
  assumes "db_wf db" "pr_Hash (bp_highestPoint bp) \<noteq> []" "pr_Height (bp_highestPoint bp) + 1 \<noteq> 0"
    and "filter (\<lambda>r. pt_hash r = pr_Hash (bp_highestPoint bp)) (sq_point db) = [top']"
    and "orphan \<in> set (sq_point db)" "pt_height orphan = -1" "pt_slot orphan < pt_slot top'"
    and "0 \<le> bp_reorgWindow bp" "bp_reorgWindow bp < int (card (pending (abs_db db)))"
  shows "\<exists>e. processBlocks sqlite fs bp db = (Some (Err (ErrWrap ''failed to get previous boundary point'' e)), bp, db)"
proof -
  obtain ps where ps: "GetPointsForProcessing (BlockBatchSize + bp_reorgWindow bp) db = Ok ps"
    and pb: "pending_batch (BlockBatchSize + bp_reorgWindow bp) ps (abs_db db)"
    using GetPointsForProcessing_pending [OF assms(1)] by blast
  have len: "bp_reorgWindow bp < int (length ps)"
    using pb assms(8,9) by (simp add: pending_batch_def BlockBatchSize_def)
  then have ne: "take (nat (int (length ps) - bp_reorgWindow bp)) ps \<noteq> []" using assms(8) by auto
  obtain e where "GetBoundaryPointBehind (pr_Hash (bp_highestPoint bp)) db = Err e" "\<not> errors_Is e ErrNoRows"
    using GetBoundaryPointBehind_orphan [OF assms(1,4-7)] by blast
  then have "batch_start sqlite bp db = BeginReturn (Err (ErrWrap ''failed to get previous boundary point'' e))"
    using ps len ne assms(2,3) by (simp add: batch_start_def sqlite_def Let_def word_gt_0)
  then show ?thesis by (simp add: processBlocks.simps)
qed

theorem orphan_point_stops_processing_witness:
  "\<exists>e. processBlocks sqlite [] ex_bp (ex_db [ex_row 9 ''aa'' 3, ex_row 7 ''cc'' (-1), ex_row 11 ''bb'' (-1)] []) =
     (Some (Err (ErrWrap ''failed to get previous boundary point'' e)), ex_bp,
      ex_db [ex_row 9 ''aa'' 3, ex_row 7 ''cc'' (-1), ex_row 11 ''bb'' (-1)] [])"
proof (rule orphan_point_stops_processing [of _ _ "ex_row 9 ''aa'' 3" "ex_row 7 ''cc'' (-1)"])
  let ?db = "ex_db [ex_row 9 ''aa'' 3, ex_row 7 ''cc'' (-1), ex_row 11 ''bb'' (-1)] []"
  show wf: "db_wf ?db"
    by (simp add: db_wf_def ex_db_def ex_row_def pt_key_def point_ok_def int63_def)
  have "pending (abs_db ?db) = row_key ` {ex_row 7 ''cc'' (-1), ex_row 11 ''bb'' (-1)}"
    unfolding pending_rows [OF wf] by (rule arg_cong [where f = "\<lambda>s. row_key ` s"]) (auto simp: ex_db_def ex_row_def)
  then show "bp_reorgWindow ex_bp < int (card (pending (abs_db ?db)))"
    by (simp add: ex_row_def row_key_def ex_bp_def card_insert_if)
qed (simp_all add: ex_db_def ex_row_def ex_bp_def ex_point_def)

text \<open>When the highest point cannot be read after a rollback (for
  instance because no processed point is left), \<open>HandleRollback\<close> reports success and
  \<open>highestPoint\<close> keeps naming a block that was rolled back.\<close>

theorem rollback_error_swallowed:
  assumes "db_GetHighestPoint D db = Ok tip" "s < pr_Slot tip" "db_HandleRollback D s db = (Ok (), db')"
    and "db_GetHighestPoint D db' = Err e"
  shows "BlockProcessor_HandleRollback D s bp db = (Ok (), bp, db')"
  using assms by (simp add: BlockProcessor_HandleRollback_def errors_Wrap_def)

theorem rollback_error_swallowed_witness:
  "BlockProcessor_HandleRollback sqlite 5 ex_bp (ex_db [ex_row 9 ''aa'' 3] []) =
     (Ok (), ex_bp, ex_db [] [to_rollback (ex_row 9 ''aa'' 3)])"
  by (rule rollback_error_swallowed [of sqlite "ex_db [ex_row 9 ''aa'' 3] []" "ex_point 9 ''aa'' 3" 5 _ ErrNoRows])
     (simp_all add: sqlite_eval GetHighestPoint_def query_row_def processed_heights_def scan_point_def ex_db_def ex_row_def ex_point_def)

text \<open>Claim C19 (one_processor_at_a_time): in every interleaving of \<open>TryProcessBlocks\<close> and
  \<open>HandleRollback\<close> calls at most one goroutine processes blocks, never while a rollback
  runs, and \<open>TryProcessBlocks\<close> does nothing exactly when such a goroutine exists.\<close>

theorem one_processor_at_a_time:
  assumes "bp_step\<^sup>*\<^sup>* bp_idle s"
  shows "cc_procInside s + cc_rbInside s \<le> 1 \<and> cc_procWaiting s + cc_procInside s + cc_procReturning s \<le> 1 \<and>
     (TryProcessBlocks s = s \<longleftrightarrow> 0 < cc_procWaiting s + cc_procInside s + cc_procReturning s)"
proof -
  have i: "bp_conc_inv s" by (rule bp_conc_inv_reach [OF assms])
  then show ?thesis
    by (cases "cc_isProcessing s"; cases s) (auto simp: bp_conc_inv_def TryProcessBlocks_def split: if_splits)
qed

theorem one_processor_at_a_time_witness: "TryProcessBlocks (TryProcessBlocks bp_idle) = TryProcessBlocks bp_idle"
  using one_processor_at_a_time [OF bp_path] by (simp add: TryProcessBlocks_def bp_idle_def)

end
