(* ===== verification/Era.thy ===== *)
theory Era
  imports Prelude
begin

text \<open>
  Eras (src/era.go): the constants, their names, and decoding from CBOR. \<open>fmt_d\<close> is the \<open>%d\<close> of
  \<open>fmt.Sprintf\<close> for an unsigned number.
\<close>

type_synonym Era = uint64

definition EraByronEBB :: Era where "EraByronEBB = 0"
definition EraByron :: Era where "EraByron = 1"
definition EraShelley :: Era where "EraShelley = 2"
definition EraAllegra :: Era where "EraAllegra = 3"
definition EraMary :: Era where "EraMary = 4"
definition EraAlonzo :: Era where "EraAlonzo = 5"
definition EraBabbage :: Era where "EraBabbage = 6"
definition EraConway :: Era where "EraConway = 7"

lemmas eras = EraByronEBB_def EraByron_def EraShelley_def EraAllegra_def EraMary_def EraAlonzo_def
  EraBabbage_def EraConway_def

definition EraStringMap :: "(Era \<times> string) list" where
  "EraStringMap =
     [(EraByronEBB, ''ByronEBB''),
      (EraByron, ''Byron''),
      (EraShelley, ''Shelley''),
      (EraAllegra, ''Allegra''),
      (EraMary, ''Mary''),
      (EraAlonzo, ''Alonzo''),
      (EraBabbage, ''Babbage''),
      (EraConway, ''Conway'')]"

fun fmt_d :: "nat \<Rightarrow> string" where
  "fmt_d n = (if n < 10 then [hex_char n] else fmt_d (n div 10) @ [hex_char (n mod 10)])"

declare fmt_d.simps [simp del]

definition Era_String :: "Era \<Rightarrow> string" where
  "Era_String e =
     (case map_of EraStringMap e of
        Some s \<Rightarrow> s @ '' ('' @ fmt_d (unat e) @ '')''
      | None \<Rightarrow> ''Unknown ('' @ fmt_d (unat e) @ '')'')"

definition Era_MarshalJSON :: "Era \<Rightarrow> string" where
  "Era_MarshalJSON e = [CHR 0x22] @ Era_String e @ [CHR 0x22]"

definition Era_Valid :: "Era \<Rightarrow> bool" where
  "Era_Valid e \<longleftrightarrow> EraByronEBB \<le> e \<and> e \<le> EraConway"

definition Era_RawString :: "Era \<Rightarrow> string" where
  "Era_RawString e = (case map_of EraStringMap e of Some s \<Rightarrow> s | None \<Rightarrow> ''Unknown'')"

definition Era_UnmarshalCBOR :: "bytes \<Rightarrow> Era res" where
  "Era_UnmarshalCBOR data =
     (if length data = 1 then Ok (ucast (data ! 0))
      else if length data < 2 then Err (ErrMsg ''not enough bytes for era'')
      else if data ! 0 \<noteq> 0x82 then Err (ErrMsg ''expected era to start with cbor tag'')
      else Ok (ucast (data ! 1)))"

subsection \<open>Decimal numbers\<close>

fun dec_value :: "string \<Rightarrow> nat" where
  "dec_value cs = fold (\<lambda>c n. 10 * n + (of_char c - 48)) cs 0"

lemma hex_char_digit: "n < 10 \<Longrightarrow> of_char (hex_char n) = 48 + n"
  using less_16_cases [of n] by (auto simp: hex_char_def hex_digits_def)

lemma dec_value_fmt_d: "dec_value (fmt_d n) = n"
proof (induction n rule: fmt_d.induct)
  case (1 n)
  show ?case
  proof (cases "n < 10")
    case True
    then show ?thesis by (simp add: fmt_d.simps [of n] hex_char_digit)
  next
    case False
    then show ?thesis using 1 by (simp add: fmt_d.simps [of n] hex_char_digit)
  qed
qed

lemma fmt_d_inj: "fmt_d m = fmt_d n \<Longrightarrow> m = n"
  by (metis dec_value_fmt_d)

lemma fmt_d_digits: "c \<in> set (fmt_d n) \<Longrightarrow> 48 \<le> (of_char c :: nat) \<and> (of_char c :: nat) \<le> 57"
proof (induction n rule: fmt_d.induct)
  case (1 n)
  then show ?case
    by (cases "n < 10") (auto simp: fmt_d.simps [of n] hex_char_digit)
qed

lemma Era_Valid_names: "Era_Valid e \<longleftrightarrow> map_of EraStringMap e \<noteq> None"
proof -
  have "e \<le> 7 \<longleftrightarrow> e \<in> {0, 1, 2, 3, 4, 5, 6, 7}"
  proof
    assume "e \<le> 7"
    then have "unat e \<le> 7" by (simp add: word_le_nat_alt)
    then have "unat e \<in> {0, 1, 2, 3, 4, 5, 6, 7}" by (simp, presburger)
    then show "e \<in> {0, 1, 2, 3, 4, 5, 6, 7}" by (auto simp: word_unat_eq_iff)
  qed auto
  then show ?thesis by (auto simp: Era_Valid_def EraStringMap_def eras split: if_splits)
qed

end
