(* ===== verification/Client.thy ===== *)
theory Client
  imports BlockProcessorSpec Network Era
begin

text \<open>
  The client (src/client.go): options, connecting, following the chain and the queries that combine
  the database with the node.

  \<^item> \<open>Client\<close> is the struct without its handles; the database is an interface value with its state, the
    processor a record of \<open>BlockProcessor\<close>.
  \<^item> What the client gets from outside is a parameter or an argument: the results of dialling and of
    \<open>ouroboros.New\<close>, the messages of the chain-sync protocol, the answers of block-fetch and
    of the local state queries, \<open>ledger.NewAddress\<close>.
  \<^item> \<open>log.Fatal\<close> ends the process; it is a \<open>Panic\<close> of the model, as a run-time panic is.
  \<^item> \<open>onRollForwards\<close> returns also whether it called \<open>TryProcessBlocks\<close>; the processing goroutine itself is
    \<open>processBlocks\<close>.
  \<^item> Go maps are iterated in any order; a map that the code ranges over is a list of entries with
    distinct keys, and the statements hold for every order.
\<close>

subsection \<open>Options\<close>

record 'db ClientOptions =
  co_NtNHostPort :: string
  co_NtCHostPort :: string
  co_Network :: Network
  co_Database :: "'db Database option"
  co_StartPoint :: PointRef
  co_ReorgWindow :: int

definition defaultClientOptions :: "'db ClientOptions" where
  "defaultClientOptions = \<lparr>co_NtNHostPort = ''localhost:3000'', co_NtCHostPort = ''localhost:3001'',
     co_Network = NetworkMainNet, co_Database = None, co_StartPoint = empty_PointRef, co_ReorgWindow = 6\<rparr>"

text \<open>The five conditions and assignments each concern a field of their own.\<close>

definition setDefaults :: "'db ClientOptions \<Rightarrow> 'db ClientOptions" where
  "setDefaults opt =
     (let d = (defaultClientOptions :: 'db ClientOptions) in
      opt\<lparr>co_NtNHostPort := (if co_NtNHostPort opt = [] then co_NtNHostPort d else co_NtNHostPort opt),
          co_NtCHostPort := (if co_NtCHostPort opt = [] then co_NtCHostPort d else co_NtCHostPort opt),
          co_Network := (if co_Network opt = [] then co_Network d else co_Network opt),
          co_StartPoint := (if pr_Hash (co_StartPoint opt) = [] then empty_PointRef else co_StartPoint opt),
          co_ReorgWindow := (if co_ReorgWindow opt < 0 then co_ReorgWindow d else co_ReorgWindow opt)\<rparr>)"

text \<open>\<open>&ClientOptions{}\<close>, used for a nil argument.\<close>

definition zero_ClientOptions :: "'db ClientOptions" where
  "zero_ClientOptions = \<lparr>co_NtNHostPort = [], co_NtCHostPort = [], co_Network = [], co_Database = None,
     co_StartPoint = empty_PointRef, co_ReorgWindow = 0\<rparr>"

record 'db Client =
  cl_Options :: "'db ClientOptions"
  cl_params :: NetworkParams
  cl_db :: "'db Database"
  cl_shutdown :: bool
  cl_latestEra :: Era
  cl_processor :: BlockProcessor
  cl_startPoint :: PointRef
  cl_points :: "PointRef list"
  cl_tipReached :: bool

definition NewClient :: "'db ClientOptions option \<Rightarrow> 'db Client res" where
  "NewClient options =
     (let opt = setDefaults (case options of None \<Rightarrow> zero_ClientOptions | Some opt \<Rightarrow> opt) in
      case co_Database opt of
        None \<Rightarrow> Err (ErrMsg ''database is required'')
      | Some D \<Rightarrow>
          res_bind (Network_Params (co_Network opt)) (\<lambda>params.
            Ok \<lparr>cl_Options = opt, cl_params = params, cl_db = D, cl_shutdown = False, cl_latestEra = 0,
                cl_processor = \<lparr>bp_isProcessing = False, bp_highestPoint = empty_PointRef, bp_reorgWindow = 0\<rparr>,
                cl_startPoint = empty_PointRef, cl_points = [], cl_tipReached = False\<rparr>))"

subsection \<open>Connecting\<close>

definition maxAttempts :: nat where "maxAttempts = 10"

text \<open>The loop from attempt \<open>n\<close> on. \<open>dial\<close> is the result of each attempt, \<open>open_conn\<close> that of
  \<open>ouroboros.New\<close> on the connection. The second component counts the attempts made.\<close>

function connect_from :: "nat \<Rightarrow> (nat \<Rightarrow> 'conn res) \<Rightarrow> ('conn \<Rightarrow> 'ntn res) \<Rightarrow> 'ntn res \<times> nat" where
  "connect_from n dial open_conn =
     (if maxAttempts < n then (Err (ErrMsg ''failed to open node-to-node connection''), n - 1)
      else case dial n of
        Err e \<Rightarrow> if n = maxAttempts then (Err e, n) else connect_from (Suc n) dial open_conn
      | Panic p \<Rightarrow> (Panic p, n)
      | Ok conn \<Rightarrow> (open_conn conn, n))"
  by pat_completeness auto
termination
  by (relation "measure (\<lambda>(n, dial, open_conn). Suc maxAttempts - n)") auto

declare connect_from.simps [simp del]

definition connect :: "(nat \<Rightarrow> 'conn res) \<Rightarrow> ('conn \<Rightarrow> 'ntn res) \<Rightarrow> 'ntn res \<times> nat" where
  "connect dial open_conn = connect_from 1 dial open_conn"

definition Start :: "(nat \<Rightarrow> 'conn res) \<Rightarrow> ('conn \<Rightarrow> 'ntn res) \<Rightarrow> 'db Client \<Rightarrow> 'db \<Rightarrow> ('db Client \<times> 'ntn) res" where
  "Start dial open_conn c db =
     res_bind (NewBlockProcessor (cl_db c) (co_ReorgWindow (cl_Options c)) db) (\<lambda>bp.
     res_bind (fst (connect dial open_conn)) (\<lambda>ntn. Ok (c\<lparr>cl_processor := bp\<rparr>, ntn)))"

subsection \<open>Following the chain\<close>

text \<open>The first argument of \<open>ChainSync.Sync\<close>: where to start.\<close>

definition followChain :: "'db Database \<Rightarrow> 'db \<Rightarrow> common_Point list res" where
  "followChain D db =
     (case db_GetHighestPoint D db of
        Ok startPoint \<Rightarrow> Ok [\<lparr>cp_Slot = pr_Slot startPoint, cp_Hash = HexString_Bytes (pr_Hash startPoint)\<rparr>]
      | Err e \<Rightarrow> if errors_Is e ErrNoRows then Ok [] else Panic ''failed to read db for start point''
      | Panic p \<Rightarrow> Panic p)"

definition onRollBackwards :: "common_Point \<Rightarrow> 'db Client \<Rightarrow> 'db \<Rightarrow> unit res \<times> 'db Client \<times> 'db" where
  "onRollBackwards point c db =
     (if cp_Slot point > pr_Slot (cl_startPoint c) then
        (case BlockProcessor_HandleRollback (cl_db c) (cp_Slot point) (cl_processor c) db of
           (Err e, bp, db') \<Rightarrow> (Err (ErrWrap ''failed to handle rollback'' e), c\<lparr>cl_processor := bp\<rparr>, db')
         | (r, bp, db') \<Rightarrow> (r, c\<lparr>cl_processor := bp\<rparr>, db'))
      else (Ok (), c, db))"

text \<open>The dynamic type of \<open>blockData\<close>; a value of another type leaves the point at its zero value.\<close>

datatype block_data =
    DataBlock Block
  | DataHeader uint64 string
  | DataOther

fun data_point :: "uint64 \<Rightarrow> block_data \<Rightarrow> PointRef" where
  "data_point blockType (DataBlock b) =
     \<lparr>pr_Slot = lb_Slot b, pr_Hash = lb_Hash b, pr_Type = sint blockType, pr_Height = 0\<rparr>"
| "data_point blockType (DataHeader slot hash) =
     \<lparr>pr_Slot = slot, pr_Hash = hash, pr_Type = sint blockType, pr_Height = 0\<rparr>"
| "data_point blockType DataOther = empty_PointRef"

definition onRollForwards :: "uint64 \<Rightarrow> block_data \<Rightarrow> uint64 \<Rightarrow> 'db Client \<Rightarrow> 'db \<Rightarrow> (bool \<times> 'db Client \<times> 'db) res" where
  "onRollForwards blockType blockData tipSlot c db =
     (let point = data_point blockType blockData;
          c1 = c\<lparr>cl_latestEra := blockType, cl_points := cl_points c @ [point]\<rparr>;
          c2 = (if \<not> cl_tipReached c1 \<and> tipSlot = pr_Slot point then c1\<lparr>cl_tipReached := True\<rparr> else c1)
      in if BlockBatchSize \<le> int (length (cl_points c2)) \<or> cl_tipReached c2
         then (case db_AddPoints (cl_db c2) (cl_points c2) db of
                 (Ok _, db') \<Rightarrow> Ok (True, c2\<lparr>cl_points := []\<rparr>, db')
               | (Err e, db') \<Rightarrow> Panic ''failed to add points''
               | (Panic p, db') \<Rightarrow> Panic p)
         else Ok (False, c2, db))"

definition Stop :: "unit res \<Rightarrow> 'db Client \<Rightarrow> unit res \<times> 'db Client" where
  "Stop closed c = (if cl_shutdown c then (Ok (), c) else (closed, c\<lparr>cl_shutdown := True\<rparr>))"

text \<open>The connection for a query of the node: \<open>dial\<close> is \<open>net.Dial\<close>, \<open>open_conn\<close> is \<open>ouroboros.New\<close> with the magic
  of the network. The queries below get its outcome as \<open>connected\<close>.\<close>

definition ntc :: "(string \<Rightarrow> 'conn res) \<Rightarrow> ('conn \<Rightarrow> uint32 \<Rightarrow> 'ntc res) \<Rightarrow> 'db Client \<Rightarrow> 'ntc res" where
  "ntc dial open_conn c =
     res_bind (dial (co_NtCHostPort (cl_Options c))) (\<lambda>ntcConn. open_conn ntcConn (ucast (np_Magic (cl_params c))))"

subsection \<open>Queries\<close>

definition GetTip :: "'db Client \<Rightarrow> 'db \<Rightarrow> PointRef res" where
  "GetTip c db =
     (case db_GetHighestPoint (cl_db c) db of
        Err e \<Rightarrow> if errors_Is e ErrNoRows then Ok empty_PointRef else Err e
      | r \<Rightarrow> r)"

definition GetHeight :: "'db Client \<Rightarrow> PointRef res" where
  "GetHeight c = (if pr_Hash (bp_highestPoint (cl_processor c)) = [] then Err ErrPointNotFound
                  else Ok (bp_highestPoint (cl_processor c)))"

record UtxoWithHeight =
  ut_TxHash :: string
  ut_Address :: string
  ut_Amount :: uint64
  ut_Index :: uint64
  ut_Height :: uint64

record node_utxo =
  nu_Hash :: string
  nu_Idx :: nat
  nu_Address :: string
  nu_Amount :: uint64

text \<open>\<open>connected\<close> is the result of \<open>c.ntc()\<close>, \<open>addr\<close> that of \<open>ledger.NewAddress\<close>, \<open>results\<close> the answer of the node in
  the order the map is ranged over (the second time; the order of the hashes in the
  query does not matter to \<open>GetTxs\<close>). Of two recorded transactions with the same hash the last one would be kept.\<close>

definition GetUtxoForAddress :: "unit res \<Rightarrow> unit res \<Rightarrow> node_utxo list res \<Rightarrow> 'db Client \<Rightarrow> 'db \<Rightarrow> UtxoWithHeight list res" where
  "GetUtxoForAddress connected addr results c db =
     res_bind connected (\<lambda>_. res_bind addr (\<lambda>_. res_bind results (\<lambda>utxos.
     res_bind (db_GetTxs (cl_db c) (remdups (map nu_Hash utxos)) db) (\<lambda>txs.
       let recorded = map_of (rev (map (\<lambda>t. (tr_Hash t, t)) txs)) in
       Ok (concat (map (\<lambda>u. case recorded (nu_Hash u) of
                              None \<Rightarrow> []
                            | Some ref \<Rightarrow> [\<lparr>ut_TxHash = nu_Hash u, ut_Address = nu_Address u, ut_Amount = nu_Amount u,
                                           ut_Index = of_nat (nu_Idx u), ut_Height = tr_BlockHeight ref\<rparr>]) utxos))))))"

definition FetchLatestBlock :: "(common_Point \<Rightarrow> Block res) \<Rightarrow> 'db Client \<Rightarrow> 'db \<Rightarrow> Block res" where
  "FetchLatestBlock getBlock c db =
     res_bind (db_GetHighestPoint (cl_db c) db) (\<lambda>point. getBlock (PointRef_Common point))"

definition GetBlockByPoint :: "(common_Point \<Rightarrow> Block res) \<Rightarrow> PointRef \<Rightarrow> Block res" where
  "GetBlockByPoint getBlock point = getBlock (PointRef_Common point)"

definition GetBlockByHeight :: "(common_Point \<Rightarrow> Block res) \<Rightarrow> uint64 \<Rightarrow> 'db Client \<Rightarrow> 'db \<Rightarrow> Block res" where
  "GetBlockByHeight getBlock height c db =
     res_bind (db_GetPointByHeight (cl_db c) height db) (\<lambda>point. getBlock (PointRef_Common point))"

text \<open>The loop keeps the last transaction of the block with the hash.\<close>

definition GetTransaction :: "(common_Point \<Rightarrow> Block res) \<Rightarrow> string \<Rightarrow> 'db Client \<Rightarrow> 'db \<Rightarrow> (Transaction \<times> Block) res" where
  "GetTransaction getBlock hash c db =
     res_bind (db_GetBlockNumForTx (cl_db c) hash db) (\<lambda>height.
     res_bind (db_GetPointByHeight (cl_db c) height db) (\<lambda>point.
     res_bind (getBlock (PointRef_Common point)) (\<lambda>block.
       case fold (\<lambda>blockTx tx. if lt_Hash blockTx = hash then Some blockTx else tx) (lb_Transactions block) None of
         None \<Rightarrow> Err ErrTransactionNotFound
       | Some tx \<Rightarrow> Ok (tx, block))))"

definition GetProtocolParams :: "unit res \<Rightarrow> 'p res \<Rightarrow> 'p res" where
  "GetProtocolParams connected query = res_bind connected (\<lambda>_. query)"

definition SubmitTx :: "unit res \<Rightarrow> (uint16 \<Rightarrow> bytes \<Rightarrow> unit res) \<Rightarrow> bytes \<Rightarrow> unit res" where
  "SubmitTx connected submit signedTx =
     res_bind connected (\<lambda>_. submit (ucast EraConway - 1) signedTx)"

subsection \<open>Runs of chain-sync messages\<close>

datatype chain_msg =
    RollForward uint64 block_data uint64
  | RollBackward common_Point

fun on_msg :: "chain_msg \<Rightarrow> 'db Client \<Rightarrow> 'db \<Rightarrow> ('db Client \<times> 'db) res" where
  "on_msg (RollForward ty d tip) c db = res_bind (onRollForwards ty d tip c db) (\<lambda>(_, c', db'). Ok (c', db'))"
| "on_msg (RollBackward p) c db =
     (case onRollBackwards p c db of (Ok _, c', db') \<Rightarrow> Ok (c', db') | (Err e, _) \<Rightarrow> Err e | (Panic p, _) \<Rightarrow> Panic p)"

fun follow :: "chain_msg list \<Rightarrow> 'db Client \<Rightarrow> 'db \<Rightarrow> ('db Client \<times> 'db) res" where
  "follow [] c db = Ok (c, db)"
| "follow (m # ms) c db = res_bind (on_msg m c db) (\<lambda>(c', db'). follow ms c' db')"

fun msg_points :: "chain_msg \<Rightarrow> PointRef list" where
  "msg_points (RollForward ty d tip) = [data_point ty d]"
| "msg_points (RollBackward p) = []"

fun is_forward :: "chain_msg \<Rightarrow> bool" where
  "is_forward (RollForward ty d tip) = True"
| "is_forward _ = False"

lemma connect_from_eq:
  "0 < n \<Longrightarrow> connect_from n dial open_conn =
     (case find (\<lambda>n. \<not> is_err (dial n)) [n..<Suc maxAttempts] of
        Some k \<Rightarrow> (res_bind (dial k) open_conn, k)
      | None \<Rightarrow> if maxAttempts < n then (Err (ErrMsg ''failed to open node-to-node connection''), n - 1)
               else (res_bind (dial maxAttempts) open_conn, maxAttempts))"
proof (induction n dial open_conn rule: connect_from.induct)
  case (1 n dial open_conn)
  show ?case
  proof (cases "n \<le> maxAttempts")
    case True
    then have up: "[n..<Suc maxAttempts] = n # [Suc n..<Suc maxAttempts]" by (simp add: upt_conv_Cons)
    show ?thesis
    proof (cases "dial n")
      case (Err e)
      show ?thesis
      proof (cases "n = maxAttempts")
        case False
        then show ?thesis using 1 True Err
          by (subst connect_from.simps) (simp add: up split: option.split del: upt_Suc)
      qed (use Err up in \<open>simp add: connect_from.simps [of maxAttempts]\<close>)
    qed (use True up in \<open>simp_all add: connect_from.simps [of n]\<close>)
  qed (simp add: connect_from.simps [of n])
qed

lemma setDefaults_idem: "setDefaults (setDefaults opt) = setDefaults opt"
  by (simp add: setDefaults_def defaultClientOptions_def Let_def empty_PointRef_def NetworkMainNet_def)

lemma forward_spec:
  "onRollForwards ty d tip c db = Ok (started, c', db') \<longleftrightarrow>
     (let ps = cl_points c @ [data_point ty d];
          reached = (cl_tipReached c \<or> tip = pr_Slot (data_point ty d))
      in started = (BlockBatchSize \<le> int (length ps) \<or> reached) \<and>
         c' = c\<lparr>cl_latestEra := ty, cl_tipReached := reached, cl_points := (if started then [] else ps)\<rparr> \<and>
         (if started then db_AddPoints (cl_db c) ps db = (Ok (), db') else db' = db))"
  by (auto simp: onRollForwards_def Let_def split: prod.splits res.splits if_splits)

lemma backward_keeps:
  "onRollBackwards p c db = (r, c', db') \<Longrightarrow> cl_points c' = cl_points c \<and> cl_db c' = cl_db c \<and> cl_tipReached c' = cl_tipReached c"
  by (auto simp: onRollBackwards_def split: prod.splits res.splits if_splits)

lemma AddPoints_dom: "dom (lg_points (fold spec_AddPoint ps l)) = dom (lg_points l) \<union> point_key ` set ps"
  by (induction ps arbitrary: l) (auto simp: spec_AddPoint_def point_key_def)

context database_contract
begin

lemma forward_inv:
  assumes "inv db" "cl_db c = D" "onRollForwards ty d tip c db = Ok (started, c', db')"
  shows "inv db' \<and> cl_db c' = D \<and>
     set (cl_points c') \<subseteq> set (cl_points c) \<union> {data_point ty d} \<and>
     (\<forall>p\<in>set (cl_points c) \<union> {data_point ty d}. p \<in> set (cl_points c') \<or> point_key p \<in> dom (lg_points (abs db'))) \<and>
     dom (lg_points (abs db)) \<subseteq> dom (lg_points (abs db')) \<and>
     (cl_points c' = [] \<or> int (length (cl_points c')) < BlockBatchSize)"
proof (cases started)
  case True
  then have add: "db_AddPoints D (cl_points c @ [data_point ty d]) db = (Ok (), db')"
    using assms(2,3) by (simp add: forward_spec Let_def)
  then have "inv db'" using inv_AddPoints [OF assms(1), of "cl_points c @ [data_point ty d]"] by simp
  then show ?thesis using True assms(2,3) abs_AddPoints [OF assms(1) add]
    by (auto simp: forward_spec Let_def AddPoints_dom simp del: fold_append)
next
  case False
  then show ?thesis using assms by (auto simp: forward_spec Let_def)
qed

lemma follow_forward:
  "inv db \<Longrightarrow> cl_db c = D \<Longrightarrow> list_all is_forward ms \<Longrightarrow> follow ms c db = Ok (c', db') \<Longrightarrow>
   p \<in> set (cl_points c) \<union> set (concat (map msg_points ms)) \<or> point_key p \<in> dom (lg_points (abs db)) \<Longrightarrow>
   p \<in> set (cl_points c') \<or> point_key p \<in> dom (lg_points (abs db'))"
proof (induction ms arbitrary: c db)
  case (Cons m ms)
  then obtain ty d tip where m: "m = RollForward ty d tip" by (cases m) auto
  obtain b c1 db1 where f: "onRollForwards ty d tip c db = Ok (b, c1, db1)" "follow ms c1 db1 = Ok (c', db')"
    using Cons.prems(4) by (auto simp: m split: prod.splits)
  note i = forward_inv [OF Cons.prems(1,2) f(1)]
  show ?case
    using Cons.prems(3,5) i m by (intro Cons.IH [OF _ _ _ f(2)]) auto
qed auto

end

subsection \<open>Shared lemmas and example data\<close>

lemma setDefaults_facts:
  "0 \<le> co_ReorgWindow (setDefaults opt)" "co_NtNHostPort (setDefaults opt) \<noteq> []" "co_NtCHostPort (setDefaults opt) \<noteq> []"
  by (simp_all add: setDefaults_def defaultClientOptions_def Let_def)

lemma find_last_tx:
  "fold (\<lambda>blockTx tx. if lt_Hash blockTx = hash then Some blockTx else tx) xs acc =
     (case filter (\<lambda>t. lt_Hash t = hash) xs of [] \<Rightarrow> acc | ts \<Rightarrow> Some (last ts))"
  by (induction xs arbitrary: acc) (auto split: list.splits)

definition ex_opts :: "SqlLiteDatabase ClientOptions" where
  "ex_opts = zero_ClientOptions\<lparr>co_Database := Some sqlite, co_ReorgWindow := -1\<rparr>"

definition ex_client :: "SqlLiteDatabase Client" where
  "ex_client = \<lparr>cl_Options = setDefaults ex_opts, cl_params = MainNetParams, cl_db = sqlite, cl_shutdown = False, cl_latestEra = 0,
     cl_processor = ex_bp, cl_startPoint = empty_PointRef, cl_points = [], cl_tipReached = False\<rparr>"

definition ex_txdb :: SqlLiteDatabase where
  "ex_txdb = (ex_db [ex_row 11 ''bb'' 4] [])\<lparr>sq_tx := [\<lparr>tx_txhash = ''t1'', tx_block_number = 4\<rparr>]\<rparr>"

lemma ex_txdb_wf: "db_wf ex_txdb"
  by (simp add: db_wf_def ex_txdb_def ex_db_def ex_row_def point_ok_def int63_def)

lemma ex_txdb_abs: "lg_txs (abs_db ex_txdb) = [''t1'' \<mapsto> 4]"
  by (simp add: abs_db_def ex_txdb_def ex_db_def)

subsection \<open>Properties\<close>

text \<open>\<open>connect\<close> dials at most ten times and stops at the first
  attempt that does not fail; its result is that of opening the node connection on it, or the error
  of the tenth attempt. The error after the loop is never returned.\<close>

theorem connect_retries:
  "connect dial open_conn =
     (case find (\<lambda>n. \<not> is_err (dial n)) [1..<11] of
        Some k \<Rightarrow> (res_bind (dial k) open_conn, k)
      | None \<Rightarrow> (res_bind (dial 10) open_conn, 10))"
proof -
  have m: "maxAttempts = 10" "[1..<Suc maxAttempts] = [1..<11]" by (simp_all add: maxAttempts_def)
  show ?thesis
    unfolding connect_def connect_from_eq [OF zero_less_one] m by (auto split: option.split)
qed

text \<open>A client that \<open>NewClient\<close> returns has a non-negative
  reorganisation window, host names, the database of its options and the parameters of a valid
  network; applying the defaults again changes nothing.\<close>

theorem new_client_options:
  assumes "NewClient options = Ok c"
  shows "0 \<le> co_ReorgWindow (cl_Options c) \<and> co_NtNHostPort (cl_Options c) \<noteq> [] \<and> co_NtCHostPort (cl_Options c) \<noteq> [] \<and>
     Network_Params (co_Network (cl_Options c)) = Ok (cl_params c) \<and> co_Database (cl_Options c) = Some (cl_db c) \<and>
     setDefaults (cl_Options c) = cl_Options c"
proof -
  obtain opt where "cl_Options c = setDefaults opt" "co_Database (setDefaults opt) = Some (cl_db c)"
    "Network_Params (co_Network (setDefaults opt)) = Ok (cl_params c)"
    using assms unfolding NewClient_def Let_def by (auto split: option.splits)
  then show ?thesis by (simp add: setDefaults_idem setDefaults_facts)
qed

theorem new_client_options_witness: "co_ReorgWindow (cl_Options ex_client) = 6"
proof -
  have "NewClient (Some ex_opts) = Ok (ex_client\<lparr>cl_processor := \<lparr>bp_isProcessing = False, bp_highestPoint = empty_PointRef, bp_reorgWindow = 0\<rparr>\<rparr>)"
    by (simp add: NewClient_def ex_opts_def ex_client_def setDefaults_def defaultClientOptions_def zero_ClientOptions_def
        Let_def Network_Params_def Network_Validate_def Network_Valid_def empty_PointRef_def)
  from new_client_options [OF this] show ?thesis
    by (simp add: ex_client_def ex_opts_def setDefaults_def defaultClientOptions_def Let_def zero_ClientOptions_def)
qed

text \<open>Claim C22 (roll_forward_no_loss): while the node only rolls forward, every point it sends is, after
  any number of messages, either in the database or still in the buffer of the client.\<close>

theorem roll_forward_no_loss:
  assumes "db_wf db" "cl_db c = sqlite" "list_all is_forward ms" "follow ms c db = Ok (c', db')"
    and "p \<in> set (concat (map msg_points ms))"
  shows "p \<in> set (cl_points c') \<or> point_key p \<in> dom (lg_points (abs_db db'))"
  using sq.follow_forward [OF assms(1-4)] assms(5) by blast

theorem roll_forward_no_loss_witness:
  "case follow [RollForward 6 (DataHeader 11 ''bb'') 99, RollForward 6 (DataHeader 12 ''cc'') 12] ex_client initTables of
     Ok (c', db') \<Rightarrow> (11, ''bb'') \<in> dom (lg_points (abs_db db')) \<and> cl_points c' = [] | _ \<Rightarrow> False"
proof -
  let ?ms = "[RollForward 6 (DataHeader 11 ''bb'') 99, RollForward 6 (DataHeader 12 ''cc'') 12]"
  obtain c' db' where f: "follow ?ms ex_client initTables = Ok (c', db')" and c': "cl_points c' = []"
    by (simp add: onRollForwards_def ex_client_def BlockBatchSize_def sqlite_eval)
  have "\<lparr>pr_Slot = 11, pr_Hash = ''bb'', pr_Type = 6, pr_Height = 0\<rparr> \<in> set (cl_points c') \<or>
     point_key \<lparr>pr_Slot = 11, pr_Hash = ''bb'', pr_Type = 6, pr_Height = 0\<rparr> \<in> dom (lg_points (abs_db db'))"
    by (rule roll_forward_no_loss [OF initTables_wf _ _ f]) (simp_all add: ex_client_def)
  then show ?thesis unfolding f using c' by (simp add: point_key_def)
qed

text \<open>A roll back does not touch the buffer of points that are
  not yet in the database: a buffered point is added by the next batch even when its slot was rolled
  back.\<close>

theorem rolled_back_buffer_survives:
  assumes "db_wf db" "cl_db c = sqlite" "p \<in> set (cl_points c)"
    and "onRollBackwards point c db = (Ok (), c1, db1)" "onRollForwards ty d tip c1 db1 = Ok (True, c2, db2)"
  shows "point_key p \<in> dom (lg_points (abs_db db2))"
proof -
  have "db_wf (snd (snd (onRollBackwards point c db)))"
    using sq.rollback_inv [OF assms(1), of "cp_Slot point" "cl_processor c"] assms(1,2)
    by (auto simp: onRollBackwards_def split: prod.splits res.splits)
  then have wf1: "db_wf db1" using assms(4) by simp
  note k = backward_keeps [OF assms(4)]
  have "cl_points c2 = []" using assms(5) by (simp add: forward_spec Let_def)
  then show ?thesis using sq.forward_inv [OF wf1 _ assms(5)] k assms(2,3) by auto
qed

theorem rolled_back_buffer_survives_witness:
  "\<exists>c1 db1 c2 db2. onRollBackwards \<lparr>cp_Slot = 10, cp_Hash = []\<rparr> (ex_client\<lparr>cl_points := [ex_point 11 ''bb'' 0]\<rparr>) initTables = (Ok (), c1, db1) \<and>
     onRollForwards 6 (DataHeader 12 ''cc'') 12 c1 db1 = Ok (True, c2, db2) \<and> (11, ''bb'') \<in> dom (lg_points (abs_db db2))"
proof -
  let ?c = "ex_client\<lparr>cl_points := [ex_point 11 ''bb'' 0]\<rparr>"
  have b: "onRollBackwards \<lparr>cp_Slot = 10, cp_Hash = []\<rparr> ?c initTables = (Ok (), ?c, initTables)"
    by (simp add: onRollBackwards_def ex_client_def empty_PointRef_def BlockProcessor_HandleRollback_def sqlite_def GetHighestPoint_def
        initTables_def query_row_def)
  obtain c2 db2 where f: "onRollForwards 6 (DataHeader 12 ''cc'') 12 ?c initTables = Ok (True, c2, db2)"
    by (simp add: onRollForwards_def ex_client_def BlockBatchSize_def sqlite_eval ex_point_def)
  have "point_key (ex_point 11 ''bb'' 0) \<in> dom (lg_points (abs_db db2))"
    by (rule rolled_back_buffer_survives [OF initTables_wf _ _ b f]) (simp_all add: ex_client_def)
  then show ?thesis using b f by (auto simp: point_key_def ex_point_def)
qed

text \<open>Claim C27 (get_transaction_sound): when \<open>GetTransaction\<close> returns a transaction, it has
  the hash asked for, is in the returned block, and that block was fetched at a stored point whose
  height is the recorded height of the transaction.\<close>

theorem get_transaction_sound:
  assumes "db_wf db" "cl_db c = sqlite" "GetTransaction getBlock hash c db = Ok (tx, block)"
  shows "lt_Hash tx = hash \<and> tx \<in> set (lb_Transactions block) \<and>
     (\<exists>point. stored (abs_db db) point \<and> getBlock (PointRef_Common point) = Ok block \<and>
        lg_txs (abs_db db) hash = Some (pr_Height point))"
proof -
  obtain h p where h: "GetBlockNumForTx hash db = Ok h" and p: "GetPointByHeight h db = Ok p"
    and b: "getBlock (PointRef_Common p) = Ok block"
    and t: "fold (\<lambda>blockTx tx. if lt_Hash blockTx = hash then Some blockTx else tx) (lb_Transactions block) None = Some tx"
    using assms(2,3) by (auto simp: GetTransaction_def sqlite_def split: option.splits)
  have "tx \<in> set (filter (\<lambda>t. lt_Hash t = hash) (lb_Transactions block))"
  proof (cases "filter (\<lambda>t. lt_Hash t = hash) (lb_Transactions block)")
    case (Cons a list)
    then have "tx = last (a # list)" using t unfolding find_last_tx by simp
    then show ?thesis using Cons last_in_set [of "a # list"] by (simp del: set_filter)
  qed (use t in \<open>simp add: find_last_tx\<close>)
  moreover have "lg_txs (abs_db db) hash = Some h"
    using h by (auto simp: GetBlockNumForTx_lookup [OF assms(1)] split: option.splits)
  ultimately show ?thesis using GetPointByHeight_stored [OF assms(1) p] b by auto
qed

theorem get_transaction_sound_witness:
  "GetTransaction (\<lambda>_. Ok (ex_block 6 ''bb'' ''aa'' 11 [''t1''])) ''t1'' ex_client ex_txdb =
     Ok (\<lparr>lt_Hash = ''t1''\<rparr>, ex_block 6 ''bb'' ''aa'' 11 [''t1'']) \<and>
   (\<exists>point. stored (abs_db ex_txdb) point \<and> pr_Height point = 4)"
proof -
  let ?b = "ex_block 6 ''bb'' ''aa'' 11 [''t1'']"
  have g: "GetTransaction (\<lambda>_. Ok ?b) ''t1'' ex_client ex_txdb = Ok (\<lparr>lt_Hash = ''t1''\<rparr>, ?b)"
    by (simp add: GetTransaction_def ex_client_def ex_txdb_def ex_db_def ex_row_def sqlite_def GetBlockNumForTx_def GetPointByHeight_def
        query_row_def scan_uint64_def sql_arg_def scan_point_def ex_block_def)
  have "cl_db ex_client = sqlite" by (simp add: ex_client_def)
  from get_transaction_sound [OF ex_txdb_wf this g] show ?thesis
    using g by (auto simp: ex_txdb_abs)
qed

text \<open>Claim C28 (utxos_are_recorded): \<open>GetUtxoForAddress\<close> returns, in the order of the
  answer, exactly the outputs of transactions that the processor has recorded, each with the
  recorded height.\<close>

theorem utxos_are_recorded:
  assumes "db_wf db" "cl_db c = sqlite" "results \<noteq> []"
  shows "\<exists>out. GetUtxoForAddress (Ok ()) (Ok ()) (Ok results) c db = Ok out \<and>
     out = map (\<lambda>u. \<lparr>ut_TxHash = nu_Hash u, ut_Address = nu_Address u, ut_Amount = nu_Amount u,
                     ut_Index = of_nat (nu_Idx u), ut_Height = the (lg_txs (abs_db db) (nu_Hash u))\<rparr>)
           (filter (\<lambda>u. lg_txs (abs_db db) (nu_Hash u) \<noteq> None) results)"
proof -
  let ?hs = "remdups (map nu_Hash results)"
  obtain ts where ts: "GetTxs ?hs db = Ok ts" "distinct (map tr_Hash ts)"
    "set ts = {\<lparr>tr_Hash = h, tr_BlockHeight = n\<rparr> | h n. h \<in> set ?hs \<and> lg_txs (abs_db db) h = Some n}"
    using GetTxs_lookup [OF assms(1), of ?hs] assms(3) by auto
  have "map_of (rev (map (\<lambda>t. (tr_Hash t, t)) ts)) (nu_Hash u) =
     map_option (\<lambda>n. \<lparr>tr_Hash = nu_Hash u, tr_BlockHeight = n\<rparr>) (lg_txs (abs_db db) (nu_Hash u))" if "u \<in> set results" for u
  proof (cases "lg_txs (abs_db db) (nu_Hash u)")
    case None
    then show ?thesis using ts(3) by (auto simp: map_of_eq_None_iff)
  next
    case (Some n)
    then have "\<lparr>tr_Hash = nu_Hash u, tr_BlockHeight = n\<rparr> \<in> set ts" using ts(3) that by auto
    then show ?thesis using ts(2) Some by (simp add: map_of_distinct_rev comp_def) force
  qed
  then have "concat (map (\<lambda>u. case map_of (rev (map (\<lambda>t. (tr_Hash t, t)) ts)) (nu_Hash u) of None \<Rightarrow> []
        | Some ref \<Rightarrow> [\<lparr>ut_TxHash = nu_Hash u, ut_Address = nu_Address u, ut_Amount = nu_Amount u,
                       ut_Index = of_nat (nu_Idx u), ut_Height = tr_BlockHeight ref\<rparr>]) us) =
     map (\<lambda>u. \<lparr>ut_TxHash = nu_Hash u, ut_Address = nu_Address u, ut_Amount = nu_Amount u,
                     ut_Index = of_nat (nu_Idx u), ut_Height = the (lg_txs (abs_db db) (nu_Hash u))\<rparr>)
           (filter (\<lambda>u. lg_txs (abs_db db) (nu_Hash u) \<noteq> None) us)" if "set us \<subseteq> set results" for us
    using that by (induction us) auto
  then show ?thesis using ts(1) assms(2) by (simp add: GetUtxoForAddress_def sqlite_def)
qed

theorem utxos_are_recorded_witness:
  "GetUtxoForAddress (Ok ()) (Ok ()) (Ok [\<lparr>nu_Hash = ''t1'', nu_Idx = 0, nu_Address = ''a'', nu_Amount = 7\<rparr>,
      \<lparr>nu_Hash = ''t2'', nu_Idx = 1, nu_Address = ''a'', nu_Amount = 8\<rparr>]) ex_client ex_txdb =
   Ok [\<lparr>ut_TxHash = ''t1'', ut_Address = ''a'', ut_Amount = 7, ut_Index = 0, ut_Height = 4\<rparr>]"
  using utxos_are_recorded [OF ex_txdb_wf, of ex_client "[\<lparr>nu_Hash = ''t1'', nu_Idx = 0, nu_Address = ''a'', nu_Amount = 7\<rparr>,
      \<lparr>nu_Hash = ''t2'', nu_Idx = 1, nu_Address = ''a'', nu_Amount = 8\<rparr>]"]
  by (simp add: ex_client_def ex_txdb_abs)

end
