(* ===== verification/Protocol.thy ===== *)
theory Protocol
  imports Network Era
begin

text \<open>
  Protocol and message numbers, the tables between them and message types, and the generic CBOR wrappers
  of src/protocol.go, with the version table of src/protocol_handshake.go.

  A message type stands for its Go struct type. \<open>ProtocolMessageMap\<close> holds, for each entry, one
  message object that is shared by all lookups; \<open>ProtocolToMessage\<close> therefore names the
  object by the type, and what that sharing means for a reader is stated in MessageReader.
  CBOR decoders are arguments.
\<close>

subsection \<open>Numbers and tables\<close>

definition MinUtxoBytes :: nat where "MinUtxoBytes = 197"
definition MaxAuxDataStringSize :: nat where "MaxAuxDataStringSize = 64"

type_synonym Protocol = uint16
type_synonym Subprotocol = uint16

definition ProtocolHandshake :: Protocol where "ProtocolHandshake = 0"
definition ProtocolDeltaQueue :: Protocol where "ProtocolDeltaQueue = 1"
definition ProtocolChainSync :: Protocol where "ProtocolChainSync = 2"
definition ProtocolBlockFetch :: Protocol where "ProtocolBlockFetch = 3"
definition ProtocolTxSubmission :: Protocol where "ProtocolTxSubmission = 4"
definition ProtocolLocalChainSync :: Protocol where "ProtocolLocalChainSync = 5"
definition ProtocolLocalTx :: Protocol where "ProtocolLocalTx = 6"
definition ProtocolLocalState :: Protocol where "ProtocolLocalState = 7"
definition ProtocolKeepAlive :: Protocol where "ProtocolKeepAlive = 8"

lemmas protocols = ProtocolHandshake_def ProtocolDeltaQueue_def ProtocolChainSync_def ProtocolBlockFetch_def
  ProtocolTxSubmission_def ProtocolLocalChainSync_def ProtocolLocalTx_def ProtocolLocalState_def ProtocolKeepAlive_def

definition SubprotocolHandshakeProposedVersion :: Subprotocol where "SubprotocolHandshakeProposedVersion = 0"
definition SubprotocolHandshakeAcceptVersion :: Subprotocol where "SubprotocolHandshakeAcceptVersion = 1"
definition SubprotocolHandshakeRefuse :: Subprotocol where "SubprotocolHandshakeRefuse = 2"
definition SubprotocolHandshakeQueryReply :: Subprotocol where "SubprotocolHandshakeQueryReply = 3"
definition SubprotocolChainSyncRequestNext :: Subprotocol where "SubprotocolChainSyncRequestNext = 0"
definition SubprotocolChainSyncAwaitReply :: Subprotocol where "SubprotocolChainSyncAwaitReply = 1"
definition SubprotocolChainSyncRollForward :: Subprotocol where "SubprotocolChainSyncRollForward = 2"
definition SubprotocolChainSyncRollBackward :: Subprotocol where "SubprotocolChainSyncRollBackward = 3"
definition SubprotocolChainSyncFindIntersect :: Subprotocol where "SubprotocolChainSyncFindIntersect = 4"
definition SubprotocolChainSyncIntersectFound :: Subprotocol where "SubprotocolChainSyncIntersectFound = 5"
definition SubprotocolChainSyncIntersectNotFound :: Subprotocol where "SubprotocolChainSyncIntersectNotFound = 6"
definition SubprotocolChainSyncDone :: Subprotocol where "SubprotocolChainSyncDone = 7"
definition SubprotocolBlockFetchRequestRange :: Subprotocol where "SubprotocolBlockFetchRequestRange = 0"
definition SubprotocolBlockFetchClientDone :: Subprotocol where "SubprotocolBlockFetchClientDone = 1"
definition SubprotocolBlockFetchStartBatch :: Subprotocol where "SubprotocolBlockFetchStartBatch = 2"
definition SubprotocolBlockFetchNoBlocks :: Subprotocol where "SubprotocolBlockFetchNoBlocks = 3"
definition SubprotocolBlockFetchBlock :: Subprotocol where "SubprotocolBlockFetchBlock = 4"
definition SubprotocolBlockFetchBatchDone :: Subprotocol where "SubprotocolBlockFetchBatchDone = 5"
definition SubprotocolLocalStateAcquire :: Subprotocol where "SubprotocolLocalStateAcquire = 0"
definition SubprotocolLocalStateAcquired :: Subprotocol where "SubprotocolLocalStateAcquired = 1"
definition SubprotocolLocalStateFailure :: Subprotocol where "SubprotocolLocalStateFailure = 2"
definition SubprotocolLocalStateQuery :: Subprotocol where "SubprotocolLocalStateQuery = 3"
definition SubprotocolLocalStateResult :: Subprotocol where "SubprotocolLocalStateResult = 4"
definition SubprotocolLocalStateRelease :: Subprotocol where "SubprotocolLocalStateRelease = 5"
definition SubprotocolLocalStateReacquire :: Subprotocol where "SubprotocolLocalStateReacquire = 6"
definition SubprotocolLocalStateDone :: Subprotocol where "SubprotocolLocalStateDone = 7"
definition SubprotocolLocalStateAcquireVolatileTip :: Subprotocol where "SubprotocolLocalStateAcquireVolatileTip = 8"
definition SubprotocolLocalStateReacquireVolatileTip :: Subprotocol where "SubprotocolLocalStateReacquireVolatileTip = 9"
definition SubprotocolLocalStateAcquireImmutableTip :: Subprotocol where "SubprotocolLocalStateAcquireImmutableTip = 10"
definition SubprotocolLocalStateReacquireImmutableTip :: Subprotocol where "SubprotocolLocalStateReacquireImmutableTip = 11"
definition SubprotocolKeepAliveEcho :: Subprotocol where "SubprotocolKeepAliveEcho = 0"
definition SubprotocolKeepAlivePing :: Subprotocol where "SubprotocolKeepAlivePing = 1"

lemmas subprotocols =
  SubprotocolHandshakeProposedVersion_def SubprotocolHandshakeAcceptVersion_def
  SubprotocolHandshakeRefuse_def SubprotocolHandshakeQueryReply_def
  SubprotocolChainSyncRequestNext_def SubprotocolChainSyncAwaitReply_def
  SubprotocolChainSyncRollForward_def SubprotocolChainSyncRollBackward_def
  SubprotocolChainSyncFindIntersect_def SubprotocolChainSyncIntersectFound_def
  SubprotocolChainSyncIntersectNotFound_def SubprotocolChainSyncDone_def
  SubprotocolBlockFetchRequestRange_def SubprotocolBlockFetchClientDone_def
  SubprotocolBlockFetchStartBatch_def SubprotocolBlockFetchNoBlocks_def SubprotocolBlockFetchBlock_def
  SubprotocolBlockFetchBatchDone_def SubprotocolLocalStateAcquire_def
  SubprotocolLocalStateAcquired_def SubprotocolLocalStateFailure_def SubprotocolLocalStateQuery_def
  SubprotocolLocalStateResult_def SubprotocolLocalStateRelease_def SubprotocolLocalStateReacquire_def
  SubprotocolLocalStateDone_def SubprotocolLocalStateAcquireVolatileTip_def
  SubprotocolLocalStateReacquireVolatileTip_def SubprotocolLocalStateAcquireImmutableTip_def
  SubprotocolLocalStateReacquireImmutableTip_def SubprotocolKeepAliveEcho_def
  SubprotocolKeepAlivePing_def

text \<open>The message types (src/protocol_*.go), by name.\<close>

datatype MessageType =
    MessageProposeVersions
  | MessageAcceptVersionNtC
  | MessageRefuse
  | MessageQueryReply
  | MessageRequestNext
  | MessageAwaitReply
  | MessageRollForward
  | MessageRollBackward
  | MessageFindIntersect
  | MessageIntersectFound
  | MessageIntersectNotFound
  | MessageChainSyncDone
  | MessageRequestRange
  | MessageClientDone
  | MessageStartBatch
  | MessageNoBlocks
  | MessageBlock
  | MessageBatchDone
  | MessageKeepAliveResponse
  | MessageKeepAlive
  | MessageLocalStateAcquire
  | MessageLocalStateAcquired
  | MessageLocalStateFailure
  | MessageLocalStateQuery
  | MessageLocalStateResult
  | MessageLocalStateRelease
  | MessageLocalStateReacquire
  | MessageLocalStateDone
  | MessageLocalStateAcquireVolatileTip
  | MessageLocalStateReacquireVolatileTip
  | MessageLocalStateAcquireImmutableTip
  | MessageLocalStateReacquireImmutableTip
  | MessageAcceptVersionNtN
  | MessageSubmitTx
  | MessageAcceptTx
  | MessageRejectTx

definition ProtocolStringMap :: "(Protocol \<times> string) list" where
  "ProtocolStringMap =
     [(ProtocolHandshake, ''handshake''),
      (ProtocolChainSync, ''chain sync''),
      (ProtocolBlockFetch, ''block fetch''),
      (ProtocolTxSubmission, ''tx submission''),
      (ProtocolLocalChainSync, ''local chain sync''),
      (ProtocolLocalTx, ''local tx''),
      (ProtocolLocalState, ''local state''),
      (ProtocolKeepAlive, ''keep alive'')]"

definition ProtocolMessageMap :: "(Protocol \<times> (Subprotocol \<times> MessageType) list) list" where
  "ProtocolMessageMap =
     [(ProtocolHandshake, [(SubprotocolHandshakeProposedVersion, MessageProposeVersions),
         (SubprotocolHandshakeAcceptVersion, MessageAcceptVersionNtC),
         (SubprotocolHandshakeRefuse, MessageRefuse),
         (SubprotocolHandshakeQueryReply, MessageQueryReply)]),
      (ProtocolChainSync, [(SubprotocolChainSyncRequestNext, MessageRequestNext),
         (SubprotocolChainSyncAwaitReply, MessageAwaitReply),
         (SubprotocolChainSyncRollForward, MessageRollForward),
         (SubprotocolChainSyncRollBackward, MessageRollBackward),
         (SubprotocolChainSyncFindIntersect, MessageFindIntersect),
         (SubprotocolChainSyncIntersectFound, MessageIntersectFound),
         (SubprotocolChainSyncIntersectNotFound, MessageIntersectNotFound),
         (SubprotocolChainSyncDone, MessageChainSyncDone)]),
      (ProtocolBlockFetch, [(SubprotocolBlockFetchRequestRange, MessageRequestRange),
         (SubprotocolBlockFetchClientDone, MessageClientDone),
         (SubprotocolBlockFetchStartBatch, MessageStartBatch),
         (SubprotocolBlockFetchNoBlocks, MessageNoBlocks),
         (SubprotocolBlockFetchBlock, MessageBlock),
         (SubprotocolBlockFetchBatchDone, MessageBatchDone)]),
      (ProtocolKeepAlive, [(SubprotocolKeepAliveEcho, MessageKeepAliveResponse),
         (SubprotocolKeepAlivePing, MessageKeepAlive)]),
      (ProtocolLocalState, [(SubprotocolLocalStateAcquire, MessageLocalStateAcquire),
         (SubprotocolLocalStateAcquired, MessageLocalStateAcquired),
         (SubprotocolLocalStateFailure, MessageLocalStateFailure),
         (SubprotocolLocalStateQuery, MessageLocalStateQuery),
         (SubprotocolLocalStateResult, MessageLocalStateResult),
         (SubprotocolLocalStateRelease, MessageLocalStateRelease),
         (SubprotocolLocalStateReacquire, MessageLocalStateReacquire),
         (SubprotocolLocalStateDone, MessageLocalStateDone),
         (SubprotocolLocalStateAcquireVolatileTip, MessageLocalStateAcquireVolatileTip),
         (SubprotocolLocalStateReacquireVolatileTip, MessageLocalStateReacquireVolatileTip),
         (SubprotocolLocalStateAcquireImmutableTip, MessageLocalStateAcquireImmutableTip),
         (SubprotocolLocalStateReacquireImmutableTip, MessageLocalStateReacquireImmutableTip)]),
      (ProtocolLocalTx, [])]"

definition MessageProtocolMap :: "(MessageType \<times> Protocol) list" where
  "MessageProtocolMap =
     [(MessageProposeVersions, ProtocolHandshake),
      (MessageRefuse, ProtocolHandshake),
      (MessageQueryReply, ProtocolHandshake),
      (MessageAcceptVersionNtN, ProtocolHandshake),
      (MessageRequestNext, ProtocolChainSync),
      (MessageAwaitReply, ProtocolChainSync),
      (MessageRollForward, ProtocolChainSync),
      (MessageRollBackward, ProtocolChainSync),
      (MessageFindIntersect, ProtocolChainSync),
      (MessageIntersectFound, ProtocolChainSync),
      (MessageIntersectNotFound, ProtocolChainSync),
      (MessageChainSyncDone, ProtocolChainSync),
      (MessageRequestRange, ProtocolBlockFetch),
      (MessageClientDone, ProtocolBlockFetch),
      (MessageStartBatch, ProtocolBlockFetch),
      (MessageNoBlocks, ProtocolBlockFetch),
      (MessageBlock, ProtocolBlockFetch),
      (MessageBatchDone, ProtocolBlockFetch),
      (MessageKeepAliveResponse, ProtocolKeepAlive),
      (MessageKeepAlive, ProtocolKeepAlive)]"

definition MessageSubprotocolMap :: "(MessageType \<times> Subprotocol) list" where
  "MessageSubprotocolMap =
     [(MessageProposeVersions, SubprotocolHandshakeProposedVersion),
      (MessageRefuse, SubprotocolHandshakeRefuse),
      (MessageQueryReply, SubprotocolHandshakeQueryReply),
      (MessageAcceptVersionNtN, SubprotocolHandshakeAcceptVersion),
      (MessageRequestNext, SubprotocolChainSyncRequestNext),
      (MessageAwaitReply, SubprotocolChainSyncAwaitReply),
      (MessageRollForward, SubprotocolChainSyncRollForward),
      (MessageRollBackward, SubprotocolChainSyncRollBackward),
      (MessageFindIntersect, SubprotocolChainSyncFindIntersect),
      (MessageIntersectFound, SubprotocolChainSyncIntersectFound),
      (MessageIntersectNotFound, SubprotocolChainSyncIntersectNotFound),
      (MessageChainSyncDone, SubprotocolChainSyncDone),
      (MessageRequestRange, SubprotocolBlockFetchRequestRange),
      (MessageClientDone, SubprotocolBlockFetchClientDone),
      (MessageStartBatch, SubprotocolBlockFetchStartBatch),
      (MessageNoBlocks, SubprotocolBlockFetchNoBlocks),
      (MessageBlock, SubprotocolBlockFetchBlock),
      (MessageBatchDone, SubprotocolBlockFetchBatchDone),
      (MessageKeepAliveResponse, SubprotocolKeepAliveEcho),
      (MessageKeepAlive, SubprotocolKeepAlivePing)]"

definition ProtocolToMessage :: "Protocol \<Rightarrow> Subprotocol \<Rightarrow> MessageType res" where
  "ProtocolToMessage protocol subprotocol =
     (case map_of ProtocolMessageMap protocol of
        None \<Rightarrow> Err (ErrMsg ''unknown protocol'')
      | Some subprotocolMap \<Rightarrow>
          (case map_of subprotocolMap subprotocol of
             None \<Rightarrow> Err (ErrMsg ''unknown subprotocol'')
           | Some message \<Rightarrow> Ok message))"

definition MessageToProtocol :: "MessageType \<Rightarrow> (Protocol \<times> Subprotocol) res" where
  "MessageToProtocol message =
     (case map_of MessageProtocolMap message of
        None \<Rightarrow> Err (ErrMsg ''unknown protocol for message'')
      | Some protocol \<Rightarrow>
          (case map_of MessageSubprotocolMap message of
             None \<Rightarrow> Err (ErrMsg ''unknown subprotocol for message'')
           | Some subprotocol \<Rightarrow> Ok (protocol, subprotocol)))"

definition Protocol_String :: "Protocol \<Rightarrow> string" where
  "Protocol_String p =
     (case map_of ProtocolStringMap p of
        Some s \<Rightarrow> s @ '' ('' @ fmt_d (unat p) @ '')''
      | None \<Rightarrow> ''unknown'')"

subsection \<open>Points\<close>

record Point =
  pt_Slot :: uint64
  pt_Hash :: bytes

definition NewPoint :: Point where
  "NewPoint = \<lparr>pt_Slot = 0, pt_Hash = replicate 32 0\<rparr>"

definition Point_Equals :: "Point \<Rightarrow> Point \<Rightarrow> bool" where
  "Point_Equals p q \<longleftrightarrow> pt_Slot p = pt_Slot q \<and> pt_Hash p = pt_Hash q"

definition Point_String :: "Point \<Rightarrow> string" where
  "Point_String p = ''slot: '' @ fmt_d (unat (pt_Slot p)) @ '' | hash: '' @ hex_EncodeToString (pt_Hash p)"

record PointAndBlockNum =
  pb_Point :: Point
  pb_Block :: uint64

definition NewPointAndNum :: PointAndBlockNum where
  "NewPointAndNum = \<lparr>pb_Point = NewPoint, pb_Block = 0\<rparr>"

definition PointAndBlockNum_Equals :: "PointAndBlockNum \<Rightarrow> PointAndBlockNum \<Rightarrow> bool" where
  "PointAndBlockNum_Equals t u \<longleftrightarrow> Point_Equals (pb_Point t) (pb_Point u) \<and> pb_Block t = pb_Block u"

definition PointAndBlockNum_String :: "PointAndBlockNum \<Rightarrow> string" where
  "PointAndBlockNum_String t = ''number: '' @ fmt_d (unat (pb_Block t)) @ '' | '' @ Point_String (pb_Point t)"

subsection \<open>Generic wrappers\<close>

record 'a SubtypeOf =
  so_Subtype :: 'a

definition SubtypeOf_MarshalJSON :: "('a \<Rightarrow> string res) \<Rightarrow> 'a SubtypeOf \<Rightarrow> string res" where
  "SubtypeOf_MarshalJSON enc r = enc (so_Subtype r)"

text \<open>\<open>SubtypeOf.UnmarshalCBOR\<close>: the first subtype whose decoder accepts the bytes.\<close>

fun SubtypeOf_UnmarshalCBOR :: "(bytes \<Rightarrow> 'a res) list \<Rightarrow> bytes \<Rightarrow> 'a res" where
  "SubtypeOf_UnmarshalCBOR [] data = Err (ErrMsg ''unable to unmarshal from cbor'')"
| "SubtypeOf_UnmarshalCBOR (dec # decs) data =
     (case dec data of
        Ok v \<Rightarrow> Ok v
      | Err e \<Rightarrow> SubtypeOf_UnmarshalCBOR decs data
      | Panic p \<Rightarrow> Panic p)"

text \<open>The error of the last case; \<open>%T\<close> prints the name of the target's type.\<close>

record CBORUnmarshalError =
  ue_Target :: string
  ue_Bytes :: bytes

definition CBORUnmarshalError_Error :: "CBORUnmarshalError \<Rightarrow> string" where
  "CBORUnmarshalError_Error c =
     ''unable to unmarshal '' @ ue_Target c @ '' from cbor:'' @ [CHR 0x0A] @ hex_EncodeToString (ue_Bytes c)"

record 'a Optional =
  op_Valid :: bool
  op_Value :: "'a option"

text \<open>\<open>unmarshal\<close> decodes into the pointer \<open>Value\<close>. A missing value would be reported with an error whose text is \<open>empty\<close>.\<close>

definition Optional_UnmarshalCBOR :: "(bytes \<Rightarrow> 'a option \<Rightarrow> 'a option \<times> unit res) \<Rightarrow> bytes \<Rightarrow> 'a Optional \<Rightarrow> 'a Optional \<times> unit res" where
  "Optional_UnmarshalCBOR unmarshal data opt =
     (case unmarshal data (op_Value opt) of (v, r) \<Rightarrow>
        if r = Err (ErrMsg ''empty'') then (\<lparr>op_Valid = False, op_Value = v\<rparr>, Ok ())
        else (\<lparr>op_Valid = True, op_Value = v\<rparr>, r))"

definition Optional_MarshalCBOR :: "('a \<Rightarrow> bytes res) \<Rightarrow> 'a Optional \<Rightarrow> bytes res" where
  "Optional_MarshalCBOR enc opt =
     (if \<not> op_Valid opt then Ok [0x80]
      else case op_Value opt of None \<Rightarrow> Ok [0x80] | Some v \<Rightarrow> enc v)"

definition Optional_UnmarshalJSON :: "(string \<Rightarrow> 'a option res) \<Rightarrow> string \<Rightarrow> 'a Optional res" where
  "Optional_UnmarshalJSON dec data = res_bind (dec data) (\<lambda>v. Ok \<lparr>op_Valid = True, op_Value = v\<rparr>)"

definition Optional_MarshalJSON :: "('a \<Rightarrow> string res) \<Rightarrow> 'a Optional \<Rightarrow> string res" where
  "Optional_MarshalJSON enc opt =
     (if \<not> op_Valid opt then Ok ''null''
      else case op_Value opt of None \<Rightarrow> Ok ''null'' | Some v \<Rightarrow> enc v)"

subsection \<open>Handshake versions (src/protocol_handshake.go)\<close>

record VersionField1 =
  v1_Network :: NetworkMagic
  v1_InitiatorOnlyDiffusionMode :: bool

record VersionField2 =
  v2_Network :: NetworkMagic
  v2_InitiatorOnlyDiffusionMode :: bool
  v2_PeerSharing :: int
  v2_Query :: bool

record VersionMap =
  vm_V4 :: VersionField1
  vm_V5 :: VersionField1
  vm_V6 :: VersionField1
  vm_V7 :: VersionField1
  vm_V8 :: VersionField1
  vm_V9 :: VersionField1
  vm_V10 :: VersionField1
  vm_V11 :: VersionField2
  vm_V12 :: VersionField2
  vm_V13 :: VersionField2

definition defaultVersionMap :: "NetworkMagic \<Rightarrow> VersionMap" where
  "defaultVersionMap network = \<lparr>
     vm_V4 = \<lparr>v1_Network = network, v1_InitiatorOnlyDiffusionMode = True\<rparr>,
     vm_V5 = \<lparr>v1_Network = network, v1_InitiatorOnlyDiffusionMode = True\<rparr>,
     vm_V6 = \<lparr>v1_Network = network, v1_InitiatorOnlyDiffusionMode = True\<rparr>,
     vm_V7 = \<lparr>v1_Network = network, v1_InitiatorOnlyDiffusionMode = True\<rparr>,
     vm_V8 = \<lparr>v1_Network = network, v1_InitiatorOnlyDiffusionMode = True\<rparr>,
     vm_V9 = \<lparr>v1_Network = network, v1_InitiatorOnlyDiffusionMode = True\<rparr>,
     vm_V10 = \<lparr>v1_Network = network, v1_InitiatorOnlyDiffusionMode = True\<rparr>,
     vm_V11 = \<lparr>v2_Network = network, v2_InitiatorOnlyDiffusionMode = True, v2_PeerSharing = 0, v2_Query = False\<rparr>,
     vm_V12 = \<lparr>v2_Network = network, v2_InitiatorOnlyDiffusionMode = True, v2_PeerSharing = 0, v2_Query = False\<rparr>,
     vm_V13 = \<lparr>v2_Network = network, v2_InitiatorOnlyDiffusionMode = True, v2_PeerSharing = 0, v2_Query = False\<rparr>\<rparr>"

subsection \<open>Lemmas\<close>

lemmas protocol_tables = ProtocolMessageMap_def MessageProtocolMap_def MessageSubprotocolMap_def protocols subprotocols

lemma SubtypeOf_Ok:
  "SubtypeOf_UnmarshalCBOR decs data = Ok v \<Longrightarrow> \<exists>i<length decs. (decs ! i) data = Ok v \<and> (\<forall>j<i. is_err ((decs ! j) data))"
proof (induction decs)
  case (Cons dec decs)
  show ?case
  proof (cases "dec data")
    case (Ok w)
    then show ?thesis using Cons.prems by (intro exI [of _ 0]) simp
  next
    case (Err e)
    then obtain i where "i < length decs" "(decs ! i) data = Ok v" "\<forall>j<i. is_err ((decs ! j) data)"
      using Cons by auto
    then show ?thesis using Err by (intro exI [of _ "Suc i"]) (auto simp: less_Suc_eq_0_disj)
  qed (use Cons.prems in simp)
qed simp

subsection \<open>Properties\<close>

text \<open>The number pair of a message type leads back to that type, except
  for the node-to-node answer of the handshake, whose number pair is read as the node-to-client
  answer.\<close>

theorem protocol_tables_inverse:
  assumes "MessageToProtocol ty = Ok (p, s)"
  shows "ProtocolToMessage p s = Ok (if ty = MessageAcceptVersionNtN then MessageAcceptVersionNtC else ty)"
  using assms by (cases ty) (auto simp: MessageToProtocol_def ProtocolToMessage_def protocol_tables)

theorem protocol_tables_inverse_witness: "ProtocolToMessage 0 1 = Ok MessageAcceptVersionNtC"
  using protocol_tables_inverse [of MessageAcceptVersionNtN 0 1]
  by (simp add: MessageToProtocol_def protocol_tables)

end
