(* ===== verification/Util.thy ===== *)
theory Util
  imports Prelude
begin

text \<open>
  The helpers of src/util.go: byte strings, the CBOR pretty printer, tagged CBOR values, chunk
  directories, the periodic caller, the binary search and \<open>ChunkString\<close>.

  \<^item> \<open>IndentCbor\<close> walks the bytes of the input; \<open>strings.Repeat\<close> panics on a negative count, and
    \<open>string(b)\<close> of a byte from 128 on is its two-byte UTF-8 form.
  \<^item> The loop of \<open>BinarySearchCallback\<close> may run for ever; it has fuel and returns \<open>None\<close> without it.
  \<^item> Time is an integer of nanoseconds that is an argument of each operation; the zero time is \<open>None\<close>,
    and the difference to it saturates, as \<open>time.Sub\<close> does.
  \<^item> The CBOR and base58 codecs and the hash are arguments. \<open>Cast\<close> (reflection) is not modelled.
\<close>

subsection \<open>Byte strings\<close>

definition quoted :: "string \<Rightarrow> string" where
  "quoted s = [CHR 0x22] @ s @ [CHR 0x22]"

definition HexBytes_String :: "bytes \<Rightarrow> string" where
  "HexBytes_String b = hex_EncodeToString b"

definition HexBytes_MarshalJSON :: "bytes \<Rightarrow> string" where
  "HexBytes_MarshalJSON b = quoted (HexBytes_String b)"

definition HexBytes_Equals :: "bytes \<Rightarrow> bytes \<Rightarrow> bool" where
  "HexBytes_Equals a b \<longleftrightarrow> a = b"

definition Base58Bytes_String :: "(bytes \<Rightarrow> string) \<Rightarrow> bytes \<Rightarrow> string" where
  "Base58Bytes_String base58 b = base58 b"

definition Base58Bytes_MarshalJSON :: "(bytes \<Rightarrow> string) \<Rightarrow> bytes \<Rightarrow> string" where
  "Base58Bytes_MarshalJSON base58 b = quoted (Base58Bytes_String base58 b)"

subsection \<open>IndentCbor\<close>

definition newline_char :: char where "newline_char = CHR 0x0A"

definition rune_string :: "char \<Rightarrow> string" where
  "rune_string c =
     (let n = (of_char c :: nat) in
      if n < 128 then [c] else [char_of (192 + n div 64), char_of (128 + n mod 64)])"

definition strings_Repeat :: "string \<Rightarrow> int \<Rightarrow> string res" where
  "strings_Repeat s n = (if n < 0 then Panic ''strings: negative Repeat count'' else Ok (concat (replicate (nat n) s)))"

fun indent_loop :: "string \<Rightarrow> int \<Rightarrow> bool \<Rightarrow> string \<Rightarrow> string res" where
  "indent_loop [] indent newline output = Ok output"
| "indent_loop (c # cs) indent newline output =
     (if c = CHR ''['' \<or> c = CHR ''{'' then
        res_bind (if newline then strings_Repeat '' '' (indent * 2) else Ok []) (\<lambda>lead.
        res_bind (strings_Repeat '' '' ((indent + 1) * 2)) (\<lambda>pad.
          indent_loop cs (indent + 1) False (output @ lead @ rune_string c @ [newline_char] @ pad)))
      else if c = CHR '']'' \<or> c = CHR ''}'' then
        res_bind (strings_Repeat '' '' ((indent - 1) * 2)) (\<lambda>pad.
          indent_loop cs (indent - 1) newline (output @ [newline_char] @ pad @ rune_string c))
      else if c = CHR '','' then indent_loop cs indent True (output @ [c, newline_char])
      else if newline \<and> c = CHR '' '' then indent_loop cs indent newline output
      else
        res_bind (if newline then strings_Repeat '' '' (indent * 2) else Ok []) (\<lambda>lead.
          indent_loop cs indent False (output @ lead @ rune_string c)))"

definition IndentCbor :: "string \<Rightarrow> string res" where
  "IndentCbor input = indent_loop input 0 False []"

subsection \<open>WithCborTag\<close>

record 'a WithCborTag =
  wt_Tag :: int
  wt_Value :: 'a

definition WithCborTag_MarshalJSON :: "('a \<Rightarrow> string res) \<Rightarrow> 'a WithCborTag \<Rightarrow> string res" where
  "WithCborTag_MarshalJSON enc w = enc (wt_Value w)"

text \<open>\<open>b[0]-0xC0 > 0\<close> is a comparison of bytes: it only fails for \<open>0xC0\<close> itself.\<close>

definition WithCborTag_UnmarshalCBOR :: "(bytes \<Rightarrow> (int \<times> bytes) res) \<Rightarrow> (bytes \<Rightarrow> 'a res) \<Rightarrow> bytes \<Rightarrow> 'a WithCborTag \<Rightarrow> 'a WithCborTag res" where
  "WithCborTag_UnmarshalCBOR dec_int dec data w =
     (case data of
        [] \<Rightarrow> Panic ''index out of range''
      | b # bs \<Rightarrow>
          if b - 0xC0 > 0 then
            res_bind (dec_int ((b - 0xC0) # bs)) (\<lambda>(tag, rest).
            res_bind (dec rest) (\<lambda>v. Ok \<lparr>wt_Tag = tag, wt_Value = v\<rparr>))
          else res_bind (dec data) (\<lambda>v. Ok (w\<lparr>wt_Value := v\<rparr>)))"

definition WithCborTag_MarshalCBOR :: "(int \<Rightarrow> bytes) \<Rightarrow> ('a \<Rightarrow> bytes res) \<Rightarrow> 'a WithCborTag \<Rightarrow> bytes res" where
  "WithCborTag_MarshalCBOR enc_int enc w =
     (let tag = (if 0 < wt_Tag w then (case enc_int (wt_Tag w) of [] \<Rightarrow> [] | b # bs \<Rightarrow> (b + 0xC0) # bs) else []) in
      res_bind (enc (wt_Value w)) (\<lambda>value. Ok (tag @ value)))"

subsection \<open>DirectoryExists\<close>

text \<open>\<open>stat\<close> is the result of \<open>os.Stat\<close>, whether the path is a directory. An error of any kind counts as no.\<close>

definition DirectoryExists :: "(string \<Rightarrow> bool res) \<Rightarrow> string \<Rightarrow> bool" where
  "DirectoryExists stat path = (case stat path of Ok isDir \<Rightarrow> isDir | _ \<Rightarrow> False)"

text \<open>\<open>StackTracerMessage\<close> of src/log.go: the frames of an error that has a stack trace.\<close>

definition StackTracerMessage :: "string list option \<Rightarrow> string" where
  "StackTracerMessage stackTrace = (case stackTrace of None \<Rightarrow> [] | Some frames \<Rightarrow> concat (map (\<lambda>f. f @ [newline_char]) frames))"

subsection \<open>IterateChunkDirectory\<close>

text \<open>\<open>strconv.ParseUint(s, 10, 64)\<close> with its error dropped: zero for a syntax error, the largest value when the
  number is too large.\<close>

definition ParseUint :: "string \<Rightarrow> nat" where
  "ParseUint s =
     (if s = [] \<or> (\<exists>c\<in>set s. \<not> (48 \<le> (of_char c :: nat) \<and> (of_char c :: nat) \<le> 57)) then 0
      else min (fold (\<lambda>c n. 10 * n + (of_char c - 48)) s 0) (2 ^ 64 - 1))"

record dir_entry =
  de_Name :: string
  de_Path :: string
  de_Data :: "bytes res"

definition file_number :: "dir_entry \<Rightarrow> nat" where
  "file_number f = ParseUint (takeWhile (\<lambda>c. c \<noteq> CHR ''-'') (de_Name f))"

fun iterate_files :: "(string \<Rightarrow> bytes \<Rightarrow> 's \<Rightarrow> unit res \<times> 's) \<Rightarrow> dir_entry list \<Rightarrow> 's \<Rightarrow> unit res \<times> 's" where
  "iterate_files cb [] s = (Ok (), s)"
| "iterate_files cb (f # fs) s =
     (case de_Data f of
        Err e \<Rightarrow> (Err e, s)
      | Panic p \<Rightarrow> (Panic p, s)
      | Ok data \<Rightarrow>
          (case cb (de_Path f) data s of
             (Ok _, s') \<Rightarrow> iterate_files cb fs s'
           | (r, s') \<Rightarrow> (r, s')))"

text \<open>\<open>files\<close> are the plain files that \<open>filepath.Walk\<close> meets. \<open>sort.Slice\<close> leaves the order of
  equal numbers open; the walk order is one of the possible ones.\<close>

definition IterateChunkDirectory :: "dir_entry list res \<Rightarrow> (string \<Rightarrow> bytes \<Rightarrow> 's \<Rightarrow> unit res \<times> 's) \<Rightarrow> 's \<Rightarrow> unit res \<times> 's" where
  "IterateChunkDirectory walked cb s =
     (case walked of
        Err e \<Rightarrow> (Err e, s)
      | Panic p \<Rightarrow> (Panic p, s)
      | Ok files \<Rightarrow> iterate_files cb (sort_key file_number files) s)"

subsection \<open>PeriodicCaller\<close>

record PeriodicCaller =
  pc_lastCallTime :: "int option"
  pc_interval :: int
  pc_stopped :: bool
  pc_calls :: "int list"

definition NewPeriodicCaller :: "int \<Rightarrow> PeriodicCaller" where
  "NewPeriodicCaller interval = \<lparr>pc_lastCallTime = None, pc_interval = interval, pc_stopped = False, pc_calls = []\<rparr>"

definition time_Sub :: "int \<Rightarrow> int option \<Rightarrow> int" where
  "time_Sub now t = (case t of None \<Rightarrow> 2 ^ 63 - 1 | Some t \<Rightarrow> now - t)"

text \<open>\<open>pc_calls\<close> records when the action was started, latest first.\<close>

definition Postpone :: "int \<Rightarrow> PeriodicCaller \<Rightarrow> PeriodicCaller" where
  "Postpone now pc =
     (if pc_stopped pc then pc
      else
        let pc1 = (if pc_interval pc \<le> time_Sub now (pc_lastCallTime pc) then pc\<lparr>pc_calls := now # pc_calls pc\<rparr> else pc)
        in pc1\<lparr>pc_lastCallTime := Some now\<rparr>)"

text \<open>The ticker branch of \<open>Start\<close>; the clock is read twice.\<close>

definition Tick :: "int \<Rightarrow> int \<Rightarrow> PeriodicCaller \<Rightarrow> PeriodicCaller" where
  "Tick now later pc =
     (if \<not> pc_stopped pc \<and> pc_interval pc \<le> time_Sub now (pc_lastCallTime pc)
      then pc\<lparr>pc_calls := now # pc_calls pc, pc_lastCallTime := Some later\<rparr>
      else pc)"

definition PeriodicCaller_Stop :: "PeriodicCaller \<Rightarrow> PeriodicCaller" where
  "PeriodicCaller_Stop pc = pc\<lparr>pc_stopped := True\<rparr>"

subsection \<open>BinarySearchCallback\<close>

fun BinarySearchCallback :: "nat \<Rightarrow> uint64 \<Rightarrow> uint64 \<Rightarrow> (uint64 \<Rightarrow> int res) \<Rightarrow> unit res option" where
  "BinarySearchCallback 0 start end' callback = None"
| "BinarySearchCallback (Suc fuel) start end' callback =
     (if start \<le> end' then
        let mid = start + (end' - start) div 2 in
        (case callback mid of
           Err e \<Rightarrow> Some (Err e)
         | Panic p \<Rightarrow> Some (Panic p)
         | Ok result \<Rightarrow>
             if result = -1 then BinarySearchCallback fuel start (mid - 1) callback
             else if result = 1 then BinarySearchCallback fuel (mid + 1) end' callback
             else if result = 0 then Some (Ok ())
             else Some (Err (ErrMsg ''invalid callback result'')))
      else Some (Err (ErrMsg ''search completed without finding a match'')))"

subsection \<open>BlakeHash and ChunkString\<close>

definition BlakeHash :: "('a \<Rightarrow> bytes res) \<Rightarrow> (bytes \<Rightarrow> bytes) \<Rightarrow> 'a \<Rightarrow> bytes res" where
  "BlakeHash marshal sum256 target = res_bind (marshal target) (\<lambda>data. Ok (sum256 data))"

text \<open>\<open>ChunkString\<close> works on the runes of the string.\<close>

definition ChunkString :: "'rune list \<Rightarrow> int \<Rightarrow> 'rune list list" where
  "ChunkString runes chunkSize = (if chunkSize \<le> 0 then [] else chunks (nat chunkSize) runes)"

subsection \<open>Properties of the binary search\<close>

lemma unat_mid:
  fixes s e :: uint64
  assumes "s \<le> e"
  shows "unat (s + (e - s) div 2) = (unat s + unat e) div 2"
proof -
  have d: "unat (e - s) = unat e - unat s" using assms by (simp add: unat_sub word_le_nat_alt)
  have h: "unat ((e - s) div 2) = (unat e - unat s) div 2" by (simp add: unat_div d)
  have le: "unat s \<le> unat e" using assms by (simp add: word_le_nat_alt)
  have "unat e < 2 ^ 64" using unsigned_less [of e] by simp
  moreover have "unat s + (unat e - unat s) div 2 \<le> unat e" using le by linarith
  ultimately have "unat s + (unat e - unat s) div 2 < 2 ^ 64" by (rule le_less_trans [rotated])
  then have "unat (s + (e - s) div 2) = unat s + (unat e - unat s) div 2"
    using h by (simp only: unat_word_ariths(1)) simp
  then show ?thesis using le by linarith
qed

lemma unat_pred: fixes m :: uint64 assumes "m \<noteq> 0" shows "unat (m - 1) = unat m - 1"
  using assms by (simp add: unat_minus_one)

lemma unat_succ: fixes m :: uint64 assumes "m \<noteq> - 1" shows "unat (m + 1) = unat m + 1"
proof -
  have "1 + m \<noteq> 0" using assms by (metis add.inverse_unique)
  then have "unat (1 + m) = Suc (unat m)" by (rule unatSuc)
  then show ?thesis by (simp add: add.commute)
qed

text \<open>One probe at least halves the interval, unless the bound wraps around.\<close>

lemma search_returns:
  assumes "cb 0 \<noteq> Ok (-1)" "cb (- 1) \<noteq> Ok 1" "unat e + 1 - unat s < 2 ^ n"
  shows "\<exists>r. BinarySearchCallback (Suc n) s e cb = Some r \<and> (r = Ok () \<longrightarrow> (\<exists>m. s \<le> m \<and> m \<le> e \<and> cb m = Ok 0))"
  using assms(3)
proof (induction n arbitrary: s e)
  case 0
  then have "unat e < unat s" by simp
  then show ?case by (auto simp: word_le_nat_alt)
next
  case (Suc n)
  show ?case
  proof (cases "s \<le> e")
    case True
    define m where "m = s + (e - s) div 2"
    have m: "unat m = (unat s + unat e) div 2" unfolding m_def by (rule unat_mid [OF True])
    have se: "unat s \<le> unat e" using True by (simp add: word_le_nat_alt)
    have sm: "s \<le> m" and me: "m \<le> e" using m se by (auto simp: word_le_nat_alt)
    have low: "cb m = Ok (-1) \<Longrightarrow> unat (m - 1) = unat m - 1 \<and> 0 < unat m"
      using assms(1) unat_pred [of m] by (metis unat_gt_0)
    have high: "cb m = Ok 1 \<Longrightarrow> unat (m + 1) = unat m + 1"
      using assms(2) unat_succ [of m] by metis
    have L: "\<exists>r. BinarySearchCallback (Suc n) s (m - 1) cb = Some r \<and> (r = Ok () \<longrightarrow> (\<exists>x. s \<le> x \<and> x \<le> e \<and> cb x = Ok 0))"
      if "cb m = Ok (-1)"
    proof -
      have "unat (m - 1) + 1 - unat s < 2 ^ n" using low [OF that] m se Suc.prems by (simp; linarith)
      moreover have "m - 1 \<le> e" using low [OF that] me by (simp add: word_le_nat_alt)
      ultimately show ?thesis using Suc.IH by (meson order_trans)
    qed
    have R: "\<exists>r. BinarySearchCallback (Suc n) (m + 1) e cb = Some r \<and> (r = Ok () \<longrightarrow> (\<exists>x. s \<le> x \<and> x \<le> e \<and> cb x = Ok 0))"
      if "cb m = Ok 1"
    proof -
      have "unat e + 1 - unat (m + 1) < 2 ^ n" using high [OF that] m se Suc.prems by (simp; linarith)
      moreover have "s \<le> m + 1" using high [OF that] sm by (simp add: word_le_nat_alt)
      ultimately show ?thesis using Suc.IH by (meson order_trans)
    qed
    show ?thesis
      using L R sm me True
      by (subst BinarySearchCallback.simps)
        (auto simp: Let_def m_def [symmetric] simp del: BinarySearchCallback.simps split: res.splits)
  qed simp
qed

lemma search_finds:
  assumes "\<And>m. s \<le> m \<Longrightarrow> m \<le> e \<Longrightarrow> cb m = Ok (if t < m then -1 else if m < t then 1 else 0)"
    and "s \<le> t" "t \<le> e" "unat e + 1 - unat s < 2 ^ n"
  shows "BinarySearchCallback n s e cb = Some (Ok ())"
  using assms
proof (induction n arbitrary: s e)
  case 0
  then show ?case by (simp add: word_le_nat_alt)
next
  case (Suc n)
  define m where "m = s + (e - s) div 2"
  have True: "s \<le> e" using Suc.prems(2,3) by (rule order_trans)
  have m: "unat m = (unat s + unat e) div 2" unfolding m_def by (rule unat_mid [OF True])
  have se: "unat s \<le> unat e" using True by (simp add: word_le_nat_alt)
  have sm: "s \<le> m" and me: "m \<le> e" using m se by (auto simp: word_le_nat_alt)
  have cbm: "cb m = Ok (if t < m then -1 else if m < t then 1 else 0)" by (rule Suc.prems(1) [OF sm me])
  have L: "BinarySearchCallback n s (m - 1) cb = Some (Ok ())" if "t < m"
  proof -
    have "m \<noteq> 0" using that by auto
    then have p: "unat (m - 1) = unat m - 1" "0 < unat m" using unat_pred by (auto simp: unat_gt_0)
    have "unat (m - 1) + 1 - unat s < 2 ^ n" using p m se Suc.prems(4) by (simp; linarith)
    moreover have "t \<le> m - 1" "m - 1 \<le> e" using that p me by (simp_all add: word_le_nat_alt word_less_nat_alt)
    ultimately show ?thesis
      using Suc.prems(2) by (intro Suc.IH Suc.prems(1)) (auto intro: order_trans)
  qed
  have R: "BinarySearchCallback n (m + 1) e cb = Some (Ok ())" if "m < t"
  proof -
    have "m \<noteq> - 1" using that by auto
    then have p: "unat (m + 1) = unat m + 1" by (rule unat_succ)
    have "unat e + 1 - unat (m + 1) < 2 ^ n" using p m se Suc.prems(4) by (simp; linarith)
    moreover have "m + 1 \<le> t" "s \<le> m + 1" using that p sm by (simp_all add: word_le_nat_alt word_less_nat_alt)
    ultimately show ?thesis
      using Suc.prems(3) by (intro Suc.IH Suc.prems(1)) (auto intro: order_trans)
  qed
  have step: "BinarySearchCallback (Suc n) s e cb =
      (if t < m then BinarySearchCallback n s (m - 1) cb
       else if m < t then BinarySearchCallback n (m + 1) e cb else Some (Ok ()))"
    using True cbm by (simp only: BinarySearchCallback.simps Let_def m_def [symmetric] if_True) simp
  show ?case unfolding step using L R by presburger
qed

lemma search_wraps:
  assumes "\<And>m. cb m = Ok (-1)"
  shows "BinarySearchCallback n 0 e cb = None"
  by (induction n arbitrary: e) (auto simp: Let_def assms)

text \<open>Claim C29 (binary_search_returns): The search returns after at most 66 probes, for every range, as long as the callback does not answer
  \<open>-1\<close> at 0 or \<open>1\<close> at the largest number; a success means that a probed number in the range was answered with 0, and a
  callback that compares with a number of the range always succeeds.\<close>

theorem binary_search_returns:
  assumes "cb 0 \<noteq> Ok (-1)" "cb (- 1) \<noteq> Ok 1"
  shows "\<exists>r. BinarySearchCallback 66 s e cb = Some r \<and> (r = Ok () \<longrightarrow> (\<exists>m. s \<le> m \<and> m \<le> e \<and> cb m = Ok 0))
    \<and> (\<forall>t. s \<le> t \<and> t \<le> e \<and> (\<forall>m. s \<le> m \<and> m \<le> e \<longrightarrow> cb m = Ok (if t < m then -1 else if m < t then 1 else 0)) \<longrightarrow> r = Ok ())"
proof -
  have "unat e < 2 ^ 64" using unsigned_less [of e] by simp
  then have b: "unat e + 1 - unat s < 2 ^ 65" by simp
  then have b': "unat e + 1 - unat s < 2 ^ 66" by simp
  from search_returns [OF assms b] obtain r where r: "BinarySearchCallback (Suc 65) s e cb = Some r"
    "r = Ok () \<longrightarrow> (\<exists>m. s \<le> m \<and> m \<le> e \<and> cb m = Ok 0)" by (auto simp del: BinarySearchCallback.simps)
  have six: "Suc 65 = 66" by simp
  note r = r [unfolded six]
  moreover have "r = Ok ()" if "s \<le> t" "t \<le> e" "\<forall>m. s \<le> m \<and> m \<le> e \<longrightarrow> cb m = Ok (if t < m then -1 else if m < t then 1 else 0)" for t
    using search_finds [of s e cb t 66, OF _ that(1,2) b'] that(3) r(1) by (simp del: BinarySearchCallback.simps)
  ultimately show ?thesis by blast
qed

theorem binary_search_returns_witness:
  "BinarySearchCallback 66 0 100 (\<lambda>m. Ok (if 5 < m then -1 else if m < 5 then 1 else 0)) = Some (Ok ())"
proof -
  define cb :: "uint64 \<Rightarrow> int res" where "cb = (\<lambda>m. Ok (if 5 < m then -1 else if m < 5 then 1 else 0))"
  have ends: "cb 0 \<noteq> Ok (-1)" "cb (- 1) \<noteq> Ok 1" by (simp_all add: cb_def)
  from binary_search_returns [OF ends, of 0 100] obtain r where
    r: "BinarySearchCallback 66 0 100 cb = Some r"
      "\<forall>t. 0 \<le> t \<and> t \<le> 100 \<and> (\<forall>m. 0 \<le> m \<and> m \<le> 100 \<longrightarrow>
        cb m = Ok (if t < m then -1 else if m < t then 1 else 0)) \<longrightarrow> r = Ok ()"
    by (elim exE conjE)
  have "r = Ok ()" using spec [OF r(2), of 5] by (simp add: cb_def)
  then have "BinarySearchCallback 66 0 100 cb = Some (Ok ())" using r(1) by (simp only:)
  then show ?thesis by (simp only: cb_def)
qed

text \<open>Below 0 the upper bound wraps around and the search starts over.\<close>

lemma binary_search_wraps:
  "BinarySearchCallback fuel 0 e (\<lambda>_. Ok (-1)) = None"
  by (rule search_wraps) simp

subsection \<open>Properties of IndentCbor\<close>

definition opener :: "char \<Rightarrow> bool" where "opener c \<longleftrightarrow> c = CHR ''['' \<or> c = CHR ''{''"
definition closer :: "char \<Rightarrow> bool" where "closer c \<longleftrightarrow> c = CHR '']'' \<or> c = CHR ''}''"

definition depth :: "string \<Rightarrow> int" where
  "depth s = int (length (filter opener s)) - int (length (filter closer s))"

definition visible :: "string \<Rightarrow> string" where
  "visible s = filter (\<lambda>c. c \<noteq> CHR '' '' \<and> c \<noteq> newline_char) s"

lemma depth_simps [simp]:
  "depth [] = 0"
  "depth (c # s) = (if opener c then 1 else 0) - (if closer c then 1 else 0) + depth s"
  by (auto simp: depth_def)

lemma opener_not_closer: "opener c \<Longrightarrow> \<not> closer c"
  by (auto simp: opener_def closer_def)

lemma visible_simps [simp]:
  "visible [] = []" "visible (a @ b) = visible a @ visible b"
  "visible (replicate n CHR '' '') = []" "visible (newline_char # a) = visible a"
  "visible (c # a) = (if c = CHR '' '' \<or> c = newline_char then visible a else c # visible a)"
  by (auto simp: visible_def newline_char_def intro: filter_False)

definition nests :: "int \<Rightarrow> string \<Rightarrow> bool" where
  "nests d s \<longleftrightarrow> (\<forall>n. 0 \<le> d + depth (take n s))"

lemma nests_Nil [simp]: "nests d [] \<longleftrightarrow> 0 \<le> d"
  by (simp add: nests_def)

lemma nests_Cons: "nests d (c # s) \<longleftrightarrow> 0 \<le> d \<and> nests (d + depth [c]) s"
proof
  assume n: "nests d (c # s)"
  have "0 \<le> d + depth (take (Suc k) (c # s))" for k using n by (simp only: nests_def)
  then have "0 \<le> d + depth [c] + depth (take k s)" for k by (simp add: algebra_simps)
  then show "0 \<le> d \<and> nests (d + depth [c]) s" using n by (auto simp: nests_def dest: spec [of _ 0])
next
  assume "0 \<le> d \<and> nests (d + depth [c]) s"
  then show "nests d (c # s)" by (auto simp: nests_def take_Cons' algebra_simps)
qed

lemma nests_nonneg: "nests d s \<Longrightarrow> 0 \<le> d"
  by (auto simp: nests_def dest: spec [of _ 0])

lemma rune_ascii: "(of_char c :: nat) < 128 \<Longrightarrow> rune_string c = [c]"
  by (simp add: rune_string_def)

lemma strings_Repeat_simps [simp]:
  "0 \<le> n \<Longrightarrow> strings_Repeat s n = Ok (concat (replicate (nat n) s))"
  "n < 0 \<Longrightarrow> strings_Repeat s n = Panic ''strings: negative Repeat count''"
  by (simp_all add: strings_Repeat_def)

text \<open>One turn of the loop while the depth stays non-negative.\<close>

lemma indent_open:
  "opener c \<Longrightarrow> 0 \<le> d \<Longrightarrow> indent_loop (c # s) d nl acc = indent_loop s (d + 1) False
     (acc @ (if nl then replicate (nat (d * 2)) CHR '' '' else []) @ rune_string c @ [newline_char] @
      replicate (nat ((d + 1) * 2)) CHR '' '')"
  by (cases nl) (simp_all add: opener_def)

lemma indent_close:
  "closer c \<Longrightarrow> 0 \<le> d - 1 \<Longrightarrow> indent_loop (c # s) d nl acc = indent_loop s (d - 1) nl
     (acc @ [newline_char] @ replicate (nat ((d - 1) * 2)) CHR '' '' @ rune_string c)"
  by (auto simp: closer_def)

lemma indent_other:
  "\<not> opener c \<Longrightarrow> \<not> closer c \<Longrightarrow> c \<noteq> CHR '','' \<Longrightarrow> \<not> (nl \<and> c = CHR '' '') \<Longrightarrow> 0 \<le> d \<Longrightarrow>
   indent_loop (c # s) d nl acc = indent_loop s d False
     (acc @ (if nl then replicate (nat (d * 2)) CHR '' '' else []) @ rune_string c)"
  by (cases nl) (simp_all add: opener_def closer_def)

lemma indent_step:
  assumes "0 \<le> d" "0 \<le> d + depth [c]"
  shows "\<exists>nl' acc'. indent_loop (c # s) d nl acc = indent_loop s (d + depth [c]) nl' acc' \<and>
     ((of_char c :: nat) < 128 \<longrightarrow> visible acc' = visible acc @ visible [c])"
proof -
  consider "opener c" "\<not> closer c" | "closer c" "\<not> opener c" | "c = CHR '',''" | "nl" "c = CHR '' ''"
    | "\<not> opener c" "\<not> closer c" "c \<noteq> CHR '',''" "\<not> (nl \<and> c = CHR '' '')" using opener_not_closer by blast
  then show ?thesis
  proof cases
    case 1
    then have "indent_loop (c # s) d nl acc = indent_loop s (d + depth [c]) False
       (acc @ (if nl then replicate (nat (d * 2)) CHR '' '' else []) @ rune_string c @ [newline_char] @
        replicate (nat ((d + 1) * 2)) CHR '' '')"
      using indent_open [OF 1(1) assms(1)] by (simp del: indent_loop.simps)
    then show ?thesis by (intro exI conjI) (assumption, simp add: rune_ascii)
  next
    case 2
    then have "indent_loop (c # s) d nl acc = indent_loop s (d + depth [c]) nl
       (acc @ [newline_char] @ replicate (nat ((d - 1) * 2)) CHR '' '' @ rune_string c)"
      using indent_close [OF 2(1), of d] assms by (simp del: indent_loop.simps)
    then show ?thesis by (intro exI conjI) (assumption, simp add: rune_ascii)
  next
    case 3
    then have "indent_loop (c # s) d nl acc = indent_loop s (d + depth [c]) True (acc @ [c, newline_char])"
      by (simp add: opener_def closer_def)
    then show ?thesis by (intro exI conjI) (assumption, simp)
  next
    case 4
    then have "indent_loop (c # s) d nl acc = indent_loop s (d + depth [c]) nl acc"
      by (simp add: opener_def closer_def)
    then show ?thesis using 4 by (intro exI conjI) (assumption, simp)
  next
    case 5
    then have "indent_loop (c # s) d nl acc = indent_loop s (d + depth [c]) False
       (acc @ (if nl then replicate (nat (d * 2)) CHR '' '' else []) @ rune_string c)"
      using indent_other [OF 5 assms(1)] by (simp del: indent_loop.simps)
    then show ?thesis by (intro exI conjI) (assumption, simp add: rune_ascii)
  qed
qed

lemma indent_close_panics:
  "closer c \<Longrightarrow> indent_loop (c # s) 0 nl acc = Panic ''strings: negative Repeat count''"
  by (auto simp: closer_def)

lemma indent_loop_panics:
  "0 \<le> d \<Longrightarrow> \<not> nests d s \<Longrightarrow> indent_loop s d nl acc = Panic ''strings: negative Repeat count''"
proof (induction s arbitrary: d nl acc)
  case (Cons c s)
  show ?case
  proof (cases "closer c \<and> d = 0")
    case True
    then show ?thesis by (simp add: indent_close_panics del: indent_loop.simps)
  next
    case False
    then have d: "0 \<le> d + depth [c]" using Cons.prems(1) by auto
    have n: "\<not> nests (d + depth [c]) s" using Cons.prems by (simp add: nests_Cons)
    from indent_step [OF Cons.prems(1) d] Cons.IH [OF d n] show ?thesis by metis
  qed
qed simp

lemma indent_loop_ok:
  "nests d s \<Longrightarrow> \<exists>r. indent_loop s d nl acc = Ok r \<and>
     ((\<forall>c\<in>set s. (of_char c :: nat) < 128) \<longrightarrow> visible r = visible acc @ visible s)"
proof (induction s arbitrary: d nl acc)
  case (Cons c s)
  have d: "0 \<le> d" "nests (d + depth [c]) s" using Cons.prems by (simp_all add: nests_Cons)
  from indent_step [OF d(1) nests_nonneg [OF d(2)]] obtain nl' acc' where
    st: "indent_loop (c # s) d nl acc = indent_loop s (d + depth [c]) nl' acc'"
      "(of_char c :: nat) < 128 \<longrightarrow> visible acc' = visible acc @ visible [c]" by blast
  from Cons.IH [OF d(2)] obtain r where
    "indent_loop s (d + depth [c]) nl' acc' = Ok r"
    "(\<forall>c\<in>set s. (of_char c :: nat) < 128) \<longrightarrow> visible r = visible acc' @ visible s" by blast
  with st show ?case by (auto simp del: indent_loop.simps)
qed simp

subsection \<open>Properties of the periodic caller\<close>

datatype pc_op = DoPostpone int | DoTick int int | DoStop

fun pc_exec :: "pc_op \<Rightarrow> PeriodicCaller \<Rightarrow> PeriodicCaller" where
  "pc_exec (DoPostpone now) pc = Postpone now pc"
| "pc_exec (DoTick now later) pc = Tick now later pc"
| "pc_exec DoStop pc = PeriodicCaller_Stop pc"

fun pc_times :: "pc_op \<Rightarrow> int list" where
  "pc_times (DoPostpone now) = [now]"
| "pc_times (DoTick now later) = [now, later]"
| "pc_times DoStop = []"

fun spaced :: "int \<Rightarrow> int list \<Rightarrow> bool" where
  "spaced d (a # b # xs) \<longleftrightarrow> b + d \<le> a \<and> spaced d (b # xs)"
| "spaced d xs \<longleftrightarrow> True"

definition pc_inv :: "PeriodicCaller \<Rightarrow> bool" where
  "pc_inv pc \<longleftrightarrow> spaced (pc_interval pc) (pc_calls pc) \<and>
     (pc_calls pc \<noteq> [] \<longrightarrow> (\<exists>t. pc_lastCallTime pc = Some t \<and> hd (pc_calls pc) \<le> t))"

definition pc_before :: "PeriodicCaller \<Rightarrow> int \<Rightarrow> bool" where
  "pc_before pc now \<longleftrightarrow> (\<forall>t. pc_lastCallTime pc = Some t \<longrightarrow> t \<le> now)"

lemma pc_call_spaced:
  assumes "pc_inv pc" "pc_interval pc \<le> time_Sub now (pc_lastCallTime pc)"
  shows "spaced (pc_interval pc) (now # pc_calls pc)"
  using assms by (cases "pc_calls pc") (auto simp: pc_inv_def time_Sub_def)

lemma pc_exec_inv:
  assumes "pc_inv pc" "sorted (pc_times op)" "\<forall>t\<in>set (pc_times op). pc_before pc t"
  shows "pc_inv (pc_exec op pc)" and "\<And>now. (\<forall>t\<in>set (pc_times op). t \<le> now) \<Longrightarrow> pc_before pc now \<Longrightarrow> pc_before (pc_exec op pc) now"
    and "pc_interval (pc_exec op pc) = pc_interval pc"
    and "pc_stopped pc \<Longrightarrow> pc_calls (pc_exec op pc) = pc_calls pc \<and> pc_stopped (pc_exec op pc)"
  using assms pc_call_spaced [of pc]
  by (cases op; fastforce simp: Postpone_def Tick_def PeriodicCaller_Stop_def pc_inv_def pc_before_def Let_def)+

lemma pc_stopped_run: "pc_stopped pc \<Longrightarrow> pc_calls (fold pc_exec ops pc) = pc_calls pc"
proof (induction ops arbitrary: pc)
  case (Cons op ops)
  have "pc_calls (pc_exec op pc) = pc_calls pc \<and> pc_stopped (pc_exec op pc)"
    using Cons.prems by (cases op) (auto simp: Postpone_def Tick_def PeriodicCaller_Stop_def)
  then show ?case using Cons.IH by simp
qed simp

lemma pc_run_spaced:
  "pc_inv pc \<Longrightarrow> sorted (concat (map pc_times ops)) \<Longrightarrow> \<forall>t\<in>set (concat (map pc_times ops)). pc_before pc t \<Longrightarrow>
   spaced (pc_interval pc) (pc_calls (fold pc_exec ops pc))"
proof (induction ops arbitrary: pc)
  case Nil
  then show ?case by (simp add: pc_inv_def)
next
  case (Cons op ops)
  have s: "sorted (pc_times op)" "sorted (concat (map pc_times ops))"
    "\<And>a b. a \<in> set (pc_times op) \<Longrightarrow> b \<in> set (concat (map pc_times ops)) \<Longrightarrow> a \<le> b"
    using Cons.prems(2) by (auto simp: sorted_append)
  have b: "\<forall>t\<in>set (pc_times op). pc_before pc t" using Cons.prems(3) by simp
  note step = pc_exec_inv [OF Cons.prems(1) s(1) b]
  have "\<forall>t\<in>set (concat (map pc_times ops)). pc_before (pc_exec op pc) t"
    using Cons.prems(3) s(3) by (intro ballI step(2)) simp_all
  from Cons.IH [OF step(1) s(2) this] show ?case by (simp add: step(3))
qed

text \<open>For clock readings in order, two calls of the action are at least the interval apart, and there is none after
  \<open>Stop\<close>.\<close>

theorem periodic_calls_spaced:
  assumes "sorted (concat (map pc_times ops))"
  shows "spaced interval (pc_calls (fold pc_exec ops (NewPeriodicCaller interval))) \<and>
    pc_calls (fold pc_exec (ops @ DoStop # rest) (NewPeriodicCaller interval)) =
    pc_calls (fold pc_exec ops (NewPeriodicCaller interval))"
proof -
  have "pc_inv (NewPeriodicCaller interval)" "\<And>t. pc_before (NewPeriodicCaller interval) t"
    "pc_interval (NewPeriodicCaller interval) = interval"
    by (simp_all add: pc_inv_def pc_before_def NewPeriodicCaller_def)
  then show ?thesis
    using pc_run_spaced [of "NewPeriodicCaller interval" ops] assms pc_stopped_run
    by (simp add: PeriodicCaller_Stop_def)
qed

theorem periodic_calls_spaced_witness:
  "sorted (concat (map pc_times [DoPostpone 5, DoTick 12 13, DoPostpone 20])) \<and>
   pc_calls (fold pc_exec [DoPostpone 5, DoTick 12 13, DoPostpone 20] (NewPeriodicCaller 7)) = [20, 12, 5] \<and>
   spaced 7 [20, 12, 5]"
proof -
  have c: "pc_calls (fold pc_exec [DoPostpone 5, DoTick 12 13, DoPostpone 20] (NewPeriodicCaller 7)) = [20, 12, 5]"
    by (simp add: NewPeriodicCaller_def Postpone_def Tick_def time_Sub_def)
  have s: "sorted (concat (map pc_times [DoPostpone 5, DoTick 12 13, DoPostpone 20]))" by simp
  from periodic_calls_spaced [OF s, of 7] show ?thesis using s unfolding c by blast
qed

text \<open>\<open>IndentCbor\<close> panics exactly when a prefix closes more brackets than it opens, and otherwise keeps all characters
  of an ASCII input but white space.\<close>

theorem indent_cbor:
  "(if \<forall>n. 0 \<le> depth (take n input)
    then \<exists>out. IndentCbor input = Ok out \<and> ((\<forall>c\<in>set input. (of_char c :: nat) < 128) \<longrightarrow> visible out = visible input)
    else IndentCbor input = Panic ''strings: negative Repeat count'')"
  using indent_loop_ok [of 0 input False "[]"] indent_loop_panics [of 0 input False "[]"]
  by (simp add: IndentCbor_def nests_def)

theorem indent_cbor_witness:
  "\<exists>out. IndentCbor ''[1, {2}]'' = Ok out \<and> visible out = ''[1,{2}]''"
proof -
  have p: "\<forall>n. 0 \<le> depth (take n ''[1, {2}]'')"
    unfolding nests_def [of 0, simplified, symmetric] by (simp add: nests_Cons opener_def closer_def)
  have v: "visible ''[1, {2}]'' = ''[1,{2}]''" by (simp add: newline_char_def)
  show ?thesis using indent_cbor [of "''[1, {2}]''"] p unfolding v by simp
qed

subsection \<open>Tags and chunks\<close>

theorem with_cbor_tag_roundtrip:
  assumes codec: "dec_int (enc_int (wt_Tag w) @ val) = Ok (wt_Tag w, val)" "enc_int (wt_Tag w) = b # bs" "0 < b"
    and "enc (wt_Value w) = Ok val" "dec val = Ok (wt_Value w)" "0 < wt_Tag w"
  shows "\<exists>data. WithCborTag_MarshalCBOR enc_int enc w = Ok data \<and> WithCborTag_UnmarshalCBOR dec_int dec data w0 = Ok w"
  using assms by (auto simp: WithCborTag_MarshalCBOR_def WithCborTag_UnmarshalCBOR_def Let_def)

lemma chunk_string:
  assumes "0 < n"
  shows "concat (ChunkString s n) = s" "\<forall>c\<in>set (ChunkString s n). c \<noteq> [] \<and> int (length c) \<le> n"
  using assms concat_chunks [of "nat n" s] chunks_bound [of _ "nat n" s]
  by (auto simp: ChunkString_def nat_le_iff le_nat_iff)

end
