(* ===== verification/CborValid.thy ===== *)
theory CborValid
  imports Prelude
begin

text \<open>
  The heads of CBOR data items and the check for well-formedness of the vendored CBOR library
  (src/vendor/github.com/alexdcox/cbor/v2: common.go, valid.go).

  \<^item> The decoder's data and offset are one list, the bytes from the offset on; a function that moves the offset
    returns the rest.
  \<^item> \<open>DecMode\<close> has the options that the program sets or leaves at different defaults. Indefinite lengths, tags, bignums, NaN and
    infinity are allowed in every mode the program uses.
  \<^item> The depth that \<open>wellformedInternal\<close> returns is only passed on by its callers and is left out.
  \<^item> Recursion and the loops over items of indefinite length carry a bound, which starts at the number of bytes. Each call
    reads at least one byte, so that a bound of zero means an empty rest, for which the code reports the end of the input:
    the equations for zero return that error, and \<open>wf_fuel\<close> shows that a larger bound makes no difference.
\<close>

subsection \<open>Numbers of several bytes\<close>

definition PutUint64 :: "uint64 \<Rightarrow> bytes" where
  "PutUint64 v = PutUint32 (ucast (drop_bit 32 v)) @ PutUint32 (ucast v)"

definition Uint32 :: "bytes \<Rightarrow> uint32" where
  "Uint32 b = (case b of
       b0 # b1 # b2 # b3 # _ \<Rightarrow> push_bit 24 (ucast b0) OR push_bit 16 (ucast b1) OR push_bit 8 (ucast b2) OR ucast b3
     | _ \<Rightarrow> 0)"

definition Uint64 :: "bytes \<Rightarrow> uint64" where
  "Uint64 b = push_bit 32 (ucast (Uint32 b)) OR ucast (Uint32 (drop 4 b))"

lemma length_PutUint64 [simp]: "length (PutUint64 v) = 8"
  by (simp add: PutUint64_def)

lemma Uint16_append [simp]: "Uint16 (PutUint16 v @ rest) = v"
  using Uint16_PutUint16 [of v] by (simp add: Uint16_def PutUint16_def)

lemma Uint32_append [simp]: "Uint32 (PutUint32 v @ rest) = v"
  by (rule bit_word_eqI)
    (auto simp: Uint32_def PutUint32_def bit_simps not_le less_diff_conv2, (metis add_diff_inverse_nat)+)

lemma Uint64_append [simp]: "Uint64 (PutUint64 v @ rest) = v"
proof -
  have "drop 4 (PutUint32 a @ b) = b" for a b by simp
  then have "Uint64 (PutUint64 v @ rest) = push_bit 32 (ucast (ucast (drop_bit 32 v) :: uint32)) OR ucast (ucast v :: uint32)"
    unfolding Uint64_def PutUint64_def append_assoc by (simp only: Uint32_append)
  also have "\<dots> = v" by (rule bit_word_eqI) (auto simp: bit_simps not_le less_diff_conv2)
  finally show ?thesis .
qed

subsection \<open>Heads\<close>

definition getType :: "byte \<Rightarrow> byte" where
  "getType raw = raw AND 0xE0"

definition getAdditionalInformation :: "byte \<Rightarrow> byte" where
  "getAdditionalInformation raw = raw AND 0x1F"

definition isBreakFlag :: "byte \<Rightarrow> bool" where
  "isBreakFlag raw \<longleftrightarrow> raw = 0xFF"

definition ErrUnexpectedEOF :: gerror where "ErrUnexpectedEOF = ErrMsg ''unexpected EOF''"
definition ErrEOF :: gerror where "ErrEOF = ErrMsg ''EOF''"

text \<open>A head: major type, additional information, argument.\<close>

type_synonym head = "byte \<times> byte \<times> uint64"

text \<open>An argument of \<open>n\<close> bytes.\<close>

definition argument :: "nat \<Rightarrow> (bytes \<Rightarrow> uint64) \<Rightarrow> byte \<Rightarrow> byte \<Rightarrow> bytes \<Rightarrow> (head \<times> bytes) res" where
  "argument n get t ai data = (if length data < n then Err ErrUnexpectedEOF else Ok ((t, ai, get data), drop n data))"

definition wellformedHead :: "bytes \<Rightarrow> (head \<times> bytes) res" where
  "wellformedHead data =
     (case data of
        [] \<Rightarrow> Err ErrUnexpectedEOF
      | b # data \<Rightarrow>
          let t = getType b; ai = getAdditionalInformation b in
          if ai \<le> 23 then Ok ((t, ai, ucast ai), data)
          else if ai = 24 then
            res_bind (argument 1 (\<lambda>d. ucast (d ! 0)) t ai data) (\<lambda>r.
              if t = 0xE0 \<and> snd (snd (fst r)) < 32 then Err (ErrMsg ''cbor: invalid simple value'') else Ok r)
          else if ai = 25 then argument 2 (\<lambda>d. ucast (Uint16 d)) t ai data
          else if ai = 26 then argument 4 (\<lambda>d. ucast (Uint32 d)) t ai data
          else if ai = 27 then argument 8 Uint64 t ai data
          else if ai = 31 then
            (if t = 0x00 \<or> t = 0x20 \<or> t = 0xC0 then Err (ErrMsg ''cbor: invalid additional information'')
             else if t = 0xE0 then Err (ErrMsg ''cbor: unexpected break code'')
             else Ok ((t, ai, ucast ai), data))
          else Err (ErrMsg ''cbor: invalid additional information''))"

definition validBuiltinTag :: "uint64 \<Rightarrow> byte \<Rightarrow> unit res" where
  "validBuiltinTag tagNum contentHead =
     (let t = getType contentHead in
      if tagNum = 0 then (if t \<noteq> 0x60 then Err (ErrMsg ''cbor: tag number 0 must be followed by text string'') else Ok ())
      else if tagNum = 1 then
        (if t \<noteq> 0x00 \<and> t \<noteq> 0x20 \<and> (contentHead < 0xF9 \<or> 0xFB < contentHead)
         then Err (ErrMsg ''cbor: tag number 1 must be followed by integer or floating-point number'') else Ok ())
      else if tagNum = 2 \<or> tagNum = 3 then
        (if t \<noteq> 0x40 then Err (ErrMsg ''cbor: tag number 2 or 3 must be followed by byte string'') else Ok ())
      else Ok ())"

subsection \<open>Well-formedness\<close>

datatype UTF8Mode = UTF8RejectInvalid | UTF8DecodeInvalid

record DecMode =
  dm_maxNestedLevels :: int
  dm_maxArrayElements :: int
  dm_maxMapPairs :: int
  dm_utf8 :: UTF8Mode

definition defaultDecMode :: DecMode where
  "defaultDecMode = \<lparr>dm_maxNestedLevels = 32, dm_maxArrayElements = 131072, dm_maxMapPairs = 131072, dm_utf8 = UTF8RejectInvalid\<rparr>"

text \<open>The mode that checks what a \<open>MarshalCBOR\<close> method returned.\<close>

definition marshalerDecMode :: DecMode where
  "marshalerDecMode = \<lparr>dm_maxNestedLevels = 65535, dm_maxArrayElements = 2147483647, dm_maxMapPairs = 2147483647,
     dm_utf8 = UTF8RejectInvalid\<rparr>"

definition errNested :: gerror where "errNested = ErrMsg ''cbor: exceeded max nested level''"
definition errMaxArray :: gerror where "errMaxArray = ErrMsg ''cbor: exceeded max number of elements for CBOR array''"
definition errMaxMap :: gerror where "errMaxMap = ErrMsg ''cbor: exceeded max number of key-value pairs for CBOR map''"

text \<open>The scan over nested tag numbers: the depth and the rest, which starts with the content.\<close>

fun wf_tags :: "nat \<Rightarrow> DecMode \<Rightarrow> bool \<Rightarrow> nat \<Rightarrow> uint64 \<Rightarrow> bytes \<Rightarrow> (nat \<times> bytes) res" where
  "wf_tags 0 dm chk depth tagNum data = Err ErrUnexpectedEOF"
| "wf_tags (Suc k) dm chk depth tagNum data =
     (case data of
        [] \<Rightarrow> Err ErrUnexpectedEOF
      | b # _ \<Rightarrow>
          res_bind (if chk then validBuiltinTag tagNum b else Ok ()) (\<lambda>_.
            if getType b \<noteq> 0xC0 then Ok (depth, data)
            else res_bind (wellformedHead data) (\<lambda>(h, data').
              if dm_maxNestedLevels dm < int (Suc depth) then Err errNested
              else wf_tags k dm chk (Suc depth) (snd (snd h)) data')))"

text \<open>A string of definite length.\<close>

definition wf_string :: "uint64 \<Rightarrow> bytes \<Rightarrow> bytes res" where
  "wf_string val data =
     (if 0x8000000000000000 \<le> val then Err (ErrMsg ''cbor: length is too large, causing integer overflow'')
      else if int (length data) < uint val then Err ErrUnexpectedEOF
      else Ok (drop (unat val) data))"

text \<open>
  \<open>wf_item\<close> is \<open>wellformedInternal\<close>, \<open>wf_items\<close> its loop over \<open>n\<close> elements, \<open>wf_chunks\<close> is \<open>wellformedIndefiniteString\<close>,
  \<open>wf_until\<close> is \<open>wellformedIndefiniteArrayOrMap\<close>, where \<open>i\<close> counts the items.
\<close>

function (sequential) wf_item :: "nat \<Rightarrow> DecMode \<Rightarrow> bool \<Rightarrow> nat \<Rightarrow> bytes \<Rightarrow> bytes res"
  and wf_items :: "nat \<Rightarrow> DecMode \<Rightarrow> bool \<Rightarrow> nat \<Rightarrow> nat \<Rightarrow> bytes \<Rightarrow> bytes res"
  and wf_chunks :: "nat \<Rightarrow> DecMode \<Rightarrow> bool \<Rightarrow> nat \<Rightarrow> byte \<Rightarrow> nat \<Rightarrow> bytes \<Rightarrow> bytes res"
  and wf_until :: "nat \<Rightarrow> DecMode \<Rightarrow> bool \<Rightarrow> nat \<Rightarrow> byte \<Rightarrow> nat \<Rightarrow> nat \<Rightarrow> bytes \<Rightarrow> bytes res" where
  "wf_item 0 dm chk depth data = Err ErrUnexpectedEOF"
| "wf_item (Suc f) dm chk depth data =
     res_bind (wellformedHead data) (\<lambda>((t, ai, val), data').
       if t = 0x40 \<or> t = 0x60 then
         (if ai = 31 then wf_chunks f dm chk (length data') t depth data' else wf_string val data')
       else if t = 0x80 \<or> t = 0xA0 then
         (if dm_maxNestedLevels dm < int (Suc depth) then Err errNested
          else if ai = 31 then wf_until f dm chk (length data') t 0 (Suc depth) data'
          else if 0x8000000000000000 \<le> val then Err (ErrMsg ''cbor: length is too large, it would cause integer overflow'')
          else if t = 0x80 then
            (if dm_maxArrayElements dm < uint val then Err errMaxArray else wf_items f dm chk (unat val) (Suc depth) data')
          else
            (if dm_maxMapPairs dm < uint val then Err errMaxMap else wf_items f dm chk (2 * unat val) (Suc depth) data'))
       else if t = 0xC0 then
         res_bind (wf_tags (length data') dm chk depth val data') (\<lambda>(depth', content). wf_item f dm chk depth' content)
       else Ok data')"
| "wf_items f dm chk 0 depth data = Ok data"
| "wf_items f dm chk (Suc n) depth data =
     res_bind (wf_item f dm chk depth data) (\<lambda>data'. wf_items f dm chk n depth data')"
| "wf_chunks f dm chk 0 t depth data = Err ErrUnexpectedEOF"
| "wf_chunks f dm chk (Suc k) t depth data =
     (case data of
        [] \<Rightarrow> Err ErrUnexpectedEOF
      | b # data' \<Rightarrow>
          if isBreakFlag b then Ok data'
          else if t \<noteq> getType b then Err (ErrMsg ''cbor: wrong element type for indefinite-length string'')
          else if getAdditionalInformation b = 31 then Err (ErrMsg ''cbor: indefinite-length string chunk is not definite-length'')
          else res_bind (wf_item f dm chk depth data) (\<lambda>data''. wf_chunks f dm chk k t depth data''))"
| "wf_until f dm chk 0 t i depth data = Err ErrUnexpectedEOF"
| "wf_until f dm chk (Suc k) t i depth data =
     (case data of
        [] \<Rightarrow> Err ErrUnexpectedEOF
      | b # data' \<Rightarrow>
          if isBreakFlag b then
            (if t = 0xA0 \<and> i mod 2 = 1 then Err (ErrMsg ''cbor: unexpected break code'') else Ok data')
          else res_bind (wf_item f dm chk depth data) (\<lambda>data''.
            if t = 0x80 \<and> dm_maxArrayElements dm < int (Suc i) then Err errMaxArray
            else if t \<noteq> 0x80 \<and> Suc i mod 2 = 0 \<and> dm_maxMapPairs dm < int (Suc i div 2) then Err errMaxMap
            else wf_until f dm chk k t (Suc i) depth data''))"
  by pat_completeness auto
termination
  by (relation "inv_image (less_than <*lex*> less_than <*lex*> less_than)
    (case_sum (case_sum (\<lambda>(f, _, _, _, _). (f, 0, 0 :: nat)) (\<lambda>(f, _, _, n, _, _). (f, 1, n)))
      (case_sum (\<lambda>(f, _, _, k, _, _, _). (f, 1, k)) (\<lambda>(f, _, _, k, _, _, _, _). (f, 1, k))))") auto

text \<open>\<open>wellformed\<close>: the rest of the data, which must be empty unless \<open>allowExtraData\<close>.\<close>

definition wellformed :: "DecMode \<Rightarrow> bool \<Rightarrow> bool \<Rightarrow> bytes \<Rightarrow> bytes res" where
  "wellformed dm allowExtraData chk data =
     (if data = [] then Err ErrEOF
      else res_bind (wf_item (length data) dm chk 0 data) (\<lambda>rest.
        if \<not> allowExtraData \<and> rest \<noteq> [] then Err (ErrMsg ''cbor: bytes of extraneous data'') else Ok rest))"

subsection \<open>Extending the input\<close>

text \<open>
  A verdict other than \<open>unexpected EOF\<close> is kept when bytes are appended and when the bounds grow. \<open>extended s r\<close> is the result \<open>r\<close> with
  \<open>s\<close> behind its rest.
\<close>

definition extended :: "bytes \<Rightarrow> bytes res \<Rightarrow> bytes res" where
  "extended s r = res_bind r (\<lambda>rest. Ok (rest @ s))"

lemma extended_simps [simp]:
  "extended s (Ok rest) = Ok (rest @ s)" "extended s (Err e) = Err e" "extended s (Panic p) = Panic p"
  by (simp_all add: extended_def)

lemma argument_extend:
  "argument n get t ai p \<noteq> Err ErrUnexpectedEOF \<Longrightarrow> (\<And>d. n \<le> length d \<Longrightarrow> get (d @ s) = get d) \<Longrightarrow>
   argument n get t ai (p @ s) = res_bind (argument n get t ai p) (\<lambda>(h, r). Ok (h, r @ s))"
  by (auto simp: argument_def)

lemma Uint_append_long:
  "2 \<le> length d \<Longrightarrow> Uint16 (d @ s) = Uint16 d" "4 \<le> length d \<Longrightarrow> Uint32 (d @ s) = Uint32 d"
  "8 \<le> length d \<Longrightarrow> Uint64 (d @ s) = Uint64 d"
proof -
  show u16: "2 \<le> length d \<Longrightarrow> Uint16 (d @ s) = Uint16 d" for d
    by (auto simp: Uint16_def numeral_eq_Suc Suc_le_length_iff)
  show u32: "4 \<le> length d \<Longrightarrow> Uint32 (d @ s) = Uint32 d" for d
    by (auto simp: Uint32_def numeral_eq_Suc Suc_le_length_iff)
  show "8 \<le> length d \<Longrightarrow> Uint64 (d @ s) = Uint64 d"
    using u32 [of d] u32 [of "drop 4 d"] by (simp add: Uint64_def)
qed

lemma wellformedHead_extend:
  assumes "wellformedHead p \<noteq> Err ErrUnexpectedEOF"
  shows "wellformedHead (p @ s) = res_bind (wellformedHead p) (\<lambda>(h, r). Ok (h, r @ s))"
proof (cases p)
  case Nil
  then show ?thesis using assms by (simp add: wellformedHead_def)
next
  case (Cons b d)
  let ?t = "getType b" and ?a = "getAdditionalInformation b"
  have e: "argument 1 (\<lambda>d. ucast (d ! 0)) ?t ?a d \<noteq> Err ErrUnexpectedEOF \<Longrightarrow>
      argument 1 (\<lambda>d. ucast (d ! 0)) ?t ?a (d @ s) = res_bind (argument 1 (\<lambda>d. ucast (d ! 0)) ?t ?a d) (\<lambda>(h, r). Ok (h, r @ s))"
    by (intro argument_extend) (auto simp: nth_append)
  consider "?a \<le> 23" | "?a = 24" | "?a = 25" | "?a = 26" | "?a = 27" | "\<not> ?a \<le> 23" "?a \<notin> {24, 25, 26, 27}" by blast
  then show ?thesis
  proof cases
    case 2
    then show ?thesis using assms Cons e
      by (cases "argument 1 (\<lambda>d. ucast (d ! 0)) ?t ?a d") (auto simp: wellformedHead_def)
  next
    case 3
    then show ?thesis using assms Cons by (simp add: wellformedHead_def argument_extend Uint_append_long)
  next
    case 4
    then show ?thesis using assms Cons by (simp add: wellformedHead_def argument_extend Uint_append_long)
  next
    case 5
    then show ?thesis using assms Cons by (simp add: wellformedHead_def argument_extend Uint_append_long)
  qed (use Cons in \<open>simp_all add: wellformedHead_def Let_def\<close>)
qed

lemma wellformedHead_consumes: "wellformedHead p = Ok (h, r) \<Longrightarrow> length r < length p"
  by (auto simp: wellformedHead_def Let_def argument_def split: list.splits if_splits)

lemma wf_tags_extend:
  "wf_tags k dm chk depth tagNum p \<noteq> Err ErrUnexpectedEOF \<Longrightarrow> k \<le> k' \<Longrightarrow>
   wf_tags k' dm chk depth tagNum (p @ s) = res_bind (wf_tags k dm chk depth tagNum p) (\<lambda>(d, r). Ok (d, r @ s))"
proof (induction k dm chk depth tagNum p arbitrary: k' rule: wf_tags.induct)
  case (2 k dm chk depth tagNum data)
  from \<open>Suc k \<le> k'\<close> obtain j where k': "k' = Suc j" "k \<le> j" by (cases k') auto
  show ?case
  proof (cases data)
    case (Cons b d)
    show ?thesis
    proof (cases "if chk then validBuiltinTag tagNum b else Ok ()")
      case (Ok u)
      then show ?thesis
        using 2 k' Cons wellformedHead_extend [of data s]
        by (cases "wellformedHead data") (auto split: if_splits)
    qed (use 2 k' Cons in \<open>auto split: if_splits\<close>)
  qed (use 2 in simp)
qed simp

lemma wf_tags_consumes: "wf_tags k dm chk depth tagNum p = Ok (d, r) \<Longrightarrow> length r \<le> length p"
proof (induction k dm chk depth tagNum p rule: wf_tags.induct)
  case (2 k dm chk depth tagNum data)
  then show ?case by (fastforce split: list.splits if_splits dest: wellformedHead_consumes)
qed simp

lemma wf_string_extend: "wf_string val p \<noteq> Err ErrUnexpectedEOF \<Longrightarrow> wf_string val (p @ s) = extended s (wf_string val p)"
  proof -
  have "unat val \<le> length p" if "\<not> int (length p) < uint val" 
  proof -
    have "nat (uint val) \<le> length p" using that by linarith
    then show ?thesis by (simp only: nat_uint_eq)
  qed
  then show "wf_string val p \<noteq> Err ErrUnexpectedEOF \<Longrightarrow> wf_string val (p @ s) = extended s (wf_string val p)"
    by (auto simp: wf_string_def split: if_splits)
qed

lemma wf_extend:
  "wf_item f dm chk depth p \<noteq> Err ErrUnexpectedEOF \<Longrightarrow> f \<le> f' \<Longrightarrow>
     wf_item f' dm chk depth (p @ s) = extended s (wf_item f dm chk depth p)"
  "wf_items f dm chk n depth p \<noteq> Err ErrUnexpectedEOF \<Longrightarrow> f \<le> f' \<Longrightarrow>
     wf_items f' dm chk n depth (p @ s) = extended s (wf_items f dm chk n depth p)"
  "wf_chunks f dm chk k t depth p \<noteq> Err ErrUnexpectedEOF \<Longrightarrow> f \<le> f' \<Longrightarrow> k \<le> k' \<Longrightarrow>
     wf_chunks f' dm chk k' t depth (p @ s) = extended s (wf_chunks f dm chk k t depth p)"
  "wf_until f dm chk k t i depth p \<noteq> Err ErrUnexpectedEOF \<Longrightarrow> f \<le> f' \<Longrightarrow> k \<le> k' \<Longrightarrow>
     wf_until f' dm chk k' t i depth (p @ s) = extended s (wf_until f dm chk k t i depth p)"
proof (induction f dm chk depth p and f dm chk n depth p and f dm chk k t depth p and f dm chk k t i depth p
    arbitrary: f' and f' and f' k' and f' k' rule: wf_item_wf_items_wf_chunks_wf_until.induct)
  case (2 f dm chk depth data)
  from \<open>Suc f \<le> f'\<close> obtain g where f': "f' = Suc g" "f \<le> g" by (cases f') auto
  show ?case
  proof (cases "wellformedHead data")
    case (Ok hr)
    obtain t ai val r where hr: "hr = ((t, ai, val), r)" by (metis prod.exhaust)
    have h: "wellformedHead (data @ s) = Ok ((t, ai, val), r @ s)" using wellformedHead_extend [of data s] Ok hr by simp
    note prem = 2(6) [unfolded wf_item.simps Ok hr res_bind.simps prod.case]
    consider (str) "t = 0x40 \<or> t = 0x60" | (box) "t = 0x80 \<or> t = 0xA0" | (tag) "t = 0xC0"
      | (leaf) "\<not> (t = 0x40 \<or> t = 0x60)" "\<not> (t = 0x80 \<or> t = 0xA0)" "t \<noteq> 0xC0" by blast
    then show ?thesis
    proof cases
      case str
      then show ?thesis using prem 2(1) [of t ai r g "length (r @ s)"] f' wf_string_extend [of val r s]
        by (cases "ai = 31") (auto simp: Ok hr h)
    next
      case box
      then have n: "\<not> (t = 0x40 \<or> t = 0x60)" by auto
      show ?thesis using box prem 2(2) [OF n box, of ai r g "length (r @ s)"] 2(3,4) [OF n box, of ai val r g] f'
        by (auto simp: Ok hr h)
    next
      case tag
      then have n: "\<not> (t = 0x40 \<or> t = 0x60)" "\<not> (t = 0x80 \<or> t = 0xA0)" by auto
      show ?thesis using tag prem 2(5) [OF n tag] f' wf_tags_extend [of "length r" dm chk depth val r "length (r @ s)" s]
        by (cases "wf_tags (length r) dm chk depth val r") (auto simp: Ok hr h)
    qed (use f' in \<open>simp add: Ok hr h\<close>)
  qed (use 2 f' wellformedHead_extend [of data s] in simp_all)
next
  case (4 f dm chk n depth data)
  then show ?case by (cases "wf_item f dm chk depth data") auto
next
  case (6 f dm chk k t depth data)
  from \<open>Suc k \<le> k'\<close> obtain j where k': "k' = Suc j" "k \<le> j" by (cases k') auto
  show ?case
  proof (cases data)
    case (Cons b d)
    then show ?thesis using 6 k' by (cases "wf_item f dm chk depth data") (auto split: if_splits)
  qed (use 6 in simp)
next
  case (8 f dm chk k t i depth data)
  from \<open>Suc k \<le> k'\<close> obtain j where k': "k' = Suc j" "k \<le> j" by (cases k') auto
  show ?case
  proof (cases data)
    case (Cons b d)
    then show ?thesis using 8 k' by (cases "wf_item f dm chk depth data") (auto split: if_splits)
  qed (use 8 in simp)
qed simp_all

subsection \<open>Consumption and bounds\<close>

lemma wf_consumes:
  "wf_item f dm chk depth p = Ok r \<Longrightarrow> length r < length p"
  "wf_items f dm chk n depth p = Ok r \<Longrightarrow> length r \<le> length p"
  "wf_chunks f dm chk k t depth p = Ok r \<Longrightarrow> length r < length p"
  "wf_until f dm chk k t i depth p = Ok r \<Longrightarrow> length r < length p"
proof (induction f dm chk depth p and f dm chk n depth p and f dm chk k t depth p and f dm chk k t i depth p
    arbitrary: r and r and r and r rule: wf_item_wf_items_wf_chunks_wf_until.induct)
  case (2 f dm chk depth data)
  from 2(6) obtain t ai val d where h: "wellformedHead data = Ok ((t, ai, val), d)" by auto
  note l = wellformedHead_consumes [OF h]
  consider (str) "t = 0x40 \<or> t = 0x60" | (box) "t = 0x80 \<or> t = 0xA0" | (tag) "t = 0xC0"
    | (leaf) "\<not> (t = 0x40 \<or> t = 0x60)" "\<not> (t = 0x80 \<or> t = 0xA0)" "t \<noteq> 0xC0" by blast
  then show ?case
  proof cases
    case str
    then show ?thesis using 2(6) 2(1) [of t ai d r] l by (auto simp: h wf_string_def split: if_splits)
  next
    case box
    then have n: "\<not> (t = 0x40 \<or> t = 0x60)" by auto
    show ?thesis using box 2(6) 2(2) [OF n box, of ai d r] 2(3,4) [OF n box, of ai val d r] l
      by (auto simp: h split: if_splits)
  next
    case tag
    then have n: "\<not> (t = 0x40 \<or> t = 0x60)" "\<not> (t = 0x80 \<or> t = 0xA0)" by auto
    show ?thesis using tag 2(6) 2(5) [OF n tag] l
      by (fastforce simp: h dest: wf_tags_consumes)
  qed (use 2(6) l in \<open>simp add: h\<close>)
next
  case (4 f dm chk n depth data)
  then show ?case by fastforce
next
  case (6 f dm chk k t depth data)
  then show ?case by (fastforce split: list.splits if_splits)
next
  case (8 f dm chk k t i depth data)
  then show ?case by (fastforce split: list.splits if_splits)
qed simp_all

lemma wellformed_consumes: "wellformed dm x chk p = Ok r \<Longrightarrow> length r < length p"
  by (auto simp: wellformed_def dest: wf_consumes split: if_splits)

lemma wf_tags_fuel:
  "length p \<le> k \<Longrightarrow> length p \<le> k' \<Longrightarrow> wf_tags k dm chk depth tagNum p = wf_tags k' dm chk depth tagNum p"
proof (induction k dm chk depth tagNum p arbitrary: k' rule: wf_tags.induct)
  case (1 dm chk depth tagNum data)
  then show ?case by (cases k') simp_all
next
  case (2 k dm chk depth tagNum data)
  show ?case
  proof (cases data)
    case (Cons b d)
    then obtain j where k': "k' = Suc j" using 2(3) by (cases k') auto
    show ?thesis
    proof (cases "wellformedHead data")
      case (Ok hr)
      then have "length (snd hr) < length data" using wellformedHead_consumes [of data "fst hr"] by simp
      then have "length (snd hr) \<le> k" "length (snd hr) \<le> j" using 2(2,3) k' by auto
      then show ?thesis using 2(1) [OF Cons, where k' = j] Ok Cons k'
        by (cases "if chk then validBuiltinTag tagNum b else Ok ()") (auto simp: split_beta)
    qed (use Cons k' in auto)
  qed (cases k', simp_all)
qed

text \<open>The bounds with which \<open>wellformed\<close> starts are large enough.\<close>

lemma wf_fuel:
  "length p \<le> f \<Longrightarrow> length p \<le> f' \<Longrightarrow> wf_item f dm chk depth p = wf_item f' dm chk depth p"
  "length p \<le> f \<Longrightarrow> length p \<le> f' \<Longrightarrow> wf_items f dm chk n depth p = wf_items f' dm chk n depth p"
  "length p \<le> f \<Longrightarrow> length p \<le> f' \<Longrightarrow> length p \<le> k \<Longrightarrow> length p \<le> k' \<Longrightarrow>
     wf_chunks f dm chk k t depth p = wf_chunks f' dm chk k' t depth p"
  "length p \<le> f \<Longrightarrow> length p \<le> f' \<Longrightarrow> length p \<le> k \<Longrightarrow> length p \<le> k' \<Longrightarrow>
     wf_until f dm chk k t i depth p = wf_until f' dm chk k' t i depth p"
proof (induction f dm chk depth p and f dm chk n depth p and f dm chk k t depth p and f dm chk k t i depth p
    arbitrary: f' and f' and f' k' and f' k' rule: wf_item_wf_items_wf_chunks_wf_until.induct)
  case (1 dm chk depth data)
  then show ?case by (cases f') (simp_all add: wellformedHead_def)
next
  case (2 f dm chk depth data)
  show ?case
  proof (cases "wellformedHead data")
    case (Ok hr)
    obtain t ai val d where hr: "hr = ((t, ai, val), d)" by (metis prod.exhaust)
    note h = Ok [unfolded hr]
    have "length d < length data" using h by (rule wellformedHead_consumes)
    then obtain g where f': "f' = Suc g" "length d \<le> f" "length d \<le> g" using 2(6,7) by (cases f') auto
    consider (str) "t = 0x40 \<or> t = 0x60" | (box) "t = 0x80 \<or> t = 0xA0" | (tag) "t = 0xC0"
      | (leaf) "\<not> (t = 0x40 \<or> t = 0x60)" "\<not> (t = 0x80 \<or> t = 0xA0)" "t \<noteq> 0xC0" by blast
    then show ?thesis
    proof cases
      case str
      then show ?thesis using 2(1) [of t ai d g "length d"] f' by (auto simp: h)
    next
      case box
      then have n: "\<not> (t = 0x40 \<or> t = 0x60)" by auto
      show ?thesis using box 2(2) [OF n box, of ai d g "length d"] 2(3,4) [OF n box, of ai val d g] f' by (auto simp: h)
    next
      case tag
      then have n: "\<not> (t = 0x40 \<or> t = 0x60)" "\<not> (t = 0x80 \<or> t = 0xA0)" by auto
      show ?thesis
      proof (cases "wf_tags (length d) dm chk depth val d")
        case (Ok dr)
        then have "length (snd dr) \<le> length d" using wf_tags_consumes [of _ _ _ _ _ _ "fst dr" "snd dr"] by simp
        then have "wf_item f dm chk (fst dr) (snd dr) = wf_item g dm chk (fst dr) (snd dr)"
          using 2(5) [OF n tag, of "snd dr" g] f' by simp
        then show ?thesis using tag Ok f' by (simp add: h split_beta)
      qed (use tag f' in \<open>simp_all add: h\<close>)
    qed (use f' in \<open>simp add: h\<close>)
  next
    case (Err e)
    then show ?thesis using 2(7) by (cases f') (auto simp: wellformedHead_def)
  next
    case (Panic e)
    then show ?thesis using 2(7) by (cases f') (auto simp: wellformedHead_def)
  qed
next
  case (4 f dm chk n depth data)
  have "wf_item f dm chk depth data = wf_item f' dm chk depth data" using 4 by blast
  moreover have "wf_items f dm chk n depth r = wf_items f' dm chk n depth r" if "wf_item f dm chk depth data = Ok r" for r
    using wf_consumes(1) [OF that] 4(2) [of r f'] 4(3,4) by simp
  ultimately show ?case by (cases "wf_item f' dm chk depth data") simp_all
next
  case (5 f dm chk t depth data)
  then show ?case by (cases k') simp_all
next
  case (6 f dm chk k t depth data)
  show ?case
  proof (cases data)
    case (Cons b d)
    then obtain j where k': "k' = Suc j" using 6 by (cases k') auto
    have "wf_chunks f dm chk k t depth r = wf_chunks f' dm chk j t depth r" if "wf_item f dm chk depth data = Ok r"
      "\<not> isBreakFlag b" "t = getType b" "getAdditionalInformation b \<noteq> 31" for r
      using wf_consumes(1) [OF that(1)] 6(2) [OF Cons that(2), where f' = f' and k' = j] that 6(3-6) k' by simp
    moreover have "wf_item f dm chk depth data = wf_item f' dm chk depth data" if "\<not> isBreakFlag b" "t = getType b" "getAdditionalInformation b \<noteq> 31"
      using 6(1) [OF Cons, where f' = f'] that 6(3,4) by simp
    ultimately show ?thesis using k' Cons by (cases "wf_item f' dm chk depth data") simp_all
  qed (cases k', simp_all)
next
  case (7 f dm chk t i depth data)
  then show ?case by (cases k') simp_all
next
  case (8 f dm chk k t i depth data)
  show ?case
  proof (cases data)
    case (Cons b d)
    then obtain j where k': "k' = Suc j" using 8 by (cases k') auto
    have "wf_until f dm chk k t (Suc i) depth r = wf_until f' dm chk j t (Suc i) depth r" if "wf_item f dm chk depth data = Ok r"
      "\<not> isBreakFlag b" "\<not> (t = 0x80 \<and> dm_maxArrayElements dm < int (Suc i))"
      "\<not> (t \<noteq> 0x80 \<and> Suc i mod 2 = 0 \<and> dm_maxMapPairs dm < int (Suc i div 2))" for r
      using wf_consumes(1) [OF that(1)] 8(2) [OF Cons that(2-4), where f' = f' and k' = j] 8(3-6) k' by simp
    moreover have "wf_item f dm chk depth data = wf_item f' dm chk depth data" if "\<not> isBreakFlag b"
      using 8(1) [OF Cons, where f' = f'] that 8(3,4) by simp
    ultimately show ?thesis using k' Cons by (cases "wf_item f' dm chk depth data") auto
  qed (cases k', simp_all)
qed simp_all

subsection \<open>The check does not panic\<close>

lemma wellformedHead_no_panic: "wellformedHead p \<noteq> Panic m"
  by (auto simp: wellformedHead_def Let_def argument_def split: list.splits)

lemma validBuiltinTag_no_panic: "validBuiltinTag n c \<noteq> Panic m"
  by (simp add: validBuiltinTag_def Let_def)

lemma res_bind_panic: "res_bind r f = Panic m \<longleftrightarrow> r = Panic m \<or> (\<exists>x. r = Ok x \<and> f x = Panic m)"
  by (cases r) simp_all

lemma wf_tags_no_panic: "wf_tags k dm chk depth n p \<noteq> Panic m"
proof (induction k dm chk depth n p rule: wf_tags.induct)
  case (2 k dm chk depth tagNum data)
  then show ?case
    by (auto simp: res_bind_panic wellformedHead_no_panic validBuiltinTag_no_panic split: list.splits if_splits)
qed simp

lemma wf_no_panic:
  "wf_item f dm chk depth p \<noteq> Panic m" "wf_items f dm chk n depth p \<noteq> Panic m"
  "wf_chunks f dm chk k t depth p \<noteq> Panic m" "wf_until f dm chk k t i depth p \<noteq> Panic m"
proof (induction f dm chk depth p and f dm chk n depth p and f dm chk k t depth p and f dm chk k t i depth p
    rule: wf_item_wf_items_wf_chunks_wf_until.induct)
  case (2 f dm chk depth data)
  show ?case
  proof (cases "wellformedHead data")
    case (Ok hr)
    obtain t ai val d where hr: "hr = ((t, ai, val), d)" by (metis prod.exhaust)
    show ?thesis using 2 wf_tags_no_panic [of "length d" dm chk depth val d m]
      by (cases "wf_tags (length d) dm chk depth val d") (simp_all add: Ok hr wf_string_def split_beta)
  qed (use wellformedHead_no_panic in auto)
next
  case (4 f dm chk n depth data)
  then show ?case by (auto simp: res_bind_panic)
next
  case (6 f dm chk k t depth data)
  then show ?case by (auto simp: res_bind_panic split: list.splits)
next
  case (8 f dm chk k t i depth data)
  then show ?case by (auto simp: res_bind_panic simp del: of_nat_Suc split: list.splits)
qed simp_all

lemma wellformed_no_panic: "wellformed dm extra chk p \<noteq> Panic m"
  using wf_no_panic(1) [of "length p" dm chk 0 p m] by (auto simp: wellformed_def res_bind_panic)

end
