(* ===== verification/Cbor.thy ===== *)
theory Cbor
  imports Era Util CborValid "HOL-Library.Multiset"
begin

text \<open>
  The values that the CBOR library (src/vendor/github.com/alexdcox/cbor/v2) hands to the code as \<open>any\<close>, the
  ordered maps \<open>KVSlice\<close> that the code makes of them (src/block.go), and the default encoder.

  \<^item> \<open>any\<close> has one constructor per dynamic type: \<open>AMap\<close> is a Go map as the list of its pairs, \<open>AKV\<close> a \<open>KVSlice\<close>,
    \<open>AEntries\<close> the \<open>[]MapEntry\<close> that the decoder makes of a map with a key that Go cannot hash, \<open>ANilSlice\<close> a slice that is
    nil (encoded as null), \<open>ABig\<close> a \<open>big.Int\<close>, \<open>AOpaque\<close> a \<open>time.Time\<close>.
  \<^item> \<open>cbor_env\<close> holds what the run of the program decides: the order in which a map is iterated, given its keys in the order
    of insertion; the encoding of floats and of times, the widening of short floats and the parsing of times; the printed form of
    composite values; base64. A float is given by its 64 bits.
  \<^item> \<open>checked\<close> is the check that the library makes of what a \<open>MarshalCBOR\<close> method returns.
\<close>

subsection \<open>Values\<close>

datatype any =
    ANil
  | AUint uint64
  | AInt int
  | ABool bool
  | AFloat uint64
  | ASimple byte
  | AString string
  | ABytes bytes
  | ANilSlice
  | ASlice "any list"
  | AMap "(any \<times> any) list"
  | AKV "(any \<times> any) list"
  | AEntries "(any \<times> any) list"
  | ATag uint64 any
  | ABig int
  | AOpaque nat

record cbor_env =
  ce_order :: "any list \<Rightarrow> any list"
  ce_float :: "uint64 \<Rightarrow> bytes"
  ce_float16 :: "uint16 \<Rightarrow> uint64"
  ce_float32 :: "uint32 \<Rightarrow> uint64"
  ce_time :: "bytes \<Rightarrow> nat res"
  ce_opaque :: "nat \<Rightarrow> bytes"
  ce_print :: "any \<Rightarrow> string"
  ce_base64 :: "bytes \<Rightarrow> string"

definition string_bytes :: "string \<Rightarrow> bytes" where
  "string_bytes s = map of_char s"

definition bytes_string :: "bytes \<Rightarrow> string" where
  "bytes_string bs = map (\<lambda>b. char_of (unat b)) bs"

text \<open>Go's panic on a map key of slice or map type; \<open>map[any]any\<close> otherwise compares keys as values.\<close>

fun hashable :: "any \<Rightarrow> bool" where
  "hashable (ABytes b) = False"
| "hashable ANilSlice = False"
| "hashable (ASlice xs) = False"
| "hashable (AMap m) = False"
| "hashable (AKV m) = False"
| "hashable (AEntries m) = False"
| "hashable (ABig i) = False"
| "hashable (ATag n v) = hashable v"
| "hashable v = True"

subsection \<open>The encoder\<close>

definition encodeHead :: "byte \<Rightarrow> uint64 \<Rightarrow> bytes" where
  "encodeHead t n =
     (if n \<le> 23 then [t OR ucast n]
      else if n \<le> 0xFF then [t OR 24, ucast n]
      else if n \<le> 0xFFFF then (t OR 25) # PutUint16 (ucast n)
      else if n \<le> 0xFFFFFFFF then (t OR 26) # PutUint32 (ucast n)
      else (t OR 27) # PutUint64 n)"

definition encode_int :: "int \<Rightarrow> bytes" where
  "encode_int i = (if 0 \<le> i then encodeHead 0x00 (of_int i) else encodeHead 0x20 (of_int (- i - 1)))"

definition encode_bytes :: "bytes \<Rightarrow> bytes" where
  "encode_bytes b = encodeHead 0x40 (of_nat (length b)) @ b"

definition encode_string :: "string \<Rightarrow> bytes" where
  "encode_string s = encodeHead 0x60 (of_nat (length s)) @ string_bytes s"

definition encode_simple :: "byte \<Rightarrow> bytes" where
  "encode_simple b = (if b \<le> 23 then [0xE0 OR b] else [0xF8, b])"

text \<open>\<open>big.Int.Bytes\<close>, and the shortest encoding of a big integer.\<close>

fun big_Bytes :: "nat \<Rightarrow> bytes" where
  "big_Bytes n = (if n = 0 then [] else big_Bytes (n div 256) @ [of_nat (n mod 256)])"

declare big_Bytes.simps [simp del]

definition encode_big :: "int \<Rightarrow> bytes" where
  "encode_big i =
     (let m = nat (if i < 0 then - i - 1 else i) in
      if m < 2 ^ 64 then encodeHead (if i < 0 then 0x20 else 0x00) (of_nat m)
      else encodeHead 0xC0 (if i < 0 then 3 else 2) @ encode_bytes (big_Bytes m))"

text \<open>The bytes that a \<open>MarshalCBOR\<close> method returned, checked by the library.\<close>

definition checked :: "bytes res \<Rightarrow> bytes res" where
  "checked r =
     res_bind r (\<lambda>b.
       case wellformed marshalerDecMode False True b of
         Ok _ \<Rightarrow> Ok b
       | Err e \<Rightarrow> Err (ErrWrap ''cbor: error calling MarshalCBOR'' e)
       | Panic p \<Rightarrow> Panic p)"

fun res_concat :: "bytes res list \<Rightarrow> bytes res" where
  "res_concat [] = Ok []"
| "res_concat (r # rs) = res_bind r (\<lambda>b. res_bind (res_concat rs) (\<lambda>bs. Ok (b @ bs)))"

text \<open>The pairs of a map in the order of one iteration; \<open>m\<close> has distinct keys.\<close>

definition iterate :: "cbor_env \<Rightarrow> (any \<times> 'v) list \<Rightarrow> (any \<times> 'v) list" where
  "iterate env m = List.map_filter (\<lambda>k. map_option (Pair k) (map_of m k)) (ce_order env (map fst m))"

definition map_set :: "any \<Rightarrow> 'v \<Rightarrow> (any \<times> 'v) list \<Rightarrow> (any \<times> 'v) list" where
  "map_set k v m = (if k \<in> fst ` set m then map (\<lambda>(k', v'). if k' = k then (k, v) else (k', v')) m else m @ [(k, v)])"

text \<open>The first loop of \<open>KVSlice.MarshalCBOR\<close>: \<open>Cast\<close> panics on a nil value, the assignment on a key that is not hashable.\<close>

fun kv_to_map :: "(any \<times> any \<times> 'v) list \<Rightarrow> (any \<times> 'v) list \<Rightarrow> (any \<times> 'v) list res" where
  "kv_to_map [] m = Ok m"
| "kv_to_map ((k, v, x) # es) m =
     (if v = ANil then Panic ''nil pointer dereference''
      else if \<not> hashable k then Panic ''hash of unhashable type''
      else kv_to_map es (map_set k x m))"

definition kv_encode :: "cbor_env \<Rightarrow> (any \<times> any \<times> (bytes res \<times> bytes res)) list \<Rightarrow> bytes res" where
  "kv_encode env es =
     res_bind (kv_to_map es []) (\<lambda>m.
     res_bind (res_concat (concat (map (\<lambda>(k, rk, rv). [rk, rv]) (iterate env m)))) (\<lambda>bs.
       Ok ((0xA0 + of_nat (length m)) # bs)))"

function cbor_Marshal :: "cbor_env \<Rightarrow> any \<Rightarrow> bytes res"
  and marshal_list :: "cbor_env \<Rightarrow> any list \<Rightarrow> bytes res list"
  and marshal_pairs :: "cbor_env \<Rightarrow> (any \<times> any) list \<Rightarrow> (any \<times> any \<times> (bytes res \<times> bytes res)) list" where
  "cbor_Marshal env ANil = Ok [0xF6]"
| "cbor_Marshal env (AUint n) = Ok (encodeHead 0x00 n)"
| "cbor_Marshal env (AInt i) = Ok (encode_int i)"
| "cbor_Marshal env (ABool b) = Ok [if b then 0xF5 else 0xF4]"
| "cbor_Marshal env (AFloat f) = Ok (ce_float env f)"
| "cbor_Marshal env (ASimple b) =
     (if 24 \<le> b \<and> b < 32 then Err (ErrMsg ''SimpleValue'') else Ok (encode_simple b))"
| "cbor_Marshal env (AString s) = Ok (encode_string s)"
| "cbor_Marshal env (ABytes b) = Ok (encode_bytes b)"
| "cbor_Marshal env ANilSlice = Ok [0xF6]"
| "cbor_Marshal env (ASlice xs) =
     res_bind (res_concat (marshal_list env xs)) (\<lambda>bs. Ok (encodeHead 0x80 (of_nat (length xs)) @ bs))"
| "cbor_Marshal env (AMap m) =
     res_bind (res_concat (concat (map (\<lambda>(k, v, rk, rv). [rk, rv]) (iterate env (marshal_pairs env m)))))
       (\<lambda>bs. Ok (encodeHead 0xA0 (of_nat (length m)) @ bs))"
| "cbor_Marshal env (AKV es) = checked (kv_encode env (marshal_pairs env es))"
| "cbor_Marshal env (ATag n v) =
     (if n = 0 \<and> v = ANil then Ok [0xF6]
      else res_bind (cbor_Marshal env v) (\<lambda>bs. Ok (encodeHead 0xC0 n @ bs)))"
| "cbor_Marshal env (AEntries m) =
     (if m = [] then Ok [0xF6]
      else res_bind (res_concat (concat (map (\<lambda>(k, v, rk, rv). [Ok (0xA2 # encode_string ''Key''), rk, Ok (encode_string ''Value''), rv])
             (marshal_pairs env m))))
        (\<lambda>bs. Ok (encodeHead 0x80 (of_nat (length m)) @ bs)))"
| "cbor_Marshal env (ABig i) = Ok (encode_big i)"
| "cbor_Marshal env (AOpaque i) = Ok (ce_opaque env i)"
| "marshal_list env [] = []"
| "marshal_list env (x # xs) = cbor_Marshal env x # marshal_list env xs"
| "marshal_pairs env [] = []"
| "marshal_pairs env ((k, v) # es) = (k, v, (cbor_Marshal env k, cbor_Marshal env v)) # marshal_pairs env es"
  by pat_completeness auto
termination
  by (relation "measure (case_sum (\<lambda>(_, v). size v) (case_sum (\<lambda>(_, xs). size_list size xs)
    (\<lambda>(_, es). size_list (size_prod size size) es)))") auto

subsection \<open>Structs\<close>

text \<open>A slice, or a struct with the option \<open>toarray\<close>: the encodings of the elements or fields behind the head of an array.\<close>

definition enc_array :: "bytes list \<Rightarrow> bytes" where
  "enc_array bss = encodeHead 0x80 (of_nat (length bss)) @ concat bss"

text \<open>A struct with integer keys: a map in the order of the fields.\<close>

definition enc_fields :: "(int \<times> bytes) list \<Rightarrow> bytes" where
  "enc_fields fs = encodeHead 0xA0 (of_nat (length fs)) @ concat (map (\<lambda>(k, b). encode_int k @ b) fs)"

text \<open>A nil slice is null. The structs of the model do not tell a nil slice from an empty one; an empty field is written as its zero value, nil.\<close>

definition encode_HexBytes :: "bytes \<Rightarrow> bytes" where
  "encode_HexBytes b = (if b = [] then [0xF6] else encode_bytes b)"

definition encode_slice :: "('a \<Rightarrow> bytes) \<Rightarrow> 'a list \<Rightarrow> bytes" where
  "encode_slice enc xs = (if xs = [] then [0xF6] else enc_array (map enc xs))"

text \<open>A map with byte strings as keys, in the order of one iteration. What \<open>ByteString.MarshalCBOR\<close> returns always passes the check.\<close>

definition encode_map :: "cbor_env \<Rightarrow> ('v \<Rightarrow> bytes) \<Rightarrow> (string \<times> 'v) list \<Rightarrow> bytes" where
  "encode_map env enc m =
     (if m = [] then [0xF6]
      else encodeHead 0xA0 (of_nat (length m)) @
        concat (map snd (iterate env (map (\<lambda>(k, v). (ABytes (string_bytes k), encode_bytes (string_bytes k) @ enc v)) m))))"

subsection \<open>Encodings up to the order of maps\<close>

text \<open>\<open>encodes v bs\<close>: the bytes encode \<open>v\<close>, with the pairs of each map in some order.\<close>

inductive encodes :: "any \<Rightarrow> bytes \<Rightarrow> bool" where
  enc_nil: "encodes ANil [0xF6]"
| enc_uint: "encodes (AUint n) (encodeHead 0x00 n)"
| enc_int: "encodes (AInt i) (encode_int i)"
| enc_bool: "encodes (ABool b) [if b then 0xF5 else 0xF4]"
| enc_simple: "encodes (ASimple b) (encode_simple b)"
| enc_string: "encodes (AString t) (encode_string t)"
| enc_bytes: "encodes (ABytes b) (encode_bytes b)"
| enc_slice: "list_all2 encodes xs bss \<Longrightarrow> encodes (ASlice xs) (encodeHead 0x80 (of_nat (length xs)) @ concat bss)"
| enc_map: "mset es = mset m \<Longrightarrow> list_all2 (\<lambda>p q. encodes (fst p) (fst q) \<and> encodes (snd p) (snd q)) es bss \<Longrightarrow>
    encodes (AMap m) (encodeHead 0xA0 (of_nat (length m)) @ concat (map (\<lambda>q. fst q @ snd q) bss))"
| enc_tag: "encodes v bs \<Longrightarrow> encodes (ATag n v) (encodeHead 0xC0 n @ bs)"

text \<open>Values that survive the conversion to \<open>KVSlice\<close>, nested at most \<open>n\<close> deep.\<close>

fun scalar :: "any \<Rightarrow> bool" where
  "scalar (AUint n) = True"
| "scalar (AInt i) = True"
| "scalar (ABool b) = True"
| "scalar (ASimple b) \<longleftrightarrow> \<not> (24 \<le> b \<and> b < 32)"
| "scalar (AString t) = True"
| "scalar v = False"

fun plain :: "nat \<Rightarrow> any \<Rightarrow> bool" where
  "plain (Suc n) (ASlice xs) \<longleftrightarrow> xs \<noteq> [] \<and> (\<forall>x\<in>set xs. plain n x)"
| "plain (Suc n) (AMap m) \<longleftrightarrow> length m \<le> 23 \<and> distinct (map fst m) \<and> (\<forall>p\<in>set m. scalar (fst p) \<and> plain n (snd p))"
| "plain n v \<longleftrightarrow> scalar v"

definition fair_order :: "cbor_env \<Rightarrow> bool" where
  "fair_order env \<longleftrightarrow> (\<forall>ks. mset (ce_order env ks) = mset ks)"

subsection \<open>Iteration\<close>

lemma mset_iterate:
  assumes "fair_order env" "distinct (map fst m)"
  shows "mset (iterate env m) = mset m"
proof -
  have s: "mset (ce_order env (map fst m)) = mset (map fst m)" using assms(1) by (simp add: fair_order_def)
  then have "set (ce_order env (map fst m)) = fst ` set m" by (metis set_map set_mset_mset)
  then have "iterate env m = map (\<lambda>k. (k, the (map_of m k))) (ce_order env (map fst m))"
    unfolding iterate_def List.map_filter_def
    by (intro map_cong filter_True) (auto simp: map_of_eq_None_iff dest!: weak_map_of_SomeI)
  then have "mset (iterate env m) = image_mset (\<lambda>k. (k, the (map_of m k))) (mset (map fst m))"
    using s by (metis mset_map)
  also have "\<dots> = mset (map (\<lambda>p. (fst p, the (map_of m (fst p)))) m)" by (simp add: multiset.map_comp comp_def)
  also have "map (\<lambda>p. (fst p, the (map_of m (fst p)))) m = m"
    using assms(2) by (intro map_idI) (auto simp: map_of_is_SomeI)
  finally show ?thesis .
qed

lemma length_iterate: "fair_order env \<Longrightarrow> distinct (map fst m) \<Longrightarrow> length (iterate env m) = length m"
  by (metis mset_iterate size_mset)

lemma map_of_values: "map_of (map (\<lambda>p. (fst p, f (fst p) (snd p))) m) k = map_option (f k) (map_of m k)"
  by (induction m) auto

lemma iterate_map:
  "iterate env (map (\<lambda>p. (fst p, f (fst p) (snd p))) m) = map (\<lambda>p. (fst p, f (fst p) (snd p))) (iterate env m)"
proof -
  have "List.map_filter (\<lambda>k. map_option (Pair k) (map_option (f k) (map_of m k))) ks =
      map (\<lambda>p. (fst p, f (fst p) (snd p))) (List.map_filter (\<lambda>k. map_option (Pair k) (map_of m k)) ks)" for ks
    by (induction ks) (auto simp: List.map_filter_def)
  then show ?thesis by (simp add: iterate_def map_of_values comp_def)
qed

lemma kv_to_map_distinct:
  "distinct (map fst m @ map fst es) \<Longrightarrow> \<forall>e\<in>set es. hashable (fst e) \<and> fst (snd e) \<noteq> ANil \<Longrightarrow>
   kv_to_map es m = Ok (m @ map (\<lambda>e. (fst e, snd (snd e))) es)"
proof (induction es arbitrary: m)
  case (Cons e es)
  obtain k v x where e: "e = (k, v, x)" by (cases e)
  have "map_set k x m = m @ [(k, x)]" using Cons.prems e by (auto simp: map_set_def)
  then show ?case using Cons e by (auto simp: map_set_def)
qed simp

lemma scalar_hashable: "scalar k \<Longrightarrow> hashable k"
  by (cases k) auto

lemma res_concat_Ok: "res_concat (map Ok bss) = Ok (concat bss)"
  by (induction bss) auto

lemma head_small: "n \<le> 23 \<Longrightarrow> encodeHead 0xA0 (of_nat n) = [0xA0 + of_nat n]"
proof -
  have "\<forall>k\<in>set [0..<24]. encodeHead 0xA0 (of_nat k) = [0xA0 + of_nat k]" by code_simp
  then show "n \<le> 23 \<Longrightarrow> encodeHead 0xA0 (of_nat n) = [0xA0 + of_nat n]" by simp
qed

end
