(* ===== verification/CborSpec.thy ===== *)
theory CborSpec
  imports Cbor
begin

text \<open>
  Encodings are well-formed: the head that \<open>encodeHead\<close> writes is the head that the decoder reads, and what encodes a value that is not too
  large or too deeply nested passes the library's check, with any bytes behind it.
\<close>

subsection \<open>Heads\<close>

definition major_types :: "byte list" where
  "major_types = [0x00, 0x20, 0x40, 0x60, 0x80, 0xA0, 0xC0]"

definition ai_of :: "uint64 \<Rightarrow> byte" where
  "ai_of n = (if n \<le> 23 then ucast n else if n \<le> 0xFF then 24 else if n \<le> 0xFFFF then 25 else if n \<le> 0xFFFFFFFF then 26 else 27)"

lemma small_head:
  "t \<in> set major_types \<Longrightarrow> n \<le> 23 \<Longrightarrow> getType (t OR ucast (n :: uint64)) = t \<and> getAdditionalInformation (t OR ucast n) = ucast n"
proof -
  have "\<forall>t\<in>set major_types. \<forall>k\<in>set [0..<24]. getType (t OR ucast (of_nat k :: uint64)) = t \<and>
      getAdditionalInformation (t OR ucast (of_nat k :: uint64)) = ucast (of_nat k :: uint64)" by code_simp
  moreover assume "t \<in> set major_types" "n \<le> 23"
  moreover have "unat n \<in> set [0..<24]" using \<open>n \<le> 23\<close> by (simp add: word_le_nat_alt)
  moreover have "of_nat (unat n) = n" by simp
  ultimately show ?thesis by metis
qed

lemma large_head:
  "t \<in> set major_types \<Longrightarrow> a \<in> {24, 25, 26, 27} \<Longrightarrow> getType (t OR a) = t \<and> getAdditionalInformation (t OR a) = a"
proof -
  have "\<forall>t\<in>set major_types. \<forall>a\<in>set [24, 25, 26, 27]. getType (t OR a) = t \<and> getAdditionalInformation (t OR a) = a" by code_simp
  then show "t \<in> set major_types \<Longrightarrow> a \<in> {24, 25, 26, 27} \<Longrightarrow> getType (t OR a) = t \<and> getAdditionalInformation (t OR a) = a" by auto
qed

lemma ucast_small:
  "n \<le> 23 \<Longrightarrow> ucast (ucast n :: byte) = (n :: uint64)" "n \<le> 0xFF \<Longrightarrow> ucast (ucast n :: byte) = (n :: uint64)"
  "n \<le> 0xFFFF \<Longrightarrow> ucast (ucast n :: uint16) = (n :: uint64)" "n \<le> 0xFFFFFFFF \<Longrightarrow> ucast (ucast n :: uint32) = (n :: uint64)"
proof -
  have t: "take_bit k n = n" if "n \<le> m" "unat m < 2 ^ k" for n m :: uint64 and k
    using that by (simp add: word_unat_eq_iff unsigned_take_bit_eq take_bit_nat_eq_self word_le_nat_alt)
  show "n \<le> 23 \<Longrightarrow> ucast (ucast n :: byte) = (n :: uint64)" "n \<le> 0xFF \<Longrightarrow> ucast (ucast n :: byte) = (n :: uint64)"
    "n \<le> 0xFFFF \<Longrightarrow> ucast (ucast n :: uint16) = (n :: uint64)" "n \<le> 0xFFFFFFFF \<Longrightarrow> ucast (ucast n :: uint32) = (n :: uint64)"
    using t [where k = 8 and n = n and m = "23"] t [where k = 8 and n = n and m = "0xFF"] t [where k = 16 and n = n and m = "0xFFFF"]
      t [where k = 32 and n = n and m = "0xFFFFFFFF"]
    by (simp_all add: unsigned_ucast_eq)
qed

text \<open>The head is read back, and it is not of indefinite length.\<close>

lemma wellformedHead_encodeHead:
  assumes "t \<in> set major_types"
  shows "wellformedHead (encodeHead t n @ rest) = Ok ((t, ai_of n, n), rest)"
proof -
  have ne: "t \<noteq> 0xE0" using assms by (auto simp: major_types_def)
  consider "n \<le> 23" | "\<not> n \<le> 23" "n \<le> 0xFF" | "\<not> n \<le> 23" "\<not> n \<le> 0xFF" "n \<le> 0xFFFF"
    | "\<not> n \<le> 23" "\<not> n \<le> 0xFF" "\<not> n \<le> 0xFFFF" "n \<le> 0xFFFFFFFF"
    | "\<not> n \<le> 23" "\<not> n \<le> 0xFF" "\<not> n \<le> 0xFFFF" "\<not> n \<le> 0xFFFFFFFF" by blast
  then show ?thesis
  proof cases
    case 1
    then have "ucast n \<le> (23 :: byte)" by (simp add: word_le_nat_alt unsigned_ucast_eq unsigned_take_bit_eq take_bit_nat_eq_self)
    then show ?thesis using 1 small_head [OF assms 1] by (simp add: wellformedHead_def encodeHead_def ai_of_def ucast_small)
  next
    case 2
    then show ?thesis using large_head [OF assms, of 24] ne
      by (simp add: wellformedHead_def encodeHead_def ai_of_def argument_def ucast_small)
  next
    case 3
    then show ?thesis using large_head [OF assms, of 25]
      by (simp add: wellformedHead_def encodeHead_def ai_of_def argument_def ucast_small)
  next
    case 4
    then show ?thesis using large_head [OF assms, of 26]
      by (simp add: wellformedHead_def encodeHead_def ai_of_def argument_def ucast_small)
  next
    case 5
    then show ?thesis using large_head [OF assms, of 27]
      by (simp add: wellformedHead_def encodeHead_def ai_of_def argument_def)
  qed
qed

lemma ai_of_definite: "ai_of n \<noteq> 31"
proof (cases "n \<le> 23")
  case True
  then have "ucast n \<le> (23 :: byte)" by (simp add: word_le_nat_alt unsigned_ucast_eq unsigned_take_bit_eq take_bit_nat_eq_self)
  then have "ucast n \<noteq> (31 :: byte)" by auto
  then show ?thesis using True by (simp add: ai_of_def)
qed (simp add: ai_of_def)

lemma major_members [simp]:
  "0x00 \<in> set major_types" "0x20 \<in> set major_types" "0x40 \<in> set major_types" "0x60 \<in> set major_types" "0x80 \<in> set major_types"
  "0xA0 \<in> set major_types" "0xC0 \<in> set major_types"
  by (simp_all add: major_types_def)

lemmas head_simps = wellformedHead_encodeHead ai_of_definite

subsection \<open>Encodings are well-formed\<close>

text \<open>The nesting of arrays, maps and tags, and the limits of a decoding mode.\<close>

fun nest :: "any \<Rightarrow> nat" where
  "nest (ASlice xs) = Suc (foldr max (map nest xs) 0)"
| "nest (AMap m) = Suc (foldr max (map (\<lambda>p. max (nest (fst p)) (nest (snd p))) m) 0)"
| "nest (ATag n v) = Suc (nest v)"
| "nest v = 0"

fun sizes_ok :: "DecMode \<Rightarrow> bool \<Rightarrow> any \<Rightarrow> bool" where
  "sizes_ok dm chk (ASimple b) \<longleftrightarrow> \<not> (24 \<le> b \<and> b < 32)"
| "sizes_ok dm chk (AString s) \<longleftrightarrow> length s < 2 ^ 63"
| "sizes_ok dm chk (ABytes b) \<longleftrightarrow> length b < 2 ^ 63"
| "sizes_ok dm chk (ASlice xs) \<longleftrightarrow> int (length xs) \<le> dm_maxArrayElements dm \<and> length xs < 2 ^ 63 \<and> (\<forall>x\<in>set xs. sizes_ok dm chk x)"
| "sizes_ok dm chk (AMap m) \<longleftrightarrow> int (length m) \<le> dm_maxMapPairs dm \<and> length m < 2 ^ 63 \<and>
     (\<forall>p\<in>set m. sizes_ok dm chk (fst p) \<and> sizes_ok dm chk (snd p))"
| "sizes_ok dm chk (ATag n v) \<longleftrightarrow> (chk \<longrightarrow> n \<notin> {0, 1, 2, 3}) \<and> sizes_ok dm chk v"
| "sizes_ok dm chk v \<longleftrightarrow> True"

lemma foldr_max_ge: "x \<in> set xs \<Longrightarrow> x \<le> foldr max xs (0 :: nat)"
  by (induction xs) auto

lemma nest_slice: "x \<in> set xs \<Longrightarrow> nest x < nest (ASlice xs)"
  using foldr_max_ge [of "nest x" "map nest xs"] by (simp add: less_Suc_eq_le)

lemma nest_map: "p \<in> set m \<Longrightarrow> nest (fst p) < nest (AMap m) \<and> nest (snd p) < nest (AMap m)"
  using foldr_max_ge [of "max (nest (fst p)) (nest (snd p))" "map (\<lambda>p. max (nest (fst p)) (nest (snd p))) m"]
  by (auto simp: less_Suc_eq_le)

lemma wf_items_concat:
  "list_all2 (\<lambda>x bs. \<forall>rest. wf_item f dm chk dp (bs @ rest) = Ok rest) xs bss \<Longrightarrow>
   wf_items f dm chk (length xs) dp (concat bss @ rest) = Ok rest"
  by (induction xs bss rule: list_all2_induct) auto

lemma of_nat_small:
  assumes "n < 2 ^ 63"
  shows "unat (of_nat n :: uint64) = n" "uint (of_nat n :: uint64) = int n" "\<not> (0x8000000000000000 :: uint64) \<le> of_nat n"
proof -
  show u: "unat (of_nat n :: uint64) = n" using assms by (simp add: unsigned_of_nat take_bit_nat_eq_self)
  show "uint (of_nat n :: uint64) = int n" using u by (metis int_nat_eq nat_uint_eq uint_ge_0)
  show "\<not> (0x8000000000000000 :: uint64) \<le> of_nat n" using u assms by (simp add: word_le_nat_alt)
qed

text \<open>The first byte of an encoding and the content of a tag.\<close>

lemma encodeHead_Cons: "\<exists>b bs. encodeHead t n = b # bs"
  by (simp add: encodeHead_def)

lemma getType_encodeHead: "t \<in> set major_types \<Longrightarrow> encodeHead t n = b # bs \<Longrightarrow> getType b = t"
  using small_head [of t n] large_head [of t] by (auto simp: encodeHead_def split: if_splits)

lemma encodes_first:
  assumes "encodes v bs" "\<nexists>n w. v = ATag n w"
  shows "\<exists>b bs'. bs = b # bs' \<and> getType b \<noteq> 0xC0"
proof -
  have h: "\<exists>b. (\<exists>bs'. encodeHead t n @ r = b # bs') \<and> getType b \<noteq> 0xC0" if "t \<in> set major_types" "t \<noteq> 0xC0" for t n r
    using encodeHead_Cons [of t n] getType_encodeHead [OF that(1)] that(2) by fastforce
  have s: "getType (0xE0 OR b) \<noteq> 0xC0" for b
  proof -
    have "bit (0xE0 :: byte) 5" "\<not> bit (0xC0 :: byte) 5" by code_simp+
    then have "bit (getType (0xE0 OR b)) 5" by (simp add: getType_def bit_simps)
    then show ?thesis using \<open>\<not> bit (0xC0 :: byte) 5\<close> by metis
  qed
  have "getType 0xF6 \<noteq> 0xC0" "getType 0xF5 \<noteq> 0xC0" "getType 0xF4 \<noteq> 0xC0" "getType 0xF8 \<noteq> 0xC0" by code_simp+
  note b = this
  from assms(1) show ?thesis
  proof cases
    case (enc_int i)
    then show ?thesis using h [of "0x00" _ "[]"] h [of "0x20" _ "[]"] by (simp add: encode_int_def)
  next
    case (enc_uint n)
    then show ?thesis using h [of "0x00" n "[]"] by simp
  next
    case (enc_tag v bs n)
    then show ?thesis using assms(2) by blast
  qed (use b s in \<open>auto simp: encode_string_def encode_bytes_def encode_simple_def intro!: h\<close>)
qed

lemma wf_tag:
  assumes "wf_item g dm chk (if \<exists>k w. v = ATag k w then Suc dp else dp) (bs @ rest) = Ok rest" "encodes v bs"
    "chk \<longrightarrow> n \<notin> {0, 1, 2, 3}" "(\<exists>k w. v = ATag k w) \<Longrightarrow> int dp < dm_maxNestedLevels dm"
  shows "wf_item (Suc g) dm chk dp (encodeHead 0xC0 n @ bs @ rest) = Ok rest"
proof -
  have v: "(if chk then validBuiltinTag n b else Ok ()) = Ok ()" for b using assms(3) by (auto simp: validBuiltinTag_def)
  show ?thesis
  proof (cases "\<exists>k w. v = ATag k w")
    case False
    then obtain b bs' where b: "bs = b # bs'" "getType b \<noteq> 0xC0" using encodes_first [OF assms(2)] by blast
    then have "wf_tags (length (bs @ rest)) dm chk dp n (bs @ rest) = Ok (dp, bs @ rest)" using v by simp
    then show ?thesis using False assms(1) by (simp add: head_simps)
  next
    case True
    then obtain k w bs' where e: "bs = encodeHead 0xC0 k @ bs'" using assms(2) by (auto elim: encodes.cases)
    obtain b t where b: "encodeHead 0xC0 k = b # t" "getType b = 0xC0"
      using encodeHead_Cons [of "0xC0" k] getType_encodeHead [of "0xC0" k] by auto
    from assms(1) True obtain g' where g: "g = Suc g'" by (cases g) auto
    from assms(1) True obtain d c where
      c: "wf_tags (length (bs' @ rest)) dm chk (Suc dp) k (bs' @ rest) = Ok (d, c)" "wf_item g' dm chk d c = Ok rest"
      by (auto simp: e g head_simps)
    have "wf_tags (length (t @ bs' @ rest)) dm chk (Suc dp) k (bs' @ rest) = Ok (d, c)"
      using c(1) wf_tags_fuel [of "bs' @ rest" "length (t @ bs' @ rest)" "length (bs' @ rest)"] by simp
    then have "wf_tags (length (bs @ rest)) dm chk dp n (bs @ rest) = Ok (d, c)"
      using assms(4) [OF True] v b head_simps(1) [of "0xC0" k "bs' @ rest"] by (simp add: e)
    moreover have "wf_item g dm chk d c = Ok rest" using wf_extend(1) [of g' dm chk d c g "[]"] c(2) g by simp
    ultimately show ?thesis by (simp add: head_simps)
  qed
qed

lemma wf_items_pairs:
  "list_all2 (\<lambda>p q. (\<forall>rest. wf_item f dm chk dp (fst q @ rest) = Ok rest) \<and> (\<forall>rest. wf_item f dm chk dp (snd q @ rest) = Ok rest)) es bss \<Longrightarrow>
   wf_items f dm chk (2 * length es) dp (concat (map (\<lambda>q. fst q @ snd q) bss) @ rest) = Ok rest"
  by (induction es bss rule: list_all2_induct) auto

lemma wf_simple:
  assumes "\<not> (24 \<le> b \<and> b < 32)"
  shows "wf_item (Suc g) dm chk dp (encode_simple b @ rest) = Ok rest"
proof (cases "b \<le> 23")
  case True
  have "\<forall>k\<in>set [0..<24]. getType (0xE0 OR of_nat k) = 0xE0 \<and> getAdditionalInformation (0xE0 OR of_nat k) = of_nat k" by code_simp
  moreover have "unat b \<in> set [0..<24]" "of_nat (unat b) = b" using True by (simp_all add: word_le_nat_alt)
  ultimately have "getType (0xE0 OR b) = 0xE0" "getAdditionalInformation (0xE0 OR b) = b" by metis+
  then show ?thesis using True by (simp add: encode_simple_def wellformedHead_def)
next
  case False
  have "take_bit 64 (unat b) = unat b" by (rule take_bit_nat_eq_self) (rule less_trans [OF unat_byte_less], simp)
  then have "\<not> ucast b < (32 :: uint64)" using assms False
    by (auto simp: word_less_nat_alt word_le_nat_alt unsigned_ucast_eq)
  then show ?thesis using False
    by (simp add: encode_simple_def wellformedHead_def argument_def getType_def getAdditionalInformation_def)
qed

lemma length_concat_member: "x \<in> set xss \<Longrightarrow> length x \<le> length (concat xss)"
  by (induction xss) auto

lemma encodeHead_length_Suc: "\<exists>k. length (encodeHead t n) = Suc k"
  by (simp add: encodeHead_def)

theorem encodes_wf:
  "encodes v bs \<Longrightarrow> sizes_ok dm chk v \<Longrightarrow> length bs \<le> f \<Longrightarrow> int (dp + nest v) \<le> dm_maxNestedLevels dm \<Longrightarrow>
   wf_item f dm chk dp (bs @ rest) = Ok rest"
proof (induction v bs arbitrary: f dp rest rule: encodes.induct)
  case (enc_tag v bs n)
  obtain g where f: "f = Suc g" "length bs \<le> g" using enc_tag.prems encodeHead_length_Suc [of "0xC0" n] by (cases f) auto
  have "wf_item g dm chk (if \<exists>k w. v = ATag k w then Suc dp else dp) (bs @ rest) = Ok rest"
    using enc_tag f by (intro enc_tag.IH) auto
  then show ?case using wf_tag [OF _ enc_tag.hyps] enc_tag.prems f by auto
next
  case (enc_slice xs bss)
  obtain g where f: "f = Suc g" "length (concat bss) \<le> g"
    using enc_slice.prems encodeHead_length_Suc [of "0x80" "of_nat (length xs)"] by (cases f) auto
  have "wf_item g dm chk (Suc dp) (bs @ rest) = Ok rest" if "x \<in> set xs" "bs \<in> set bss"
    "\<And>f dp rest. sizes_ok dm chk x \<Longrightarrow> length bs \<le> f \<Longrightarrow> int (dp + nest x) \<le> dm_maxNestedLevels dm \<Longrightarrow> wf_item f dm chk dp (bs @ rest) = Ok rest"
    for x bs rest
    using enc_slice.prems f nest_slice [OF that(1)] length_concat_member [OF that(2)] that(1) by (intro that(3)) auto
  then have "list_all2 (\<lambda>x bs. \<forall>rest. wf_item g dm chk (Suc dp) (bs @ rest) = Ok rest) xs bss"
    by (intro list.rel_mono_strong [OF enc_slice.IH]) auto
  then show ?case using enc_slice.prems f by (simp add: head_simps of_nat_small wf_items_concat)
next
  case (enc_map es m bss)
  let ?c = "concat (map (\<lambda>q. fst q @ snd q) bss)"
  obtain g where f: "f = Suc g" "length ?c \<le> g"
    using enc_map.prems encodeHead_length_Suc [of "0xA0" "of_nat (length m)"] by (cases f) auto
  have es: "set es = set m" "length es = length m" using enc_map.hyps by (metis set_mset_mset, metis size_mset)
  let ?W = "\<lambda>bs. \<forall>rest. wf_item g dm chk (Suc dp) (bs @ rest) = Ok rest"
  have "?W (fst q) \<and> ?W (snd q)" if "p \<in> set es" "q \<in> set bss"
    "\<And>f dp rest. sizes_ok dm chk (fst p) \<Longrightarrow> length (fst q) \<le> f \<Longrightarrow> int (dp + nest (fst p)) \<le> dm_maxNestedLevels dm \<Longrightarrow> wf_item f dm chk dp (fst q @ rest) = Ok rest"
    "\<And>f dp rest. sizes_ok dm chk (snd p) \<Longrightarrow> length (snd q) \<le> f \<Longrightarrow> int (dp + nest (snd p)) \<le> dm_maxNestedLevels dm \<Longrightarrow> wf_item f dm chk dp (snd q @ rest) = Ok rest"
    for p q
  proof -
    have p: "p \<in> set m" using that(1) es by simp
    have "length (fst q @ snd q) \<le> length ?c" using that(2) by (intro length_concat_member) auto
    then show ?thesis using enc_map.prems f nest_map [OF p] p by (intro conjI allI that(3,4)) auto
  qed
  then have "list_all2 (\<lambda>p q. ?W (fst q) \<and> ?W (snd q)) es bss"
    by (intro list.rel_mono_strong [OF enc_map.IH]) auto
  from wf_items_pairs [OF this] show ?case using enc_map.prems f es by (simp add: head_simps of_nat_small)
next
  case (enc_simple b)
  then obtain g where f: "f = Suc g" by (cases f) (auto simp: encode_simple_def split: if_splits)
  then show ?case using enc_simple.prems wf_simple [of b] by simp
next
  case (enc_int i)
  then show ?case using encodeHead_length_Suc [of "0x00" "of_int i"] encodeHead_length_Suc [of "0x20" "of_int (- i - 1)"]
    by (cases f) (auto simp: encode_int_def head_simps split: if_splits)
next
  case (enc_uint n)
  then show ?case using encodeHead_length_Suc [of "0x00" n] by (cases f) (auto simp: head_simps)
next
  case (enc_string t)
  then show ?case using encodeHead_length_Suc [of "0x60" "of_nat (length t)"]
    by (cases f) (auto simp: encode_string_def head_simps wf_string_def of_nat_small string_bytes_def)
next
  case (enc_bytes b)
  then show ?case using encodeHead_length_Suc [of "0x40" "of_nat (length b)"]
    by (cases f) (auto simp: encode_bytes_def head_simps wf_string_def of_nat_small)
next
  case enc_nil
  then show ?case by (cases f) (auto simp: wellformedHead_def getType_def getAdditionalInformation_def)
next
  case (enc_bool b)
  then show ?case by (cases f) (auto simp: wellformedHead_def getType_def getAdditionalInformation_def)
qed

lemma encodes_not_Nil: "encodes v bs \<Longrightarrow> bs \<noteq> []"
  by (induction v bs rule: encodes.induct)
    (auto simp: encodeHead_def encode_int_def encode_string_def encode_bytes_def encode_simple_def)

theorem encodes_wellformed:
  assumes "encodes v bs" "sizes_ok dm chk v" "int (nest v) \<le> dm_maxNestedLevels dm" "extra \<or> rest = []"
  shows "wellformed dm extra chk (bs @ rest) = Ok rest"
  using encodes_wf [OF assms(1,2), of "length (bs @ rest)" 0 rest] encodes_not_Nil [OF assms(1)] assms(3,4)
  by (auto simp: wellformed_def)

lemma checked_encodes:
  "encodes v bs \<Longrightarrow> sizes_ok marshalerDecMode True v \<Longrightarrow> nest v \<le> 65535 \<Longrightarrow> checked (Ok bs) = Ok bs"
  using encodes_wellformed [of v bs marshalerDecMode True False "[]"] by (simp add: checked_def marshalerDecMode_def)

lemma plain_nest: "plain n v \<Longrightarrow> nest v \<le> n"
proof (induction n arbitrary: v)
  case 0
  then have "scalar v" by (cases v) auto
  then show ?case by (cases v) auto
next
  case (Suc n)
  have f: "foldr max xs 0 \<le> n" if "\<forall>x\<in>set xs. x \<le> n" for xs :: "nat list" using that by (induction xs) auto
  consider "scalar v" | xs where "v = ASlice xs" | m where "v = AMap m" using Suc.prems by (cases v) auto
  then show ?case
  proof cases
    case 1
    then show ?thesis by (cases v) auto
  next
    case (2 xs)
    then show ?thesis using Suc f [of "map nest xs"] by auto
  next
    case (3 m)
    have "nest (fst p) \<le> n" if "p \<in> set m" for p using Suc.prems 3 that by (cases "fst p") auto
    then show ?thesis using Suc 3 f [of "map (\<lambda>p. max (nest (fst p)) (nest (snd p))) m"] by auto
  qed
qed

subsection \<open>The encoder on lists and maps\<close>

lemma marshal_list_map: "marshal_list env xs = map (cbor_Marshal env) xs"
  by (induction xs) auto

lemma marshal_pairs_map:
  "marshal_pairs env es = map (\<lambda>p. (fst p, snd p, (cbor_Marshal env (fst p), cbor_Marshal env (snd p)))) es"
  by (induction es) auto

lemma ok_list:
  assumes "\<forall>x\<in>set xs. \<exists>bs. f x = Ok bs \<and> R x bs"
  shows "\<exists>bss. map f xs = map Ok bss \<and> list_all2 R xs bss"
  using assms
proof (induction xs)
  case (Cons x xs)
  then obtain b bss where "f x = Ok b" "R x b" "map f xs = map Ok bss" "list_all2 R xs bss" by auto
  then show ?case by (intro exI [of _ "b # bss"]) simp
qed simp

lemma ok_pairs:
  assumes "\<forall>p\<in>set es. (\<exists>bs. f (fst p) = Ok bs \<and> R (fst p) bs) \<and> (\<exists>bs. g (snd p) = Ok bs \<and> R (snd p) bs)"
  shows "\<exists>bss. concat (map (\<lambda>p. [f (fst p), g (snd p)]) es) = map Ok (concat (map (\<lambda>q. [fst q, snd q]) bss)) \<and>
    list_all2 (\<lambda>p q. R (fst p) (fst q) \<and> R (snd p) (snd q)) es bss"
  using assms
proof (induction es)
  case (Cons p es)
  then obtain bss where "concat (map (\<lambda>p. [f (fst p), g (snd p)]) es) = map Ok (concat (map (\<lambda>q. [fst q, snd q]) bss))"
    "list_all2 (\<lambda>p q. R (fst p) (fst q) \<and> R (snd p) (snd q)) es bss" by auto
  moreover obtain a b where "f (fst p) = Ok a" "R (fst p) a" "g (snd p) = Ok b" "R (snd p) b" using Cons.prems by auto
  ultimately show ?case by (intro exI [of _ "(a, b) # bss"]) simp
qed simp

lemma concat_pairs: "concat (concat (map (\<lambda>q. [fst q, snd q]) bss)) = concat (map (\<lambda>q. fst q @ snd q) bss)"
  by (induction bss) auto

end
