(* ===== verification/CborDec.thy ===== *)
theory CborDec
  imports CborSpec
begin

text \<open>
  The decoder of the vendored CBOR library (src/vendor/github.com/alexdcox/cbor/v2/decode.go): skipping an item and
  decoding into \<open>any\<close>. \<open>CborTarget\<close> has the decoding into other Go types.

  \<^item> As in \<open>CborValid\<close>, the data from the offset on is a list and the rest is returned, here also with an error, because the decoder moves to
    the end of the item and goes on. Reading past the end is a panic; \<open>Unmarshal\<close> checks the data first.
  \<^item> The bound of a recursion starts at the number of bytes; \<open>CborDecSpec\<close> shows that encodings are decoded within it.
  \<^item> With an error, what \<open>parse\<close> decoded so far is left out: the callers drop it.
  \<^item> Only options at the values that the program uses are modelled: no registered tags, duplicate keys allowed.
\<close>

subsection \<open>UTF-8\<close>

definition utf8_len :: "byte \<Rightarrow> nat" where
  "utf8_len b = (if 0xC2 \<le> b \<and> b \<le> 0xDF then 2 else if 0xE0 \<le> b \<and> b \<le> 0xEF then 3 else if 0xF0 \<le> b \<and> b \<le> 0xF4 then 4 else 0)"

definition utf8_second :: "byte \<Rightarrow> byte \<Rightarrow> bool" where
  "utf8_second b c \<longleftrightarrow>
     (if b = 0xE0 then 0xA0 \<le> c \<and> c \<le> 0xBF else if b = 0xED then 0x80 \<le> c \<and> c \<le> 0x9F
      else if b = 0xF0 then 0x90 \<le> c \<and> c \<le> 0xBF else if b = 0xF4 then 0x80 \<le> c \<and> c \<le> 0x8F
      else 0x80 \<le> c \<and> c \<le> 0xBF)"

function utf8_Valid :: "bytes \<Rightarrow> bool" where
  "utf8_Valid [] = True"
| "utf8_Valid (b # bs) =
     (if b < 0x80 then utf8_Valid bs
      else utf8_len b \<noteq> 0 \<and> utf8_len b \<le> Suc (length bs) \<and> utf8_second b (bs ! 0) \<and>
        (\<forall>c\<in>set (take (utf8_len b - 2) (tl bs)). 0x80 \<le> c \<and> c \<le> 0xBF) \<and> utf8_Valid (drop (utf8_len b - 1) bs))"
  by pat_completeness auto
termination
  by (relation "measure length") auto

subsection \<open>Heads without checks, and skipping\<close>

definition index_panic :: "'a res" where "index_panic = Panic ''index out of range''"

definition raw_argument :: "nat \<Rightarrow> (bytes \<Rightarrow> uint64) \<Rightarrow> byte \<Rightarrow> byte \<Rightarrow> bytes \<Rightarrow> (head \<times> bytes) res" where
  "raw_argument n get t ai data = (if length data < n then index_panic else Ok ((t, ai, get data), drop n data))"

definition getHead :: "bytes \<Rightarrow> (head \<times> bytes) res" where
  "getHead data =
     (case data of
        [] \<Rightarrow> index_panic
      | b # data \<Rightarrow>
          let t = getType b; ai = getAdditionalInformation b in
          if ai \<le> 23 then Ok ((t, ai, ucast ai), data)
          else if ai = 24 then raw_argument 1 (\<lambda>d. ucast (d ! 0)) t ai data
          else if ai = 25 then raw_argument 2 (\<lambda>d. ucast (Uint16 d)) t ai data
          else if ai = 26 then raw_argument 4 (\<lambda>d. ucast (Uint32 d)) t ai data
          else if ai = 27 then raw_argument 8 Uint64 t ai data
          else Ok ((t, ai, ucast ai), data))"

text \<open>\<open>d.data[d.off : d.off+int(val)]\<close> and the rest.\<close>

definition cut :: "uint64 \<Rightarrow> bytes \<Rightarrow> (bytes \<times> bytes) res" where
  "cut val data = (if int (length data) < uint val then index_panic else Ok (take (unat val) data, drop (unat val) data))"

function (sequential) skip_item :: "nat \<Rightarrow> bytes \<Rightarrow> bytes res"
  and skip_items :: "nat \<Rightarrow> nat \<Rightarrow> bytes \<Rightarrow> bytes res"
  and skip_until :: "nat \<Rightarrow> nat \<Rightarrow> bytes \<Rightarrow> bytes res" where
  "skip_item 0 data = index_panic"
| "skip_item (Suc f) data =
     res_bind (getHead data) (\<lambda>((t, ai, val), data').
       if ai = 31 \<and> (t = 0x40 \<or> t = 0x60 \<or> t = 0x80 \<or> t = 0xA0) then skip_until f (length data') data'
       else if t = 0x40 \<or> t = 0x60 then res_bind (cut val data') (\<lambda>r. Ok (snd r))
       else if t = 0x80 then skip_items f (unat val) data'
       else if t = 0xA0 then skip_items f (2 * unat val) data'
       else if t = 0xC0 then skip_item f data'
       else Ok data')"
| "skip_items f 0 data = Ok data"
| "skip_items f (Suc n) data = res_bind (skip_item f data) (\<lambda>data'. skip_items f n data')"
| "skip_until f 0 data = index_panic"
| "skip_until f (Suc k) data =
     (case data of
        [] \<Rightarrow> index_panic
      | b # data' \<Rightarrow> if isBreakFlag b then Ok data' else res_bind (skip_item f data) (\<lambda>data''. skip_until f k data''))"
  by pat_completeness auto
termination
  by (relation "inv_image (less_than <*lex*> less_than <*lex*> less_than)
    (case_sum (\<lambda>(f, _). (f, 0, 0 :: nat)) (case_sum (\<lambda>(f, n, _). (f, 1, n)) (\<lambda>(f, k, _). (f, 1, k))))") auto

definition skip :: "bytes \<Rightarrow> bytes res" where
  "skip data = skip_item (length data) data"

subsection \<open>Tags in front of an item\<close>

text \<open>Stripping the tag number of self-described CBOR.\<close>

fun strip_self :: "nat \<Rightarrow> bytes \<Rightarrow> bytes res" where
  "strip_self 0 data = index_panic"
| "strip_self (Suc k) data =
     (case data of
        [] \<Rightarrow> index_panic
      | b # _ \<Rightarrow>
          if getType b \<noteq> 0xC0 then Ok data
          else res_bind (getHead data) (\<lambda>(h, data'). if snd (snd h) = 55799 then strip_self k data' else Ok data))"

text \<open>The check of built-in tags: the first error and the content of the tag that has it.\<close>

fun check_tags :: "nat \<Rightarrow> bytes \<Rightarrow> (gerror \<times> bytes) option res" where
  "check_tags 0 data = index_panic"
| "check_tags (Suc k) data =
     (case data of
        [] \<Rightarrow> index_panic
      | b # _ \<Rightarrow>
          if getType b \<noteq> 0xC0 then Ok None
          else res_bind (getHead data) (\<lambda>(h, data').
            case data' of
              [] \<Rightarrow> index_panic
            | c # _ \<Rightarrow>
                (case validBuiltinTag (snd (snd h)) c of
                   Err e \<Rightarrow> Ok (Some (e, data'))
                 | Panic p \<Rightarrow> Panic p
                 | Ok _ \<Rightarrow> check_tags k data')))"

subsection \<open>Strings\<close>

fun string_chunks :: "nat \<Rightarrow> bytes \<Rightarrow> bytes \<Rightarrow> (bytes \<times> bytes) res" where
  "string_chunks 0 acc data = index_panic"
| "string_chunks (Suc k) acc data =
     (case data of
        [] \<Rightarrow> index_panic
      | b # data' \<Rightarrow>
          if isBreakFlag b then Ok (acc, data')
          else res_bind (getHead data) (\<lambda>(h, d). res_bind (cut (snd (snd h)) d) (\<lambda>(x, r). string_chunks k (acc @ x) r)))"

text \<open>The content of a byte string whose head is read.\<close>

definition parseByteString :: "byte \<Rightarrow> uint64 \<Rightarrow> bytes \<Rightarrow> (bytes \<times> bytes) res" where
  "parseByteString ai val data = (if ai = 31 then string_chunks (length data) [] data else cut val data)"

fun text_chunks :: "nat \<Rightarrow> DecMode \<Rightarrow> bytes \<Rightarrow> bytes \<Rightarrow> (bytes res \<times> bytes) res" where
  "text_chunks 0 dm acc data = index_panic"
| "text_chunks (Suc k) dm acc data =
     (case data of
        [] \<Rightarrow> index_panic
      | b # data' \<Rightarrow>
          if isBreakFlag b then Ok (Ok acc, data')
          else res_bind (getHead data) (\<lambda>(h, d). res_bind (cut (snd (snd h)) d) (\<lambda>(x, r).
            if dm_utf8 dm = UTF8RejectInvalid \<and> \<not> utf8_Valid x then
              res_bind (skip_until (length r) (length r) r) (\<lambda>r'. Ok (Err (ErrMsg ''cbor: invalid UTF-8 string''), r'))
            else text_chunks k dm (acc @ x) r)))"

definition parseTextString :: "DecMode \<Rightarrow> byte \<Rightarrow> uint64 \<Rightarrow> bytes \<Rightarrow> (bytes res \<times> bytes) res" where
  "parseTextString dm ai val data =
     (if ai = 31 then text_chunks (length data) dm [] data
      else res_bind (cut val data) (\<lambda>(b, r).
        Ok (if dm_utf8 dm = UTF8RejectInvalid \<and> \<not> utf8_Valid b then Err (ErrMsg ''cbor: invalid UTF-8 string'') else Ok b, r)))"

definition big_SetBytes :: "bytes \<Rightarrow> nat" where
  "big_SetBytes bs = foldl (\<lambda>n b. 256 * n + unat b) 0 bs"

subsection \<open>Decoding into \<open>any\<close>\<close>

text \<open>A panic ends the call; \<open>data\<close> is the rest that goes with an error.\<close>

definition at :: "'a res \<Rightarrow> bytes \<Rightarrow> ('a \<Rightarrow> 'b res \<times> bytes) \<Rightarrow> 'b res \<times> bytes" where
  "at r data g = (case r of Ok a \<Rightarrow> g a | Err e \<Rightarrow> (Err e, data) | Panic p \<Rightarrow> (Panic p, data))"

text \<open>The first of two errors, and the values when there is none.\<close>

fun first_error :: "'a res \<Rightarrow> 'b res \<times> bytes \<Rightarrow> ('a \<Rightarrow> 'b \<Rightarrow> 'c) \<Rightarrow> 'c res \<times> bytes" where
  "first_error x (Panic p, rest) g = (Panic p, rest)"
| "first_error (Ok a) (Ok b, rest) g = (Ok (g a b), rest)"
| "first_error (Ok a) (Err e, rest) g = (Err e, rest)"
| "first_error (Err e) (_, rest) g = (Err e, rest)"
| "first_error (Panic p) (_, rest) g = (Panic p, rest)"

text \<open>Simple values and floats.\<close>

definition parse_primitive :: "cbor_env \<Rightarrow> byte \<Rightarrow> uint64 \<Rightarrow> any" where
  "parse_primitive env ai val =
     (if ai < 20 \<or> ai = 24 then ASimple (ucast val)
      else if ai = 20 \<or> ai = 21 then ABool (ai = 21)
      else if ai = 25 then AFloat (ce_float16 env (ucast val))
      else if ai = 26 then AFloat (ce_float32 env (ucast val))
      else if ai = 27 then AFloat val
      else ANil)"

text \<open>\<open>parse_item\<close> is \<open>parse\<close>, \<open>parse_elems\<close> the loop of \<open>parseArray\<close>, \<open>parse_pairs\<close> the loop of \<open>parseMap\<close>, which gives up with \<open>None\<close> when
  the map has to be read again by \<open>parseMapToArray\<close>, and \<open>parse_entries\<close> the loop of that. \<open>indef\<close> says that a break ends the loop.\<close>

function (sequential) parse_item :: "nat \<Rightarrow> cbor_env \<Rightarrow> DecMode \<Rightarrow> bool \<Rightarrow> bytes \<Rightarrow> any res \<times> bytes"
  and parse_elems :: "nat \<Rightarrow> cbor_env \<Rightarrow> DecMode \<Rightarrow> bool \<Rightarrow> nat \<Rightarrow> bytes \<Rightarrow> any list res \<times> bytes"
  and parse_pairs :: "nat \<Rightarrow> cbor_env \<Rightarrow> DecMode \<Rightarrow> bool \<Rightarrow> nat \<Rightarrow> (any \<times> any) list \<Rightarrow> gerror option \<Rightarrow> bytes \<Rightarrow>
    any res option \<times> bytes"
  and parse_entries :: "nat \<Rightarrow> cbor_env \<Rightarrow> DecMode \<Rightarrow> bool \<Rightarrow> nat \<Rightarrow> bytes \<Rightarrow> (any \<times> any) list res \<times> bytes" where
  "parse_item 0 env dm strip data = (index_panic, data)"
| "parse_item (Suc f) env dm strip data =
     at (if strip then strip_self (length data) data else Ok data) data (\<lambda>data.
     at (check_tags (length data) data) data (\<lambda>bad.
     case bad of
       Some (e, content) \<Rightarrow> at (skip content) content (\<lambda>r. (Err e, r))
     | None \<Rightarrow>
         at (getHead data) data (\<lambda>((t, ai, val), d).
           if t = 0x00 then (Ok (AUint val), d)
           else if t = 0x20 then (Ok (if 0x8000000000000000 \<le> val then ABig (- uint val - 1) else AInt (- uint val - 1)), d)
           else if t = 0x40 then at (parseByteString ai val d) d (\<lambda>(b, r). (Ok (ABytes b), r))
           else if t = 0x60 then
             at (parseTextString dm ai val d) d (\<lambda>(x, r). at x r (\<lambda>b. (Ok (AString (bytes_string b)), r)))
           else if t = 0xC0 then
             (if val = 0 \<or> val = 1 then
                at (skip d) d (\<lambda>r. at (ce_time env (take (length d - length r) d)) r (\<lambda>i. (Ok (AOpaque i), r)))
              else if val = 2 \<or> val = 3 then
                at (getHead d) d (\<lambda>((t', ai', val'), d'). at (parseByteString ai' val' d') d' (\<lambda>(b, r).
                  (Ok (ABig (if val = 2 then int (big_SetBytes b) else - int (big_SetBytes b) - 1)), r)))
              else case parse_item f env dm False d of (x, r) \<Rightarrow> at x r (\<lambda>v. (Ok (ATag val v), r)))
           else if t = 0xE0 then (Ok (parse_primitive env ai val), d)
           else if t = 0x80 then
             (case parse_elems f env dm (ai = 31) (if ai = 31 then length d else unat val) d of (x, r) \<Rightarrow> at x r (\<lambda>vs. (Ok (ASlice vs), r)))
           else
             (case parse_pairs f env dm (ai = 31) (if ai = 31 then length d else unat val) [] None d of
                (Some x, r) \<Rightarrow> (x, r)
              | (None, _) \<Rightarrow>
                  (case parse_entries f env dm (ai = 31) (if ai = 31 then length d else unat val) d of
                     (x, r) \<Rightarrow> at x r (\<lambda>es. (Ok (AEntries es), r)))))))"
| "parse_elems f env dm indef 0 data = (if indef then (index_panic, data) else (Ok [], data))"
| "parse_elems f env dm indef (Suc k) data =
     (if indef \<and> data = [] then (index_panic, data)
      else if indef \<and> isBreakFlag (hd data) then (Ok [], tl data)
      else case parse_item f env dm True data of
        (Panic p, r) \<Rightarrow> (Panic p, r)
      | (x, r) \<Rightarrow> first_error x (parse_elems f env dm indef k r) (\<lambda>v vs. v # vs))"
| "parse_pairs f env dm indef 0 m err data =
     (Some (if indef then index_panic else case err of None \<Rightarrow> Ok (AMap m) | Some e \<Rightarrow> Err e), data)"
| "parse_pairs f env dm indef (Suc k) m err data =
     (if indef \<and> data = [] then (Some index_panic, data)
      else if indef \<and> isBreakFlag (hd data) then (Some (case err of None \<Rightarrow> Ok (AMap m) | Some e \<Rightarrow> Err e), tl data)
      else case parse_item f env dm True data of
        (Panic p, r) \<Rightarrow> (Some (Panic p), r)
      | (Err e, r) \<Rightarrow>
          (case skip r of
             Ok r' \<Rightarrow> parse_pairs f env dm indef k m (case err of None \<Rightarrow> Some e | Some e' \<Rightarrow> Some e') r'
           | _ \<Rightarrow> (Some index_panic, r))
      | (Ok key, r) \<Rightarrow>
          if \<not> hashable key then
            (if err = None then (None, r)
             else case skip r of
               Ok r' \<Rightarrow> parse_pairs f env dm indef k m err r'
             | _ \<Rightarrow> (Some index_panic, r))
          else case parse_item f env dm True r of
            (Panic p, r') \<Rightarrow> (Some (Panic p), r')
          | (Err e, r') \<Rightarrow> parse_pairs f env dm indef k m (case err of None \<Rightarrow> Some e | Some e' \<Rightarrow> Some e') r'
          | (Ok v, r') \<Rightarrow> parse_pairs f env dm indef k (map_set key v m) err r')"
| "parse_entries f env dm indef 0 data = (if indef then (index_panic, data) else (Ok [], data))"
| "parse_entries f env dm indef (Suc k) data =
     (if indef \<and> data = [] then (index_panic, data)
      else if indef \<and> isBreakFlag (hd data) then (Ok [], tl data)
      else case parse_item f env dm True data of
        (Panic p, r) \<Rightarrow> (Panic p, r)
      | (Err e, r) \<Rightarrow> at (skip r) r (\<lambda>r'. first_error (Err e) (parse_entries f env dm indef k r') (\<lambda>v vs. v # vs))
      | (Ok key, r) \<Rightarrow>
          (case parse_item f env dm True r of
             (Panic p, r') \<Rightarrow> (Panic p, r')
           | (x, r') \<Rightarrow> first_error x (parse_entries f env dm indef k r') (\<lambda>v vs. (key, v) # vs)))"
  by pat_completeness auto
termination
  by (relation "inv_image (less_than <*lex*> less_than <*lex*> less_than)
    (case_sum (case_sum (\<lambda>(f, _). (f, 0, 0 :: nat)) (\<lambda>(f, _, _, _, k, _). (f, 1, k)))
      (case_sum (\<lambda>(f, _, _, _, k, _). (f, 1, k)) (\<lambda>(f, _, _, _, k, _). (f, 1, k))))") auto

text \<open>\<open>Unmarshal\<close> into a variable of type \<open>any\<close> that is nil.\<close>

definition unmarshal_any :: "cbor_env \<Rightarrow> DecMode \<Rightarrow> bytes \<Rightarrow> any res" where
  "unmarshal_any env dm data =
     res_bind (wellformed dm False False data) (\<lambda>_. fst (parse_item (length data) env dm True data))"

end
