(* ===== verification/MessageReader.thy ===== *)
theory MessageReader
  imports Protocol CborDec
begin

text \<open>
  Cutting the byte stream of a connection into segments and messages (src/message.go) and building
  segments (src/segment.go).

  \<^item> A message is a pointer into an explicit store. \<open>Shared ty\<close> is the one object that
    \<open>ProtocolMessageMap\<close> holds for the type, which every decoded message of that type
    is written into; \<open>Fresh n\<close> is an object allocated by \<open>nextBlocks\<close>.
  \<^item> The message structs and their decoders are a record, so that this theory does not depend on the structs: \<open>cd_first\<close> is \<open>UnmarshalFirst\<close>
    into a new \<open>[]any\<close> with the rest of the input, \<open>cd_into\<close> is \<open>Unmarshal\<close> and \<open>cd_intoFirst\<close> \<open>UnmarshalFirst\<close> into a message of the given
    type, from its old to its new content, \<open>cd_block\<close> is \<open>UnmarshalFirst\<close> into a new \<open>MessageBlock\<close>, \<open>cd_zero\<close> the zero value of a
    type and \<open>cd_setRaw\<close> the method \<open>SetRaw\<close>. \<open>'f\<close> is the content of a message. \<open>Messages\<close> has the structs and the instance of this record.
  \<^item> \<open>Read\<close> keeps the index of the code as an integer; slicing outside the data is a panic.
    \<open>read_iter\<close> is one iteration of its loop and \<open>read_loop\<close> runs it with fuel;
    MessageReaderSpec shows that the fuel of \<open>Read\<close> is always enough.
  \<^item> A named result that was set before an error return is returned with the error, so an outcome
    has both messages and an error.
\<close>

subsection \<open>State\<close>

datatype msg_ptr = Shared MessageType | Fresh nat

record 'f msg_obj =
  mo_type :: MessageType
  mo_content :: 'f

record 'f msg_store =
  ms_heap :: "msg_ptr \<rightharpoonup> 'f msg_obj"
  ms_next :: nat

record MessageReader =
  mr_timestamp :: bytes
  mr_protocol :: uint16
  mr_length :: uint16
  mr_buffer :: bytes
  mr_partialHeader :: bytes
  mr_batchBuffer :: bytes
  mr_batching :: bool

definition NewMessageReader :: MessageReader where
  "NewMessageReader = \<lparr>mr_timestamp = [], mr_protocol = 0, mr_length = 0, mr_buffer = [], mr_partialHeader = [],
     mr_batchBuffer = [], mr_batching = False\<rparr>"

record 'f cbor_decoder =
  cd_first :: "bytes \<Rightarrow> (any list \<times> bytes) res"
  cd_zero :: "MessageType \<Rightarrow> 'f"
  cd_into :: "MessageType \<Rightarrow> 'f \<Rightarrow> bytes \<Rightarrow> 'f \<times> unit res"
  cd_intoFirst :: "MessageType \<Rightarrow> 'f \<Rightarrow> bytes \<Rightarrow> 'f \<times> unit res"
  cd_setRaw :: "bytes \<Rightarrow> 'f \<Rightarrow> 'f"
  cd_block :: "bytes \<Rightarrow> ('f \<times> bytes) res"

text \<open>The content of the object that \<open>ProtocolMessageMap\<close> holds for a type, and writing it.\<close>

definition shared_content :: "'f cbor_decoder \<Rightarrow> 'f msg_store \<Rightarrow> MessageType \<Rightarrow> 'f" where
  "shared_content cd st ty = (case ms_heap st (Shared ty) of Some ob \<Rightarrow> mo_content ob | None \<Rightarrow> cd_zero cd ty)"

definition set_shared :: "MessageType \<Rightarrow> 'f \<Rightarrow> 'f msg_store \<Rightarrow> 'f msg_store" where
  "set_shared ty v st = st\<lparr>ms_heap := (ms_heap st)(Shared ty \<mapsto> \<lparr>mo_type = ty, mo_content = v\<rparr>)\<rparr>"

subsection \<open>Headers\<close>

text \<open>The named results and the error: on an error the length is still zero.\<close>

definition readHeader :: "bytes \<Rightarrow> (bytes \<times> uint16 \<times> uint16) \<times> unit res" where
  "readHeader data =
     (if length data < 8 then (([], 0, 0), Err (ErrMsg ''header must be at least 8 bytes''))
      else
        let protocolBytes = take 2 (drop 4 data);
            protocol0 = Uint16 protocolBytes;
            protocol = (if protocolBytes ! 0 = 0x80 then protocol0 - 32768 else protocol0)
        in if 10 < protocol then ((take 4 data, protocol, 0), Err (ErrMsg ''protocol is obviously wrong''))
           else ((take 4 data, protocol, Uint16 (take 2 (drop 6 data))), Ok ()))"

definition reader_reset :: "MessageReader \<Rightarrow> MessageReader" where
  "reader_reset r = r\<lparr>mr_buffer := [], mr_timestamp := [], mr_protocol := 0, mr_length := 0\<rparr>"

subsection \<open>Messages of a segment\<close>

text \<open>One message: its number pair, the shared object of its type, its content decoded into that object.\<close>

definition nextMessage :: "'f cbor_decoder \<Rightarrow> uint16 \<Rightarrow> bytes \<Rightarrow> 'f msg_store \<Rightarrow> (msg_ptr \<times> bytes) res \<times> 'f msg_store" where
  "nextMessage cd protocol data st =
     (case cd_first cd data of
        Err e \<Rightarrow> (Err e, st)
      | Panic p \<Rightarrow> (Panic p, st)
      | Ok (a, remaining) \<Rightarrow>
          (case a of
             [] \<Rightarrow> (Err (ErrMsg ''expected at least one element in the cbor array''), st)
           | AUint subprotocol # _ \<Rightarrow>
               (case ProtocolToMessage protocol (ucast subprotocol) of
                  Err e \<Rightarrow> (Err e, st)
                | Panic p \<Rightarrow> (Panic p, st)
                | Ok ty \<Rightarrow>
                    let raw = take (length data - length remaining) data in
                    (case cd_into cd ty (shared_content cd st ty) raw of
                       (v, Err e) \<Rightarrow> (Err (ErrWrap ''failed to unmarshal message'' e), set_shared ty v st)
                     | (v, Panic p) \<Rightarrow> (Panic p, set_shared ty v st)
                     | (v, Ok _) \<Rightarrow> (Ok (Shared ty, remaining), set_shared ty (cd_setRaw cd raw v) st)))
           | _ \<Rightarrow> (Err (ErrMsg ''expected subprotocol uint64 to be the first element in the cbor array''), st)))"

text \<open>
  The loop over a segment ends when the data is used up, on an error, or when a batch starts. The decoder
  takes at least one byte of a value; \<open>fuel\<close> bounds the messages by the bytes. The
  result has the messages, the rest of the data, and the error.
\<close>

fun next_messages :: "nat \<Rightarrow> 'f cbor_decoder \<Rightarrow> uint16 \<Rightarrow> bytes \<Rightarrow> bool \<Rightarrow> 'f msg_store \<Rightarrow>
    (msg_ptr list \<times> bytes \<times> unit res) \<times> bool \<times> 'f msg_store" where
  "next_messages 0 cd protocol data batching st = (([], data, Ok ()), batching, st)"
| "next_messages (Suc fuel) cd protocol data batching st =
     (if data = [] then (([], data, Ok ()), batching, st)
      else
        (case nextMessage cd protocol data st of
           (Err e, st') \<Rightarrow> (([], data, Err e), batching, st')
         | (Panic p, st') \<Rightarrow> (([], data, Panic p), batching, st')
         | (Ok (msg, remaining), st') \<Rightarrow>
             if batching \<or> msg = Shared MessageStartBatch then (([msg], remaining, Ok ()), True, st')
             else (case next_messages fuel cd protocol remaining batching st' of
                     ((msgs, rest, r), res) \<Rightarrow> ((msg # msgs, rest, r), res))))"

definition nextMessages :: "'f cbor_decoder \<Rightarrow> uint16 \<Rightarrow> bytes \<Rightarrow> bool \<Rightarrow> 'f msg_store \<Rightarrow>
    (msg_ptr list \<times> bytes \<times> unit res) \<times> bool \<times> 'f msg_store" where
  "nextMessages cd protocol data = next_messages (length data) cd protocol data"

subsection \<open>Blocks of a batch\<close>

definition blockStart :: bytes where "blockStart = [0x82, 0x04]"
definition batchEnd :: bytes where "batchEnd = [0x81, 0x05]"

definition has_prefix :: "bytes \<Rightarrow> bytes \<Rightarrow> bool" where
  "has_prefix data p \<longleftrightarrow> take (length p) data = p"

definition alloc :: "'f msg_obj \<Rightarrow> 'f msg_store \<Rightarrow> msg_ptr \<times> 'f msg_store" where
  "alloc ob st = (Fresh (ms_next st), st\<lparr>ms_heap := (ms_heap st)(Fresh (ms_next st) \<mapsto> ob), ms_next := Suc (ms_next st)\<rparr>)"

text \<open>\<open>done_content\<close> is the content of \<open>&MessageBatchDone{}\<close>. What follows the end of a batch is skipped.
  A block that is cut off (\<open>unexpected EOF\<close>) stays in the remaining data.\<close>

fun next_blocks :: "nat \<Rightarrow> 'f \<Rightarrow> 'f cbor_decoder \<Rightarrow> bytes \<Rightarrow> 'f msg_store \<Rightarrow> (msg_ptr list \<times> bytes \<times> unit res) \<times> 'f msg_store" where
  "next_blocks 0 dc cd data st = (([], data, Ok ()), st)"
| "next_blocks (Suc fuel) dc cd data st =
     (if data = [] then (([], [], Ok ()), st)
      else if has_prefix data batchEnd then
        (case alloc \<lparr>mo_type = MessageBatchDone, mo_content = dc\<rparr> st of
           (p, st') \<Rightarrow> (([p], [], Ok ()), st'))
      else if \<not> has_prefix data blockStart then
        (([], data, Err (ErrMsg ''expecting batch to have block start 0x8204'')), st)
      else
        (case cd_block cd data of
           Err e \<Rightarrow> if e = ErrMsg ''unexpected EOF'' then (([], data, Ok ()), st) else (([], data, Err e), st)
         | Panic p \<Rightarrow> (([], data, Panic p), st)
         | Ok (content, left) \<Rightarrow>
             (case alloc \<lparr>mo_type = MessageBlock, mo_content = content\<rparr> st of
                (p, st') \<Rightarrow>
                  (case next_blocks fuel dc cd left st' of
                     ((msgs, rest, r), st'') \<Rightarrow> ((p # msgs, rest, r), st'')))))"

definition nextBlocks :: "'f \<Rightarrow> 'f cbor_decoder \<Rightarrow> bytes \<Rightarrow> 'f msg_store \<Rightarrow> (msg_ptr list \<times> bytes \<times> unit res) \<times> 'f msg_store" where
  "nextBlocks dc cd data = next_blocks (length data) dc cd data"

subsection \<open>Read\<close>

record 'f read_state =
  rs_index :: int
  rs_reader :: MessageReader
  rs_store :: "'f msg_store"
  rs_messages :: "msg_ptr list"

datatype 'f read_next =
    ReadContinue "'f read_state"
  | ReadReturn "unit res" "'f read_state"

text \<open>\<open>data[i:]\<close> and \<open>data[i:j]\<close>.\<close>

definition slice_from :: "bytes \<Rightarrow> int \<Rightarrow> bytes res" where
  "slice_from data i = (if 0 \<le> i \<and> i \<le> int (length data) then Ok (drop (nat i) data) else Panic ''slice bounds out of range'')"

definition slice :: "bytes \<Rightarrow> int \<Rightarrow> int \<Rightarrow> bytes res" where
  "slice data i j =
     (if 0 \<le> i \<and> i \<le> j \<and> j \<le> int (length data) then Ok (take (nat (j - i)) (drop (nat i) data))
      else Panic ''slice bounds out of range'')"

text \<open>Filling the buffer of the segment: the new index and the reader.\<close>

definition read_fill :: "bytes \<Rightarrow> int \<Rightarrow> MessageReader \<Rightarrow> (int \<times> MessageReader) res" where
  "read_fill data i r =
     res_bind (slice_from data i) (\<lambda>rest.
       let bytesNeedRead = int (unat (mr_length r)) - int (length (mr_buffer r));
           bytesCanRead = int (length rest);
           bytesShouldRead = (if bytesCanRead < bytesNeedRead then bytesCanRead else bytesNeedRead)
       in res_bind (slice data i (i + bytesShouldRead)) (\<lambda>chunk.
            Ok (i + bytesShouldRead, r\<lparr>mr_buffer := mr_buffer r @ chunk\<rparr>)))"

text \<open>Decoding a complete segment, as blocks of a batch or as messages.\<close>

definition read_complete :: "'f \<Rightarrow> 'f cbor_decoder \<Rightarrow> 'f read_state \<Rightarrow> 'f read_next" where
  "read_complete dc cd s =
     (let r = rs_reader s in
      if mr_batching r then
        (case nextBlocks dc cd (mr_batchBuffer r @ mr_buffer r) (rs_store s) of
           ((msgs, remaining, res), st) \<Rightarrow>
             if res \<noteq> Ok () then
               ReadReturn res (s\<lparr>rs_store := st, rs_reader := r\<lparr>mr_batchBuffer := mr_batchBuffer r @ mr_buffer r\<rparr>\<rparr>)
             else
               let messages = rs_messages s @ msgs;
                   s1 = s\<lparr>rs_store := st, rs_messages := messages, rs_reader := r\<lparr>mr_batchBuffer := remaining\<rparr>\<rparr>;
                   batchDone = (messages \<noteq> [] \<and> map_option mo_type (ms_heap st (last messages)) = Some MessageBatchDone)
               in if batchDone \<and> remaining \<noteq> []
                  then ReadReturn (Err (ErrMsg ''expected batch done message to complete batch buffer'')) s1
                  else ReadContinue (s1\<lparr>rs_reader := reader_reset
                         (if batchDone then (rs_reader s1)\<lparr>mr_batching := False\<rparr> else rs_reader s1)\<rparr>))
      else
        (case nextMessages cd (mr_protocol r) (mr_buffer r) (mr_batching r) (rs_store s) of
           ((msgs, remaining, res), batching, st) \<Rightarrow>
             let r1 = r\<lparr>mr_batching := batching\<rparr> in
             if res \<noteq> Ok () then ReadReturn res (s\<lparr>rs_store := st, rs_reader := r1\<rparr>)
             else ReadContinue (s\<lparr>rs_store := st, rs_messages := rs_messages s @ msgs,
                    rs_reader := reader_reset (if batching then r1\<lparr>mr_batchBuffer := remaining\<rparr> else r1)\<rparr>)))"

text \<open>The part of an iteration after the header.\<close>

definition read_body :: "'f \<Rightarrow> 'f cbor_decoder \<Rightarrow> bytes \<Rightarrow> 'f read_state \<Rightarrow> 'f read_next" where
  "read_body dc cd data s =
     (case read_fill data (rs_index s) (rs_reader s) of
        Err e \<Rightarrow> ReadReturn (Err e) s
      | Panic p \<Rightarrow> ReadReturn (Panic p) s
      | Ok (i, r) \<Rightarrow>
          let s1 = s\<lparr>rs_index := i, rs_reader := r\<rparr> in
          if length (mr_buffer r) = unat (mr_length r) then read_complete dc cd s1 else ReadContinue s1)"

text \<open>The header part, and the whole iteration.\<close>

definition read_iter :: "'f \<Rightarrow> 'f cbor_decoder \<Rightarrow> bytes \<Rightarrow> 'f read_state \<Rightarrow> 'f read_next" where
  "read_iter dc cd data s =
     (let r = rs_reader s; i = rs_index s in
      if i = int (length data) then ReadReturn (Ok ()) s
      else if int (length data) < i then ReadReturn (Err (ErrMsg ''read more bytes than exists?'')) s
      else if mr_buffer r \<noteq> [] then read_body dc cd data s
      else
        case slice_from data i of
          Err e \<Rightarrow> ReadReturn (Err e) s
        | Panic p \<Rightarrow> ReadReturn (Panic p) s
        | Ok rest \<Rightarrow>
            if length rest \<le> 8 then
              ReadReturn (Ok ()) (s\<lparr>rs_reader := r\<lparr>mr_partialHeader := mr_partialHeader r @ rest\<rparr>\<rparr>)
            else
              (case readHeader (mr_partialHeader r @ rest) of
                 ((timestamp, protocol, len), res) \<Rightarrow>
                   let r1 = r\<lparr>mr_timestamp := timestamp, mr_protocol := protocol, mr_length := len\<rparr> in
                   if res \<noteq> Ok () then ReadReturn res (s\<lparr>rs_reader := r1\<rparr>)
                   else read_body dc cd data (s\<lparr>rs_index := i + 8 - int (length (mr_partialHeader r)),
                          rs_reader := r1\<lparr>mr_partialHeader := []\<rparr>\<rparr>)))"

fun read_loop :: "nat \<Rightarrow> 'f \<Rightarrow> 'f cbor_decoder \<Rightarrow> bytes \<Rightarrow> 'f read_state \<Rightarrow> (unit res \<times> 'f read_state) option" where
  "read_loop 0 dc cd data s = None"
| "read_loop (Suc fuel) dc cd data s =
     (case read_iter dc cd data s of
        ReadReturn res s' \<Rightarrow> Some (res, s')
      | ReadContinue s' \<Rightarrow> read_loop fuel dc cd data s')"

definition Read :: "'f \<Rightarrow> 'f cbor_decoder \<Rightarrow> bytes \<Rightarrow> MessageReader \<Rightarrow> 'f msg_store \<Rightarrow> (unit res \<times> 'f read_state) option" where
  "Read dc cd data r st =
     read_loop (4 * length data + 8) dc cd data \<lparr>rs_index = 0, rs_reader = r, rs_store = st, rs_messages = []\<rparr>"

subsection \<open>Segments (src/segment.go)\<close>

text \<open>\<open>'m\<close> is a message value; \<open>msg_type\<close> is its dynamic type and \<open>enc\<close> is \<open>cbor.Marshal\<close>.\<close>

type_synonym Direction = bool

definition DirectionIn :: Direction where "DirectionIn = False"
definition DirectionOut :: Direction where "DirectionOut = True"

definition Direction_String :: "Direction \<Rightarrow> string" where
  "Direction_String d = (if d = DirectionIn then ''IN'' else ''OUT'')"

record 'm Segment =
  sg_Timestamp :: uint32
  sg_Protocol :: Protocol
  sg_PayloadLength :: uint16
  sg_Payload :: bytes
  sg_Direction :: Direction
  sg_messages :: "'m list"

fun marshal_messages :: "('m \<Rightarrow> bytes res) \<Rightarrow> 'm list \<Rightarrow> bytes \<Rightarrow> unit res \<times> bytes" where
  "marshal_messages enc [] payload = (Ok (), payload)"
| "marshal_messages enc (m # ms) payload =
     (case enc m of
        Ok b \<Rightarrow> marshal_messages enc ms (payload @ b)
      | Err e \<Rightarrow> (Err e, payload)
      | Panic p \<Rightarrow> (Panic p, payload))"

definition MarshalDataItem :: "('m \<Rightarrow> bytes res) \<Rightarrow> 'm Segment \<Rightarrow> bytes res \<times> 'm Segment" where
  "MarshalDataItem enc s =
     (case marshal_messages enc (sg_messages s) (sg_Payload s) of
        (Err e, payload) \<Rightarrow> (Err e, s\<lparr>sg_Payload := payload\<rparr>)
      | (Panic p, payload) \<Rightarrow> (Panic p, s\<lparr>sg_Payload := payload\<rparr>)
      | (Ok _, payload) \<Rightarrow>
          let s1 = s\<lparr>sg_Payload := payload, sg_PayloadLength := of_nat (length payload)\<rparr> in
          (Ok (PutUint32 (sg_Timestamp s1) @ PutUint16 (sg_Protocol s1) @ PutUint16 (sg_PayloadLength s1) @ sg_Payload s1), s1))"

definition Complete :: "'m Segment \<Rightarrow> bool" where
  "Complete s \<longleftrightarrow> unat (sg_PayloadLength s) = length (sg_Payload s)"

definition AddMessage :: "('m \<Rightarrow> MessageType) \<Rightarrow> 'm \<Rightarrow> 'm Segment \<Rightarrow> unit res \<times> 'm Segment" where
  "AddMessage msg_type message s =
     (case map_of MessageProtocolMap (msg_type message) of
        None \<Rightarrow> (Err (ErrMsg ''no protocol for message''), s)
      | Some protocol \<Rightarrow>
          if sg_messages s \<noteq> [] \<and> protocol \<noteq> sg_Protocol s
          then (Err (ErrMsg ''cannot add messages with different protocols in the same segment''), s)
          else (Ok (), s\<lparr>sg_Protocol := protocol, sg_messages := sg_messages s @ [message]\<rparr>))"

text \<open>\<open>Segment.Messages\<close>. Its type assertion and index are not guarded: an empty array or another first
  element panics. \<open>fuel\<close> is bounded by the bytes, as above; the loop also stops when a
  value took no bytes.\<close>

fun segment_messages :: "nat \<Rightarrow> 'f cbor_decoder \<Rightarrow> Protocol \<Rightarrow> bytes \<Rightarrow> 'f msg_store \<Rightarrow> (msg_ptr list \<times> unit res) \<times> 'f msg_store" where
  "segment_messages 0 cd protocol data st = (([], Ok ()), st)"
| "segment_messages (Suc fuel) cd protocol data st =
     (if data = [] then (([], Ok ()), st)
      else case cd_first cd data of
        Err e \<Rightarrow> (([], Err (ErrWrap ''failed to unmarshal first cbor'' e)), st)
      | Panic p \<Rightarrow> (([], Panic p), st)
      | Ok (a, remaining) \<Rightarrow>
          (case a of
             [] \<Rightarrow> (([], Panic ''index out of range''), st)
           | AUint subprotocol # _ \<Rightarrow>
               (case ProtocolToMessage protocol (ucast subprotocol) of
                  Err e \<Rightarrow> (([], Err e), st)
                | Panic p \<Rightarrow> (([], Panic p), st)
                | Ok ty \<Rightarrow>
                    (case cd_intoFirst cd ty (shared_content cd st ty) data of
                       (v, Err e) \<Rightarrow> (([], Err (ErrWrap ''failed to unmarshal cbor to struct'' e)), set_shared ty v st)
                     | (v, Panic p) \<Rightarrow> (([], Panic p), set_shared ty v st)
                     | (v, Ok _) \<Rightarrow>
                         if length data = length remaining then (([Shared ty], Ok ()), set_shared ty v st)
                         else (case segment_messages fuel cd protocol remaining (set_shared ty v st) of
                                 ((msgs, r), st2) \<Rightarrow> ((Shared ty # msgs, r), st2))))
           | _ \<Rightarrow> (([], Panic ''interface conversion''), st)))"

definition Segment_Messages :: "'f cbor_decoder \<Rightarrow> 'm Segment \<Rightarrow> 'f msg_store \<Rightarrow> (msg_ptr list \<times> unit res) \<times> 'f msg_store" where
  "Segment_Messages cd s = segment_messages (length (sg_Payload s)) cd (sg_Protocol s) (sg_Payload s)"

end
