(* ===== verification/MessageReaderSpec.thy ===== *)
theory MessageReaderSpec
  imports MessageReader
begin

text \<open>
  What the message reader and the segments guarantee: the loop of \<open>Read\<close> ends, a segment arrives
  whole however its payload is cut, and the limits of the implementation (lone headers,
  undecodable segments, shared message objects, long payloads). \<open>feed\<close> runs \<open>Read\<close> on a list of
  chunks.
\<close>

subsection \<open>Termination of the read loop\<close>

lemma slice_from_Ok [simp]: "slice_from data i = Ok rest \<longleftrightarrow> 0 \<le> i \<and> i \<le> int (length data) \<and> rest = drop (nat i) data"
  by (auto simp: slice_from_def)

lemma slice_Ok [simp]: "slice data i j = Ok c \<longleftrightarrow> 0 \<le> i \<and> i \<le> j \<and> j \<le> int (length data) \<and> c = take (nat (j - i)) (drop (nat i) data)"
  by (auto simp: slice_def)

lemma read_fill_Ok:
  "read_fill data i r = Ok (j, r') \<longleftrightarrow>
     0 \<le> i \<and> i \<le> int (length data) \<and> length (mr_buffer r) \<le> unat (mr_length r) \<and>
     j = i + int (min (unat (mr_length r) - length (mr_buffer r)) (length data - nat i)) \<and>
     r' = r\<lparr>mr_buffer := mr_buffer r @ take (unat (mr_length r) - length (mr_buffer r)) (drop (nat i) data)\<rparr>"
proof (cases "0 \<le> i \<and> i \<le> int (length data) \<and> length (mr_buffer r) \<le> unat (mr_length r)")
  case True
  define L B where "L = unat (mr_length r)" and "B = length (mr_buffer r)"
  define k where "k = nat i"
  have i: "i = int k" "k \<le> length data" and lb: "B \<le> L" using True by (auto simp: k_def L_def B_def)
  obtain n where n: "L = B + n" using lb le_Suc_ex by blast
  show ?thesis
    unfolding read_fill_def L_def [symmetric] B_def [symmetric] i(1) n
    using i(2) by (auto simp: Let_def min_def)
next
  case False
  show ?thesis
  proof (cases "0 \<le> i \<and> i \<le> int (length data)")
    case True
    define L B where "L = unat (mr_length r)" and "B = length (mr_buffer r)"
    then obtain n where n: "B = Suc (L + n)" using False True less_imp_Suc_add [of L B] by auto
    have "\<not> is_ok (read_fill data i r)"
      unfolding read_fill_def L_def [symmetric] B_def [symmetric] n
      by (auto simp: slice_from_def Let_def slice_def)
    then show ?thesis using False by (cases "read_fill data i r") auto
  qed (auto simp: read_fill_def slice_from_def)
qed

lemma read_fill_bound: "read_fill data i r = Ok (j, r') \<Longrightarrow> i \<le> j \<and> j \<le> int (length data)"
proof -
  assume "read_fill data i r = Ok (j, r')"
  then obtain m where "j = i + int m" "m \<le> length data - nat i" "0 \<le> i" "i \<le> int (length data)"
    by (auto simp: read_fill_Ok)
  then show ?thesis by linarith
qed

lemma read_complete_Continue:
  "read_complete dc cd s = ReadContinue s' \<Longrightarrow>
     rs_index s' = rs_index s \<and> mr_buffer (rs_reader s') = [] \<and> mr_partialHeader (rs_reader s') = mr_partialHeader (rs_reader s)"
  by (auto simp: read_complete_def Let_def reader_reset_def split: prod.splits if_splits)

lemma read_body_Continue:
  assumes "read_body dc cd data s = ReadContinue s'"
  shows "0 \<le> rs_index s \<and> rs_index s \<le> rs_index s' \<and> rs_index s' \<le> int (length data) \<and>
     mr_partialHeader (rs_reader s') = mr_partialHeader (rs_reader s) \<and>
     (mr_buffer (rs_reader s') = [] \<or> rs_index s' = int (length data))"
proof -
  obtain j r where f: "read_fill data (rs_index s) (rs_reader s) = Ok (j, r)"
    using assms by (auto simp: read_body_def split: res.splits)
  note k = f [unfolded read_fill_Ok]
  show ?thesis
  proof (cases "length (mr_buffer r) = unat (mr_length r)")
    case True
    then have "read_complete dc cd (s\<lparr>rs_index := j, rs_reader := r\<rparr>) = ReadContinue s'"
      using assms f by (simp add: read_body_def Let_def)
    from read_complete_Continue [OF this] show ?thesis using k read_fill_bound [OF f] by simp
  next
    case False
    then have "s' = s\<lparr>rs_index := j, rs_reader := r\<rparr>" using assms f by (simp add: read_body_def Let_def)
    then show ?thesis using k False read_fill_bound [OF f] by (auto simp: min_def split: if_splits)
  qed
qed

definition read_measure :: "bytes \<Rightarrow> 'f read_state \<Rightarrow> nat" where
  "read_measure data s =
     (if mr_partialHeader (rs_reader s) = [] then 0 else 2 * length data + 3) +
     2 * nat (int (length data) - rs_index s) + (if mr_buffer (rs_reader s) = [] then 0 else 1)"

lemma read_iter_measure:
  assumes "read_iter dc cd data s = ReadContinue s'"
  shows "read_measure data s' < read_measure data s"
proof (cases "mr_buffer (rs_reader s) = []")
  case True
  let ?r = "rs_reader s" and ?i = "rs_index s"
  obtain t where t: "read_body dc cd data t = ReadContinue s'" "rs_index t = ?i + 8 - int (length (mr_partialHeader ?r))"
    "mr_partialHeader (rs_reader t) = []" "0 \<le> ?i" "?i + 8 < int (length data)"
    using assms True
    by (fastforce simp: read_iter_def Let_def split: if_splits res.splits prod.splits)
  note b = read_body_Continue [OF t(1)]
  have "mr_partialHeader (rs_reader s') = []" using b t(3) by simp
  then show ?thesis using b t(2,4,5) True by (auto simp: read_measure_def)
next
  case False
  then have t: "read_body dc cd data s = ReadContinue s'" and i: "rs_index s < int (length data)"
    using assms by (auto simp: read_iter_def Let_def split: if_splits)
  then show ?thesis using read_body_Continue [OF t] False by (auto simp: read_measure_def)
qed

lemma read_loop_enough: "read_measure data s < fuel \<Longrightarrow> \<exists>out. read_loop fuel dc cd data s = Some out"
proof (induction fuel arbitrary: s)
  case (Suc fuel)
  show ?case
  proof (cases "read_iter dc cd data s")
    case (ReadContinue s')
    then have "read_measure data s' < fuel" using read_iter_measure [OF ReadContinue] Suc.prems by simp
    then show ?thesis using Suc.IH ReadContinue by auto
  qed simp
qed simp

lemma Read_total: "\<exists>out. Read dc cd data r st = Some out"
  unfolding Read_def by (rule read_loop_enough) (simp add: read_measure_def)

lemma read_loop_mono: "read_loop fuel dc cd data s = Some out \<Longrightarrow> fuel \<le> fuel' \<Longrightarrow> read_loop fuel' dc cd data s = Some out"
proof (induction fuel arbitrary: s fuel')
  case (Suc fuel)
  then obtain f where "fuel' = Suc f" by (cases fuel') auto
  then show ?case using Suc by (auto split: read_next.splits)
qed simp

subsection \<open>Headers\<close>

definition header :: "uint32 \<Rightarrow> uint16 \<Rightarrow> uint16 \<Rightarrow> bytes" where
  "header ts p n = PutUint32 ts @ PutUint16 p @ PutUint16 n"

lemma length_header [simp]: "length (header ts p n) = 8"
  by (simp add: header_def)

lemma PutUint16_first: "p \<le> 10 \<Longrightarrow> PutUint16 p ! 0 = 0"
proof -
  assume "p \<le> (10 :: uint16)"
  then have "unat p \<le> 10" by (simp add: word_le_nat_alt)
  then have "unat (ucast (drop_bit 8 p) :: byte) = 0"
    by (simp add: unat_drop_bit_eq drop_bit_eq_div unsigned_ucast_eq unat_div_distrib)
  then have "(ucast (drop_bit 8 p) :: byte) = 0" by (simp only: word_unat_eq_iff) simp
  then show "PutUint16 p ! 0 = 0" by (simp add: PutUint16_def)
qed

lemma readHeader_header: "p \<le> 10 \<Longrightarrow> readHeader (header ts p n @ rest) = ((PutUint32 ts, p, n), Ok ())"
proof -
  assume p: "p \<le> 10"
  have a: "take 2 (drop 4 (header ts p n @ rest)) = PutUint16 p" "take 2 (drop 6 (header ts p n @ rest)) = PutUint16 n"
    "take 4 (header ts p n @ rest) = PutUint32 ts"
    by (simp_all add: header_def drop_append)
  show ?thesis unfolding readHeader_def a using p PutUint16_first [OF p] by simp
qed

definition clean :: "MessageReader \<Rightarrow> bool" where
  "clean r \<longleftrightarrow> mr_buffer r = [] \<and> mr_partialHeader r = [] \<and> \<not> mr_batching r"

lemma cleanD: "clean r \<Longrightarrow> mr_buffer r = [] \<and> mr_partialHeader r = []"
  by (simp add: clean_def)

lemma read_iter_header:
  assumes "mr_buffer r = [] \<and> mr_partialHeader r = []" "p \<le> 10" "payload \<noteq> []" "length payload \<le> unat n"
  shows "read_iter dc cd (header ts p n @ payload) \<lparr>rs_index = 0, rs_reader = r, rs_store = st, rs_messages = []\<rparr> =
     (let s = \<lparr>rs_index = int (8 + length payload), rs_reader = r\<lparr>mr_timestamp := PutUint32 ts, mr_protocol := p, mr_length := n,
               mr_partialHeader := [], mr_buffer := payload\<rparr>, rs_store = st, rs_messages = []\<rparr>
      in if length payload = unat n then read_complete dc cd s else ReadContinue s)"
proof -
  let ?r1 = "r\<lparr>mr_timestamp := PutUint32 ts, mr_protocol := p, mr_length := n, mr_partialHeader := []\<rparr>"
  have fill: "read_fill (header ts p n @ payload) 8 ?r1 = Ok (int (8 + length payload), ?r1\<lparr>mr_buffer := payload\<rparr>)"
    using assms by (simp add: read_fill_Ok)
  have sf: "slice_from (header ts p n @ payload) 0 = Ok (header ts p n @ payload)" by simp
  show ?thesis
    using assms(1,3) readHeader_header [OF assms(2), of ts n payload] fill
    by (simp add: read_iter_def sf read_body_def Let_def)
qed

subsection \<open>Feeding a segment in chunks\<close>

fun feed :: "'f \<Rightarrow> 'f cbor_decoder \<Rightarrow> bytes list \<Rightarrow> MessageReader \<Rightarrow> 'f msg_store \<Rightarrow>
    (unit res \<times> msg_ptr list \<times> MessageReader \<times> 'f msg_store) option" where
  "feed dc cd [] r st = Some (Ok (), [], r, st)"
| "feed dc cd (d # ds) r st =
     (case Read dc cd d r st of
        None \<Rightarrow> None
      | Some (Ok _, s) \<Rightarrow>
          (case feed dc cd ds (rs_reader s) (rs_store s) of
             None \<Rightarrow> None
           | Some (res, ms, r', st') \<Rightarrow> Some (res, rs_messages s @ ms, r', st'))
      | Some (res, s) \<Rightarrow> Some (res, rs_messages s, rs_reader s, rs_store s))"

lemma read_loop_end: "rs_index s = int (length data) \<Longrightarrow> read_loop (Suc f) dc cd data s = Some (Ok (), s)"
  by (simp add: read_iter_def)

lemma Read_step:
  "Read dc cd data r st =
     (case read_iter dc cd data \<lparr>rs_index = 0, rs_reader = r, rs_store = st, rs_messages = []\<rparr> of
        ReadReturn res s \<Rightarrow> Some (res, s)
      | ReadContinue s \<Rightarrow> if rs_index s = int (length data) then Some (Ok (), s) else read_loop (4 * length data + 7) dc cd data s)"
proof -
  have f: "4 * length data + 8 = Suc (4 * length data + 7)" "4 * length data + 7 = Suc (4 * length data + 6)" by simp_all
  have e: "read_loop (4 * length data + 7) dc cd data s = Some (Ok (), s)" if "rs_index s = int (length data)" for s
    unfolding f(2) by (rule read_loop_end [OF that])
  show ?thesis
    unfolding Read_def f(1) read_loop.simps
    by (cases "read_iter dc cd data \<lparr>rs_index = 0, rs_reader = r, rs_store = st, rs_messages = []\<rparr>") (simp_all add: e)
qed

text \<open>Where a complete segment of messages leaves the reader.\<close>

definition after_segment :: "MessageReader \<Rightarrow> bool \<Rightarrow> bytes \<Rightarrow> MessageReader" where
  "after_segment r batching remaining =
     reader_reset (if batching then r\<lparr>mr_batching := batching, mr_batchBuffer := remaining\<rparr> else r\<lparr>mr_batching := batching\<rparr>)"

lemma read_complete_messages:
  assumes "\<not> mr_batching (rs_reader s)"
    and "nextMessages cd (mr_protocol (rs_reader s)) (mr_buffer (rs_reader s)) False (rs_store s) = ((msgs, rest, Ok ()), b, st')"
  shows "read_complete dc cd s = ReadContinue (s\<lparr>rs_store := st', rs_messages := rs_messages s @ msgs,
     rs_reader := after_segment (rs_reader s) b rest\<rparr>)"
  using assms by (simp add: read_complete_def after_segment_def Let_def)

lemma read_iter_buffer:
  assumes "mr_buffer r \<noteq> []" "data \<noteq> []" "length (mr_buffer r) + length data \<le> unat (mr_length r)"
  shows "read_iter dc cd data \<lparr>rs_index = 0, rs_reader = r, rs_store = st, rs_messages = []\<rparr> =
     (let s = \<lparr>rs_index = int (length data), rs_reader = r\<lparr>mr_buffer := mr_buffer r @ data\<rparr>, rs_store = st, rs_messages = []\<rparr>
      in if length (mr_buffer r) + length data = unat (mr_length r) then read_complete dc cd s else ReadContinue s)"
proof -
  have "read_fill data 0 r = Ok (int (length data), r\<lparr>mr_buffer := mr_buffer r @ data\<rparr>)"
    using assms by (simp add: read_fill_Ok)
  then show ?thesis using assms(1,2) by (simp add: read_iter_def read_body_def Let_def)
qed

lemma feed_buffer:
  assumes "list_all (\<lambda>c. c \<noteq> []) cs" "cs \<noteq> []" "mr_buffer r \<noteq> []" "\<not> mr_batching r"
    and "length (mr_buffer r) + length (concat cs) = unat (mr_length r)"
    and "nextMessages cd (mr_protocol r) (mr_buffer r @ concat cs) False st = ((msgs, rest, Ok ()), b, st')"
  shows "feed dc cd cs r st = Some (Ok (), msgs, after_segment (r\<lparr>mr_buffer := mr_buffer r @ concat cs\<rparr>) b rest, st')"
  using assms
proof (induction cs arbitrary: r)
  case (Cons c cs)
  show ?case
  proof (cases "cs = []")
    case True
    then have iter: "read_iter dc cd c \<lparr>rs_index = 0, rs_reader = r, rs_store = st, rs_messages = []\<rparr> =
      read_complete dc cd \<lparr>rs_index = int (length c), rs_reader = r\<lparr>mr_buffer := mr_buffer r @ c\<rparr>, rs_store = st, rs_messages = []\<rparr>"
      using Cons.prems by (subst read_iter_buffer) auto
    show ?thesis using Cons.prems True
      by (simp add: Read_step iter read_complete_messages)
  next
    case False
    then have "0 < length (concat cs)" using Cons.prems(1) by (cases cs) auto
    then have lt: "length (mr_buffer r) + length c < unat (mr_length r)" using Cons.prems(5) by (simp only: concat.simps length_append)
    have "Read dc cd c r st = Some (Ok (), \<lparr>rs_index = int (length c), rs_reader = r\<lparr>mr_buffer := mr_buffer r @ c\<rparr>, rs_store = st, rs_messages = []\<rparr>)"
      using Cons.prems lt by (simp add: Read_step read_iter_buffer Let_def)
    then show ?thesis using Cons.IH [of "r\<lparr>mr_buffer := mr_buffer r @ c\<rparr>"] Cons.prems False by simp
  qed
qed simp

lemma feed_segment:
  assumes "clean r" "p \<le> 10" "list_all (\<lambda>c. c \<noteq> []) (c # cs)" "length (concat (c # cs)) = unat n"
    and "nextMessages cd p (concat (c # cs)) False st = ((msgs, rest, Ok ()), b, st')"
  shows "\<exists>r'. feed dc cd ((header ts p n @ c) # cs) r st = Some (Ok (), msgs, r', st') \<and> mr_batching r' = b \<and> (\<not> b \<longrightarrow> clean r')"
proof -
  let ?r1 = "r\<lparr>mr_timestamp := PutUint32 ts, mr_protocol := p, mr_length := n, mr_partialHeader := [], mr_buffer := c\<rparr>"
  have c: "c \<noteq> []" "length c \<le> unat n" using assms(3,4) by auto
  note iter = read_iter_header [OF cleanD [OF assms(1)] assms(2) c(1,2), of dc cd ts st]
  have fin: "mr_batching (after_segment q b rest) = b \<and> (\<not> b \<longrightarrow> clean (after_segment q b rest))" if "mr_partialHeader q = []" for q
    using that by (simp add: after_segment_def reader_reset_def clean_def)
  show ?thesis
  proof (cases "cs = []")
    case True
    then have "Read dc cd (header ts p n @ c) r st = Some (Ok (), \<lparr>rs_index = int (8 + length c), rs_reader = after_segment ?r1 b rest, rs_store = st', rs_messages = msgs\<rparr>)"
      using assms(1,4,5) by (simp add: Read_step iter Let_def read_complete_messages clean_def)
    then show ?thesis using True fin [of ?r1] by simp
  next
    case False
    then have "0 < length (concat cs)" using assms(3) by (cases cs) auto
    then have "length c \<noteq> unat n" using assms(4) by (simp only: concat.simps length_append)
    then have "Read dc cd (header ts p n @ c) r st = Some (Ok (), \<lparr>rs_index = int (8 + length c), rs_reader = ?r1, rs_store = st, rs_messages = []\<rparr>)"
      by (simp add: Read_step iter Let_def)
    moreover have "feed dc cd cs ?r1 st = Some (Ok (), msgs, after_segment (?r1\<lparr>mr_buffer := c @ concat cs\<rparr>) b rest, st')"
      using feed_buffer [of cs ?r1 cd st msgs rest b st' dc] assms False c(1) by (simp add: clean_def)
    ultimately show ?thesis using fin [of "?r1\<lparr>mr_buffer := c @ concat cs\<rparr>"] by simp
  qed
qed

subsection \<open>Decoding and marshalling\<close>

text \<open>The outcome of decoding a message does not depend on the old content.\<close>

definition stable :: "'f cbor_decoder \<Rightarrow> bool" where
  "stable cd \<longleftrightarrow> (\<forall>ty v w data. snd (cd_into cd ty v data) = snd (cd_into cd ty w data))"

lemma stableE:
  assumes "stable cd"
  obtains v' w' r where "cd_into cd ty v data = (v', r)" "cd_into cd ty w data = (w', r)"
  using assms unfolding stable_def by (metis prod.collapse)

lemma nextMessage_store:
  assumes "stable cd"
  shows "fst (nextMessage cd p data st) = fst (nextMessage cd p data st2)"
proof (cases "\<exists>k a rest ty. cd_first cd data = Ok (AUint k # a, rest) \<and> ProtocolToMessage p (ucast k) = Ok ty")
  case True
  then obtain k a rest ty where t: "cd_first cd data = Ok (AUint k # a, rest)" "ProtocolToMessage p (ucast k) = Ok ty" by blast
  obtain v w r where "cd_into cd ty (shared_content cd st ty) (take (length data - length rest) data) = (v, r)"
    "cd_into cd ty (shared_content cd st2 ty) (take (length data - length rest) data) = (w, r)"
    using stableE [OF assms] by metis
  then show ?thesis using t by (cases r) (simp_all add: nextMessage_def)
next
  case False
  then show ?thesis
    by (cases "cd_first cd data") (auto simp: nextMessage_def split: list.splits any.splits res.splits)
qed

lemma next_messages_store:
  "stable cd \<Longrightarrow> fst (next_messages f cd p data b st) = fst (next_messages f cd p data b st2) \<and>
   fst (snd (next_messages f cd p data b st)) = fst (snd (next_messages f cd p data b st2))"
proof (induction f arbitrary: data st st2)
  case (Suc f)
  obtain q s1 where 1: "nextMessage cd p data st = (q, s1)" by fastforce
  obtain s2 where 2: "nextMessage cd p data st2 = (q, s2)"
    using nextMessage_store [OF Suc.prems, of p data st st2] 1 by (metis fst_conv prod.collapse)
  show ?case using Suc.IH [OF Suc.prems, of _ s1 s2] 1 2 by (auto split: res.splits prod.splits) (metis fst_conv snd_conv)+
qed simp

lemma next_messages_error_batching:
  "next_messages f cd p data b st = ((msgs, rest, Err e), b', st') \<Longrightarrow> b' = b"
  by (induction f arbitrary: data st msgs) (auto split: res.splits prod.splits if_splits)

lemma marshal_messages_Ok:
  "marshal_messages enc ms payload = (Ok (), out) \<longleftrightarrow> (\<exists>bs. list_all2 (\<lambda>m b. enc m = Ok b) ms bs \<and> out = payload @ concat bs)"
proof (induction ms arbitrary: payload)
  case (Cons m ms)
  show ?case by (cases "enc m") (auto simp: Cons list_all2_Cons1)
qed auto

lemma MarshalDataItem_OkI:
  assumes "list_all2 (\<lambda>m b. enc m = Ok b) (sg_messages s) bs"
  defines "payload \<equiv> sg_Payload s @ concat bs"
  shows "MarshalDataItem enc s = (Ok (header (sg_Timestamp s) (sg_Protocol s) (of_nat (length payload)) @ payload),
     s\<lparr>sg_Payload := payload, sg_PayloadLength := of_nat (length payload)\<rparr>)"
proof -
  have "marshal_messages enc (sg_messages s) (sg_Payload s) = (Ok (), payload)"
    using assms marshal_messages_Ok by blast
  then show ?thesis by (simp add: MarshalDataItem_def Let_def header_def)
qed

lemma MarshalDataItem_OkD:
  assumes "MarshalDataItem enc s = (Ok out, s')"
  obtains bs where "list_all2 (\<lambda>m b. enc m = Ok b) (sg_messages s) bs"
    "s' = s\<lparr>sg_Payload := sg_Payload s @ concat bs, sg_PayloadLength := of_nat (length (sg_Payload s @ concat bs))\<rparr>"
    "out = header (sg_Timestamp s) (sg_Protocol s) (of_nat (length (sg_Payload s'))) @ sg_Payload s'"
proof -
  obtain u payload where "marshal_messages enc (sg_messages s) (sg_Payload s) = (Ok u, payload)"
    using assms by (auto simp: MarshalDataItem_def split: prod.splits res.splits)
  then obtain bs where bs: "list_all2 (\<lambda>m b. enc m = Ok b) (sg_messages s) bs"
    using marshal_messages_Ok [of enc "sg_messages s" "sg_Payload s" payload] by auto
  show thesis using that [OF bs] assms MarshalDataItem_OkI [OF bs] by simp
qed

subsection \<open>Example data\<close>

lemma next_messages_Nil: "next_messages f cd p [] b st = (([], [], Ok ()), b, st)"
  by (cases f) simp_all

definition ex_cd :: "bytes cbor_decoder" where
  "ex_cd = \<lparr>cd_first = (\<lambda>d. case d of a # b # rest \<Rightarrow> Ok ([AUint (ucast b)], rest) | _ \<Rightarrow> Err (ErrMsg ''unexpected EOF'')),
     cd_zero = (\<lambda>ty. []), cd_into = (\<lambda>ty old raw. (raw, Ok ())), cd_intoFirst = (\<lambda>ty old raw. (raw, Ok ())), cd_setRaw = (\<lambda>raw v. v), cd_block = (\<lambda>d. Ok (take 2 d, drop 2 d))\<rparr>"

lemma ex_stable: "stable ex_cd"
  by (simp add: stable_def ex_cd_def)

definition ex_store :: "bytes msg_store" where
  "ex_store = \<lparr>ms_heap = Map.empty, ms_next = 0\<rparr>"

definition ex_segment :: "bytes Segment" where
  "ex_segment = \<lparr>sg_Timestamp = 5, sg_Protocol = 2, sg_PayloadLength = 0, sg_Payload = [], sg_Direction = DirectionIn, sg_messages = [[0x81, 2]]\<rparr>"

lemma clean_new: "clean NewMessageReader"
  by (simp add: clean_def NewMessageReader_def)

lemma ex_roll_forward: "ProtocolToMessage 2 2 = Ok MessageRollForward"
  by (simp add: ProtocolToMessage_def protocol_tables)

lemma ex_marshal: "MarshalDataItem Ok ex_segment = (Ok (header 5 2 2 @ [0x81, 2]),
   ex_segment\<lparr>sg_Payload := [0x81, 2], sg_PayloadLength := 2\<rparr>)"
  by (simp add: MarshalDataItem_def ex_segment_def Let_def header_def)

text \<open>A complete segment that cannot be decoded stays in the buffer.\<close>

lemma stuck_after_error:
  assumes "mr_buffer r \<noteq> []" "length (mr_buffer r) = unat (mr_length r)" "\<not> mr_batching r" "stable cd"
    and "nextMessages cd (mr_protocol r) (mr_buffer r) False st0 = ((msgs, rest, Err e), b, st1)" "data \<noteq> []"
  shows "\<exists>s. Read dc cd data r st = Some (Err e, s) \<and> rs_messages s = [] \<and> rs_reader s = r"
proof -
  let ?n = "nextMessages cd (mr_protocol r) (mr_buffer r) False"
  obtain x b2 st' where x: "?n st = (x, b2, st')" by (cases "?n st") auto
  have "x = (msgs, rest, Err e) \<and> b2 = b"
    using next_messages_store [OF assms(4), of "length (mr_buffer r)" "mr_protocol r" "mr_buffer r" False st st0] x assms(5)
    by (simp add: nextMessages_def)
  moreover have "b = False" using assms(5) next_messages_error_batching unfolding nextMessages_def by blast
  ultimately have n: "?n st = ((msgs, rest, Err e), False, st')" using x by simp
  have r: "r\<lparr>mr_batching := False\<rparr> = r" "r\<lparr>mr_buffer := mr_buffer r\<rparr> = r" using assms(3) by (cases r; simp)+
  have "read_fill data 0 r = Ok (0, r)" using assms(2) by (simp add: read_fill_Ok r)
  then show ?thesis
    using assms(1,2,3,6) n
    by (auto simp: Read_step read_iter_def read_body_def read_complete_def Let_def r)
qed

subsection \<open>Properties\<close>


text \<open>Claim C8 (segment_transport): a segment built by \<open>MarshalDataItem\<close> with less than
  65536 bytes of payload is read back: if its eight header bytes arrive with the first bytes of the
  payload, the reader returns the messages of the payload, however the rest of the payload is cut
  into reads, and is ready for the next segment.\<close>

theorem segment_transport:
  assumes "MarshalDataItem enc sg = (Ok out, sg')" "sg_Protocol sg \<le> 10" "length (sg_Payload sg') < 65536"
    and "clean r" "nextMessages cd (sg_Protocol sg) (sg_Payload sg') False st = ((msgs, rest, Ok ()), b, st')"
    and "list_all (\<lambda>c. c \<noteq> []) (c # cs)" "concat (c # cs) = sg_Payload sg'"
  shows "\<exists>r'. feed dc cd ((take 8 out @ c) # cs) r st = Some (Ok (), msgs, r', st') \<and> mr_batching r' = b \<and> (\<not> b \<longrightarrow> clean r')"
proof -
  obtain n where out: "out = header (sg_Timestamp sg) (sg_Protocol sg) n @ sg_Payload sg'" and n: "n = of_nat (length (sg_Payload sg'))"
    using assms(1) by (auto elim!: MarshalDataItem_OkD)
  have un: "unat n = length (sg_Payload sg')" using assms(3) by (simp add: n unat_of_nat)
  have len: "length (concat (c # cs)) = unat n" unfolding assms(7) un ..
  have t: "take 8 out = header (sg_Timestamp sg) (sg_Protocol sg) n" by (simp add: out)
  show ?thesis
    unfolding t by (rule feed_segment [OF assms(4,2,6) len]) (simp only: assms(5,7))
qed

theorem segment_transport_witness:
  "\<exists>r' st'. feed [] ex_cd [take 8 (header 5 2 2 @ [0x81, 2]) @ [0x81], [2]] NewMessageReader ex_store =
     Some (Ok (), [Shared MessageRollForward], r', st') \<and> clean r'"
proof -
  let ?st = "ex_store\<lparr>ms_heap := [Shared MessageRollForward \<mapsto> \<lparr>mo_type = MessageRollForward, mo_content = [0x81, 2]\<rparr>]\<rparr>"
  have n: "nextMessages ex_cd (sg_Protocol ex_segment) (sg_Payload (ex_segment\<lparr>sg_Payload := [0x81, 2], sg_PayloadLength := 2\<rparr>)) False ex_store =
     (([Shared MessageRollForward], [], Ok ()), False, ?st)"
    by (simp add: nextMessages_def nextMessage_def ex_cd_def ex_segment_def ex_roll_forward Let_def ex_store_def set_shared_def)
  show ?thesis
    using segment_transport [OF ex_marshal _ _ clean_new n, of "[0x81]" "[[2]]" "[]"]
    by (auto simp: ex_segment_def simp del: feed.simps)
qed

text \<open>After \<open>MarshalDataItem\<close> the length field agrees with
  the payload exactly when the payload has less than 65536 bytes; a longer payload is sent with a
  truncated length and no error.\<close>

theorem segment_complete_iff:
  assumes "MarshalDataItem enc sg = (Ok out, sg')"
  shows "Complete sg' \<longleftrightarrow> length (sg_Payload sg') < 65536"
proof -
  have "sg_PayloadLength sg' = of_nat (length (sg_Payload sg'))" using assms by (auto elim!: MarshalDataItem_OkD)
  then have "unat (sg_PayloadLength sg') = length (sg_Payload sg') mod 65536" by (simp add: unat_of_nat)
  then show ?thesis by (simp add: Complete_def) (metis mod_less mod_less_divisor zero_less_numeral)
qed

theorem segment_complete_iff_witness: "Complete (ex_segment\<lparr>sg_Payload := [0x81, 2], sg_PayloadLength := 2\<rparr>)"
  using segment_complete_iff [OF ex_marshal] by simp

text \<open>\<open>MarshalDataItem\<close> appends to the payload of the
  segment, so that calling it a second time sends every message twice.\<close>

theorem marshal_twice_duplicates:
  assumes "MarshalDataItem enc sg = (Ok out, sg')" "sg_Payload sg = []"
  shows "\<exists>out2 sg2. MarshalDataItem enc sg' = (Ok out2, sg2) \<and> sg_Payload sg2 = sg_Payload sg' @ sg_Payload sg'"
proof -
  obtain bs where bs: "list_all2 (\<lambda>m b. enc m = Ok b) (sg_messages sg') bs" "sg_Payload sg' = concat bs"
    using assms by (auto elim!: MarshalDataItem_OkD)
  show ?thesis using MarshalDataItem_OkI [OF bs(1)] bs(2) by simp
qed

theorem marshal_twice_duplicates_witness:
  "\<exists>out2 sg2. MarshalDataItem Ok (ex_segment\<lparr>sg_Payload := [0x81, 2], sg_PayloadLength := 2\<rparr>) = (Ok out2, sg2) \<and>
     sg_Payload sg2 = [0x81, 2, 0x81, 2]"
  using marshal_twice_duplicates [OF ex_marshal] by (simp add: ex_segment_def)

text \<open>When the eight bytes of a header arrive alone, the next read of at
  most eight bytes is taken for more of the header and its bytes are lost, and the read after it
  panics with a negative slice index.\<close>

theorem lone_header_panics:
  assumes "mr_buffer r = []" "mr_partialHeader r = []" "p \<le> 10"
    and "0 < length chunk" "length chunk \<le> 8" "8 < length later"
  shows "\<exists>s1 s2 s3. Read dc cd (header ts p n) r st = Some (Ok (), s1) \<and> rs_messages s1 = [] \<and>
     Read dc cd chunk (rs_reader s1) st = Some (Ok (), s2) \<and> rs_messages s2 = [] \<and>
     Read dc cd later (rs_reader s2) st = Some (Panic ''slice bounds out of range'', s3)"
proof -
  let ?r1 = "r\<lparr>mr_partialHeader := header ts p n\<rparr>" and ?r2 = "r\<lparr>mr_partialHeader := header ts p n @ chunk\<rparr>"
  have sf: "slice_from d 0 = Ok d" for d by simp
  have "header ts p n \<noteq> []" "chunk \<noteq> []" "later \<noteq> []" using assms(4,6) length_header [of ts p n] by (auto simp del: length_header)
  then have 1: "Read dc cd (header ts p n) r st = Some (Ok (), \<lparr>rs_index = 0, rs_reader = ?r1, rs_store = st, rs_messages = []\<rparr>)"
    and 2: "Read dc cd chunk ?r1 st = Some (Ok (), \<lparr>rs_index = 0, rs_reader = ?r2, rs_store = st, rs_messages = []\<rparr>)"
    using assms(1,2,5) by (simp_all add: Read_step read_iter_def sf Let_def)
  have "readHeader (header ts p n @ chunk @ later) = ((PutUint32 ts, p, n), Ok ())" by (rule readHeader_header [OF assms(3)])
  then have "\<exists>s. Read dc cd later ?r2 st = Some (Panic ''slice bounds out of range'', s)"
    using assms(1,4,6) \<open>later \<noteq> []\<close> by (simp add: Read_step read_iter_def sf read_body_def read_fill_def slice_from_def Let_def)
  then show ?thesis using 1 2 by auto
qed

theorem lone_header_panics_witness:
  "\<exists>s1 s2 s3. Read [] ex_cd (header 5 2 20) NewMessageReader ex_store = Some (Ok (), s1) \<and>
     Read [] ex_cd [0x81, 2] (rs_reader s1) ex_store = Some (Ok (), s2) \<and>
     Read [] ex_cd (replicate 9 0) (rs_reader s2) ex_store = Some (Panic ''slice bounds out of range'', s3)"
proof -
  have "(2 :: uint16) \<le> 10" by simp
  from lone_header_panics [OF _ _ this, of NewMessageReader "[0x81, 2]" "replicate 9 0" "[]" ex_cd 5 20 ex_store]
  show ?thesis by (auto simp: NewMessageReader_def)
qed

text \<open>Claim C40 (same_type_messages_alias): two messages of the same type in one segment are returned as
  the same object, so that both show the content of the second one and the first one is lost.\<close>

theorem same_type_messages_alias:
  assumes "p \<le> 10" "clean r" "m1 \<noteq> []" "m2 \<noteq> []" "length (m1 @ m2) = unat n"
    and "cd_first cd (m1 @ m2) = Ok (AUint k # a1, m2)" "cd_first cd m2 = Ok (AUint k # a2, [])"
    and "ProtocolToMessage p (ucast k) = Ok ty" "ty \<noteq> MessageStartBatch"
    and "\<And>v. \<exists>w. cd_into cd ty v m1 = (w, Ok ())" "\<And>v. \<exists>w. cd_into cd ty v m2 = (w, Ok ())"
  shows "\<exists>s v. Read dc cd (header ts p n @ m1 @ m2) r st = Some (Ok (), s) \<and> rs_messages s = [Shared ty, Shared ty] \<and>
     map (\<lambda>q. map_option mo_content (ms_heap (rs_store s) q)) (rs_messages s) = [Some v, Some v] \<and> (\<exists>w w'. cd_into cd ty w m2 = (w', Ok ()) \<and> v = cd_setRaw cd m2 w')"
proof -
  obtain l where l: "length (m1 @ m2) = Suc (Suc l)" using assms(3,4) by (cases m1; cases m2) auto
  obtain v1 where v1: "cd_into cd ty (shared_content cd st ty) m1 = (v1, Ok ())" using assms(10) by blast
  let ?st1 = "set_shared ty (cd_setRaw cd m1 v1) st"
  obtain v2 where v2: "cd_into cd ty (shared_content cd ?st1 ty) m2 = (v2, Ok ())" using assms(11) by blast
  let ?v = "cd_setRaw cd m2 v2"
  have n: "nextMessages cd p (m1 @ m2) False st = (([Shared ty, Shared ty], [], Ok ()), False,
     set_shared ty ?v ?st1)"
    using assms(3,4,6-9) v1 v2 by (simp only: nextMessages_def l) (simp add: nextMessage_def Let_def next_messages_Nil)
  have h: "m1 @ m2 \<noteq> []" "length (m1 @ m2) \<le> unat n" using assms(3,5) by auto
  let ?s = "\<lparr>rs_index = int (8 + length (m1 @ m2)), rs_reader = r\<lparr>mr_timestamp := PutUint32 ts, mr_protocol := p, mr_length := n,
     mr_partialHeader := [], mr_buffer := m1 @ m2\<rparr>, rs_store = st, rs_messages = []\<rparr>"
  have "read_iter dc cd (header ts p n @ m1 @ m2) \<lparr>rs_index = 0, rs_reader = r, rs_store = st, rs_messages = []\<rparr> = read_complete dc cd ?s"
    unfolding read_iter_header [OF cleanD [OF assms(2)] assms(1) h] using assms(5) by (simp add: Let_def)
  moreover have "read_complete dc cd ?s = ReadContinue (?s\<lparr>rs_store := set_shared ty ?v ?st1,
      rs_messages := rs_messages ?s @ [Shared ty, Shared ty], rs_reader := after_segment (rs_reader ?s) False []\<rparr>)"
    by (rule read_complete_messages) (use assms(2) n in \<open>simp_all add: clean_def\<close>)
  ultimately show ?thesis using v2 by (auto simp: Read_step set_shared_def)
qed

theorem same_type_messages_alias_witness:
  "\<exists>s. Read [] ex_cd (header 5 2 4 @ [0x81, 2] @ [0x82, 2]) NewMessageReader ex_store = Some (Ok (), s) \<and>
     map (\<lambda>q. map_option mo_content (ms_heap (rs_store s) q)) (rs_messages s) = [Some [0x82, 2], Some [0x82, 2]]"
  using same_type_messages_alias [OF _ clean_new, of 2 "[0x81, 2]" "[0x82, 2]" 4 ex_cd 2 "[]" "[]" MessageRollForward "[]" 5 ex_store]
  by (auto simp: ex_cd_def ex_roll_forward)

end
