(* ===== verification/CborGrammar.thy ===== *)
theory CborGrammar
  imports CborDec
begin

text \<open>
  The syntax of CBOR as an inductive relation: \<open>item p r\<close> says that \<open>p\<close> starts with a data item and \<open>r\<close> is what follows it. Data that passes the
  library's check is in the relation, and the decoder reads what is in the relation without a panic and up to the same rest.
\<close>

subsection \<open>The grammar\<close>

inductive item :: "bytes \<Rightarrow> bytes \<Rightarrow> bool"
  and items :: "nat \<Rightarrow> bytes \<Rightarrow> bytes \<Rightarrow> bool"
  and chunks_until :: "byte \<Rightarrow> bytes \<Rightarrow> bytes \<Rightarrow> bool"
  and items_until :: "nat \<Rightarrow> bytes \<Rightarrow> bytes \<Rightarrow> bool" where
  item_leaf: "getHead p = Ok ((t, ai, val), d) \<Longrightarrow> t = 0x00 \<or> t = 0x20 \<or> t = 0xE0 \<Longrightarrow> item p d"
| item_string: "getHead p = Ok ((t, ai, val), d) \<Longrightarrow> t = 0x40 \<or> t = 0x60 \<Longrightarrow> ai \<noteq> 31 \<Longrightarrow> cut val d = Ok (x, r) \<Longrightarrow> item p r"
| item_chunks: "getHead p = Ok ((t, 31, val), d) \<Longrightarrow> t = 0x40 \<or> t = 0x60 \<Longrightarrow> chunks_until t d r \<Longrightarrow> item p r"
| item_array: "getHead p = Ok ((0x80, ai, val), d) \<Longrightarrow> ai \<noteq> 31 \<Longrightarrow> items (unat val) d r \<Longrightarrow> item p r"
| item_map: "getHead p = Ok ((0xA0, ai, val), d) \<Longrightarrow> ai \<noteq> 31 \<Longrightarrow> items (2 * unat val) d r \<Longrightarrow> item p r"
| item_array_indef: "getHead p = Ok ((0x80, 31, val), d) \<Longrightarrow> items_until n d r \<Longrightarrow> item p r"
| item_map_indef: "getHead p = Ok ((0xA0, 31, val), d) \<Longrightarrow> items_until (2 * n) d r \<Longrightarrow> item p r"
| item_tag: "getHead p = Ok ((0xC0, ai, val), d) \<Longrightarrow> ai \<noteq> 31 \<Longrightarrow> item d r \<Longrightarrow> item p r"
| items_0: "items 0 p p"
| items_Suc: "item p q \<Longrightarrow> items n q r \<Longrightarrow> items (Suc n) p r"
| chunks_break: "isBreakFlag b \<Longrightarrow> chunks_until t (b # p) p"
| chunks_next: "\<not> isBreakFlag b \<Longrightarrow> getHead (b # p) = Ok ((t, ai, val), d) \<Longrightarrow> ai \<noteq> 31 \<Longrightarrow> cut val d = Ok (x, q) \<Longrightarrow>
    chunks_until t q r \<Longrightarrow> chunks_until t (b # p) r"
| until_break: "isBreakFlag b \<Longrightarrow> items_until 0 (b # p) p"
| until_next: "\<not> isBreakFlag b \<Longrightarrow> item (b # p) q \<Longrightarrow> items_until n q r \<Longrightarrow> items_until (Suc n) (b # p) r"

lemma getHead_consumes: "getHead p = Ok (h, d) \<Longrightarrow> length d < length p"
  by (auto simp: getHead_def Let_def raw_argument_def index_panic_def split: list.splits if_splits)

lemma cut_consumes: "cut val d = Ok (x, r) \<Longrightarrow> length r \<le> length d"
  by (auto simp: cut_def index_panic_def split: if_splits)

lemma grammar_consumes:
  "item p r \<Longrightarrow> length r < length p" "items n p r \<Longrightarrow> length r \<le> length p" "chunks_until t p r \<Longrightarrow> length r < length p"
  "items_until n p r \<Longrightarrow> length r < length p"
  by (induction rule: item_items_chunks_until_items_until.inducts) (auto dest!: getHead_consumes cut_consumes)

subsection \<open>What passes the check is in the grammar\<close>

lemma wellformedHead_getHead: "wellformedHead p = Ok x \<Longrightarrow> getHead p = Ok x"
  by (auto simp: wellformedHead_def getHead_def Let_def argument_def raw_argument_def split: list.splits if_splits)

lemma getHead_type: "getHead (b # p) = Ok ((t, ai, val), d) \<Longrightarrow> t = getType b \<and> ai = getAdditionalInformation b"
  by (auto simp: getHead_def Let_def raw_argument_def index_panic_def split: if_splits)

lemma getType_members: "getType b \<in> {0x00, 0x20, 0x40, 0x60, 0x80, 0xA0, 0xC0, 0xE0}"
proof -
  have all: "\<forall>k\<in>set [0..<256]. getType (of_nat k) \<in> {0x00, 0x20, 0x40, 0x60, 0x80, 0xA0, 0xC0, 0xE0}" by code_simp
  have "unat b \<in> set [0..<256]" by simp
  from bspec [OF all this] show ?thesis by simp
qed

lemma wellformedHead_tag: "wellformedHead p = Ok ((0xC0, ai, val), d) \<Longrightarrow> ai \<noteq> 31"
  by (auto simp: wellformedHead_def Let_def argument_def split: list.splits if_splits)

lemma wf_string_cut: "wf_string val d = Ok r \<Longrightarrow> cut val d = Ok (take (unat val) d, r)"
  by (auto simp: wf_string_def cut_def split: if_splits)

lemma wf_tags_item: "wf_tags k dm chk dp n p = Ok (d, c) \<Longrightarrow> item c r \<Longrightarrow> item p r"
proof (induction k dm chk dp n p rule: wf_tags.induct)
  case (2 k dm chk dp n data)
  from 2(2) obtain b t where b: "data = b # t" by (cases data) auto
  show ?case
  proof (cases "getType b = 0xC0")
    case True
    from 2(2) b True obtain t' ai val data' where w: "wellformedHead data = Ok ((t', ai, val), data')"
      "wf_tags k dm chk (Suc dp) val data' = Ok (d, c)" by (auto split: if_splits)
    have g: "getHead data = Ok ((t', ai, val), data')" by (rule wellformedHead_getHead [OF w(1)])
    then have "t' = 0xC0" using getHead_type b True by metis
    moreover have "item data' r" using 2(1) [OF b, of "(t', ai, val)" data'] w 2(2,3) True b by (auto split: if_splits)
    ultimately show ?thesis using item_tag g wellformedHead_tag w(1) by metis
  next
    case False
    then show ?thesis using 2(2,3) b by (auto split: if_splits)
  qed
qed simp

lemma wf_grammar:
  "wf_item f dm chk dp p = Ok r \<Longrightarrow> item p r"
  "wf_items f dm chk n dp p = Ok r \<Longrightarrow> items n p r"
  "wf_chunks f dm chk k t dp p = Ok r \<Longrightarrow> t = 0x40 \<or> t = 0x60 \<Longrightarrow> chunks_until t p r"
  "wf_until f dm chk k t i dp p = Ok r \<Longrightarrow> \<exists>n. items_until n p r \<and> (t = 0xA0 \<longrightarrow> (i + n) mod 2 = 0)"
proof (induction f dm chk dp p and f dm chk n dp p and f dm chk k t dp p and f dm chk k t i dp p
    arbitrary: r and r and r and r rule: wf_item_wf_items_wf_chunks_wf_until.induct)
  case (2 f dm chk dp data)
  from 2(6) obtain t ai val d where h: "wellformedHead data = Ok ((t, ai, val), d)" by auto
  note gh = wellformedHead_getHead [OF h]
  obtain b ds where "data = b # ds" using gh by (cases data) (simp add: getHead_def index_panic_def, blast)
  then have b: "t = getType b" using gh getHead_type by blast
  consider (str) "t = 0x40 \<or> t = 0x60" | (box) "t = 0x80 \<or> t = 0xA0" | (tag) "t = 0xC0"
    | (leaf) "\<not> (t = 0x40 \<or> t = 0x60)" "\<not> (t = 0x80 \<or> t = 0xA0)" "t \<noteq> 0xC0" by blast
  then show ?case
  proof cases
    case str
    show ?thesis
    proof (cases "ai = 31")
      case True
      then have "chunks_until t d r" using str 2(6) 2(1) [of t ai d r] by (simp add: h)
      then show ?thesis using item_chunks gh True str by blast
    next
      case False
      then have "cut val d = Ok (take (unat val) d, r)" using str 2(6) wf_string_cut by (simp add: h)
      then show ?thesis using item_string [OF gh str False] by blast
    qed
  next
    case box
    then have n: "\<not> (t = 0x40 \<or> t = 0x60)" by auto
    show ?thesis
    proof (cases "ai = 31")
      case True
      then obtain m where m: "items_until m d r" "t = 0xA0 \<longrightarrow> m mod 2 = 0"
        using box 2(6) 2(2) [OF n box, of ai d r] by (auto simp: h split: if_splits)
      show ?thesis
      proof (cases "t = 0x80")
        case True
        then show ?thesis using item_array_indef gh m(1) \<open>ai = 31\<close> by metis
      next
        case False
        then have a: "t = 0xA0" using box by simp
        then have "m = 2 * (m div 2)" using m(2) by presburger
        then show ?thesis using item_map_indef gh m(1) \<open>ai = 31\<close> a by metis
      qed
    next
      case False
      then show ?thesis using box gh 2(6) 2(3,4) [OF n box, of ai val d r] item_array [of data ai val d r] item_map [of data ai val d r]
        by (auto simp: h split: if_splits)
    qed
  next
    case tag
    then have n: "\<not> (t = 0x40 \<or> t = 0x60)" "\<not> (t = 0x80 \<or> t = 0xA0)" by auto
    from 2(6) tag obtain dp' c where c: "wf_tags (length d) dm chk dp val d = Ok (dp', c)" "wf_item f dm chk dp' c = Ok r"
      by (auto simp: h)
    have "item d r" using wf_tags_item [OF c(1)] 2(5) [OF n tag c(2)] by simp
    then show ?thesis using item_tag gh tag wellformedHead_tag h by metis
  next
    case leaf
    then have "t = 0x00 \<or> t = 0x20 \<or> t = 0xE0" using getType_members [of b] b by auto
    then show ?thesis using item_leaf [OF gh] leaf 2(6) by (simp add: h)
  qed
next
  case (3 f dm chk dp data)
  then show ?case by (simp add: items_0)
next
  case (4 f dm chk n dp data)
  then show ?case by (auto intro: items_Suc)
next
  case (6 f dm chk k t dp data)
  from 6(3) obtain b ds where b: "data = b # ds" by (cases data) auto
  show ?case
  proof (cases "isBreakFlag b")
    case False
    then obtain d where d: "wf_item f dm chk dp data = Ok d" "wf_chunks f dm chk k t dp d = Ok r" "\<not> t \<noteq> getType b" "getAdditionalInformation b \<noteq> 31"
      using 6(3) b by (auto split: if_splits)
    have t: "t = 0x40 \<or> t = 0x60" by (rule 6(4))
    have i: "item (b # ds) d" using 6(1) [OF b False d(3,4,1)] b by simp
    then obtain ai val d' x where "getHead (b # ds) = Ok ((t, ai, val), d')" "ai \<noteq> 31" "cut val d' = Ok (x, d)"
      by cases (use t d(3,4) getHead_type in \<open>fastforce+\<close>)
    then show ?thesis using chunks_next [OF False] 6(2) [OF b False d(3,4,2) t] b by simp
  qed (use 6(3) b chunks_break in auto)
next
  case (8 f dm chk k t i dp data)
  from 8(3) obtain b ds where b: "data = b # ds" by (cases data) auto
  show ?case
  proof (cases "isBreakFlag b")
    case True
    then have "ds = r" "\<not> (t = 0xA0 \<and> i mod 2 = 1)" using 8(3) b by (simp_all split: if_splits)
    then show ?thesis using until_break [OF True] b by (intro exI [of _ 0]) auto
  next
    case False
    then obtain d where d: "wf_item f dm chk dp data = Ok d" "wf_until f dm chk k t (Suc i) dp d = Ok r"
      "\<not> (t = 0x80 \<and> dm_maxArrayElements dm < int (Suc i))"
      "\<not> (t \<noteq> 0x80 \<and> Suc i mod 2 = 0 \<and> dm_maxMapPairs dm < int (Suc i div 2))"
      using 8(3) b by (auto split: if_splits)
    from 8(2) [OF b False d(3,4,2)] obtain n where n: "items_until n d r" "t = 0xA0 \<longrightarrow> (Suc i + n) mod 2 = 0" by auto
    then have "items_until (Suc n) data r" using until_next [OF False] 8(1) [OF b False d(1)] b by simp
    then show ?thesis using n(2) by (intro exI [of _ "Suc n"]) simp
  qed
qed simp_all

theorem wellformed_item: "wellformed dm extra chk p = Ok r \<Longrightarrow> item p r"
  by (auto simp: wellformed_def intro: wf_grammar split: if_splits)

subsection \<open>What is in the grammar is skipped\<close>

theorem grammar_skip:
  "item p r \<Longrightarrow> length p \<le> g \<Longrightarrow> skip_item g p = Ok r"
  "items n p r \<Longrightarrow> length p \<le> g \<Longrightarrow> skip_items g n p = Ok r"
  "chunks_until t p r \<Longrightarrow> t = 0x40 \<or> t = 0x60 \<Longrightarrow> length p \<le> g \<Longrightarrow> length p \<le> k \<Longrightarrow> skip_until g k p = Ok r"
  "items_until n p r \<Longrightarrow> length p \<le> g \<Longrightarrow> length p \<le> k \<Longrightarrow> skip_until g k p = Ok r"
proof (induction p r and n p r and t p r and n p r arbitrary: g and g and g k and g k rule: item_items_chunks_until_items_until.inducts)
  case (items_Suc p q n r)
  then show ?case using grammar_consumes(1) [OF items_Suc.hyps(1)] by simp
next
  case (chunks_next b p t ai val d x q r)
  obtain j h where "k = Suc j" "g = Suc h" using chunks_next.prems by (cases k; cases g) auto
  moreover have "length q < length (b # p)"
    using getHead_consumes [OF chunks_next.hyps(2)] cut_consumes [OF chunks_next.hyps(4)] by simp
  ultimately show ?case using chunks_next by auto
next
  case (until_next b p q n r)
  obtain j where "k = Suc j" using until_next.prems by (cases k) auto
  then show ?case using until_next grammar_consumes(1) [OF until_next.hyps(2)] by simp
next
  case (chunks_break b t p)
  then show ?case by (cases k) auto
next
  case (until_break b p)
  then show ?case by (cases k) auto
next
  case (item_leaf p t ai val d)
  then show ?case using getHead_consumes [OF item_leaf.hyps(1)] by (cases g) auto
next
  case (item_string p t ai val d x r)
  then show ?case using getHead_consumes [OF item_string.hyps(1)] by (cases g) auto
next
  case (item_chunks p t val d r)
  then show ?case using getHead_consumes [OF item_chunks.hyps(1)] by (cases g) auto
next
  case (item_array p ai val d r)
  then show ?case using getHead_consumes [OF item_array.hyps(1)] by (cases g) auto
next
  case (item_map p ai val d r)
  then show ?case using getHead_consumes [OF item_map.hyps(1)] by (cases g) auto
next
  case (item_array_indef p val d n r)
  then show ?case using getHead_consumes [OF item_array_indef.hyps(1)] by (cases g) auto
next
  case (item_map_indef p val d n r)
  then show ?case using getHead_consumes [OF item_map_indef.hyps(1)] by (cases g) auto
next
  case (item_tag p ai val d r)
  then show ?case using getHead_consumes [OF item_tag.hyps(1)] by (cases g) auto
qed simp

corollary item_skip: "item p r \<Longrightarrow> skip p = Ok r"
  by (simp add: skip_def grammar_skip)

subsection \<open>What is in the grammar is parsed without a panic\<close>

inductive_cases items_SucE: "items (Suc n) p r"
inductive_cases items_0E: "items 0 p r"
inductive_cases until_SucE: "items_until (Suc n) p r"
inductive_cases until_0E: "items_until 0 p r"

lemma item_not_Nil: "item p r \<Longrightarrow> p \<noteq> []"
  using grammar_consumes(1) by fastforce

lemma item_tag_content:
  assumes "item (b # p) r" "getType b = 0xC0"
  obtains ai val d where "getHead (b # p) = Ok ((0xC0, ai, val), d)" "item d r"
  using assms(1) by cases (use assms(2) getHead_type in fastforce)+

lemma validBuiltinTag_cases: "validBuiltinTag n c = Ok () \<or> (\<exists>e. validBuiltinTag n c = Err e)"
  by (simp add: validBuiltinTag_def Let_def)

lemma strip_self_item: "item p r \<Longrightarrow> length p \<le> k \<Longrightarrow> \<exists>q. strip_self k p = Ok q \<and> item q r \<and> length q \<le> length p"
proof (induction k arbitrary: p)
  case 0
  then show ?case using item_not_Nil by auto
next
  case (Suc k)
  obtain b t where b: "p = b # t" using item_not_Nil [OF Suc.prems(1)] by (cases p) auto
  show ?case
  proof (cases "getType b = 0xC0")
    case True
    from item_tag_content [OF Suc.prems(1) [unfolded b] True] obtain ai val d where
      d: "getHead p = Ok ((0xC0, ai, val), d)" "item d r" unfolding b .
    have "length d < length p" by (rule getHead_consumes [OF d(1)])
    moreover then obtain q where "strip_self k d = Ok q \<and> item q r \<and> length q \<le> length d" using Suc.IH [OF d(2)] Suc.prems(2) by auto
    ultimately show ?thesis using Suc.prems d b True by auto
  qed (use Suc.prems b in auto)
qed

lemma check_tags_item:
  "item p r \<Longrightarrow> length p \<le> k \<Longrightarrow> check_tags k p = Ok None \<or> (\<exists>e c. check_tags k p = Ok (Some (e, c)) \<and> skip c = Ok r)"
proof (induction k arbitrary: p)
  case 0
  then show ?case using item_not_Nil by auto
next
  case (Suc k)
  obtain b t where b: "p = b # t" using item_not_Nil [OF Suc.prems(1)] by (cases p) auto
  show ?case
  proof (cases "getType b = 0xC0")
    case True
    from item_tag_content [OF Suc.prems(1) [unfolded b] True] obtain ai val d where
      d: "getHead p = Ok ((0xC0, ai, val), d)" "item d r" unfolding b .
    obtain c ds where c: "d = c # ds" using item_not_Nil [OF d(2)] by (cases d) auto
    have "length d < length p" by (rule getHead_consumes [OF d(1)])
    then have "check_tags k d = Ok None \<or> (\<exists>e c. check_tags k d = Ok (Some (e, c)) \<and> skip c = Ok r)"
      using Suc.IH [OF d(2)] Suc.prems(2) by auto
    then show ?thesis using validBuiltinTag_cases [of val c] item_skip [OF d(2)] b c d True by auto
  qed (use b in auto)
qed

text \<open>The outcome of a parser on an item: no panic, and the rest is the one of the grammar.\<close>

definition good :: "bytes \<Rightarrow> 'a res \<times> bytes \<Rightarrow> bool" where
  "good r x \<longleftrightarrow> snd x = r \<and> \<not> is_panic (fst x)"

lemma good_at: "good r (at x d g) \<longleftrightarrow> (case x of Ok a \<Rightarrow> good r (g a) | Err e \<Rightarrow> d = r | Panic p \<Rightarrow> False)"
  by (cases x) (simp_all add: at_def good_def)

lemma good_first_error: "\<not> is_panic x \<Longrightarrow> good r y \<Longrightarrow> good r (first_error x y g)"
  by (cases "(x, y, g)" rule: first_error.cases) (auto simp: good_def)

lemma string_chunks_good: "chunks_until t p r \<Longrightarrow> length p \<le> k \<Longrightarrow> \<exists>b. string_chunks k acc p = Ok (b, r)"
proof (induction k arbitrary: p acc)
  case 0
  then show ?case using grammar_consumes(3) by fastforce
next
  case (Suc k)
  from Suc.prems(1) show ?case
  proof cases
    case (chunks_next b q ai val d x s)
    then show ?thesis using Suc.IH [of s "acc @ x"] Suc.prems getHead_consumes [OF chunks_next(3)] cut_consumes [OF chunks_next(5)] by auto
  qed simp
qed

lemma text_chunks_good:
  "chunks_until t p r \<Longrightarrow> t = 0x40 \<or> t = 0x60 \<Longrightarrow> length p \<le> k \<Longrightarrow> \<exists>x. text_chunks k dm acc p = Ok (x, r) \<and> \<not> is_panic x"
proof (induction k arbitrary: p acc)
  case 0
  then show ?case using grammar_consumes(3) by fastforce
next
  case (Suc k)
  from Suc.prems(1) show ?case
  proof cases
    case (chunks_next b q ai val d x s)
    then show ?thesis
      using Suc.IH [of s "acc @ x"] Suc.prems getHead_consumes [OF chunks_next(3)] cut_consumes [OF chunks_next(5)]
        grammar_skip(3) [OF chunks_next(6) Suc.prems(2), of "length s" "length s"] by auto
  qed simp
qed

definition parses :: "nat \<Rightarrow> cbor_env \<Rightarrow> DecMode \<Rightarrow> bool" where
  "parses g env dm \<longleftrightarrow> (\<forall>strip p r. item p r \<longrightarrow> length p \<le> g \<longrightarrow> good r (parse_item g env dm strip p))"

lemma parsesD: "parses g env dm \<Longrightarrow> item p r \<Longrightarrow> length p \<le> g \<Longrightarrow> \<exists>x. parse_item g env dm strip p = (x, r) \<and> \<not> is_panic x"
  by (metis parses_def good_def prod.collapse)

lemma parse_elems_good:
  assumes "parses g env dm"
  shows "items n p r \<Longrightarrow> length p \<le> g \<Longrightarrow> good r (parse_elems g env dm False n p)"
proof (induction n arbitrary: p)
  case 0
  then show ?case by (auto elim: items_0E simp: good_def)
next
  case (Suc n)
  from Suc.prems(1) obtain q where q: "item p q" "items n q r" by (rule items_SucE)
  obtain x where x: "parse_item g env dm True p = (x, q)" "\<not> is_panic x" using parsesD [OF assms q(1) Suc.prems(2)] by blast
  have "good r (parse_elems g env dm False n q)" using Suc q grammar_consumes(1) [OF q(1)] by simp
  then show ?case using x by (cases x) (auto intro!: good_first_error)
qed

lemma parse_elems_indef_good:
  assumes "parses g env dm"
  shows "items_until n p r \<Longrightarrow> length p \<le> g \<Longrightarrow> length p \<le> k \<Longrightarrow> good r (parse_elems g env dm True k p)"
proof (induction k arbitrary: p n)
  case 0
  then show ?case using grammar_consumes(4) by fastforce
next
  case (Suc k)
  from Suc.prems(1) show ?case
  proof cases
    case (until_break b)
    then show ?thesis by (simp add: good_def)
  next
    case (until_next b p' q m)
    obtain x where x: "parse_item g env dm True p = (x, q)" "\<not> is_panic x" using parsesD [OF assms] until_next Suc.prems(2) by blast
    have "good r (parse_elems g env dm True k q)" using Suc until_next grammar_consumes(1) [OF until_next(4)] by simp
    then show ?thesis using x until_next by (cases x) (auto intro!: good_first_error)
  qed
qed

lemma parse_entries_good:
  assumes "parses g env dm"
  shows "items (2 * n) p r \<Longrightarrow> length p \<le> g \<Longrightarrow> good r (parse_entries g env dm False n p)"
proof (induction n arbitrary: p)
  case 0
  then show ?case by (auto elim: items_0E simp: good_def)
next
  case (Suc n)
  from Suc.prems(1) obtain q s where q: "item p q" "item q s" "items (2 * n) s r" by (auto elim!: items_SucE)
  note l = grammar_consumes(1) [OF q(1)] grammar_consumes(1) [OF q(2)]
  obtain x where x: "parse_item g env dm True p = (x, q)" "\<not> is_panic x" using parsesD [OF assms q(1) Suc.prems(2)] by blast
  obtain y where y: "parse_item g env dm True q = (y, s)" "\<not> is_panic y" using parsesD [OF assms q(2), of True] l Suc.prems(2) by auto
  have "good r (parse_entries g env dm False n s)" using Suc q(3) l by simp
  then show ?case using x y item_skip [OF q(2)] by (cases x; cases y) (auto simp: good_at intro!: good_first_error)
qed

lemma parse_entries_indef_good:
  assumes "parses g env dm"
  shows "items_until (2 * n) p r \<Longrightarrow> length p \<le> g \<Longrightarrow> length p \<le> k \<Longrightarrow> good r (parse_entries g env dm True k p)"
proof (induction k arbitrary: p n)
  case 0
  then show ?case using grammar_consumes(4) by fastforce
next
  case (Suc k)
  from Suc.prems(1) show ?case
  proof cases
    case (until_break b)
    then show ?thesis by (simp add: good_def)
  next
    case (until_next b p' q m)
    then obtain m' where "m = Suc (2 * m')" by (metis Suc_double_not_eq_double even_Suc odd_Suc_div_two oddE dvd_triv_left Suc_eq_plus1)
    with until_next(5) obtain s where s: "item q s" "items_until (2 * m') s r" by (auto elim: until_SucE)
    note l = grammar_consumes(1) [OF until_next(4)] grammar_consumes(1) [OF s(1)]
    obtain x where x: "parse_item g env dm True p = (x, q)" "\<not> is_panic x" using parsesD [OF assms] until_next Suc.prems(2) by blast
    obtain y where y: "parse_item g env dm True q = (y, s)" "\<not> is_panic y"
      using parsesD [OF assms s(1), of True] l Suc.prems(2) until_next(2) by auto
    have "good r (parse_entries g env dm True k s)" using Suc.IH [OF s(2)] Suc.prems l until_next(2) by simp
    then show ?thesis using x y until_next item_skip [OF s(1)] by (cases x; cases y) (auto simp: good_at intro!: good_first_error)
  qed
qed

definition good_pairs :: "bytes \<Rightarrow> any res option \<times> bytes \<Rightarrow> bool" where
  "good_pairs r x \<longleftrightarrow> (case x of (None, _) \<Rightarrow> True | (Some y, r') \<Rightarrow> good r (y, r'))"

lemma parse_pairs_good:
  assumes "parses g env dm"
  shows "items (2 * n) p r \<Longrightarrow> length p \<le> g \<Longrightarrow> good_pairs r (parse_pairs g env dm False n m err p)"
proof (induction n arbitrary: p m err)
  case 0
  then show ?case by (auto elim: items_0E simp: good_def good_pairs_def split: option.splits)
next
  case (Suc n)
  from Suc.prems(1) obtain q s where q: "item p q" "item q s" "items (2 * n) s r" by (auto elim!: items_SucE)
  note l = grammar_consumes(1) [OF q(1)] grammar_consumes(1) [OF q(2)]
  obtain x where x: "parse_item g env dm True p = (x, q)" "\<not> is_panic x" using parsesD [OF assms q(1) Suc.prems(2)] by blast
  obtain y where y: "parse_item g env dm True q = (y, s)" "\<not> is_panic y" using parsesD [OF assms q(2), of True] l Suc.prems(2) by auto
  have "good_pairs r (parse_pairs g env dm False n m err s)" for m err using Suc.IH [OF q(3)] l Suc.prems(2) by simp
  then show ?case using x y item_skip [OF q(2)] by (cases x; cases y) (simp_all add: good_pairs_def)
qed

lemma parse_pairs_indef_good:
  assumes "parses g env dm"
  shows "items_until (2 * n) p r \<Longrightarrow> length p \<le> g \<Longrightarrow> length p \<le> k \<Longrightarrow> good_pairs r (parse_pairs g env dm True k m err p)"
proof (induction k arbitrary: p n m err)
  case 0
  then show ?case using grammar_consumes(4) by fastforce
next
  case (Suc k)
  from Suc.prems(1) show ?case
  proof cases
    case (until_break b)
    then show ?thesis by (simp add: good_def good_pairs_def split: option.splits)
  next
    case (until_next b p' q j)
    then obtain m' where "j = Suc (2 * m')" by (metis Suc_double_not_eq_double even_Suc odd_Suc_div_two oddE dvd_triv_left Suc_eq_plus1)
    with until_next(5) obtain s where s: "item q s" "items_until (2 * m') s r" by (auto elim: until_SucE)
    note l = grammar_consumes(1) [OF until_next(4)] grammar_consumes(1) [OF s(1)]
    obtain x where x: "parse_item g env dm True p = (x, q)" "\<not> is_panic x" using parsesD [OF assms] until_next Suc.prems(2) by blast
    obtain y where y: "parse_item g env dm True q = (y, s)" "\<not> is_panic y"
      using parsesD [OF assms s(1), of True] l Suc.prems(2) until_next(2) by auto
    have "good_pairs r (parse_pairs g env dm True k m err s)" for m err using Suc.IH [OF s(2)] Suc.prems l until_next(2) by simp
    then show ?thesis using x y until_next item_skip [OF s(1)] by (cases x; cases y) (simp_all add: good_pairs_def)
  qed
qed

lemma check_tags_None:
  assumes "getHead p = Ok ((0xC0, ai, val), d)" "check_tags k p = Ok None"
  shows "\<exists>c ds. d = c # ds \<and> validBuiltinTag val c = Ok ()"
proof -
  obtain b t where b: "p = b # t" using assms(1) by (cases p) (simp add: getHead_def index_panic_def, blast)
  have "getType b = 0xC0" using getHead_type assms(1) b by metis
  then show ?thesis using assms b by (cases k) (auto simp: index_panic_def split: list.splits res.splits)
qed

lemma byte_string_item:
  assumes "item (c # ds) r" "getType c = 0x40"
  shows "\<exists>ai val d b. getHead (c # ds) = Ok ((0x40, ai, val), d) \<and> parseByteString ai val d = Ok (b, r)"
  using assms(1)
proof cases
  case (item_string t ai val d x)
  then show ?thesis using assms(2) getHead_type [OF item_string(1)] by (auto simp: parseByteString_def)
next
  case (item_chunks t val d)
  then show ?thesis using assms(2) getHead_type [OF item_chunks(1)] string_chunks_good [OF item_chunks(3), of "length d" "[]"]
    by (auto simp: parseByteString_def)
qed (use assms(2) getHead_type in fastforce)+

theorem parse_good:
  assumes time: "\<And>b. \<not> is_panic (ce_time env b)"
  shows "parses g env dm"
proof (induction g)
  case 0
  show ?case using item_not_Nil by (auto simp: parses_def)
next
  case (Suc g)
  have "good r (parse_item (Suc g) env dm strip p)" if i: "item p r" and l: "length p \<le> Suc g" for strip p r
  proof -
    have "\<exists>q. (if strip then strip_self (length p) p else Ok p) = Ok q \<and> item q r \<and> length q \<le> Suc g"
      using strip_self_item [OF i, of "length p"] i l by (cases strip) auto
    then obtain q where q: "(if strip then strip_self (length p) p else Ok p) = Ok q" "item q r" "length q \<le> Suc g" by blast
    show ?thesis
    proof (cases "check_tags (length q) q = Ok None")
      case False
      then obtain e c where "check_tags (length q) q = Ok (Some (e, c))" "skip c = Ok r" using check_tags_item [OF q(2)] by blast
      then show ?thesis using q(1) by (simp add: at_def good_def)
    next
      case None: True
      note start = q(1) None
      from q(2) show ?thesis
      proof cases
        case (item_leaf t ai val)
        then show ?thesis using start by (auto simp: at_def good_def)
      next
        case (item_string t ai val d x)
        then show ?thesis using start by (auto simp: at_def good_def parseByteString_def parseTextString_def)
      next
        case (item_chunks t val d)
        obtain b where b: "parseByteString 31 val d = Ok (b, r)"
          using string_chunks_good [OF item_chunks(3), of "length d" "[]"] by (auto simp: parseByteString_def)
        obtain x where x: "parseTextString dm 31 val d = Ok (x, r)" "\<not> is_panic x"
          using text_chunks_good [OF item_chunks(3,2), of "length d" dm "[]"] by (auto simp: parseTextString_def)
        show ?thesis using start item_chunks(1,2) b x by (cases x) (auto simp: at_def good_def)
      next
        case (item_array ai val d)
        then have "good r (parse_elems g env dm False (unat val) d)"
          using parse_elems_good [OF Suc.IH] getHead_consumes [OF item_array(1)] q(3) by simp
        then show ?thesis using start item_array(1,2) by (auto simp: at_def good_def split: prod.splits res.splits)
      next
        case (item_map ai val d)
        then have "good_pairs r (parse_pairs g env dm False (unat val) [] None d)" "good r (parse_entries g env dm False (unat val) d)"
          using parse_pairs_good [OF Suc.IH] parse_entries_good [OF Suc.IH] getHead_consumes [OF item_map(1)] q(3) by simp_all
        then show ?thesis using start item_map(1,2)
          by (auto simp: at_def good_def good_pairs_def split: prod.splits res.splits option.splits)
      next
        case (item_array_indef val d n)
        then have "good r (parse_elems g env dm True (length d) d)"
          using parse_elems_indef_good [OF Suc.IH] getHead_consumes [OF item_array_indef(1)] q(3) by simp
        then show ?thesis using start item_array_indef(1) by (auto simp: at_def good_def split: prod.splits res.splits)
      next
        case (item_map_indef val d n)
        then have "good_pairs r (parse_pairs g env dm True (length d) [] None d)" "good r (parse_entries g env dm True (length d) d)"
          using parse_pairs_indef_good [OF Suc.IH] parse_entries_indef_good [OF Suc.IH] getHead_consumes [OF item_map_indef(1)] q(3)
          by simp_all
        then show ?thesis using start item_map_indef(1)
          by (auto simp: at_def good_def good_pairs_def split: prod.splits res.splits option.splits)
      next
        case (item_tag ai val d)
        obtain c ds where c: "d = c # ds" "validBuiltinTag val c = Ok ()" using check_tags_None [OF item_tag(1) None] by blast
        have s: "skip d = Ok r" by (rule item_skip [OF item_tag(3)])
        have p: "\<exists>x. parse_item g env dm False d = (x, r) \<and> \<not> is_panic x"
          using parsesD [OF Suc.IH item_tag(3)] getHead_consumes [OF item_tag(1)] q(3) by simp
        show ?thesis
        proof (cases "val = 2 \<or> val = 3")
          case True
          then have "getType c = 0x40" using c(2) by (auto simp: validBuiltinTag_def split: if_splits)
          from byte_string_item [OF item_tag(3) [unfolded c(1)] this] show ?thesis
            using True start item_tag(1) c(1) by (auto simp: at_def good_def)
        next
          case False
          then show ?thesis using start item_tag(1) s p time [of "take (length d - length r) d"] by (auto simp: at_def good_def split: res.splits)
        qed
      qed
    qed
  qed
  then show ?case by (simp add: parses_def)
qed

text \<open>Claim C10 (unmarshal_any_no_panic): Whatever the bytes are, \<open>Unmarshal\<close> into an \<open>any\<close> gives a value or an error, never a panic.\<close>

theorem unmarshal_any_no_panic:
  assumes "\<And>b. \<not> is_panic (ce_time env b)"
  shows "\<not> is_panic (unmarshal_any env dm data)"
proof (cases "wellformed dm False False data")
  case (Ok r)
  have "good r (parse_item (length data) env dm True data)"
    using parse_good [of env "length data" dm] assms wellformed_item [OF Ok] by (simp add: parses_def)
  then show ?thesis using Ok by (simp add: unmarshal_any_def good_def)
qed (use wellformed_no_panic in \<open>auto simp: unmarshal_any_def\<close>)

theorem unmarshal_any_no_panic_witness:
  "\<not> is_panic (unmarshal_any \<lparr>ce_order = rev, ce_float = (\<lambda>_. []), ce_float16 = (\<lambda>_. 0), ce_float32 = (\<lambda>_. 0), ce_time = (\<lambda>_. Ok 0),
     ce_opaque = (\<lambda>_. []), ce_print = (\<lambda>_. []), ce_base64 = (\<lambda>_. [])\<rparr> defaultDecMode [0xBF, 0x01, 0xFF])"
  by (rule unmarshal_any_no_panic) simp

end
