(* ===== verification/CborDecSpec.thy ===== *)
theory CborDecSpec
  imports CborGrammar
begin

text \<open>
  What the decoder makes of encodings: \<open>wire v\<close> is the encoding of a value with the pairs of its maps in the given order, \<open>decodable\<close> are the
  values that the decoder produces from them, and decoding an encoding gives the value back.
\<close>

subsection \<open>Encodings in a given order\<close>

fun wire :: "any \<Rightarrow> bytes" where
  "wire (AUint n) = encodeHead 0x00 n"
| "wire (AInt i) = encode_int i"
| "wire (ABool b) = [if b then 0xF5 else 0xF4]"
| "wire (ASimple b) = encode_simple b"
| "wire (AString s) = encode_string s"
| "wire (ABytes b) = encode_bytes b"
| "wire (ASlice xs) = encodeHead 0x80 (of_nat (length xs)) @ concat (map wire xs)"
| "wire (AMap m) = encodeHead 0xA0 (of_nat (length m)) @ concat (map (\<lambda>p. wire (fst p) @ wire (snd p)) m)"
| "wire (ATag n v) = encodeHead 0xC0 n @ wire v"
| "wire _ = [0xF6]"

fun decodable :: "DecMode \<Rightarrow> any \<Rightarrow> bool" where
  "decodable dm ANil \<longleftrightarrow> True"
| "decodable dm (AUint n) \<longleftrightarrow> True"
| "decodable dm (AInt i) \<longleftrightarrow> - (2 ^ 63) \<le> i \<and> i < 0"
| "decodable dm (ABool b) \<longleftrightarrow> True"
| "decodable dm (ASimple b) \<longleftrightarrow> b < 20 \<or> 32 \<le> b"
| "decodable dm (AString s) \<longleftrightarrow> length s < 2 ^ 63 \<and> (dm_utf8 dm = UTF8RejectInvalid \<longrightarrow> utf8_Valid (string_bytes s))"
| "decodable dm (ABytes b) \<longleftrightarrow> length b < 2 ^ 63"
| "decodable dm (ASlice xs) \<longleftrightarrow> int (length xs) \<le> dm_maxArrayElements dm \<and> length xs < 2 ^ 63 \<and> (\<forall>x\<in>set xs. decodable dm x)"
| "decodable dm (AMap m) \<longleftrightarrow> int (length m) \<le> dm_maxMapPairs dm \<and> length m < 2 ^ 63 \<and> distinct (map fst m) \<and>
     (\<forall>p\<in>set m. hashable (fst p) \<and> decodable dm (fst p) \<and> decodable dm (snd p))"
| "decodable dm (ATag n v) \<longleftrightarrow> n \<notin> {0, 1, 2, 3, 55799} \<and> decodable dm v"
| "decodable dm v \<longleftrightarrow> False"

lemma decodable_sizes: "decodable dm v \<Longrightarrow> sizes_ok dm chk v"
  by (induction dm v rule: decodable.induct) (auto simp: word_le_nat_alt word_less_nat_alt)

lemma decodable_encodes: "decodable dm v \<Longrightarrow> encodes v (wire v)"
proof (induction dm v rule: decodable.induct)
  case (8 dm xs)
  then have "list_all2 encodes xs (map wire xs)" by (auto simp: list_all2_conv_all_nth)
  then show ?case using enc_slice by simp
next
  case (9 dm m)
  then have "list_all2 (\<lambda>p q. encodes (fst p) (fst q) \<and> encodes (snd p) (snd q)) m (map (\<lambda>p. (wire (fst p), wire (snd p))) m)"
    by (auto simp: list_all2_conv_all_nth)
  from enc_map [OF refl this] show ?case by (simp add: comp_def)
qed (auto intro: encodes.intros enc_bool [of True, simplified] enc_bool [of False, simplified])

theorem wire_wellformed:
  assumes "decodable dm v" "int (nest v) \<le> dm_maxNestedLevels dm" "extra \<or> rest = []"
  shows "wellformed dm extra chk (wire v @ rest) = Ok rest"
  by (rule encodes_wellformed [OF decodable_encodes [OF assms(1)] decodable_sizes [OF assms(1)] assms(2,3)])

subsection \<open>Heads\<close>

lemma getHead_encodeHead: "t \<in> set major_types \<Longrightarrow> getHead (encodeHead t n @ rest) = Ok ((t, ai_of n, n), rest)"
  by (rule wellformedHead_getHead) (rule wellformedHead_encodeHead)

lemma string_bytes_inverse [simp]: "bytes_string (string_bytes s) = s"
proof -
  have "char_of (unat (of_char c :: byte)) = c" for c
  proof -
    have "(of_char c :: byte) = of_nat (of_char c)" by (rule of_nat_of_char [symmetric])
    moreover have "unat (of_nat (of_char c) :: byte) = take_bit 8 (of_char c)" by (simp add: unsigned_of_nat del: of_nat_of_char)
    ultimately have "unat (of_char c :: byte) = take_bit 8 (of_char c)" by metis
    then show ?thesis by (simp add: take_bit_nat_eq_self)
  qed
  then show ?thesis by (induction s) (simp_all add: bytes_string_def string_bytes_def)
qed

lemma encode_int_negative:
  assumes "- (2 ^ 63) \<le> i" "i < 0"
  shows "encode_int i = encodeHead 0x20 (of_int (- i - 1))" "uint (of_int (- i - 1) :: uint64) = - i - 1"
    "\<not> (0x8000000000000000 :: uint64) \<le> of_int (- i - 1)"
proof -
  show "encode_int i = encodeHead 0x20 (of_int (- i - 1))" using assms by (simp add: encode_int_def)
  have "uint (of_int k :: uint64) = k" if "0 \<le> k" "k < 2 ^ 63" for k using that by (simp add: unsigned_of_int take_bit_int_eq_self)
  then show u: "uint (of_int (- i - 1) :: uint64) = - i - 1" using assms by (simp only:)
  show "\<not> (0x8000000000000000 :: uint64) \<le> of_int (- i - 1)" using u assms by (simp add: word_le_def)
qed

text \<open>No tag is stripped or rejected in front of what is not a tag.\<close>

lemma no_tags:
  assumes "decodable dm v" "\<nexists>n w. v = ATag n w"
  shows "strip_self (length (wire v @ rest)) (wire v @ rest) = Ok (wire v @ rest)"
    "length (wire v @ rest) \<le> k \<Longrightarrow> check_tags k (wire v @ rest) = Ok None"
  using encodes_first [OF decodable_encodes [OF assms(1)] assms(2)] by (auto, cases k) auto

subsection \<open>Decoding an encoding\<close>

lemma cut_append: "length b < 2 ^ 63 \<Longrightarrow> cut (of_nat (length b)) (b @ rest) = Ok (b, rest)"
  by (simp add: cut_def of_nat_small)

lemma cut_string: "length s < 2 ^ 63 \<Longrightarrow> cut (of_nat (length s)) (string_bytes s @ rest) = Ok (string_bytes s, rest)"
  using cut_append [of "string_bytes s" rest] by (simp add: string_bytes_def)

lemma parse_elems_concat:
  "\<forall>x\<in>set xs. \<forall>rest. parse_item f env dm True (wire x @ rest) = (Ok x, rest) \<Longrightarrow>
   parse_elems f env dm False (length xs) (concat (map wire xs) @ rest) = (Ok xs, rest)"
  by (induction xs) auto

lemma parse_pairs_concat:
  assumes "\<forall>p\<in>set es. hashable (fst p) \<and> (\<forall>rest. parse_item f env dm True (wire (fst p) @ rest) = (Ok (fst p), rest)) \<and>
      (\<forall>rest. parse_item f env dm True (wire (snd p) @ rest) = (Ok (snd p), rest))" "distinct (map fst (m @ es))"
  shows "parse_pairs f env dm False (length es) m None (concat (map (\<lambda>p. wire (fst p) @ wire (snd p)) es) @ rest) =
    (Some (Ok (AMap (m @ es))), rest)"
  using assms
proof (induction es arbitrary: m)
  case (Cons e es)
  have "map_set (fst e) (snd e) m = m @ [e]" using Cons.prems(2) by (auto simp: map_set_def)
  then show ?case using Cons.prems Cons.IH [of "m @ [e]"] by simp
qed simp

lemma wire_not_Nil: "decodable dm v \<Longrightarrow> wire v \<noteq> []"
  using encodes_not_Nil [OF decodable_encodes] .

lemma ai_of_small: "ai_of n \<noteq> 31" by (rule ai_of_definite)

lemma strip_tag: "n \<noteq> 55799 \<Longrightarrow> strip_self (length (encodeHead 0xC0 n @ rest)) (encodeHead 0xC0 n @ rest) = Ok (encodeHead 0xC0 n @ rest)"
proof -
  obtain b t where b: "encodeHead 0xC0 n = b # t" "getType b = 0xC0"
    using encodeHead_Cons [of "0xC0" n] getType_encodeHead [of "0xC0" n] by auto
  show "n \<noteq> 55799 \<Longrightarrow> ?thesis" using getHead_encodeHead [of "0xC0" n rest] b by simp
qed

lemma check_tags_wire: "decodable dm v \<Longrightarrow> length (wire v @ rest) \<le> k \<Longrightarrow> check_tags k (wire v @ rest) = Ok None"
proof (induction v arbitrary: rest k rule: wire.induct)
  case (9 n v)
  obtain b t where b: "encodeHead 0xC0 n = b # t" "getType b = 0xC0"
    using encodeHead_Cons [of "0xC0" n] getType_encodeHead [of "0xC0" n] by auto
  obtain c w where c: "wire v @ rest = c # w" using wire_not_Nil [of dm v] 9 by (cases "wire v") auto
  have v: "validBuiltinTag n c = Ok ()" using 9 by (auto simp: validBuiltinTag_def)
  obtain j where k: "k = Suc j" using 9 b by (cases k) auto
  then have "check_tags j (wire v @ rest) = Ok None" using 9 b by (intro 9(1)) auto
  then show ?case using getHead_encodeHead [of "0xC0" n "wire v @ rest"] b v c k by simp
qed (use no_tags(2) in blast)+

lemma getHead_simple:
  "getHead (encode_simple b @ rest) = Ok ((0xE0, if b \<le> 23 then b else 24, ucast b), rest)"
proof (cases "b \<le> 23")
  case True
  have "\<forall>k\<in>set [0..<24]. getType (0xE0 OR of_nat k) = 0xE0 \<and> getAdditionalInformation (0xE0 OR of_nat k) = of_nat k" by code_simp
  moreover have "unat b \<in> set [0..<24]" "of_nat (unat b) = b" using True by (simp_all add: word_le_nat_alt)
  ultimately have "getType (0xE0 OR b) = 0xE0" "getAdditionalInformation (0xE0 OR b) = b" by metis+
  then show ?thesis using True by (simp add: encode_simple_def getHead_def)
next
  case False
  then show ?thesis by (simp add: encode_simple_def getHead_def raw_argument_def getType_def getAdditionalInformation_def)
qed

lemma ucast_byte [simp]: "ucast (ucast b :: uint64) = (b :: byte)"
  by (rule bit_word_eqI) (auto simp: bit_simps)

lemma wire_fuel: "decodable dm v \<Longrightarrow> length (wire v) \<le> f \<Longrightarrow> \<exists>g. f = Suc g"
  using wire_not_Nil [of dm v] by (cases f) auto

theorem parse_wire:
  "decodable dm v \<Longrightarrow> length (wire v) \<le> f \<Longrightarrow> parse_item f env dm strip (wire v @ rest) = (Ok v, rest)"
proof (induction v arbitrary: f strip rest rule: wire.induct)
  case (1 n)
  obtain g where f: "f = Suc g" using wire_fuel 1 by blast
  show ?case using no_tags [of dm "AUint n" rest] 1 getHead_encodeHead [of "0x00" n rest] by (simp add: at_def f)
next
  case (2 i)
  obtain g where f: "f = Suc g" using wire_fuel 2 by blast
  have i: "- (2 ^ 63) \<le> i" "i < 0" using 2 by auto
  show ?case using no_tags [of dm "AInt i" rest] 2 getHead_encodeHead [of "0x20" "of_int (- i - 1)" rest] encode_int_negative [OF i]
    by (simp add: at_def f del: of_int_diff of_int_minus)
next
  case (3 b)
  obtain g where f: "f = Suc g" using wire_fuel 3 by blast
  show ?case by (simp add: at_def f getHead_def getType_def getAdditionalInformation_def parse_primitive_def)
next
  case (4 b)
  obtain g where f: "f = Suc g" using wire_fuel 4 by blast
  have "parse_primitive env (if b \<le> 23 then b else 24) (ucast b) = ASimple b"
    using 4(1) by (auto simp: parse_primitive_def word_le_nat_alt word_less_nat_alt)
  then show ?case using no_tags [of dm "ASimple b" rest] 4 getHead_simple [of b rest] by (simp add: at_def f)
next
  case (5 s)
  obtain g where f: "f = Suc g" using wire_fuel 5 by blast
  show ?case using no_tags [of dm "AString s" rest] 5 getHead_encodeHead [of "0x60" "of_nat (length s)" "string_bytes s @ rest"] cut_string [of s rest]
    by (simp add: at_def f encode_string_def parseTextString_def ai_of_definite)
next
  case (6 b)
  obtain g where f: "f = Suc g" using wire_fuel 6 by blast
  show ?case using no_tags [of dm "ABytes b" rest] 6 getHead_encodeHead [of "0x40" "of_nat (length b)" "b @ rest"] cut_append [of b rest]
    by (simp add: at_def f encode_bytes_def parseByteString_def ai_of_definite)
next
  case (7 xs)
  obtain g where f: "f = Suc g" "length (concat (map wire xs)) \<le> g"
    using wire_fuel [of dm "ASlice xs" f] 7 encodeHead_length_Suc [of "0x80" "of_nat (length xs)"] by auto
  have "length (wire x) \<le> g" if "x \<in> set xs" for x using length_concat_member [of "wire x" "map wire xs"] f that by auto
  then have "parse_elems g env dm False (length xs) (concat (map wire xs) @ rest) = (Ok xs, rest)"
    using 7 by (intro parse_elems_concat) auto
  then show ?case using no_tags [of dm "ASlice xs" rest] 7 getHead_encodeHead [of "0x80" "of_nat (length xs)" "concat (map wire xs) @ rest"]
    by (simp add: at_def f ai_of_definite of_nat_small)
next
  case (8 m)
  let ?c = "concat (map (\<lambda>p. wire (fst p) @ wire (snd p)) m)"
  obtain g where f: "f = Suc g" "length ?c \<le> g"
    using wire_fuel [of dm "AMap m" f] 8 encodeHead_length_Suc [of "0xA0" "of_nat (length m)"] by auto
  have "length (wire (fst p)) \<le> g \<and> length (wire (snd p)) \<le> g" if "p \<in> set m" for p
    using length_concat_member [of "wire (fst p) @ wire (snd p)" "map (\<lambda>p. wire (fst p) @ wire (snd p)) m"] f that by auto
  then have "parse_pairs g env dm False (length m) [] None (?c @ rest) = (Some (Ok (AMap ([] @ m))), rest)"
    using 8 by (intro parse_pairs_concat) auto
  then show ?case using no_tags [of dm "AMap m" rest] 8 getHead_encodeHead [of "0xA0" "of_nat (length m)" "?c @ rest"]
    by (simp add: at_def f ai_of_definite of_nat_small)
next
  case (9 n v)
  obtain g where f: "f = Suc g" "length (wire v) \<le> g"
    using wire_fuel [of dm "ATag n v" f] 9 encodeHead_length_Suc [of "0xC0" n] by auto
  have "parse_item g env dm False (wire v @ rest) = (Ok v, rest)" using 9 f by (intro 9(1)) auto
  then show ?case using strip_tag [of n "wire v @ rest"] check_tags_wire [of dm "ATag n v" rest] 9(2) getHead_encodeHead [of "0xC0" n "wire v @ rest"]
    by (simp add: at_def f)
next
  case "10_1"
  obtain g where f: "f = Suc g" using wire_fuel "10_1" by blast
  show ?case by (simp add: at_def f getHead_def getType_def getAdditionalInformation_def parse_primitive_def)
qed simp_all

corollary unmarshal_wire:
  assumes "decodable dm v" "int (nest v) \<le> dm_maxNestedLevels dm"
  shows "unmarshal_any env dm (wire v) = Ok v"
  using wire_wellformed [OF assms, of False "[]"] parse_wire [OF assms(1), of _ env True "[]"] by (simp add: unmarshal_any_def)

subsection \<open>Encodings of values without a choice\<close>

text \<open>A map with at most one pair has one encoding.\<close>

fun rigid :: "any \<Rightarrow> bool" where
  "rigid (ASlice xs) \<longleftrightarrow> (\<forall>x\<in>set xs. rigid x)"
| "rigid (AMap m) \<longleftrightarrow> length m \<le> 1 \<and> (\<forall>p\<in>set m. rigid (fst p) \<and> rigid (snd p))"
| "rigid (ATag n v) \<longleftrightarrow> rigid v"
| "rigid v \<longleftrightarrow> True"

lemma rigid_wire: "encodes v bs \<Longrightarrow> rigid v \<Longrightarrow> bs = wire v"
proof (induction v bs rule: encodes.induct)
  case (enc_slice xs bss)
  have "bss = map wire xs" using enc_slice(1,2) by (induction rule: list_all2_induct) auto
  then show ?case by simp
next
  case (enc_map es m bss)
  have "es = m" using enc_map(1,3) by (cases m rule: remdups_adj.cases) auto
  moreover have "bss = map (\<lambda>p. (wire (fst p), wire (snd p))) es"
    using enc_map(2,3) \<open>es = m\<close> by (induction arbitrary: m rule: list_all2_induct) (auto simp: prod_eq_iff)
  ultimately show ?case by (simp add: comp_def)
qed auto

lemma encodes_unmarshal:
  "encodes v bs \<Longrightarrow> rigid v \<Longrightarrow> decodable dm v \<Longrightarrow> int (nest v) \<le> dm_maxNestedLevels dm \<Longrightarrow> unmarshal_any env dm bs = Ok v"
  using rigid_wire unmarshal_wire by metis

lemma utf8_Valid_ascii: "\<forall>b\<in>set bs. b < 0x80 \<Longrightarrow> utf8_Valid bs"
  by (induction bs) auto

end
