(* ===== verification/CborTyped.thy ===== *)
theory CborTyped
  imports CborDecSpec
begin

text \<open>
  The type of what the decoder returns: which Go values a variable of type \<open>any\<close> can hold after \<open>Unmarshal\<close>.
\<close>

subsection \<open>Go values\<close>

fun go_value :: "DecMode \<Rightarrow> any \<Rightarrow> bool" where
  "go_value dm (AInt i) \<longleftrightarrow> - (2 ^ 63) \<le> i \<and> i < 0"
| "go_value dm (AString s) \<longleftrightarrow> dm_utf8 dm = UTF8RejectInvalid \<longrightarrow> utf8_Valid (string_bytes s)"
| "go_value dm (ASlice xs) \<longleftrightarrow> (\<forall>x\<in>set xs. go_value dm x)"
| "go_value dm (AMap m) \<longleftrightarrow> distinct (map fst m) \<and> (\<forall>p\<in>set m. hashable (fst p) \<and> go_value dm (fst p) \<and> go_value dm (snd p))"
| "go_value dm (AEntries m) \<longleftrightarrow> (\<forall>p\<in>set m. go_value dm (fst p) \<and> go_value dm (snd p))"
| "go_value dm (ATag n v) \<longleftrightarrow> n \<notin> {0, 1, 2, 3} \<and> go_value dm v"
| "go_value dm ANilSlice \<longleftrightarrow> False"
| "go_value dm (AKV m) \<longleftrightarrow> False"
| "go_value dm v \<longleftrightarrow> True"

subsection \<open>Strings\<close>

lemma utf8_Valid_append: "utf8_Valid a \<Longrightarrow> utf8_Valid b \<Longrightarrow> utf8_Valid (a @ b)"
proof (induction a rule: utf8_Valid.induct)
  case (2 c bs)
  show ?case
  proof (cases "c < 0x80")
    case False
    then have l: "utf8_len c \<noteq> 0" "utf8_len c \<le> Suc (length bs)" using 2(3) by (simp_all split: if_splits)
    have n: "2 \<le> utf8_len c" using l(1) by (auto simp: utf8_len_def split: if_splits)
    have ne: "bs \<noteq> []" using l n by auto
    have "drop (utf8_len c - 1) (bs @ b) = drop (utf8_len c - 1) bs @ b" using l by simp
    moreover have "take (utf8_len c - 2) (tl (bs @ b)) = take (utf8_len c - 2) (tl bs)" using l ne by simp
    moreover have "(bs @ b) ! 0 = bs ! 0" using ne by (cases bs) auto
    moreover have "utf8_Valid (drop (utf8_len c - 1) bs @ b)" using 2 False by (simp split: if_splits)
    ultimately show ?thesis using 2(3) False l ne by (simp split: if_splits)
  qed (use 2 in simp)
qed simp

lemma unat_lt256: "unat (x :: byte) < 256"
  using unsigned_less [of x] by simp

lemma string_bytes_bytes [simp]: "string_bytes (bytes_string b) = b"
proof -
  have "of_char (char_of (unat x) :: char) = (x :: byte)" for x
    using of_nat_of_char [of "char_of (unat x)", where 'a = byte] unat_lt256 [of x] by simp
  then show ?thesis by (simp add: string_bytes_def bytes_string_def comp_def)
qed

lemma text_chunks_valid:
  "text_chunks k dm acc p = Ok (Ok b, r) \<Longrightarrow> dm_utf8 dm = UTF8RejectInvalid \<Longrightarrow> utf8_Valid acc \<Longrightarrow> utf8_Valid b"
proof (induction k arbitrary: acc p)
  case (Suc k)
  show ?case
  proof (cases p)
    case (Cons c d)
    show ?thesis
    proof (cases "isBreakFlag c")
      case False
      from Suc.prems(1) Cons False obtain h d' x q where s: "getHead p = Ok (h, d')" "cut (snd (snd h)) d' = Ok (x, q)"
        "(if dm_utf8 dm = UTF8RejectInvalid \<and> \<not> utf8_Valid x then
              res_bind (skip_until (length q) (length q) q) (\<lambda>r'. Ok (Err (ErrMsg ''cbor: invalid UTF-8 string''), r'))
            else text_chunks k dm (acc @ x) q) = Ok (Ok b, r)"
        by (auto split del: if_split)
      then have v: "utf8_Valid x" using Suc.prems(2) by (cases "skip_until (length q) (length q) q") (auto split: if_splits)
      then show ?thesis using Suc s utf8_Valid_append by (auto split: if_splits)
    qed (use Suc Cons in auto)
  qed (use Suc in \<open>simp add: index_panic_def\<close>)
qed (simp add: index_panic_def)

lemma parseTextString_valid: "parseTextString dm ai val d = Ok (Ok b, r) \<Longrightarrow> dm_utf8 dm = UTF8RejectInvalid \<Longrightarrow> utf8_Valid b"
  using text_chunks_valid [of "length d" dm "[]" d b r]
  by (cases "cut val d") (auto simp: parseTextString_def split: if_splits)

subsection \<open>Items\<close>

lemma map_set_typed:
  "distinct (map fst m) \<Longrightarrow> distinct (map fst (map_set k v m))"
  "(\<forall>p\<in>set m. P p) \<Longrightarrow> P (k, v) \<Longrightarrow> \<forall>p\<in>set (map_set k v m). P p"
proof -
  have e: "map fst (map (\<lambda>(k', v'). if k' = k then (k, v) else (k', v')) m) = map fst m" by (induction m) auto
  show "distinct (map fst m) \<Longrightarrow> distinct (map fst (map_set k v m))"
    unfolding map_set_def using e by (auto simp del: map_map)
  show "(\<forall>p\<in>set m. P p) \<Longrightarrow> P (k, v) \<Longrightarrow> \<forall>p\<in>set (map_set k v m). P p"
    by (auto simp: map_set_def)
qed

lemma at_fst: "fst (at x d g) = Ok v \<longleftrightarrow> (\<exists>a. x = Ok a \<and> fst (g a) = Ok v)"
  by (cases x) (simp_all add: at_def)

lemma first_error_fst: "fst (first_error x y g) = Ok v \<longleftrightarrow> (\<exists>a b. x = Ok a \<and> fst y = Ok b \<and> v = g a b)"
  by (cases "(x, y, g)" rule: first_error.cases) auto

lemma parse_primitive_typed: "go_value dm (parse_primitive env ai val)"
  by (simp add: parse_primitive_def)

lemma small_negative: "\<not> (0x8000000000000000 :: uint64) \<le> val \<Longrightarrow> go_value dm (AInt (- uint val - 1))"
proof -
  have "0 \<le> uint val" by simp
  moreover assume "\<not> (0x8000000000000000 :: uint64) \<le> val"
  ultimately show ?thesis by (simp add: word_le_def, linarith)
qed

definition typed :: "nat \<Rightarrow> cbor_env \<Rightarrow> DecMode \<Rightarrow> bool" where
  "typed f env dm \<longleftrightarrow> (\<forall>strip p v. fst (parse_item f env dm strip p) = Ok v \<longrightarrow> go_value dm v)"

lemma typedD: "typed f env dm \<Longrightarrow> parse_item f env dm strip p = (x, r) \<Longrightarrow> x = Ok v \<Longrightarrow> go_value dm v"
  unfolding typed_def by (metis fst_conv)

lemma elems_typed:
  assumes "typed f env dm"
  shows "fst (parse_elems f env dm indef k p) = Ok vs \<Longrightarrow> \<forall>x\<in>set vs. go_value dm x"
proof (induction k arbitrary: p vs)
  case (Suc k)
  obtain x r where x: "parse_item f env dm True p = (x, r)" by (metis prod.exhaust)
  show ?case using Suc x typedD [OF assms x]
    by (cases x) (auto simp: first_error_fst split: if_splits simp: index_panic_def)
qed (auto simp: index_panic_def split: if_splits)

lemma entries_typed:
  assumes "typed f env dm"
  shows "fst (parse_entries f env dm indef k p) = Ok es \<Longrightarrow> (a, b) \<in> set es \<Longrightarrow> go_value dm a \<and> go_value dm b"
proof (induction k arbitrary: p es)
  case (Suc k)
  obtain x r where x: "parse_item f env dm True p = (x, r)" by (metis prod.exhaust)
  obtain y s where y: "parse_item f env dm True r = (y, s)" by (metis prod.exhaust)
  show ?case using Suc.prems x y typedD [OF assms x] typedD [OF assms y]
    by (cases x; cases y) (auto simp: first_error_fst at_fst index_panic_def dest: Suc.IH split: if_splits)
qed (auto simp: index_panic_def split: if_splits)

lemma pairs_typed:
  assumes "typed f env dm"
  shows "fst (parse_pairs f env dm indef k m err p) = Some (Ok v) \<Longrightarrow> go_value dm (AMap m) \<Longrightarrow> go_value dm v"
proof (induction k arbitrary: p m err)
  case (Suc k)
  obtain x r where x: "parse_item f env dm True p = (x, r)" by (metis prod.exhaust)
  obtain y s where y: "parse_item f env dm True r = (y, s)" by (metis prod.exhaust)
  have set: "go_value dm (AMap (map_set a b m))" if "hashable a" "x = Ok a" "y = Ok b" for a b
  proof -
    have "hashable (fst (a, b)) \<and> go_value dm (fst (a, b)) \<and> go_value dm (snd (a, b))"
      using that typedD [OF assms x] typedD [OF assms y] by simp
    then have "\<forall>p\<in>set (map_set a b m). hashable (fst p) \<and> go_value dm (fst p) \<and> go_value dm (snd p)"
      using Suc.prems(2) by (intro map_set_typed(2)) simp_all
    then show ?thesis using map_set_typed(1) [of m a b] Suc.prems(2) by simp
  qed
  show ?case
  proof (cases "indef \<and> (p = [] \<or> isBreakFlag (hd p))")
    case True
    then show ?thesis using Suc.prems by (auto simp: index_panic_def split: option.splits if_splits)
  next
    case False
    then have "(indef \<and> p = []) = False" "(indef \<and> isBreakFlag (hd p)) = False" by auto
    note start = Suc.prems(1) [unfolded parse_pairs.simps this if_False x]
    show ?thesis
    proof (cases x)
      case (Ok a)
      show ?thesis
      proof (cases "hashable a")
        case True
        show ?thesis
        proof (cases y)
          case (Ok b)
          then show ?thesis using start \<open>x = Ok a\<close> True y Suc.IH [OF _ set [OF True \<open>x = Ok a\<close> Ok]] by simp
        next
          case (Err e)
          then show ?thesis using start Ok True y Suc.IH [OF _ Suc.prems(2)] by simp
        qed (use start Ok True y in simp)
      next
        case False
        then show ?thesis using start Ok Suc.IH [OF _ Suc.prems(2)] by (simp add: index_panic_def split: if_splits res.splits)
      qed
    next
      case (Err e)
      then show ?thesis using start Suc.IH [OF _ Suc.prems(2)] by (simp add: index_panic_def split: if_splits res.splits)
    qed (use start in simp)
  qed
qed (auto simp: index_panic_def split: if_splits option.splits)

lemma parse_typed: "typed f env dm"
proof (induction f)
  case 0
  show ?case by (simp add: typed_def index_panic_def)
next
  case (Suc f)
  have "go_value dm v" if "fst (parse_item (Suc f) env dm strip p) = Ok v" for strip p v
  proof -
    from that obtain q where q0: "(if strip then strip_self (length p) p else Ok p) = Ok q"
      by (cases "if strip then strip_self (length p) p else Ok p") (simp_all add: at_def)
    have b: "fst (parse_item (Suc f) env dm False q) = Ok v" using that q0 by (simp add: at_def)
    then have "check_tags (length q) q = Ok None"
      by (cases "check_tags (length q) q") (auto simp: at_fst at_def[of "Err e" for e] at_def[of "Panic e" for e] split: option.splits)
    moreover from b calculation obtain h where "getHead q = Ok h" by (cases "getHead q") (simp_all add: at_def)
    moreover obtain t ai val d where "h = ((t, ai, val), d)" by (metis prod.exhaust)
    ultimately have q: "check_tags (length q) q = Ok None" "getHead q = Ok ((t, ai, val), d)" by simp_all
    consider "t = 0x00" | "t = 0x20" | "t = 0x40" | "t = 0x60" | "t = 0xC0" | "t = 0xE0" | "t = 0x80"
      | "t \<notin> {0x00, 0x20, 0x40, 0x60, 0xC0, 0xE0, 0x80}" by blast
    then show ?thesis
    proof cases
      case 1
      then show ?thesis using b q by (auto simp: at_def)
    next
      case 2
      then show ?thesis using b q small_negative [of val dm] by (auto simp: at_def simp del: go_value.simps(1))
    next
      case 3
      then show ?thesis using b q by (auto simp: at_fst at_def split: res.splits)
    next
      case 4
      then show ?thesis using b q parseTextString_valid [of dm ai val d] by (auto simp: at_def split: res.splits)
    next
      case 5
      obtain x r where x: "parse_item f env dm False d = (x, r)" by (metis prod.exhaust)
      show ?thesis using 5 b q x typedD [OF Suc.IH x] by (auto simp: at_fst at_def split: res.splits if_splits)
    next
      case 6
      then show ?thesis using b q parse_primitive_typed [of dm env ai val] by (auto simp: at_def)
    next
      case 7
      then show ?thesis using b q elems_typed [OF Suc.IH, of "ai = 31" "if ai = 31 then length d else unat val" d]
        by (auto simp: at_def split: res.splits prod.splits)
    next
      case 8
      then show ?thesis using b q pairs_typed [OF Suc.IH, of "ai = 31" "if ai = 31 then length d else unat val" "[]" None d]
          entries_typed [OF Suc.IH, of "ai = 31" "if ai = 31 then length d else unat val" d]
        by (auto simp: at_def split: res.splits prod.splits option.splits)
    qed
  qed
  then show ?case by (simp add: typed_def)
qed

text \<open>Claim C21 (unmarshal_any_typed): What \<open>Unmarshal\<close> puts into an \<open>any\<close> is a Go value of the right kind: a signed integer is a negative
  \<open>int64\<close>, map keys are distinct and hashable, built-in tags never remain, and strings are UTF-8 where the mode asks for it.\<close>

theorem unmarshal_any_typed:
  assumes "unmarshal_any env dm data = Ok v"
  shows "go_value dm v"
  using assms parse_typed [of "length data" env dm] by (cases "wellformed dm False False data") (auto simp: unmarshal_any_def typed_def)

theorem unmarshal_any_typed_witness: "go_value defaultDecMode (AMap [(AInt (- 7), ABytes [1])])"
proof (rule unmarshal_any_typed)
  have "unmarshal_any (undefined :: cbor_env) defaultDecMode (wire (AMap [(AInt (- 7), ABytes [1])])) = Ok (AMap [(AInt (- 7), ABytes [1])])"
    by (rule unmarshal_wire) (simp_all add: defaultDecMode_def)
  then show "unmarshal_any (undefined :: cbor_env) defaultDecMode (wire (AMap [(AInt (- 7), ABytes [1])])) = Ok (AMap [(AInt (- 7), ABytes [1])])" .
qed

end
