(* ===== verification/CborRoundtrip.thy ===== *)
theory CborRoundtrip
  imports CborDecSpec
begin

text \<open>
  Encoding and decoding a value of type \<open>any\<close>: what \<open>Marshal\<close> writes is read back by \<open>Unmarshal\<close> as the same value, up to the order in
  which the entries of maps are listed.
\<close>

subsection \<open>Values up to the order of map entries\<close>

inductive reorder :: "any \<Rightarrow> any \<Rightarrow> bool" where
  r_refl: "reorder v v"
| r_slice: "list_all2 reorder xs ys \<Longrightarrow> reorder (ASlice xs) (ASlice ys)"
| r_map: "mset es = mset m \<Longrightarrow> list_all2 (\<lambda>p q. fst p = fst q \<and> reorder (snd p) (snd q)) es m' \<Longrightarrow> reorder (AMap m) (AMap m')"
| r_tag: "reorder v w \<Longrightarrow> reorder (ATag n v) (ATag n w)"

lemma hashable_rigid: "hashable v \<Longrightarrow> rigid v"
  by (induction v rule: hashable.induct) auto

subsection \<open>Every encoding is the one of a reordered value\<close>

lemma nest_slice_mono: "list_all2 (\<lambda>x y. nest y \<le> nest x) xs ys \<Longrightarrow> nest (ASlice ys) \<le> nest (ASlice xs)"
  by (induction rule: list_all2_induct) auto

lemma foldr_max_le: "foldr max xs 0 \<le> (n :: nat) \<longleftrightarrow> (\<forall>x\<in>set xs. x \<le> n)"
  by (induction xs) auto

lemma encodes_reorder:
  "encodes v bs \<Longrightarrow> decodable dm v \<Longrightarrow> \<exists>w. reorder v w \<and> decodable dm w \<and> nest w \<le> nest v \<and> bs = wire w"
proof (induction v bs rule: encodes.induct)
  case (enc_slice xs bss)
  from enc_slice(1) have "list_all (decodable dm) xs \<Longrightarrow>
      \<exists>ys. list_all2 reorder xs ys \<and> list_all (decodable dm) ys \<and> list_all2 (\<lambda>x y. nest y \<le> nest x) xs ys \<and> bss = map wire ys"
  proof (induction rule: list_all2_induct)
    case (Cons x xs b bss)
    then obtain y ys where "reorder x y" "decodable dm y" "nest y \<le> nest x" "b = wire y"
      "list_all2 reorder xs ys" "list_all (decodable dm) ys" "list_all2 (\<lambda>x y. nest y \<le> nest x) xs ys" "bss = map wire ys" by auto
    then show ?case by (intro exI [of _ "y # ys"]) simp
  qed simp
  then obtain ys where ys: "list_all2 reorder xs ys" "list_all (decodable dm) ys" "list_all2 (\<lambda>x y. nest y \<le> nest x) xs ys" "bss = map wire ys"
    using enc_slice(2) by (auto simp: list_all_iff)
  then have "length xs = length ys" by (simp add: list_all2_lengthD)
  then show ?case using ys enc_slice(2) nest_slice_mono [OF ys(3)] r_slice [OF ys(1)]
    by (intro exI [of _ "ASlice ys"]) (simp add: list_all_iff)
next
  case (enc_map es m bss)
  have es: "set es = set m" "distinct (map fst es)" "length es = length m"
    using enc_map(1,3) by (metis set_mset_mset, metis decodable.simps(9) mset_eq_imp_distinct_iff mset_map, metis size_mset)
  have "\<forall>p\<in>set es. hashable (fst p) \<and> decodable dm (fst p) \<and> decodable dm (snd p)" using enc_map(3) es(1) by simp
  with enc_map(2) have "\<exists>m'. list_all2 (\<lambda>p q. fst p = fst q \<and> reorder (snd p) (snd q) \<and> decodable dm (snd q) \<and> nest (snd q) \<le> nest (snd p)) es m' \<and>
      bss = map (\<lambda>p. (wire (fst p), wire (snd p))) m'"
  proof (induction rule: list_all2_induct)
    case (Cons p es q bss)
    then obtain m' where m': "list_all2 (\<lambda>p q. fst p = fst q \<and> reorder (snd p) (snd q) \<and> decodable dm (snd q) \<and> nest (snd q) \<le> nest (snd p)) es m'"
      "bss = map (\<lambda>p. (wire (fst p), wire (snd p))) m'" by auto
    obtain w where w: "reorder (snd p) w" "decodable dm w" "nest w \<le> nest (snd p)" "snd q = wire w" using Cons by auto
    have "fst q = wire (fst p)" using Cons hashable_rigid rigid_wire by auto
    then show ?case using m' w by (intro exI [of _ "(fst p, w) # m'"]) (simp add: prod_eq_iff)
  qed simp
  then obtain m' where m': "list_all2 (\<lambda>p q. fst p = fst q \<and> reorder (snd p) (snd q) \<and> decodable dm (snd q) \<and> nest (snd q) \<le> nest (snd p)) es m'"
    "bss = map (\<lambda>p. (wire (fst p), wire (snd p))) m'" by blast
  have k: "map fst m' = map fst es" using m'(1) by (induction rule: list_all2_induct) auto
  then have l: "length m' = length m" using es(3) by (metis length_map)
  have q: "\<exists>p\<in>set es. fst p = fst q \<and> decodable dm (snd q) \<and> nest (snd q) \<le> nest (snd p)" if qm: "q \<in> set m'" for q
  proof -
    from qm obtain i where i: "i < length m'" "q = m' ! i" unfolding in_set_conv_nth by blast
    moreover have "length es = length m'" by (rule list_all2_lengthD [OF m'(1)])
    ultimately have "i < length es" by simp
    then show ?thesis using list_all2_nthD2 [OF m'(1) i(1)] unfolding i(2) by (meson nth_mem)
  qed
  have "reorder (AMap m) (AMap m')" using m'(1) by (intro r_map [OF enc_map(1)]) (auto elim: list_all2_mono)
  moreover have "decodable dm (AMap m')"
  proof -
    have "hashable (fst q) \<and> decodable dm (fst q) \<and> decodable dm (snd q)" if "q \<in> set m'" for q
    proof -
      from q [OF that] es(1) obtain p where p: "p \<in> set m" "fst p = fst q" "decodable dm (snd q)" by blast
      then show ?thesis using enc_map(3) by (metis decodable.simps(9))
    qed
    then show ?thesis using enc_map(3) k es(2) l by simp
  qed
  moreover have "nest (AMap m') \<le> nest (AMap m)"
  proof -
    have "max (nest (fst q)) (nest (snd q)) \<le> foldr max (map (\<lambda>p. max (nest (fst p)) (nest (snd p))) m) 0" if "q \<in> set m'" for q
    proof -
      from q [OF that] es(1) obtain p where p: "p \<in> set m" "fst p = fst q" "nest (snd q) \<le> nest (snd p)" by blast
      then show ?thesis using nest_map [OF p(1)] by simp
    qed
    then show ?thesis by (simp add: foldr_max_le)
  qed
  ultimately show ?case using m'(2) l by (intro exI [of _ "AMap m'"]) (simp add: comp_def)
next
  case (enc_tag v bs n)
  then obtain w where "reorder v w" "decodable dm w" "nest w \<le> nest v" "bs = wire w" by auto
  then show ?case using enc_tag(3) by (intro exI [of _ "ATag n w"]) (simp add: r_tag)
qed (auto intro: r_refl)

subsection \<open>The encoder\<close>

lemma marshal_encodes: "fair_order env \<Longrightarrow> decodable dm v \<Longrightarrow> \<exists>bs. cbor_Marshal env v = Ok bs \<and> encodes v bs"
proof (induction dm v rule: decodable.induct)
  case (8 dm xs)
  then have "\<exists>bss. map (cbor_Marshal env) xs = map Ok bss \<and> list_all2 encodes xs bss" by (intro ok_list) simp
  then show ?case by (auto simp: marshal_list_map res_concat_Ok intro: enc_slice)
next
  case (9 dm m)
  have d: "distinct (map fst m)" using 9 by simp
  have it: "mset (iterate env m) = mset m" by (rule mset_iterate [OF 9(3) d])
  then have s: "set (iterate env m) = set m" by (metis set_mset_mset)
  have "\<exists>bss. concat (map (\<lambda>p. [cbor_Marshal env (fst p), cbor_Marshal env (snd p)]) (iterate env m)) =
      map Ok (concat (map (\<lambda>q. [fst q, snd q]) bss)) \<and>
    list_all2 (\<lambda>p q. encodes (fst p) (fst q) \<and> encodes (snd p) (snd q)) (iterate env m) bss"
    using 9 s by (intro ok_pairs) auto
  then obtain bss where b: "concat (map (\<lambda>p. [cbor_Marshal env (fst p), cbor_Marshal env (snd p)]) (iterate env m)) =
      map Ok (concat (map (\<lambda>q. [fst q, snd q]) bss))"
    "list_all2 (\<lambda>p q. encodes (fst p) (fst q) \<and> encodes (snd p) (snd q)) (iterate env m) bss" by blast
  have "iterate env (marshal_pairs env m) = map (\<lambda>p. (fst p, snd p, cbor_Marshal env (fst p), cbor_Marshal env (snd p))) (iterate env m)"
    using iterate_map [of env "\<lambda>k v. (v, cbor_Marshal env k, cbor_Marshal env v)" m] by (simp add: marshal_pairs_map)
  then have "cbor_Marshal env (AMap m) = Ok (encodeHead 0xA0 (of_nat (length m)) @ concat (map (\<lambda>q. fst q @ snd q) bss))"
    using b(1) by (simp add: comp_def res_concat_Ok concat_pairs)
  then show ?case using enc_map [OF it b(2)] by blast
next
  case (10 dm n v)
  then obtain bs where "cbor_Marshal env v = Ok bs" "encodes v bs" by auto
  then show ?case using 10 by (auto intro: enc_tag)
qed (auto intro: encodes.intros enc_bool [of True, simplified] enc_bool [of False, simplified] simp: word_le_nat_alt word_less_nat_alt)

text \<open>Claim C9 (marshal_unmarshal): Every value that the decoder can produce, without floats, times and big numbers, is encoded by
  \<open>Marshal\<close> to bytes that \<open>Unmarshal\<close> reads back as the value, up to the order of map entries, whatever the order of the iteration.\<close>

theorem marshal_unmarshal:
  assumes "fair_order env" "decodable dm v" "int (nest v) \<le> dm_maxNestedLevels dm"
  shows "\<exists>bs w. cbor_Marshal env v = Ok bs \<and> unmarshal_any env' dm bs = Ok w \<and> reorder v w"
proof -
  obtain bs where bs: "cbor_Marshal env v = Ok bs" "encodes v bs" using marshal_encodes [OF assms(1,2)] by blast
  obtain w where w: "reorder v w" "decodable dm w" "nest w \<le> nest v" "bs = wire w" using encodes_reorder [OF bs(2) assms(2)] by blast
  have "unmarshal_any env' dm (wire w) = Ok w" using w(3) assms(3) by (intro unmarshal_wire [OF w(2)]) simp
  then show ?thesis using bs(1) w(1,4) by blast
qed

definition ex_order :: cbor_env where
  "ex_order = \<lparr>ce_order = rev, ce_float = (\<lambda>_. []), ce_float16 = (\<lambda>_. 0), ce_float32 = (\<lambda>_. 0), ce_time = (\<lambda>_. Ok 0),
     ce_opaque = (\<lambda>_. []), ce_print = (\<lambda>_. []), ce_base64 = (\<lambda>_. [])\<rparr>"

theorem marshal_unmarshal_witness:
  "\<exists>bs w. cbor_Marshal ex_order (AMap [(AUint 1, ABytes [7]), (AInt (- 2), ASlice [ANil])]) = Ok bs \<and>
     unmarshal_any ex_order defaultDecMode bs = Ok w \<and> reorder (AMap [(AUint 1, ABytes [7]), (AInt (- 2), ASlice [ANil])]) w"
  by (rule marshal_unmarshal) (simp_all add: fair_order_def ex_order_def defaultDecMode_def)

end
