(* ===== verification/CborTarget.thy ===== *)
theory CborTarget
  imports CborDec "HOL-Library.AList"
begin

text \<open>
  Decoding into values of Go types (parseToValue and its helpers in src/vendor/github.com/alexdcox/cbor/v2/decode.go).

  \<^item> A Go type is a \<open>parser\<close>: from the old value and the data it makes the new value, the error and the rest of the data. After an error the decoder
    goes on behind the item, and the value keeps what was decoded so far.
  \<^item> The library looks at the kind of the target by reflection. Here \<open>'a target\<close> has one field for each kind of data, the \<open>fill\<close> functions of
    the kind, and \<open>parse_value\<close> is the dispatch on the data that all types share. The types that the library treats before the dispatch
    (\<open>any\<close>, pointers, types with a method \<open>UnmarshalCBOR\<close>) are parsers of their own.
  \<^item> All errors about the type of the target are one value, \<open>errType\<close>. A nil slice and an empty one are one value, and a new slice starts with zero
    elements: the library may reuse the memory of the old one, which shows only in elements that the data does not set.
  \<^item> A variable of type \<open>any\<close> stays as it was after an error, where the library may leave the part of a list or map it has built.
\<close>

subsection \<open>Parsers\<close>

type_synonym 'a parser = "'a \<Rightarrow> bytes \<Rightarrow> ('a \<times> unit res) \<times> bytes"

definition errType :: gerror where "errType = ErrMsg ''cbor: cannot unmarshal''"

text \<open>Going on with what was read; the old value stays when that failed.\<close>

definition moved :: "'x res \<Rightarrow> 'a \<Rightarrow> bytes \<Rightarrow> ('x \<Rightarrow> ('a \<times> unit res) \<times> bytes) \<Rightarrow> ('a \<times> unit res) \<times> bytes" where
  "moved r old data g = (case r of Ok x \<Rightarrow> g x | Err e \<Rightarrow> ((old, Err e), data) | Panic p \<Rightarrow> ((old, Panic p), data))"

lemma moved_Ok [simp]: "moved (Ok x) old data g = g x"
  by (simp add: moved_def)

text \<open>The first error; a panic ends the call.\<close>

fun then_err :: "unit res \<Rightarrow> unit res \<Rightarrow> unit res" where
  "then_err e (Panic p) = Panic p"
| "then_err (Ok u) e = e"
| "then_err e e' = e"

definition nextCBORNil :: "bytes \<Rightarrow> bool" where
  "nextCBORNil data \<longleftrightarrow> data \<noteq> [] \<and> (hd data = 0xF6 \<or> hd data = 0xF7)"

text \<open>Self-described tags are stripped and built-in tags checked before an item is decoded.\<close>

definition at_item :: "'a \<Rightarrow> bytes \<Rightarrow> (bytes \<Rightarrow> ('a \<times> unit res) \<times> bytes) \<Rightarrow> ('a \<times> unit res) \<times> bytes" where
  "at_item old data g =
     moved (strip_self (length data) data) old data (\<lambda>data.
     moved (check_tags (length data) data) old data (\<lambda>bad.
       case bad of
         Some (e, content) \<Rightarrow> moved (skip content) old content (\<lambda>r. ((old, Err e), r))
       | None \<Rightarrow> g data))"

subsection \<open>The dispatch\<close>

record 'a target =
  tg_uint :: "uint64 \<Rightarrow> 'a \<Rightarrow> 'a \<times> unit res"
  tg_neg :: "int \<Rightarrow> 'a \<Rightarrow> 'a \<times> unit res"
  tg_big :: "int \<Rightarrow> bytes \<Rightarrow> 'a \<Rightarrow> 'a \<times> unit res"
  tg_bytes :: "bytes \<Rightarrow> 'a \<Rightarrow> 'a \<times> unit res"
  tg_text :: "bytes \<Rightarrow> 'a \<Rightarrow> 'a \<times> unit res"
  tg_bool :: "bool \<Rightarrow> 'a \<Rightarrow> 'a \<times> unit res"
  tg_float :: "uint64 \<Rightarrow> 'a \<Rightarrow> 'a \<times> unit res"
  tg_nil :: "'a \<Rightarrow> 'a"
  tg_array :: "'a parser"
  tg_map :: "'a parser"

definition reject :: "'a \<Rightarrow> 'a \<times> unit res" where
  "reject old = (old, Err errType)"

definition skip_reject :: "'a parser" where
  "skip_reject old data = moved (skip data) old data (\<lambda>r. ((old, Err errType), r))"

fun parse_value :: "nat \<Rightarrow> cbor_env \<Rightarrow> DecMode \<Rightarrow> 'a target \<Rightarrow> 'a parser" where
  "parse_value 0 env dm tg old data = ((old, index_panic), data)"
| "parse_value (Suc k) env dm tg old data =
     at_item old data (\<lambda>data.
     moved (getHead data) old data (\<lambda>((t, ai, val), d).
       if t = 0x00 then (tg_uint tg val old, d)
       else if t = 0x20 then (if 0x8000000000000000 \<le> val then reject old else tg_neg tg (- uint val - 1) old, d)
       else if t = 0x40 then moved (parseByteString ai val d) old d (\<lambda>(b, r). (tg_bytes tg b old, r))
       else if t = 0x60 then
         moved (parseTextString dm ai val d) old d (\<lambda>(x, r). moved x old r (\<lambda>b. (tg_text tg b old, r)))
       else if t = 0xE0 then
         (if ai = 25 then (tg_float tg (ce_float16 env (ucast val)) old, d)
          else if ai = 26 then (tg_float tg (ce_float32 env (ucast val)) old, d)
          else if ai = 27 then (tg_float tg val old, d)
          else if ai = 20 \<or> ai = 21 then (tg_bool tg (ai = 21) old, d)
          else if ai = 22 \<or> ai = 23 then ((tg_nil tg old, Ok ()), d)
          else (tg_uint tg val old, d))
       else if t = 0xC0 then
         (if val = 2 \<or> val = 3 then
            moved (getHead d) old d (\<lambda>((t', ai', val'), d'). moved (parseByteString ai' val' d') old d' (\<lambda>(b, r).
              (tg_big tg (if val = 2 then int (big_SetBytes b) else - int (big_SetBytes b) - 1) b old, r)))
          else parse_value k env dm tg old d)
       else if t = 0x80 then tg_array tg old data
       else tg_map tg old data))"

definition parseToValue :: "cbor_env \<Rightarrow> DecMode \<Rightarrow> 'a target \<Rightarrow> 'a parser" where
  "parseToValue env dm tg old data = parse_value (length data) env dm tg old data"

subsection \<open>Scalar kinds\<close>

definition fillPositiveInt :: "uint64 \<Rightarrow> ('n::len word) \<Rightarrow> 'n word \<times> unit res" where
  "fillPositiveInt val old = (if uint val < 2 ^ LENGTH('n) then (ucast val, Ok ()) else reject old)"

definition uint_target :: "('n::len word) target" where
  "uint_target = \<lparr>tg_uint = fillPositiveInt, tg_neg = (\<lambda>_. reject),
     tg_big = (\<lambda>i b old. if 0 \<le> i \<and> i < 2 ^ 64 then fillPositiveInt (of_int i) old else reject old),
     tg_bytes = (\<lambda>_. reject), tg_text = (\<lambda>_. reject), tg_bool = (\<lambda>_. reject), tg_float = (\<lambda>_. reject), tg_nil = (\<lambda>old. old),
     tg_array = skip_reject, tg_map = skip_reject\<rparr>"

text \<open>The kind \<open>int\<close>, of 64 bits.\<close>

definition fillInt :: "int \<Rightarrow> int \<Rightarrow> int \<times> unit res" where
  "fillInt i old = (if - (2 ^ 63) \<le> i \<and> i < 2 ^ 63 then (i, Ok ()) else reject old)"

definition int_target :: "int target" where
  "int_target = \<lparr>tg_uint = (\<lambda>val. fillInt (uint val)), tg_neg = fillInt, tg_big = (\<lambda>i b. fillInt i),
     tg_bytes = (\<lambda>_. reject), tg_text = (\<lambda>_. reject), tg_bool = (\<lambda>_. reject), tg_float = (\<lambda>_. reject), tg_nil = (\<lambda>old. old),
     tg_array = skip_reject, tg_map = skip_reject\<rparr>"

text \<open>A kind that takes nothing: the start for the others.\<close>

definition no_target :: "'a target" where
  "no_target = \<lparr>tg_uint = (\<lambda>_. reject), tg_neg = (\<lambda>_. reject), tg_big = (\<lambda>_ _. reject), tg_bytes = (\<lambda>_. reject), tg_text = (\<lambda>_. reject),
     tg_bool = (\<lambda>_. reject), tg_float = (\<lambda>_. reject), tg_nil = (\<lambda>old. old), tg_array = skip_reject, tg_map = skip_reject\<rparr>"

definition bool_target :: "bool target" where
  "bool_target = no_target\<lparr>tg_bool := (\<lambda>b old. (b, Ok ()))\<rparr>"

definition string_target :: "string target" where
  "string_target = no_target\<lparr>tg_text := (\<lambda>b old. (bytes_string b, Ok ()))\<rparr>"

subsection \<open>Slices\<close>

text \<open>The loop over the elements; \<open>indef\<close> says that a break ends it.\<close>

fun slice_elems :: "'e parser \<Rightarrow> 'e \<Rightarrow> bool \<Rightarrow> nat \<Rightarrow> bytes \<Rightarrow> ('e list \<times> unit res) \<times> bytes" where
  "slice_elems p zero indef 0 data = (([], if indef then index_panic else Ok ()), data)"
| "slice_elems p zero indef (Suc k) data =
     (if indef \<and> data = [] then (([], index_panic), data)
      else if indef \<and> isBreakFlag (hd data) then (([], Ok ()), tl data)
      else case p zero data of
        ((v, Panic q), r) \<Rightarrow> (([v], Panic q), r)
      | ((v, e), r) \<Rightarrow> (case slice_elems p zero indef k r of ((vs, e'), r') \<Rightarrow> ((v # vs, then_err e e'), r')))"

definition parseArrayToSlice :: "'e parser \<Rightarrow> 'e \<Rightarrow> 'e list parser" where
  "parseArrayToSlice p zero old data =
     moved (getHead data) old data (\<lambda>((t, ai, val), d). slice_elems p zero (ai = 31) (if ai = 31 then length d else unat val) d)"

definition slice_target :: "'e parser \<Rightarrow> 'e \<Rightarrow> 'e list target" where
  "slice_target p zero = no_target\<lparr>tg_nil := (\<lambda>_. []), tg_array := parseArrayToSlice p zero\<rparr>"

definition bytes_target :: "cbor_env \<Rightarrow> DecMode \<Rightarrow> bytes target" where
  "bytes_target env dm = (slice_target (parseToValue env dm uint_target) 0)\<lparr>tg_bytes := (\<lambda>b old. (b, Ok ())), tg_big := (\<lambda>i b old. (b, Ok ()))\<rparr>"

text \<open>Unsigned integers of all sizes, and byte slices.\<close>

definition parse_uint :: "cbor_env \<Rightarrow> DecMode \<Rightarrow> ('n::len word) parser" where
  "parse_uint env dm = parseToValue env dm uint_target"

definition parse_bytes :: "cbor_env \<Rightarrow> DecMode \<Rightarrow> bytes parser" where
  "parse_bytes env dm = parseToValue env dm (bytes_target env dm)"

subsection \<open>Structs\<close>

text \<open>A field: the parser of its type inside the struct.\<close>

definition field :: "('s \<Rightarrow> 'a) \<Rightarrow> ('a \<Rightarrow> 's \<Rightarrow> 's) \<Rightarrow> 'a parser \<Rightarrow> 's parser" where
  "field get put p s data = (case p (get s) data of ((v, e), r) \<Rightarrow> ((put v s, e), r))"

fun numOfItemsUntilBreak :: "nat \<Rightarrow> bytes \<Rightarrow> nat res" where
  "numOfItemsUntilBreak 0 data = index_panic"
| "numOfItemsUntilBreak (Suc k) data =
     (case data of
        [] \<Rightarrow> index_panic
      | b # _ \<Rightarrow> if isBreakFlag b then Ok 0
          else res_bind (skip data) (\<lambda>r. res_bind (numOfItemsUntilBreak k r) (\<lambda>n. Ok (Suc n))))"

fun parse_fields :: "'s parser list \<Rightarrow> 's parser" where
  "parse_fields [] s data = ((s, Ok ()), data)"
| "parse_fields (f # fs) s data =
     (case f s data of
        ((s', Panic q), r) \<Rightarrow> ((s', Panic q), r)
      | ((s', e), r) \<Rightarrow> (case parse_fields fs s' r of ((s'', e'), r') \<Rightarrow> ((s'', then_err e e'), r')))"

text \<open>A struct with the option \<open>toarray\<close>: the number of elements is the number of fields.\<close>

definition parseArrayToStruct :: "'s parser list \<Rightarrow> 's parser" where
  "parseArrayToStruct flds s data =
     moved (getHead data) s data (\<lambda>((t, ai, val), d).
     moved (if ai = 31 then numOfItemsUntilBreak (length d) d else Ok (unat val)) s d (\<lambda>count.
       if count \<noteq> length flds then skip_reject s data
       else case parse_fields flds s d of
         ((s', Panic q), r) \<Rightarrow> ((s', Panic q), r)
       | ((s', e), r) \<Rightarrow> ((s', e), if ai = 31 then tl r else r)))"

definition struct_target :: "'s parser list \<Rightarrow> 's target" where
  "struct_target flds = no_target\<lparr>tg_array := parseArrayToStruct flds\<rparr>"

text \<open>A struct whose fields have integer keys: key, name and parser of each field. A text key matches the name, which is
  the key in digits, so that upper and lower case do not matter. \<open>find_field\<close> is the first
  field with a property.\<close>

type_synonym 's field_table = "(int \<times> string \<times> 's parser) list"

definition find_field :: "(int \<Rightarrow> string \<Rightarrow> bool) \<Rightarrow> 's field_table \<Rightarrow> (int \<times> 's parser) option" where
  "find_field q flds = map_option (\<lambda>(k, nm, p). (k, p)) (List.find (\<lambda>(k, nm, p). q k nm) flds)"

text \<open>Reading a key: the field, the error and the rest.\<close>

definition map_key :: "DecMode \<Rightarrow> 's field_table \<Rightarrow> bytes \<Rightarrow> (((int \<times> 's parser) option \<times> unit res) \<times> bytes) res" where
  "map_key dm flds data =
     res_bind (getHead data) (\<lambda>((t, ai, val), d).
       if t = 0x60 then
         res_bind (parseTextString dm ai val d) (\<lambda>(x, r).
           case x of
             Ok b \<Rightarrow> Ok ((find_field (\<lambda>k nm. nm = bytes_string b) flds, Ok ()), r)
           | Err e \<Rightarrow> Ok ((None, Err e), r)
           | Panic p \<Rightarrow> Panic p)
       else if t = 0x00 then Ok ((find_field (\<lambda>k nm. k = sint val) flds, Ok ()), d)
       else if t = 0x20 then
         (if 0x8000000000000000 \<le> val then Ok ((None, Err errType), d)
          else Ok ((find_field (\<lambda>k nm. k = - uint val - 1) flds, Ok ()), d))
       else res_bind (skip data) (\<lambda>r. Ok ((None, Err errType), r)))"

text \<open>The loop over the entries; a field in \<open>found\<close> is not read again.\<close>

fun map_fields :: "DecMode \<Rightarrow> 's field_table \<Rightarrow> bool \<Rightarrow> nat \<Rightarrow> int list \<Rightarrow> 's parser" where
  "map_fields dm flds indef 0 found s data = ((s, if indef then index_panic else Ok ()), data)"
| "map_fields dm flds indef (Suc n) found s data =
     (if indef \<and> data = [] then ((s, index_panic), data)
      else if indef \<and> isBreakFlag (hd data) then ((s, Ok ()), tl data)
      else moved (map_key dm flds data) s data (\<lambda>((f, e), r).
        case f of
          Some (k, p) \<Rightarrow>
            if k \<in> set found then moved (skip r) s r (\<lambda>r'. map_fields dm flds indef n found s r')
            else (case p s r of
                ((s', Panic q), r') \<Rightarrow> ((s', Panic q), r')
              | ((s', e'), r') \<Rightarrow>
                  (case map_fields dm flds indef n (k # found) s' r' of ((s'', e''), r'') \<Rightarrow> ((s'', then_err e' e''), r'')))
        | None \<Rightarrow>
            moved (skip r) s r (\<lambda>r'.
              case map_fields dm flds indef n found s r' of ((s'', e''), r'') \<Rightarrow> ((s'', then_err e e''), r''))))"

definition parseMapToStruct :: "DecMode \<Rightarrow> 's field_table \<Rightarrow> 's parser" where
  "parseMapToStruct dm flds s data =
     moved (getHead data) s data (\<lambda>((t, ai, val), d). map_fields dm flds (ai = 31) (if ai = 31 then length d else unat val) [] s d)"

definition keyed_target :: "DecMode \<Rightarrow> 's field_table \<Rightarrow> 's target" where
  "keyed_target dm flds = no_target\<lparr>tg_map := parseMapToStruct dm flds\<rparr>"

subsection \<open>Types treated before the dispatch\<close>

text \<open>A variable of type \<open>any\<close>; null leaves it as it is.\<close>

definition parse_iface :: "cbor_env \<Rightarrow> DecMode \<Rightarrow> any parser" where
  "parse_iface env dm old data =
     at_item old data (\<lambda>data.
       case parse_item (length data) env dm False data of
         (Ok v, r) \<Rightarrow> ((if v = ANil then old else v, Ok ()), r)
       | (Err e, r) \<Rightarrow> ((old, Err e), r)
       | (Panic p, r) \<Rightarrow> ((old, Panic p), r))"

text \<open>A type with a method \<open>UnmarshalCBOR\<close>, which gets the bytes of the item.\<close>

definition parseToUnmarshaler :: "(bytes \<Rightarrow> 'a \<Rightarrow> 'a \<times> unit res) \<Rightarrow> 'a parser" where
  "parseToUnmarshaler f old data =
     at_item old data (\<lambda>data. moved (skip data) old data (\<lambda>r. (f (take (length data - length r) data) old, r)))"

text \<open>A method that only sets its receiver when it succeeds.\<close>

definition all_or_nothing :: "'a res \<Rightarrow> 'a \<Rightarrow> 'a \<times> unit res" where
  "all_or_nothing r old = (case r of Ok v \<Rightarrow> (v, Ok ()) | Err e \<Rightarrow> (old, Err e) | Panic p \<Rightarrow> (old, Panic p))"

text \<open>A pointer; \<open>zero\<close> is what \<open>reflect.New\<close> makes.\<close>

definition parse_pointer :: "'a \<Rightarrow> 'a parser \<Rightarrow> 'a option parser" where
  "parse_pointer zero p old data =
     (if nextCBORNil data then moved (skip data) old data (\<lambda>r. ((None, Ok ()), r))
      else case p (case old of None \<Rightarrow> zero | Some v \<Rightarrow> v) data of ((v, e), r) \<Rightarrow> ((Some v, e), r))"

subsection \<open>Byte strings as keys, and maps\<close>

definition ByteString_UnmarshalCBOR :: "bytes \<Rightarrow> string \<Rightarrow> string \<times> unit res" where
  "ByteString_UnmarshalCBOR data old =
     (if length data = 1 \<and> (data ! 0 = 0xF6 \<or> data ! 0 = 0xF7) then ([], Ok ())
      else if data = [] then (old, index_panic)
      else if getType (hd data) \<noteq> 0x40 then reject old
      else all_or_nothing (res_bind (getHead data) (\<lambda>((t, ai, val), d).
        res_bind (parseByteString ai val d) (\<lambda>(b, r). Ok (bytes_string b)))) old)"

definition parse_ByteString :: "string parser" where
  "parse_ByteString = parseToUnmarshaler ByteString_UnmarshalCBOR"

text \<open>The loop over the entries of a Go map. The key and the value are read into two variables, which \<open>kr\<close> and \<open>vr\<close> set back to zero between
  entries; the library does not do so for numbers and strings.\<close>

fun map_elems :: "'k parser \<Rightarrow> 'v parser \<Rightarrow> ('k \<Rightarrow> 'k) \<Rightarrow> ('v \<Rightarrow> 'v) \<Rightarrow> bool \<Rightarrow> nat \<Rightarrow> 'k \<Rightarrow> 'v \<Rightarrow> ('k \<times> 'v) list parser" where
  "map_elems kp vp kr vr indef 0 k0 v0 m data = ((m, if indef then index_panic else Ok ()), data)"
| "map_elems kp vp kr vr indef (Suc n) k0 v0 m data =
     (if indef \<and> data = [] then ((m, index_panic), data)
      else if indef \<and> isBreakFlag (hd data) then ((m, Ok ()), tl data)
      else case kp (kr k0) data of
        ((k, Panic q), r) \<Rightarrow> ((m, Panic q), r)
      | ((k, Err e), r) \<Rightarrow>
          moved (skip r) m r (\<lambda>r'.
            case map_elems kp vp kr vr indef n k v0 m r' of ((m', e'), r'') \<Rightarrow> ((m', then_err (Err e) e'), r''))
      | ((k, Ok _), r) \<Rightarrow>
          (case vp (vr v0) r of
             ((v, Panic q), r') \<Rightarrow> ((m, Panic q), r')
           | ((v, Err e), r') \<Rightarrow>
               (case map_elems kp vp kr vr indef n k v m r' of ((m', e'), r'') \<Rightarrow> ((m', then_err (Err e) e'), r''))
           | ((v, Ok _), r') \<Rightarrow> map_elems kp vp kr vr indef n k v (AList.update k v m) r'))"

definition parseMapToMap :: "'k parser \<Rightarrow> 'v parser \<Rightarrow> ('k \<Rightarrow> 'k) \<Rightarrow> ('v \<Rightarrow> 'v) \<Rightarrow> 'k \<Rightarrow> 'v \<Rightarrow> ('k \<times> 'v) list parser" where
  "parseMapToMap kp vp kr vr kz vz m data =
     moved (getHead data) m data (\<lambda>((t, ai, val), d). map_elems kp vp kr vr (ai = 31) (if ai = 31 then length d else unat val) kz vz m d)"

text \<open>Maps from byte strings, to numbers and to maps of numbers.\<close>

definition number_map_target :: "'v parser \<Rightarrow> 'v \<Rightarrow> (string \<times> 'v) list target" where
  "number_map_target vp vz = no_target\<lparr>tg_nil := (\<lambda>_. []), tg_map := parseMapToMap parse_ByteString vp (\<lambda>k. k) (\<lambda>v. v) [] vz\<rparr>"

definition map_map_target :: "(string \<times> 'v) list parser \<Rightarrow> (string \<times> (string \<times> 'v) list) list target" where
  "map_map_target vp = no_target\<lparr>tg_nil := (\<lambda>_. []), tg_map := parseMapToMap parse_ByteString vp (\<lambda>k. k) (\<lambda>_. []) [] []\<rparr>"

subsection \<open>Unmarshal\<close>

definition Unmarshal :: "DecMode \<Rightarrow> 'a parser \<Rightarrow> bytes \<Rightarrow> 'a \<Rightarrow> 'a \<times> unit res" where
  "Unmarshal dm p data old =
     (case wellformed dm False False data of
        Ok _ \<Rightarrow> fst (p old data)
      | Err e \<Rightarrow> (old, Err e)
      | Panic q \<Rightarrow> (old, Panic q))"

definition UnmarshalFirst :: "DecMode \<Rightarrow> 'a parser \<Rightarrow> bytes \<Rightarrow> 'a \<Rightarrow> 'a \<times> bytes res" where
  "UnmarshalFirst dm p data old =
     (case wellformed dm True False data of
        Ok _ \<Rightarrow> (case p old data of ((v, e), r) \<Rightarrow> (v, res_bind e (\<lambda>_. Ok r)))
      | Err e \<Rightarrow> (old, Err e)
      | Panic q \<Rightarrow> (old, Panic q))"

end
