(* ===== verification/CborTargetSpec.thy ===== *)
theory CborTargetSpec
  imports CborTarget CborRoundtrip
begin

text \<open>
  Decoding encodings into Go types: what each kind of target makes of the encoding of a value, and the contract \<open>cbor_codec\<close> of an
  encoder and a parser, from which the behaviour of \<open>Unmarshal\<close> and \<open>UnmarshalFirst\<close> on complete and on cut input follows.
\<close>

subsection \<open>Items in front of the data\<close>

lemma at_item_head:
  assumes "t \<in> set major_types" "t \<noteq> 0xC0"
  shows "at_item old (encodeHead t n @ rest) g = g (encodeHead t n @ rest)"
proof -
  obtain b bs where b: "encodeHead t n = b # bs" "getType b = t"
    using encodeHead_Cons [of t n] getType_encodeHead [OF assms(1)] by metis
  then show ?thesis using assms(2) by (simp add: at_item_def)
qed

lemma at_item_wire:
  assumes "decodable dm v"
  shows "at_item old (wire v @ rest) g = g (wire v @ rest)"
proof -
  have "strip_self (length (wire v @ rest)) (wire v @ rest) = Ok (wire v @ rest)"
  proof (cases "\<exists>n w. v = ATag n w")
    case True
    then obtain n w where v: "v = ATag n w" by blast
    then show ?thesis using strip_tag [of n "wire w @ rest"] assms by simp
  qed (use no_tags(1) [OF assms] in blast)
  then show ?thesis using check_tags_wire [OF assms order_refl, of rest] by (simp add: at_item_def)
qed

lemma item_wire:
  assumes "decodable dm v" "int (nest v) \<le> dm_maxNestedLevels dm"
  shows "skip (wire v @ rest) = Ok rest"
  using wellformed_item [OF wire_wellformed [OF assms, of True rest False]] grammar_skip(1) by (simp add: skip_def)

lemma fuel_head: "\<exists>k. length (encodeHead t n @ rest) = Suc k"
  using encodeHead_length_Suc [of t n] by auto

subsection \<open>The dispatch on encodings\<close>

lemma value_head:
  assumes "t \<in> set major_types" "t \<noteq> 0xC0"
  shows "parseToValue env dm tg old (encodeHead t n @ rest) =
    (if t = 0x00 then (tg_uint tg n old, rest)
     else if t = 0x20 then (if 0x8000000000000000 \<le> n then reject old else tg_neg tg (- uint n - 1) old, rest)
     else if t = 0x40 then moved (parseByteString (ai_of n) n rest) old rest (\<lambda>(b, r). (tg_bytes tg b old, r))
     else if t = 0x60 then
       moved (parseTextString dm (ai_of n) n rest) old rest (\<lambda>(x, r). moved x old r (\<lambda>b. (tg_text tg b old, r)))
     else if t = 0x80 then tg_array tg old (encodeHead t n @ rest)
     else tg_map tg old (encodeHead t n @ rest))"
proof -
  obtain k where k: "length (encodeHead t n @ rest) = Suc k" using fuel_head by blast
  have "t \<noteq> 0xE0" using assms(1) by (auto simp: major_types_def)
  then show ?thesis unfolding parseToValue_def k
    using assms by (simp add: at_item_head getHead_encodeHead)
qed

lemma value_uint: "parseToValue env dm tg old (encodeHead 0x00 n @ rest) = (tg_uint tg n old, rest)"
  by (simp add: value_head)

lemma value_array: "parseToValue env dm tg old (encodeHead 0x80 n @ rest) = tg_array tg old (encodeHead 0x80 n @ rest)"
  by (simp add: value_head)

lemma value_map: "parseToValue env dm tg old (encodeHead 0xA0 n @ rest) = tg_map tg old (encodeHead 0xA0 n @ rest)"
  by (simp add: value_head)

lemma value_bytes: "length b < 2 ^ 63 \<Longrightarrow> parseToValue env dm tg old (encode_bytes b @ rest) = (tg_bytes tg b old, rest)"
  by (simp add: value_head encode_bytes_def parseByteString_def ai_of_definite cut_append)

lemma value_text:
  "length s < 2 ^ 63 \<Longrightarrow> dm_utf8 dm = UTF8RejectInvalid \<longrightarrow> utf8_Valid (string_bytes s) \<Longrightarrow>
   parseToValue env dm tg old (encode_string s @ rest) = (tg_text tg (string_bytes s) old, rest)"
  by (auto simp: value_head encode_string_def parseTextString_def ai_of_definite cut_string)

lemma value_neg:
  assumes "- (2 ^ 63) \<le> i" "i < 0"
  shows "parseToValue env dm tg old (encode_int i @ rest) = (tg_neg tg i old, rest)"
  using encode_int_negative [OF assms] by (simp add: value_head)

lemma value_bool: "parseToValue env dm tg old ((if b then 0xF5 else 0xF4) # rest) = (tg_bool tg b old, rest)"
  by (simp add: parseToValue_def at_item_def getHead_def getType_def getAdditionalInformation_def)

lemma value_null: "parseToValue env dm tg old (0xF6 # rest) = ((tg_nil tg old, Ok ()), rest)"
  by (simp add: parseToValue_def at_item_def getHead_def getType_def getAdditionalInformation_def)


subsection \<open>Reading a value\<close>

definition reads :: "'a parser \<Rightarrow> 'a \<Rightarrow> bytes \<Rightarrow> bool" where
  "reads p v b \<longleftrightarrow> (\<forall>old rest. p old (b @ rest) = ((v, Ok ()), rest))"

lemma readsD: "reads p v b \<Longrightarrow> p old (b @ rest) = ((v, Ok ()), rest)"
  by (simp add: reads_def)

lemma reads_uint:
  assumes "LENGTH('n) \<le> 64"
  shows "reads (parseToValue env dm uint_target) (v :: 'n::len word) (encodeHead 0x00 (ucast v))"
proof -
  have u: "uint (ucast v :: uint64) = uint v" by (rule uint_up_ucast) (use assms in \<open>simp add: is_up\<close>)
  have "ucast (ucast v :: uint64) = v" by (rule ucast_up_ucast_id) (use assms in \<open>simp add: is_up\<close>)
  then show ?thesis by (simp add: reads_def value_uint uint_target_def fillPositiveInt_def u)
qed

lemma reads_int:
  assumes "- (2 ^ 63) \<le> i" "i < 2 ^ 63"
  shows "reads (parseToValue env dm int_target) i (encode_int i)"
proof (cases "0 \<le> i")
  case True
  then have "uint (of_int i :: uint64) = i" using assms by (simp add: unsigned_of_int take_bit_int_eq_self)
  then show ?thesis using True assms by (simp add: reads_def encode_int_def value_uint int_target_def fillInt_def)
next
  case False
  then show ?thesis using assms by (simp add: reads_def value_neg int_target_def fillInt_def)
qed

lemma reads_bool: "reads (parseToValue env dm bool_target) b [if b then 0xF5 else 0xF4]"
  using value_bool [of env dm bool_target] by (simp add: reads_def bool_target_def)

lemma reads_text:
  "length s < 2 ^ 63 \<Longrightarrow> dm_utf8 dm = UTF8RejectInvalid \<longrightarrow> utf8_Valid (string_bytes s) \<Longrightarrow>
   reads (parseToValue env dm string_target) s (encode_string s)"
  by (simp add: reads_def value_text string_target_def)

lemma reads_HexBytes: "length b < 2 ^ 63 \<Longrightarrow> reads (parseToValue env dm (bytes_target env dm)) b (encode_HexBytes b)"
  by (simp add: reads_def encode_HexBytes_def value_bytes value_null bytes_target_def slice_target_def)

lemma then_err_Ok [simp]: "then_err (Ok u) e = e"
  by (cases e) simp_all

lemma slice_elems_concat:
  "list_all2 (\<lambda>v b. \<forall>rest. p zero (b @ rest) = ((v, Ok ()), rest)) vs bss \<Longrightarrow>
   slice_elems p zero False (length vs) (concat bss @ rest) = ((vs, Ok ()), rest)"
  by (induction vs bss rule: list_all2_induct) simp_all

lemma array_head:
  assumes "n < 2 ^ 63"
  shows "getHead (encodeHead 0x80 (of_nat n) @ rest) = Ok ((0x80, ai_of (of_nat n), of_nat n), rest)" "unat (of_nat n :: uint64) = n"
  using getHead_encodeHead of_nat_small(1) [OF assms] by auto

lemma reads_slice:
  assumes "list_all2 (\<lambda>v b. \<forall>rest. p zero (b @ rest) = ((v, Ok ()), rest)) vs bss" "length vs < 2 ^ 63"
  shows "reads (parseToValue env dm (slice_target p zero)) vs (enc_array bss)"
proof -
  have l: "length bss = length vs" using assms(1) by (simp add: list_all2_lengthD)
  show ?thesis
    using slice_elems_concat [where p = p and zero = zero and vs = vs and bss = bss, OF assms(1)] array_head [OF assms(2)]
    by (simp add: reads_def enc_array_def l value_array slice_target_def parseArrayToSlice_def ai_of_definite)
qed

lemma reads_encode_slice:
  assumes "\<forall>v\<in>set vs. reads p v (enc v)" "length vs < 2 ^ 63"
  shows "reads (parseToValue env dm (slice_target p zero)) vs (encode_slice enc vs)"
proof (cases "vs = []")
  case True
  then show ?thesis by (simp add: reads_def encode_slice_def value_null slice_target_def)
next
  case False
  have "list_all2 (\<lambda>v b. \<forall>rest. p zero (b @ rest) = ((v, Ok ()), rest)) vs (map enc vs)"
    using assms(1) by (auto simp: list_all2_conv_all_nth readsD)
  then show ?thesis using False reads_slice assms(2) by (simp add: encode_slice_def)
qed

text \<open>A struct as an array: its fields are read in order.\<close>

lemma value_struct:
  assumes "parse_fields fs old (concat bss @ rest) = ((s, Ok ()), rest)" "length bss = length fs" "length fs < 2 ^ 63"
  shows "parseToValue env dm (struct_target fs) old (enc_array bss @ rest) = ((s, Ok ()), rest)"
  using assms array_head [OF assms(3)]
  by (simp add: enc_array_def value_array struct_target_def parseArrayToStruct_def ai_of_definite)

lemma value_struct_panic:
  assumes "parse_fields fs old (concat bss @ rest) = ((s, Panic q), r)" "length bss = length fs" "length fs < 2 ^ 63"
  shows "parseToValue env dm (struct_target fs) old (enc_array bss @ rest) = ((s, Panic q), r)"
  using assms array_head [OF assms(3)]
  by (simp add: enc_array_def value_array struct_target_def parseArrayToStruct_def ai_of_definite)

lemma parse_field:
  "reads p v b \<Longrightarrow> parse_fields (field get put p # fs) s (b @ rest) = parse_fields fs (put v s) rest"
  by (cases "parse_fields fs (put v s) rest") (auto simp: field_def readsD split: prod.splits)

lemma parse_field_into:
  "f s (b @ rest) = ((s', Ok ()), rest) \<Longrightarrow> parse_fields (f # fs) s (b @ rest) = parse_fields fs s' rest"
  by (cases "parse_fields fs s' rest") (auto split: prod.splits)

text \<open>A struct as a map: one entry.\<close>

lemma map_entry:
  assumes "0 \<le> k" "k < 2 ^ 63" "find_field (\<lambda>k' nm. k' = k) flds = Some (k, p)" "k \<notin> set found" "p s (b @ rest) = ((s', Ok ()), rest)"
  shows "map_fields dm flds False (Suc n) found s (encode_int k @ b @ rest) = map_fields dm flds False n (k # found) s' rest"
proof -
  have u: "uint (of_int k :: uint64) = k" using assms(1,2) by (simp add: unsigned_of_int take_bit_int_eq_self)
  have "sint (of_int k :: uint64) = k" using assms(1,2) by (simp add: signed_of_int signed_take_bit_int_eq_self)
  then have "map_key dm flds (encode_int k @ b @ rest) = Ok ((Some (k, p), Ok ()), b @ rest)"
    using assms(1,3) by (simp add: map_key_def encode_int_def getHead_encodeHead)
  then show ?thesis using assms(4,5)
    by (cases "map_fields dm flds False n (k # found) s' rest") auto
qed

text \<open>All entries: the key, the parser of its field, the bytes and what they do to the struct.\<close>

lemma map_entries:
  assumes "\<forall>(k, p, b, u)\<in>set es. 0 \<le> k \<and> k < 2 ^ 63 \<and> find_field (\<lambda>k' nm. k' = k) flds = Some (k, p) \<and>
      (\<forall>s rest. p s (b @ rest) = ((u s, Ok ()), rest))"
    "distinct (map fst es @ found)"
  shows "map_fields dm flds False (length es) found s (concat (map (\<lambda>(k, p, b, u). encode_int k @ b) es) @ rest) =
    ((fold (\<lambda>(k, p, b, u). u) es s, Ok ()), rest)"
  using assms
proof (induction es arbitrary: found s)
  case (Cons e es)
  obtain k p b u where e: "e = (k, p, b, u)" by (metis prod.exhaust)
  have "map_fields dm flds False (length es) (k # found) (u s) (concat (map (\<lambda>(k, p, b, u). encode_int k @ b) es) @ rest) =
      ((fold (\<lambda>(k, p, b, u). u) es (u s), Ok ()), rest)"
    by (rule Cons.IH) (use Cons.prems e in auto)
  then show ?case using Cons.prems e map_entry [of k flds p found s b _ "u s"] by (simp del: map_fields.simps)
qed simp

lemma value_keyed:
  assumes "map_fields dm flds False (length es) [] old (concat (map (\<lambda>(k, b). encode_int k @ b) es) @ rest) = ((s, Ok ()), rest)"
    "length es < 2 ^ 63"
  shows "parseToValue env dm (keyed_target dm flds) old (enc_fields es @ rest) = ((s, Ok ()), rest)"
  using assms getHead_encodeHead [of "0xA0" "of_nat (length es)" "concat (map (\<lambda>(k, b). encode_int k @ b) es) @ rest"] of_nat_small(1) [OF assms(2)]
  by (simp add: enc_fields_def value_map keyed_target_def parseMapToStruct_def ai_of_definite)

subsection \<open>Types treated before the dispatch\<close>

lemma unmarshaler_wire:
  assumes "decodable dm v" "int (nest v) \<le> dm_maxNestedLevels dm"
  shows "parseToUnmarshaler f old (wire v @ rest) = (f (wire v) old, rest)"
  using item_wire [OF assms, of rest] by (simp add: parseToUnmarshaler_def at_item_wire [OF assms(1)])

lemma reads_iface:
  assumes "decodable dm v" "v \<noteq> ANil"
  shows "reads (parse_iface env dm) v (wire v)"
  using assms(2) by (simp add: reads_def parse_iface_def at_item_wire [OF assms(1)] parse_wire [OF assms(1)])

lemma iface_fresh: "decodable dm v \<Longrightarrow> parse_iface env dm ANil (wire v @ rest) = ((v, Ok ()), rest)"
  by (simp add: parse_iface_def at_item_wire parse_wire)

lemma nil_array: "\<not> nextCBORNil (encodeHead 0x80 n @ rest)"
proof -
  obtain b bs where b: "encodeHead 0x80 n = b # bs" "getType b = 0x80"
    using encodeHead_Cons [of "0x80" n] getType_encodeHead [of "0x80" n] by auto
  have "getType 0xF6 = 0xE0" "getType 0xF7 = 0xE0" by code_simp+
  then have "b \<noteq> 0xF6" "b \<noteq> 0xF7" using b(2) by auto
  then show ?thesis using b(1) by (simp add: nextCBORNil_def)
qed

lemma reads_pointer: "reads p v (enc_array bss) \<Longrightarrow> reads (parse_pointer zero p) (Some v) (enc_array bss)"
  by (simp add: reads_def parse_pointer_def enc_array_def nil_array)


subsection \<open>Cut input\<close>

text \<open>Of a proper prefix of an encoding the check says \<open>unexpected EOF\<close>: any other verdict would hold for the encoding, too.\<close>

lemma wire_prefix:
  assumes "decodable dm v" "int (nest v) \<le> dm_maxNestedLevels dm" "wire v = bs @ cut_off" "bs \<noteq> []" "cut_off \<noteq> []"
  shows "wellformed dm extra False bs = Err ErrUnexpectedEOF"
proof -
  have "wf_item (length bs) dm False 0 bs = Err ErrUnexpectedEOF"
  proof (rule ccontr)
    assume n: "wf_item (length bs) dm False 0 bs \<noteq> Err ErrUnexpectedEOF"
    have "wf_item (length (wire v)) dm False 0 (wire v) = Ok []"
      using wire_wellformed [OF assms(1,2), of True "[]" False] assms(3,4) by (auto simp: wellformed_def split: if_splits)
    moreover have "wf_item (length (wire v)) dm False 0 (bs @ cut_off) = extended cut_off (wf_item (length bs) dm False 0 bs)"
      using wf_extend(1) [OF n] assms(3) by simp
    ultimately show False using assms(3,5) by (cases "wf_item (length bs) dm False 0 bs") auto
  qed
  then show ?thesis using assms(4) by (simp add: wellformed_def)
qed

subsection \<open>Codecs\<close>

text \<open>
  The contract of an encoder and a parser: an encoding is the one of a value of type \<open>any\<close> within the limits of the mode, and the parser
  makes \<open>into old v\<close> of it, whatever follows.
\<close>

locale cbor_codec =
  fixes dm :: DecMode
    and p :: "'a parser"
    and enc :: "'a \<Rightarrow> bytes"
    and rep :: "'a \<Rightarrow> any"
    and ok :: "'a \<Rightarrow> bool"
    and into :: "'a \<Rightarrow> 'a \<Rightarrow> 'a"
  assumes enc_wire: "ok v \<Longrightarrow> enc v = wire (rep v)"
    and rep_decodable: "ok v \<Longrightarrow> decodable dm (rep v)"
    and rep_nest: "ok v \<Longrightarrow> int (nest (rep v)) \<le> dm_maxNestedLevels dm"
    and parses_enc: "ok v \<Longrightarrow> p old (enc v @ rest) = ((into old v, Ok ()), rest)"
begin

lemma wellformed_enc: "ok v \<Longrightarrow> wellformed dm False False (enc v) = Ok []"
  using wire_wellformed [OF rep_decodable rep_nest, of v False "[]" False] by (simp add: enc_wire)

lemma Unmarshal_enc: "ok v \<Longrightarrow> Unmarshal dm p (enc v) old = (into old v, Ok ())"
  using wellformed_enc [of v] parses_enc [of v old "[]"] by (simp add: Unmarshal_def)

lemma UnmarshalFirst_enc: "ok v \<Longrightarrow> UnmarshalFirst dm p (enc v @ rest) old = (into old v, Ok rest)"
  using wire_wellformed [OF rep_decodable rep_nest, of v True rest False] parses_enc [of v old rest]
  by (simp add: UnmarshalFirst_def enc_wire)

lemma UnmarshalFirst_cut:
  "ok v \<Longrightarrow> enc v = bs @ cut_off \<Longrightarrow> bs \<noteq> [] \<Longrightarrow> cut_off \<noteq> [] \<Longrightarrow> UnmarshalFirst dm p bs old = (old, Err ErrUnexpectedEOF)"
  using wire_prefix [OF rep_decodable rep_nest, of v bs cut_off True] by (simp add: UnmarshalFirst_def enc_wire)

end


subsection \<open>Verdicts\<close>

text \<open>The error and the rest of the data do not depend on the old value.\<close>

definition verdict :: "('a \<times> unit res) \<times> bytes \<Rightarrow> unit res \<times> bytes" where
  "verdict x = (snd (fst x), snd x)"

definition uniform :: "'a parser \<Rightarrow> bool" where
  "uniform p \<longleftrightarrow> (\<forall>old old' data. verdict (p old data) = verdict (p old' data))"

definition uniform_target :: "'a target \<Rightarrow> bool" where
  "uniform_target tg \<longleftrightarrow> (\<forall>old old'.
     (\<forall>n. snd (tg_uint tg n old) = snd (tg_uint tg n old')) \<and> (\<forall>i. snd (tg_neg tg i old) = snd (tg_neg tg i old')) \<and>
     (\<forall>i b. snd (tg_big tg i b old) = snd (tg_big tg i b old')) \<and> (\<forall>b. snd (tg_bytes tg b old) = snd (tg_bytes tg b old')) \<and>
     (\<forall>b. snd (tg_text tg b old) = snd (tg_text tg b old')) \<and> (\<forall>b. snd (tg_bool tg b old) = snd (tg_bool tg b old')) \<and>
     (\<forall>f. snd (tg_float tg f old) = snd (tg_float tg f old'))) \<and> uniform (tg_array tg) \<and> uniform (tg_map tg)"

lemma verdict_pair [simp]: "verdict ((v, e), r) = (e, r)"
  by (simp add: verdict_def)

lemma uniformD: "uniform p \<Longrightarrow> verdict (p old data) = verdict (p old' data)"
  by (simp add: uniform_def)

lemma verdict_eq: "verdict x = verdict y \<Longrightarrow> \<exists>v w e r. x = ((v, e), r) \<and> y = ((w, e), r)"
  by (cases x; cases y) (auto simp: verdict_def)

lemma verdict_moved:
  "(\<And>x. verdict (g x) = verdict (g' x)) \<Longrightarrow> verdict (moved r old data g) = verdict (moved r old' data g')"
  by (simp add: moved_def split: res.split)

lemma verdict_at_item:
  "(\<And>d. verdict (g d) = verdict (g' d)) \<Longrightarrow> verdict (at_item old data g) = verdict (at_item old' data g')"
  unfolding at_item_def by (intro verdict_moved) (auto split: option.split intro!: verdict_moved)

lemma uniform_skip_reject: "uniform skip_reject"
  unfolding uniform_def skip_reject_def by (intro allI verdict_moved) simp

lemma verdict_if: "(c \<Longrightarrow> verdict x = verdict x') \<Longrightarrow> (\<not> c \<Longrightarrow> verdict y = verdict y') \<Longrightarrow>
    verdict (if c then x else y) = verdict (if c then x' else y')"
  by simp

lemma snd_if: "(c \<Longrightarrow> snd x = snd x') \<Longrightarrow> (\<not> c \<Longrightarrow> snd y = snd y') \<Longrightarrow> snd (if c then x else y) = snd (if c then x' else y')"
  by simp

lemma verdict_fst: "snd a = snd b \<Longrightarrow> verdict (a, d) = verdict (b, d)"
  by (simp add: verdict_def)

lemma uniform_value:
  assumes "uniform_target tg"
  shows "uniform (parseToValue env dm tg)"
proof -
  note u = assms [unfolded uniform_target_def]
  have a: "verdict (tg_array tg old d) = verdict (tg_array tg old' d)" "verdict (tg_map tg old d) = verdict (tg_map tg old' d)" for old old' d
    by (rule uniformD [OF u [THEN conjunct2, THEN conjunct1]], rule uniformD [OF u [THEN conjunct2, THEN conjunct2]])
  have s: "snd (tg_uint tg n old) = snd (tg_uint tg n old')" "snd (tg_neg tg i old) = snd (tg_neg tg i old')"
    "snd (tg_big tg i b old) = snd (tg_big tg i b old')" "snd (tg_bytes tg b old) = snd (tg_bytes tg b old')"
    "snd (tg_text tg b old) = snd (tg_text tg b old')" "snd (tg_bool tg c old) = snd (tg_bool tg c old')"
    "snd (tg_float tg n old) = snd (tg_float tg n old')" "snd (reject old) = snd (reject old')" for old old' n i b c
    using u [THEN conjunct1, THEN spec, THEN spec, of old old'] by (auto simp: reject_def)
  have "verdict (parse_value k env dm tg old data) = verdict (parse_value k env dm tg old' data)" for k old old' data
  proof (induction k arbitrary: data)
    case (Suc k)
    show ?case unfolding parse_value.simps
      by (intro verdict_at_item verdict_moved, clarify) (intro verdict_if verdict_moved verdict_fst snd_if a s Suc.IH | simp add: case_prod_unfold)+
  qed simp
  then show ?thesis by (simp add: uniform_def parseToValue_def)
qed

lemma uniform_no_target [simp]: "uniform_target no_target"
  by (simp add: uniform_target_def no_target_def reject_def uniform_skip_reject)

lemma uniform_scalars [simp]: "uniform_target uint_target" "uniform_target int_target" "uniform_target bool_target" "uniform_target string_target"
  by (auto simp: uniform_target_def uint_target_def int_target_def bool_target_def string_target_def no_target_def reject_def fillPositiveInt_def
    fillInt_def uniform_skip_reject)

lemma uniform_slice [simp]: "uniform_target (slice_target p zero)" "uniform_target (bytes_target env dm)"
proof -
  have "uniform (parseArrayToSlice q z)" for q :: "'b parser" and z
    unfolding uniform_def parseArrayToSlice_def by (auto intro!: verdict_moved)
  moreover have "uniform (parseArrayToSlice q z)" for q :: "'a parser" and z
    unfolding uniform_def parseArrayToSlice_def by (auto intro!: verdict_moved)
  moreover have "uniform (parseArrayToSlice q z)" for q :: "byte parser" and z
    unfolding uniform_def parseArrayToSlice_def by (auto intro!: verdict_moved)
  ultimately show "uniform_target (slice_target p zero)" "uniform_target (bytes_target env dm)"
    by (simp_all add: uniform_target_def slice_target_def bytes_target_def no_target_def reject_def uniform_skip_reject)
qed

lemma uniform_field: "uniform p \<Longrightarrow> uniform (field get put p)"
  unfolding uniform_def field_def by (metis (mono_tags, lifting) case_prod_unfold verdict_def fst_conv snd_conv)

lemma uniform_fields: "list_all uniform fs \<Longrightarrow> uniform (parse_fields fs)"
proof (induction fs)
  case (Cons f fs)
  then have u: "uniform f" "uniform (parse_fields fs)" by auto
  show ?case unfolding uniform_def
  proof (intro allI)
    fix old old' data
    from verdict_eq [OF uniformD [OF u(1)]] obtain v w e r where f: "f old data = ((v, e), r)" "f old' data = ((w, e), r)" by blast
    from verdict_eq [OF uniformD [OF u(2)]] obtain v' w' e' r' where g: "parse_fields fs v r = ((v', e'), r')" "parse_fields fs w r = ((w', e'), r')" by blast
    show "verdict (parse_fields (f # fs) old data) = verdict (parse_fields (f # fs) old' data)" using f g by (cases e) auto
  qed
qed (simp add: uniform_def)

lemma uniform_struct: "list_all uniform fs \<Longrightarrow> uniform_target (struct_target fs)"
proof -
  assume "list_all uniform fs"
  then have u: "uniform (parse_fields fs)" by (rule uniform_fields)
  have "verdict (case parse_fields fs old d of ((s', Panic q), r) \<Rightarrow> ((s', Panic q), r) | ((s', e), r) \<Rightarrow> ((s', e), if b then tl r else r)) =
      verdict (case parse_fields fs old' d of ((s', Panic q), r) \<Rightarrow> ((s', Panic q), r) | ((s', e), r) \<Rightarrow> ((s', e), if b then tl r else r))" for old old' d b
  proof -
    from verdict_eq [OF uniformD [OF u]] obtain v w e r where "parse_fields fs old d = ((v, e), r)" "parse_fields fs old' d = ((w, e), r)" by blast
    then show ?thesis by (cases e) auto
  qed
  then have "uniform (parseArrayToStruct fs)" unfolding uniform_def parseArrayToStruct_def
    by (intro allI verdict_moved, clarify) (intro verdict_moved verdict_if uniformD [OF uniform_skip_reject])
  then show ?thesis by (simp add: uniform_target_def struct_target_def no_target_def reject_def uniform_skip_reject)
qed

lemma find_field_member: "find_field q flds = Some (k, p) \<Longrightarrow> \<exists>nm. (k, nm, p) \<in> set flds"
  by (auto simp: find_field_def find_Some_iff) (metis nth_mem)

lemma map_key_field:
  assumes "map_key dm flds data = Ok ((Some kp, e), r)"
  shows "\<exists>q. find_field q flds = Some kp"
proof -
  obtain t ai val d where h: "getHead data = Ok ((t, ai, val), d)" using assms by (auto simp: map_key_def res_bind_eq_Ok)
  consider "t = 0x60" | "t = 0x00" | "t = 0x20" | "t \<notin> {0x60, 0x00, 0x20}" by blast
  then show ?thesis
  proof cases
    case 1
    then obtain x r' where "parseTextString dm ai val d = Ok (x, r')" using assms h by (auto simp: map_key_def res_bind_eq_Ok)
    then show ?thesis using assms h 1 by (cases x) (auto simp: map_key_def)
  qed (use assms h in \<open>auto simp: map_key_def res_bind_eq_Ok split: if_splits\<close>)
qed

lemma uniform_map_fields:
  assumes "\<forall>(k, nm, p)\<in>set flds. uniform p"
  shows "verdict (map_fields dm flds indef n found s data) = verdict (map_fields dm flds indef n found s' data)"
proof (induction n arbitrary: found s s' data)
  case (Suc n)
  have step: "verdict (case map_fields dm flds indef n fd s1 r' of ((s'', e''), r'') \<Rightarrow> ((s'', then_err e e''), r'')) =
      verdict (case map_fields dm flds indef n fd s2 r' of ((s'', e''), r'') \<Rightarrow> ((s'', then_err e e''), r''))" for fd s1 s2 r' e
    using verdict_eq [OF Suc.IH, of fd s1 r' s2] by auto
  have fld: "uniform p" if "map_key dm flds data = Ok ((Some (k, p), e), r)" for k p e r
    using map_key_field [OF that] find_field_member assms by fastforce
  show ?case
  proof (cases "map_key dm flds data")
    case (Ok x)
    obtain f e r where x: "x = ((f, e), r)" by (metis prod.exhaust)
    show ?thesis
    proof (cases f)
      case None
      then show ?thesis using Ok x by (auto intro!: verdict_moved verdict_if step)
    next
      case (Some kp)
      obtain k p where kp: "kp = (k, p)" by fastforce
      then have u: "uniform p" using fld Ok x Some by blast
      from verdict_eq [OF uniformD [OF u]] obtain v w e' r' where "p s r = ((v, e'), r')" "p s' r = ((w, e'), r')" by blast
      then show ?thesis using Ok x Some kp step by (cases e') (auto intro!: verdict_moved verdict_if Suc.IH)
    qed
  qed (auto simp: moved_def)
qed simp

lemma uniform_keyed:
  assumes "\<forall>(k, nm, p)\<in>set flds. uniform p"
  shows "uniform_target (keyed_target dm flds)"
proof -
  have "uniform (parseMapToStruct dm flds)"
    unfolding uniform_def parseMapToStruct_def by (auto intro!: verdict_moved uniform_map_fields [OF assms])
  then show ?thesis by (simp add: uniform_target_def keyed_target_def no_target_def reject_def uniform_skip_reject)
qed

lemma uniform_iface: "uniform (parse_iface env dm)"
  unfolding uniform_def parse_iface_def by (intro allI verdict_at_item) (auto split: prod.split res.split)

lemma uniform_unmarshaler: "(\<And>b old old'. snd (f b old) = snd (f b old')) \<Longrightarrow> uniform (parseToUnmarshaler f)"
  unfolding uniform_def parseToUnmarshaler_def by (intro allI verdict_at_item verdict_moved) (auto simp: verdict_def)

lemma uniform_pointer: "uniform p \<Longrightarrow> uniform (parse_pointer zero p)"
proof -
  assume u: "uniform p"
  show ?thesis unfolding uniform_def
  proof (intro allI)
    fix old old' data
    show "verdict (parse_pointer zero p old data) = verdict (parse_pointer zero p old' data)"
    proof (cases "nextCBORNil data")
      case True
      then show ?thesis by (simp add: parse_pointer_def verdict_moved)
    next
      case False
      obtain v w e r where "p (case old of None \<Rightarrow> zero | Some v \<Rightarrow> v) data = ((v, e), r)" "p (case old' of None \<Rightarrow> zero | Some v \<Rightarrow> v) data = ((w, e), r)"
        using verdict_eq [OF uniformD [OF u]] by metis
      then show ?thesis using False by (simp add: parse_pointer_def)
    qed
  qed
qed

lemma uniform_Unmarshal: "uniform p \<Longrightarrow> snd (Unmarshal dm p data old) = snd (Unmarshal dm p data old')"
  using uniformD [of p old data old'] by (auto simp: Unmarshal_def verdict_def split: res.split)

end
