(* ===== verification/BlockData.thy ===== *)
theory BlockData
  imports CborDec Protocol Address
begin

text \<open>
  The block and transaction structs of src/block.go and src/protocol_tx_submission.go, the auxiliary data with its CBOR and JSON forms,
  and the operations on them.

  \<^item> A struct is a record, an output or a collateral return one of its listed subtypes. The layout of the
    bytes of these structs is an argument (\<open>marshal\<close>) of the hashes; \<open>BlockCodec\<close> has the one of the library.
  \<^item> A JSON document is a tree: \<open>json\<close> leaves out the text (escapes, the sorting of members), which the gjson parser reads back.
\<close>

subsection \<open>Headers\<close>

record VrfCert =
  vc_Pt1 :: bytes
  vc_Pt2 :: bytes

record OperationalCert =
  oc_HotVkey :: bytes
  oc_Sequence :: uint64
  oc_KesPeriod :: int
  oc_Sigma :: bytes

record ProtocolVersion =
  pv_Pt1 :: int
  pv_Pt2 :: int

record BlockHeaderBody =
  bh_Number :: uint64
  bh_Slot :: uint64
  bh_PrevHash :: bytes
  bh_IssuerVkey :: bytes
  bh_VrfKey :: bytes
  bh_VrfResult :: VrfCert
  bh_BodySize :: uint64
  bh_BodyHash :: bytes
  bh_OperationalCert :: OperationalCert
  bh_ProtocolVersion :: ProtocolVersion

record BlockHeader =
  hd_Body :: BlockHeaderBody
  hd_Signature :: bytes

subsection \<open>Transactions\<close>

record TransactionInput =
  ti_Txid :: bytes
  ti_Index :: int

record AmountData =
  ad_Amount :: uint64
  ad_Mappings :: "(string \<times> (string \<times> uint64) list) list"

record TransactionOutputExtra =
  te_A :: uint64
  te_B :: bytes

record TransactionOutputA =
  toA_Address :: Address
  toA_AmountData :: AmountData
  toA_Extra :: "TransactionOutputExtra Optional"

record TransactionOutputB =
  toB_Address :: Address
  toB_Amount :: uint64

record TransactionOutputC =
  toC_Address :: Address
  toC_Amount :: uint64
  toC_Address2 :: Address

record TransactionOutputD =
  toD_Address :: Address
  toD_AmountData :: AmountData
  toD_Extra :: "any list"

record TransactionOutputE =
  toE_Address :: Address
  toE_AmountData :: AmountData
  toE_Extra :: bytes

record TransactionOutputF =
  toF_Address :: Address
  toF_AmountData :: AmountData

record TransactionOutputG =
  toG_Address :: Address
  toG_Amount :: uint64

text \<open>The dynamic type of \<open>SubtypeOf.Subtype\<close>; \<open>OutOther\<close> is nil, the only other value that the code makes.\<close>

datatype TransactionOutput =
    OutA TransactionOutputA
  | OutB TransactionOutputB
  | OutC TransactionOutputC
  | OutD TransactionOutputD
  | OutE TransactionOutputE
  | OutF TransactionOutputF
  | OutG TransactionOutputG
  | OutOther

record TransactionOutputGeneric =
  tg_Address :: Address
  tg_Amount :: uint64

fun ToGeneric :: "TransactionOutput \<Rightarrow> TransactionOutputGeneric res" where
  "ToGeneric (OutA t) = Ok \<lparr>tg_Address = toA_Address t, tg_Amount = ad_Amount (toA_AmountData t)\<rparr>"
| "ToGeneric (OutB t) = Ok \<lparr>tg_Address = toB_Address t, tg_Amount = toB_Amount t\<rparr>"
| "ToGeneric (OutC t) = Ok \<lparr>tg_Address = toC_Address t, tg_Amount = toC_Amount t\<rparr>"
| "ToGeneric (OutD t) = Ok \<lparr>tg_Address = toD_Address t, tg_Amount = ad_Amount (toD_AmountData t)\<rparr>"
| "ToGeneric (OutE t) = Ok \<lparr>tg_Address = toE_Address t, tg_Amount = ad_Amount (toE_AmountData t)\<rparr>"
| "ToGeneric (OutF t) = Ok \<lparr>tg_Address = toF_Address t, tg_Amount = ad_Amount (toF_AmountData t)\<rparr>"
| "ToGeneric (OutG t) = Ok \<lparr>tg_Address = toG_Address t, tg_Amount = toG_Amount t\<rparr>"
| "ToGeneric OutOther = Err (ErrMsg ''unknown transaction output type'')"

record CollateralInput =
  ci_A :: bytes
  ci_B :: int

text \<open>\<open>NoCollateralSubtype\<close> is nil.\<close>

datatype CollateralReturn =
    NoCollateralSubtype
  | CollateralReturnA bytes AmountData
  | CollateralReturnB bytes uint64
  | CollateralReturnC bytes uint64
  | CollateralReturnD bytes AmountData

record TransactionBody =
  tb_Inputs :: "TransactionInput list"
  tb_Outputs :: "TransactionOutput list"
  tb_Fee :: uint64
  tb_Ttl :: int
  tb_Certificates :: any
  tb_WithdrawalMap :: "(string \<times> uint64) list"
  tb_UpdateDI :: any
  tb_AuxiliaryDataHash :: bytes
  tb_ValidityStartInterval :: int
  tb_MintMap :: "(string \<times> (string \<times> int) list) list"
  tb_ScriptDataHash :: bytes
  tb_CollateralInputs :: "CollateralInput list"
  tb_RequiredSigners :: "bytes list"
  tb_NetworkId :: int
  tb_CollateralReturn :: "CollateralReturn option"
  tb_TotalCollateral :: int
  tb_ReferenceInputs :: "TransactionInput list"
  tb_VotingProcedures :: any
  tb_ProposalProcedure :: any
  tb_TreasuryValue :: any
  tb_DonationCoin :: uint64

record TransactionWitnessSet =
  tw_VkeyWitness :: any
  tw_NativeScript :: any
  tw_BootstrapWitness :: any
  tw_PlutusV1Script :: any
  tw_PlutusData :: any
  tw_Redeemer :: any
  tw_PlutusV2Script :: any
  tw_PlutusV3Script :: any

text \<open>\<open>IterateOutputs\<close>; the callback has a state \<open>'s\<close>, and its error argument is always nil.\<close>

fun iterate_outputs :: "(nat \<Rightarrow> TransactionOutputGeneric \<Rightarrow> 's \<Rightarrow> unit res \<times> 's) \<Rightarrow> nat \<Rightarrow> TransactionOutput list \<Rightarrow> 's \<Rightarrow> unit res \<times> 's" where
  "iterate_outputs cb index [] s = (Ok (), s)"
| "iterate_outputs cb index (t # ts) s =
     (case ToGeneric t of
        Ok output \<Rightarrow>
          (case cb index output s of
             (Ok _, s') \<Rightarrow> iterate_outputs cb (Suc index) ts s'
           | (r, s') \<Rightarrow> (r, s'))
      | Err e \<Rightarrow> (Err e, s)
      | Panic p \<Rightarrow> (Panic p, s))"

definition IterateOutputs :: "(nat \<Rightarrow> TransactionOutputGeneric \<Rightarrow> 's \<Rightarrow> unit res \<times> 's) \<Rightarrow> TransactionBody \<Rightarrow> 's \<Rightarrow> unit res \<times> 's" where
  "IterateOutputs cb tb s = iterate_outputs cb 0 (tb_Outputs tb) s"

definition TransactionBody_Hash :: "(TransactionBody \<Rightarrow> bytes res) \<Rightarrow> (bytes \<Rightarrow> bytes) \<Rightarrow> TransactionBody \<Rightarrow> bytes res" where
  "TransactionBody_Hash marshal sum256 tb = res_bind (marshal tb) (\<lambda>bs. Ok (sum256 bs))"

subsection \<open>Auxiliary data\<close>

record AuxData =
  ax_Value :: any

text \<open>UTF-8; a Go string that is valid UTF-8 is the encoding of its runes.\<close>

definition utf8_rune :: "nat \<Rightarrow> string" where
  "utf8_rune r =
     (if r < 0x80 then [char_of r]
      else if r < 0x800 then [char_of (0xC0 + r div 64), char_of (0x80 + r mod 64)]
      else if r < 0x10000 then [char_of (0xE0 + r div 4096), char_of (0x80 + r div 64 mod 64), char_of (0x80 + r mod 64)]
      else [char_of (0xF0 + r div 262144), char_of (0x80 + r div 4096 mod 64), char_of (0x80 + r div 64 mod 64), char_of (0x80 + r mod 64)])"

definition utf8 :: "nat list \<Rightarrow> string" where
  "utf8 rs = concat (map utf8_rune rs)"

text \<open>The result of \<open>ChunkString\<close> as a value; for the empty string it is a nil slice.\<close>

definition chunk_value :: "nat list \<Rightarrow> any" where
  "chunk_value memo =
     (case ChunkString memo (int MaxAuxDataStringSize) of
        [] \<Rightarrow> ANilSlice
      | cs \<Rightarrow> ASlice (map (\<lambda>c. AString (utf8 c)) cs))"

definition MayaProtocolAuxKey :: int where "MayaProtocolAuxKey = 6676"

definition SetMemo :: "nat list \<Rightarrow> AuxData \<Rightarrow> AuxData" where
  "SetMemo memo a =
     a\<lparr>ax_Value := AKV
        [(AString ''Tag'', AUint 259),
         (AString ''Content'', AKV [(AInt 0, AKV [(AInt 0, AKV [(AInt MayaProtocolAuxKey, AKV [(AString ''memo'', chunk_value memo)])])])])]\<rparr>"

text \<open>\<open>len(m) == 2 && m[1].K == "Content"\<close>\<close>

definition tag_pair :: "(any \<times> any) list \<Rightarrow> (any \<times> any) option" where
  "tag_pair m = (if length m = 2 \<and> fst (m ! 1) = AString ''Content'' then Some (snd (m ! 0), snd (m ! 1)) else None)"

definition AuxData_MarshalCBOR :: "cbor_env \<Rightarrow> AuxData \<Rightarrow> bytes res" where
  "AuxData_MarshalCBOR env a =
     (case ax_Value a of
        ANil \<Rightarrow> Panic ''nil pointer dereference''
      | AKV m \<Rightarrow>
          (case tag_pair m of
             Some (AUint n, content) \<Rightarrow> cbor_Marshal env (ATag n content)
           | Some _ \<Rightarrow> Panic ''interface conversion''
           | None \<Rightarrow> cbor_Marshal env (AKV m))
      | ABytes b \<Rightarrow> Ok b
      | v \<Rightarrow> cbor_Marshal env v)"

definition KVSlice_MarshalCBOR :: "cbor_env \<Rightarrow> (any \<times> any) list \<Rightarrow> bytes res" where
  "KVSlice_MarshalCBOR env s = kv_encode env (marshal_pairs env s)"

definition AuxData_Hash :: "cbor_env \<Rightarrow> (bytes \<Rightarrow> bytes) \<Rightarrow> AuxData \<Rightarrow> bytes res" where
  "AuxData_Hash env sum256 a = res_bind (checked (AuxData_MarshalCBOR env a)) (\<lambda>bs. Ok (sum256 bs))"

text \<open>The conversion in \<open>AuxData.UnmarshalCBOR\<close>. A byte string is a slice of \<open>uint8\<close> there.\<close>

function mapToKVArray :: "cbor_env \<Rightarrow> any \<Rightarrow> any"
  and conv_list :: "cbor_env \<Rightarrow> any list \<Rightarrow> any list"
  and conv_pairs :: "cbor_env \<Rightarrow> (any \<times> any) list \<Rightarrow> (any \<times> (any \<times> any)) list" where
  "mapToKVArray env ANil = AString ''<nil>''"
| "mapToKVArray env (AUint n) = AUint n"
| "mapToKVArray env (AInt i) = AInt i"
| "mapToKVArray env (ABool b) = ABool b"
| "mapToKVArray env (AFloat f) = AFloat f"
| "mapToKVArray env (ASimple b) = ASimple b"
| "mapToKVArray env (AString s) = AString s"
| "mapToKVArray env (ABytes b) = (if b = [] then ANilSlice else ASlice (map (\<lambda>x. AUint (ucast x)) b))"
| "mapToKVArray env ANilSlice = ANilSlice"
| "mapToKVArray env (ASlice xs) = (if xs = [] then ANilSlice else ASlice (conv_list env xs))"
| "mapToKVArray env (AMap m) = AKV (map snd (iterate env (conv_pairs env m)))"
| "mapToKVArray env (AKV m) =
     (if m = [] then ANilSlice
      else ASlice (map (\<lambda>p. AKV [(AString ''K'', fst (snd p)), (AString ''V'', snd (snd p))]) (conv_pairs env m)))"
| "mapToKVArray env (ATag n v) = AKV [(AString ''Number'', AUint n), (AString ''Content'', mapToKVArray env v)]"
| "mapToKVArray env (AEntries m) =
     (if m = [] then ANilSlice
      else ASlice (map (\<lambda>p. AKV [(AString ''Key'', fst (snd p)), (AString ''Value'', snd (snd p))]) (conv_pairs env m)))"
| "mapToKVArray env (ABig i) = AKV []"
| "mapToKVArray env (AOpaque i) = AKV []"
| "conv_list env [] = []"
| "conv_list env (x # xs) = mapToKVArray env x # conv_list env xs"
| "conv_pairs env [] = []"
| "conv_pairs env ((k, v) # m) = (k, (mapToKVArray env k, mapToKVArray env v)) # conv_pairs env m"
  by pat_completeness auto
termination
  by (relation "measure (case_sum (\<lambda>(_, v). size v) (case_sum (\<lambda>(_, xs). size_list size xs)
    (\<lambda>(_, es). size_list (size_prod size size) es)))") auto

definition AuxData_UnmarshalCBOR :: "cbor_env \<Rightarrow> bytes \<Rightarrow> AuxData \<Rightarrow> AuxData res" where
  "AuxData_UnmarshalCBOR env bs a = res_bind (unmarshal_any env defaultDecMode bs) (\<lambda>i. Ok (a\<lparr>ax_Value := mapToKVArray env i\<rparr>))"

subsection \<open>JSON\<close>

datatype json =
    JNull
  | JBool bool
  | JNum int
  | JFloat uint64
  | JStr string
  | JArr "json list"
  | JObj "(string \<times> json) list"
  | JOpaque nat

definition fmt_int :: "int \<Rightarrow> string" where
  "fmt_int i = (if i < 0 then ''-'' @ fmt_d (nat (- i)) else fmt_d (nat i))"

fun fmt_Sprint :: "cbor_env \<Rightarrow> any \<Rightarrow> string" where
  "fmt_Sprint env ANil = ''<nil>''"
| "fmt_Sprint env (AUint n) = fmt_d (unat n)"
| "fmt_Sprint env (AInt i) = fmt_int i"
| "fmt_Sprint env (ABool b) = (if b then ''true'' else ''false'')"
| "fmt_Sprint env (AString s) = s"
| "fmt_Sprint env v = ce_print env v"

definition obj_set :: "string \<Rightarrow> 'v \<Rightarrow> (string \<times> 'v) list \<Rightarrow> (string \<times> 'v) list" where
  "obj_set k v m = (if k \<in> fst ` set m then map (\<lambda>(k', v'). if k' = k then (k, v) else (k', v')) m else m @ [(k, v)])"

fun res_all :: "'a res list \<Rightarrow> 'a list res" where
  "res_all [] = Ok []"
| "res_all (r # rs) = res_bind r (\<lambda>x. res_bind (res_all rs) (\<lambda>xs. Ok (x # xs)))"

text \<open>\<open>KVSlice.MarshalJSON\<close>: a later key with the same printed form replaces an earlier one; \<open>Cast\<close> panics on nil.\<close>

fun kv_object :: "(string \<times> any \<times> 'v) list \<Rightarrow> (string \<times> 'v) list \<Rightarrow> (string \<times> 'v) list res" where
  "kv_object [] m = Ok m"
| "kv_object ((k, v, x) # es) m =
     (if v = ANil then Panic ''nil pointer dereference'' else kv_object es (obj_set k x m))"

definition kv_json :: "(string \<times> any \<times> json res) list \<Rightarrow> json res" where
  "kv_json es =
     res_bind (kv_object es []) (\<lambda>m.
     res_bind (res_all (map snd m)) (\<lambda>vs. Ok (JObj (zip (map fst m) vs))))"

definition float_finite :: "uint64 \<Rightarrow> bool" where
  "float_finite f \<longleftrightarrow> drop_bit 52 f AND 0x7FF \<noteq> 0x7FF"

function json_Marshal :: "cbor_env \<Rightarrow> any \<Rightarrow> json res"
  and json_list :: "cbor_env \<Rightarrow> any list \<Rightarrow> json res list"
  and json_pairs :: "cbor_env \<Rightarrow> (any \<times> any) list \<Rightarrow> (string \<times> any \<times> json res) list"
  and json_entries :: "cbor_env \<Rightarrow> (any \<times> any) list \<Rightarrow> json res list" where
  "json_Marshal env ANil = Ok JNull"
| "json_Marshal env (AUint n) = Ok (JNum (uint n))"
| "json_Marshal env (AInt i) = Ok (JNum i)"
| "json_Marshal env (ABool b) = Ok (JBool b)"
| "json_Marshal env (AFloat f) = (if float_finite f then Ok (JFloat f) else Err (ErrMsg ''json: unsupported value''))"
| "json_Marshal env (ASimple b) = Ok (JNum (uint b))"
| "json_Marshal env (AString s) = Ok (JStr s)"
| "json_Marshal env (ABytes b) = Ok (JStr (ce_base64 env b))"
| "json_Marshal env ANilSlice = Ok JNull"
| "json_Marshal env (ASlice xs) = res_bind (res_all (json_list env xs)) (\<lambda>js. Ok (JArr js))"
| "json_Marshal env (AMap m) = Err (ErrMsg ''json: unsupported type'')"
| "json_Marshal env (AKV m) = kv_json (json_pairs env m)"
| "json_Marshal env (ATag n v) = res_bind (json_Marshal env v) (\<lambda>j. Ok (JObj [(''Number'', JNum (uint n)), (''Content'', j)]))"
| "json_Marshal env (AEntries m) = (if m = [] then Ok JNull else res_bind (res_all (json_entries env m)) (\<lambda>js. Ok (JArr js)))"
| "json_Marshal env (ABig i) = Ok (JObj [])"
| "json_Marshal env (AOpaque i) = Ok (JOpaque i)"
| "json_list env [] = []"
| "json_list env (x # xs) = json_Marshal env x # json_list env xs"
| "json_pairs env [] = []"
| "json_pairs env ((k, v) # m) = (fmt_Sprint env k, v, json_Marshal env v) # json_pairs env m"
| "json_entries env [] = []"
| "json_entries env ((k, v) # m) =
     res_bind (json_Marshal env k) (\<lambda>a. res_bind (json_Marshal env v) (\<lambda>b. Ok (JObj [(''Key'', a), (''Value'', b)]))) # json_entries env m"
  by pat_completeness auto
termination
  by (relation "measure (case_sum (case_sum (\<lambda>(_, v). size v) (\<lambda>(_, xs). size_list size xs))
    (case_sum (\<lambda>(_, es). size_list (size_prod size size) es) (\<lambda>(_, es). size_list (size_prod size size) es)))") auto

definition KVSlice_MarshalJSON :: "cbor_env \<Rightarrow> (any \<times> any) list \<Rightarrow> json res" where
  "KVSlice_MarshalJSON env s = kv_json (json_pairs env s)"

definition AuxData_MarshalJSON :: "cbor_env \<Rightarrow> AuxData \<Rightarrow> json res" where
  "AuxData_MarshalJSON env a =
     (case ax_Value a of
        ANil \<Rightarrow> Ok (JObj [])
      | AKV m \<Rightarrow> (case tag_pair m of Some (_, content) \<Rightarrow> json_Marshal env content | None \<Rightarrow> json_Marshal env (AKV m))
      | v \<Rightarrow> json_Marshal env v)"

text \<open>\<open>AuxData.JSON\<close> parses what \<open>MarshalJSON\<close> prints; as a tree it is the same.\<close>

definition AuxData_JSON :: "cbor_env \<Rightarrow> AuxData \<Rightarrow> json res" where
  "AuxData_JSON env a = AuxData_MarshalJSON env a"

definition AmountData_MarshalJSON :: "AmountData \<Rightarrow> json" where
  "AmountData_MarshalJSON t =
     JArr [JNum (uint (ad_Amount t)),
       JObj (fold (\<lambda>(k, v) m. obj_set (hex_EncodeToString (string_bytes k)) (JObj (fold (\<lambda>(k2, v2). obj_set k2 (JNum (uint v2))) v [])) m)
         (ad_Mappings t) [])]"

subsection \<open>Blocks and points\<close>

record Block =
  bl_Era :: Era
  bl_Header :: BlockHeader
  bl_TransactionBodies :: "TransactionBody list"
  bl_TransactionWitnessSets :: "TransactionWitnessSet list"
  bl_AuxiliaryData :: AuxData
  bl_InvalidTransactions :: "uint64 list"
  bl_Raw :: bytes

definition Block_Hash :: "(BlockHeader \<Rightarrow> bytes res) \<Rightarrow> (bytes \<Rightarrow> bytes) \<Rightarrow> Block \<Rightarrow> bytes res" where
  "Block_Hash marshal sum256 b =
     (case marshal (bl_Header b) of
        Ok bs \<Rightarrow> Ok (sum256 bs)
      | Err e \<Rightarrow> Err (ErrWrap ''failed to marshal header when calculating block hash'' e)
      | Panic p \<Rightarrow> Panic p)"

definition Block_Point :: "(BlockHeader \<Rightarrow> bytes res) \<Rightarrow> (bytes \<Rightarrow> bytes) \<Rightarrow> Block \<Rightarrow> Point res" where
  "Block_Point marshal sum256 b =
     res_bind (Block_Hash marshal sum256 b) (\<lambda>hash. Ok \<lparr>pt_Slot = bh_Slot (hd_Body (bl_Header b)), pt_Hash = hash\<rparr>)"

definition PointAndNumber :: "(BlockHeader \<Rightarrow> bytes res) \<Rightarrow> (bytes \<Rightarrow> bytes) \<Rightarrow> Block \<Rightarrow> PointAndBlockNum res" where
  "PointAndNumber marshal sum256 b =
     res_bind (Block_Point marshal sum256 b) (\<lambda>p. Ok \<lparr>pb_Point = p, pb_Block = bh_Number (hd_Body (bl_Header b))\<rparr>)"

definition Point_UnmarshalCBOR :: "cbor_env \<Rightarrow> bytes \<Rightarrow> Point res" where
  "Point_UnmarshalCBOR env bs =
     res_bind (unmarshal_any env defaultDecMode bs) (\<lambda>a.
       case a of
         ASlice b \<Rightarrow>
           (if length b = 0 then Ok \<lparr>pt_Slot = 0, pt_Hash = []\<rparr>
            else if length b = 2 then
              (case (b ! 0, b ! 1) of
                 (AUint slot, ABytes hash) \<Rightarrow> Ok \<lparr>pt_Slot = slot, pt_Hash = hash\<rparr>
               | _ \<Rightarrow> Panic ''interface conversion'')
            else Err (ErrMsg ''unxpected format for point''))
       | _ \<Rightarrow> Err (ErrMsg ''expected point to be an []any''))"

subsection \<open>Transaction submission (src/protocol_tx_submission.go)\<close>

record TxSigner =
  ts_Key :: bytes
  ts_Signature :: bytes

record TxSubmissionWitness =
  sw_Signers :: "TxSigner list WithCborTag"

record TxSubmissionBody =
  sb_Inputs :: "TransactionInput list WithCborTag"
  sb_Outputs :: "TransactionOutput list"
  sb_Fee :: uint64
  sb_AuxiliaryDataHash :: bytes

record TxSubmission =
  tx_Body :: TxSubmissionBody
  tx_Witness :: TxSubmissionWitness
  tx_AlonzoEval :: bool
  tx_AuxiliaryData :: "AuxData option"

definition TxSubmission_Hash :: "(TxSubmissionBody \<Rightarrow> bytes res) \<Rightarrow> (bytes \<Rightarrow> bytes) \<Rightarrow> TxSubmission \<Rightarrow> bytes res" where
  "TxSubmission_Hash marshal sum256 tx = res_bind (marshal (tx_Body tx)) (\<lambda>bs. Ok (sum256 bs))"

end
