(* ===== verification/BlockDataSpec.thy ===== *)
theory BlockDataSpec
  imports BlockData CborDecSpec
begin

text \<open>
  Properties of the auxiliary data and the transaction structs of \<open>BlockData\<close>: which values keep their encoding through
  \<open>AuxData.UnmarshalCBOR\<close> and \<open>MarshalCBOR\<close>, which do not, and what \<open>IterateOutputs\<close> visits.
\<close>

subsection \<open>Encoding again what was decoded\<close>

lemma scalar_marshal: "scalar v \<Longrightarrow> mapToKVArray env v = v \<and> (\<exists>bs. cbor_Marshal env v = Ok bs \<and> encodes v bs)"
  by (cases v) (auto intro: encodes.intros enc_bool [of True, simplified] enc_bool [of False, simplified])

lemma conv_not_nil: "mapToKVArray env v \<noteq> ANil"
  by (cases v) auto

lemma conv_list_map: "conv_list env xs = map (mapToKVArray env) xs"
  by (induction xs) auto

lemma conv_pairs_map: "conv_pairs env m = map (\<lambda>p. (fst p, (mapToKVArray env (fst p), mapToKVArray env (snd p)))) m"
  by (induction m) auto

lemma marshal_kv:
  assumes "distinct (map fst es)" "\<forall>p\<in>set es. hashable (fst p) \<and> snd p \<noteq> ANil"
  shows "kv_encode env (marshal_pairs env es) =
    res_bind (res_concat (concat (map (\<lambda>p. [cbor_Marshal env (fst p), cbor_Marshal env (snd p)]) (iterate env es))))
      (\<lambda>bs. Ok ((0xA0 + of_nat (length es)) # bs))"
proof -
  let ?f = "\<lambda>k v. (cbor_Marshal env k, cbor_Marshal env v)"
  have "kv_to_map (marshal_pairs env es) [] = Ok (map (\<lambda>p. (fst p, ?f (fst p) (snd p))) es)"
    using kv_to_map_distinct [of "[]" "marshal_pairs env es"] assms by (simp add: marshal_pairs_map comp_def)
  moreover have "iterate env (map (\<lambda>p. (fst p, ?f (fst p) (snd p))) es) = map (\<lambda>p. (fst p, ?f (fst p) (snd p))) (iterate env es)"
    by (rule iterate_map)
  ultimately show ?thesis by (simp add: kv_encode_def comp_def)
qed

lemma scalar_plain: "scalar v \<Longrightarrow> plain k v"
  by (cases v; cases k) auto

lemma plain_mono: "plain n v \<Longrightarrow> n \<le> k \<Longrightarrow> plain k v"
proof (induction n v arbitrary: k rule: plain.induct)
  case (1 n xs)
  then show ?case by (cases k) auto
next
  case (2 n m)
  then show ?case by (cases k) auto
qed (auto simp: scalar_plain)

lemma conv_map:
  assumes "fair_order env" "distinct (map fst m)" "\<forall>p\<in>set m. scalar (fst p)"
  shows "mapToKVArray env (AMap m) = AKV (map (\<lambda>p. (fst p, mapToKVArray env (snd p))) (iterate env m))"
proof -
  have "set (iterate env m) = set m" using mset_iterate [OF assms(1,2)] by (metis set_mset_mset)
  then show ?thesis
    unfolding mapToKVArray.simps conv_pairs_map iterate_map [of env "\<lambda>k v. (mapToKVArray env k, mapToKVArray env v)"]
    using assms(3) scalar_marshal by (auto simp: comp_def)
qed

lemma map_reencodes:
  assumes env: "fair_order env" and m: "distinct (map fst m)" "\<forall>p\<in>set m. scalar (fst p)" "length m \<le> 23"
    and IH: "\<forall>p\<in>set m. \<exists>bs. cbor_Marshal env (mapToKVArray env (snd p)) = Ok bs \<and> encodes (snd p) bs"
    and wf: "\<forall>bs. encodes (AMap m) bs \<longrightarrow> checked (Ok bs) = Ok bs"
  shows "\<exists>bs. cbor_Marshal env (mapToKVArray env (AMap m)) = Ok bs \<and> encodes (AMap m) bs"
proof -
  let ?c = "\<lambda>p. (fst p, mapToKVArray env (snd p))"
  define m' where "m' = iterate env (iterate env m)"
  have it: "mset (iterate env m) = mset m" by (rule mset_iterate [OF env m(1)])
  then have it': "set (iterate env m) = set m" "length (iterate env m) = length m" by (metis set_mset_mset, metis size_mset)
  have d: "distinct (map fst (iterate env m))" using m(1) it by (metis mset_eq_imp_distinct_iff mset_map)
  have m': "mset m' = mset m" unfolding m'_def using mset_iterate [OF env d] it by simp
  then have s': "set m' = set m" by (metis set_mset_mset)
  have k: "kv_encode env (marshal_pairs env (map ?c (iterate env m))) =
    res_bind (res_concat (concat (map (\<lambda>p. [cbor_Marshal env (fst p), (cbor_Marshal env \<circ> mapToKVArray env) (snd p)]) m')))
      (\<lambda>bs. Ok ((0xA0 + of_nat (length m)) # bs))"
    using marshal_kv [of "map ?c (iterate env m)" env] d m(2) it' scalar_hashable conv_not_nil
      iterate_map [of env "\<lambda>k v. mapToKVArray env v" "iterate env m"]
    by (simp add: comp_def m'_def)
  have "\<forall>p\<in>set m'. (\<exists>bs. cbor_Marshal env (fst p) = Ok bs \<and> encodes (fst p) bs) \<and>
      (\<exists>bs. (cbor_Marshal env \<circ> mapToKVArray env) (snd p) = Ok bs \<and> encodes (snd p) bs)"
    using m(2) s' scalar_marshal [of _ env] IH by fastforce
  from ok_pairs [OF this] obtain bss where
    b: "concat (map (\<lambda>p. [cbor_Marshal env (fst p), (cbor_Marshal env \<circ> mapToKVArray env) (snd p)]) m') =
        map Ok (concat (map (\<lambda>q. [fst q, snd q]) bss))"
      "list_all2 (\<lambda>p q. encodes (fst p) (fst q) \<and> encodes (snd p) (snd q)) m' bss" by blast
  let ?bs = "encodeHead 0xA0 (of_nat (length m)) @ concat (map (\<lambda>q. fst q @ snd q) bss)"
  have e: "encodes (AMap m) ?bs" by (rule enc_map [OF m' b(2)])
  then have "cbor_Marshal env (mapToKVArray env (AMap m)) = Ok ?bs"
    using conv_map [OF env m(1,2)] k b(1) m(3) wf by (simp add: res_concat_Ok concat_pairs head_small)
  then show ?thesis using e by blast
qed

lemma slice_reencodes:
  assumes "xs \<noteq> []" "\<forall>x\<in>set xs. \<exists>bs. cbor_Marshal env (mapToKVArray env x) = Ok bs \<and> encodes x bs"
  shows "\<exists>bs. cbor_Marshal env (mapToKVArray env (ASlice xs)) = Ok bs \<and> encodes (ASlice xs) bs"
proof -
  from ok_list [of xs "cbor_Marshal env \<circ> mapToKVArray env" encodes] assms(2) obtain bss where
    b: "map (cbor_Marshal env \<circ> mapToKVArray env) xs = map Ok bss" "list_all2 encodes xs bss" by auto
  then have "cbor_Marshal env (mapToKVArray env (ASlice xs)) = Ok (encodeHead 0x80 (of_nat (length xs)) @ concat bss)"
    using assms(1) by (simp add: conv_list_map marshal_list_map res_concat_Ok)
  then show ?thesis using b(2) by (auto intro: encodes.intros)
qed

lemma plain_reencodes:
  assumes env: "fair_order env"
  shows "plain n v \<Longrightarrow> n \<le> 1000 \<Longrightarrow> sizes_ok marshalerDecMode True v \<Longrightarrow> \<exists>bs. cbor_Marshal env (mapToKVArray env v) = Ok bs \<and> encodes v bs"
proof (induction n arbitrary: v)
  case 0
  then have "scalar v" by (cases v) auto
  then show ?case using scalar_marshal [of v env] by auto
next
  case (Suc n)
  have n: "n \<le> 1000" using Suc.prems by simp
  have "nest v \<le> 65535" using plain_nest [OF Suc.prems(1)] n by simp
  then have wf: "\<forall>bs. encodes v bs \<longrightarrow> checked (Ok bs) = Ok bs" using checked_encodes Suc.prems(3) by blast
  consider "scalar v" | xs where "v = ASlice xs" | m where "v = AMap m" using Suc.prems(1) by (cases v) auto
  then show ?case
  proof cases
    case 1
    then show ?thesis using scalar_marshal [of v env] by auto
  next
    case (2 xs)
    then show ?thesis using Suc n slice_reencodes [of xs env] by auto
  next
    case (3 m)
    then show ?thesis using Suc n wf map_reencodes [OF env, of m] by auto
  qed
qed

text \<open>The metadata of a transaction, possibly wrapped in one tag.\<close>

definition meta_plain :: "any \<Rightarrow> bool" where
  "meta_plain v \<longleftrightarrow> plain 1000 v \<and> sizes_ok marshalerDecMode True v"

fun aux_plain :: "any \<Rightarrow> bool" where
  "aux_plain (ATag n v) \<longleftrightarrow> meta_plain v"
| "aux_plain (AMap m) \<longleftrightarrow> meta_plain (AMap m) \<and> AString ''Content'' \<notin> fst ` set m"
| "aux_plain v \<longleftrightarrow> meta_plain v"

text \<open>Claim C23 (aux_data_reencodes): Metadata whose values are numbers, strings, booleans, non-empty arrays and maps of at most 23
  pairs, within the limits of the library and possibly wrapped in one tag, is encoded again by \<open>MarshalCBOR\<close> as the value that \<open>UnmarshalCBOR\<close> decoded, up to the
  order of map entries, whatever the iteration order of Go's maps.\<close>

theorem aux_data_reencodes:
  assumes "fair_order env" "aux_plain v" "unmarshal_any env defaultDecMode data = Ok v"
  shows "\<exists>a bs. AuxData_UnmarshalCBOR env data a0 = Ok a \<and> AuxData_MarshalCBOR env a = Ok bs \<and> encodes v bs"
proof -
  define a where "a = a0\<lparr>ax_Value := mapToKVArray env v\<rparr>"
  have u: "AuxData_UnmarshalCBOR env data a0 = Ok a" using assms(3) by (simp add: AuxData_UnmarshalCBOR_def a_def)
  have "\<exists>bs. AuxData_MarshalCBOR env a = Ok bs \<and> encodes v bs"
  proof (cases v)
    case (ATag n w)
    then obtain bs where "cbor_Marshal env (mapToKVArray env w) = Ok bs" "encodes w bs"
      using plain_reencodes [OF assms(1), of 1000 w] assms(2) by (auto simp: meta_plain_def)
    then show ?thesis using ATag conv_not_nil by (auto simp: AuxData_MarshalCBOR_def a_def tag_pair_def intro: enc_tag)
  next
    case (AMap m)
    then have p: "plain 1000 v" "AString ''Content'' \<notin> fst ` set m" "sizes_ok marshalerDecMode True v"
      using assms(2) by (auto simp: meta_plain_def)
    then have m: "distinct (map fst m)" "\<forall>p\<in>set m. scalar (fst p)"
      using AMap plain.simps(2) [of 999 m] by auto
    have "set (iterate env m) = set m" using mset_iterate [OF assms(1) m(1)] by (metis set_mset_mset)
    then have "tag_pair (map (\<lambda>p. (fst p, mapToKVArray env (snd p))) (iterate env m)) = None"
      using p(2) by (auto simp: tag_pair_def image_iff) (metis less_2_cases_iff nth_mem one_less_numeral_iff)
    then show ?thesis
      using plain_reencodes [OF assms(1) p(1) _ p(3)] conv_map [OF assms(1) m] AMap
      by (simp add: AuxData_MarshalCBOR_def a_def)
  qed (use plain_reencodes [OF assms(1), of 1000 v] assms(2) in \<open>auto simp: AuxData_MarshalCBOR_def a_def meta_plain_def\<close>)
  then show ?thesis using u by blast
qed

definition ex_env :: cbor_env where
  "ex_env = \<lparr>ce_order = rev, ce_float = (\<lambda>_. []), ce_float16 = (\<lambda>_. 0), ce_float32 = (\<lambda>_. 0), ce_time = (\<lambda>_. Ok 0), ce_opaque = (\<lambda>_. []), ce_print = (\<lambda>_. []), ce_base64 = (\<lambda>_. [])\<rparr>"

definition ex_metadata :: any where
  "ex_metadata = ATag 259 (AMap [(AUint 0, AMap [(AUint 1, AString ''a''), (AUint 2, ASlice [AInt (-3), ABool True])])])"

lemma ex_env_ok: "fair_order ex_env"
  by (simp add: fair_order_def ex_env_def)

theorem aux_data_reencodes_witness:
  "\<exists>a bs. AuxData_UnmarshalCBOR ex_env (wire ex_metadata) \<lparr>ax_Value = ANil\<rparr> = Ok a \<and>
     AuxData_MarshalCBOR ex_env a = Ok bs \<and> encodes ex_metadata bs"
proof -
  have "plain (Suc (Suc (Suc 0))) (AMap [(AUint 0, AMap [(AUint 1, AString ''a''), (AUint 2, ASlice [AInt (-3), ABool True])])])" by simp
  then have "plain 1000 (AMap [(AUint 0, AMap [(AUint 1, AString ''a''), (AUint 2, ASlice [AInt (-3), ABool True])])])" by (rule plain_mono) simp
  then have "aux_plain ex_metadata" by (simp add: ex_metadata_def meta_plain_def marshalerDecMode_def)
  moreover have "unmarshal_any ex_env defaultDecMode (wire ex_metadata) = Ok ex_metadata"
    by (rule unmarshal_wire) (simp_all add: ex_metadata_def defaultDecMode_def utf8_Valid_ascii string_bytes_def)
  ultimately show ?thesis by (rule aux_data_reencodes [OF ex_env_ok])
qed

subsection \<open>The bytes of a memo\<close>

text \<open>A rune of a Go string after \<open>[]rune\<close>.\<close>

definition valid_rune :: "nat \<Rightarrow> bool" where
  "valid_rune r \<longleftrightarrow> r < 0xD800 \<or> (0xE000 \<le> r \<and> r < 0x110000)"

lemma byte_of_char: "n < 256 \<Longrightarrow> of_char (char_of n :: char) = (of_nat n :: byte)"
  using of_nat_of_char [of "char_of n", where 'a = byte] by simp

lemma byte_nat_compare:
  assumes "n < 256"
  shows "(numeral k :: byte) \<le> of_nat n \<longleftrightarrow> numeral k mod 256 \<le> n" "(of_nat n :: byte) \<le> numeral k \<longleftrightarrow> n \<le> numeral k mod 256"
    "(of_nat n :: byte) < numeral k \<longleftrightarrow> n < numeral k mod 256" "(of_nat n :: byte) = numeral k \<longleftrightarrow> n = numeral k mod 256"
  using assms by (simp_all add: word_le_nat_alt word_less_nat_alt word_unat_eq_iff unat_of_nat take_bit_eq_mod)

lemma utf8_Valid_three:
  assumes "a < 16" "b < 64" "c < 64" "a = 0 \<Longrightarrow> 32 \<le> b" "a = 13 \<Longrightarrow> b \<le> 31"
  shows "utf8_Valid (of_nat (0xE0 + a) # of_nat (0x80 + b) # of_nat (0x80 + c) # bs) = utf8_Valid bs"
proof -
  have n: "224 + a < 256" "128 + b < 256" "128 + c < 256" using assms by simp_all
  note cmp = byte_nat_compare [OF n(1)] byte_nat_compare [OF n(2)] byte_nat_compare [OF n(3)]
  have l: "utf8_len (of_nat (224 + a)) = 3" using assms by (simp add: utf8_len_def cmp del: of_nat_add)
  have s: "utf8_second (of_nat (224 + a)) (of_nat (128 + b))" using assms by (simp add: utf8_second_def cmp del: of_nat_add)
  show ?thesis using assms l s by (simp add: cmp del: of_nat_add)
qed

lemma utf8_Valid_four:
  assumes "a < 5" "b < 64" "c < 64" "d < 64" "a = 0 \<Longrightarrow> 16 \<le> b" "a = 4 \<Longrightarrow> b \<le> 15"
  shows "utf8_Valid (of_nat (0xF0 + a) # of_nat (0x80 + b) # of_nat (0x80 + c) # of_nat (0x80 + d) # bs) = utf8_Valid bs"
proof -
  have n: "240 + a < 256" "128 + b < 256" "128 + c < 256" "128 + d < 256" using assms by simp_all
  note cmp = byte_nat_compare [OF n(1)] byte_nat_compare [OF n(2)] byte_nat_compare [OF n(3)] byte_nat_compare [OF n(4)]
  have l: "utf8_len (of_nat (240 + a)) = 4" using assms by (simp add: utf8_len_def cmp del: of_nat_add)
  have s: "utf8_second (of_nat (240 + a)) (of_nat (128 + b))" using assms by (simp add: utf8_second_def cmp del: of_nat_add)
  show ?thesis using assms l s by (simp add: cmp del: of_nat_add)
qed

lemma utf8_rune_Valid: "valid_rune r \<Longrightarrow> utf8_Valid (string_bytes (utf8_rune r) @ bs) = utf8_Valid bs"
proof -
  assume v: "valid_rune r"
  consider "r < 0x80" | "0x80 \<le> r" "r < 0x800" | "0x800 \<le> r" "r < 0x10000" | "0x10000 \<le> r" "r < 0x110000"
    using v by (force simp: valid_rune_def)
  then show ?thesis
  proof cases
    case 1
    then show ?thesis by (simp add: utf8_rune_def string_bytes_def byte_of_char byte_nat_compare)
  next
    case 2
    then have "r div 64 \<ge> 2" "r div 64 < 32" "r mod 64 \<le> 63" by auto
    with 2 show ?thesis
      by (simp add: utf8_rune_def string_bytes_def byte_of_char utf8_len_def utf8_second_def byte_nat_compare del: of_nat_add)
  next
    case 3
    have a: "r div 4096 < 16" "r div 64 mod 64 < 64" "r mod 64 < 64" using 3 by auto
    have "r div 4096 = r div 64 div 64" using div_mult2_eq [of r 64 64] by simp
    moreover have "64 * (r div 64 div 64) + r div 64 mod 64 = r div 64" by (rule mult_div_mod_eq)
    moreover have "64 * (r div 64) + r mod 64 = r" by (rule mult_div_mod_eq)
    ultimately have d: "r = 4096 * (r div 4096) + 64 * (r div 64 mod 64) + r mod 64" by linarith
    have "r div 4096 = 0 \<Longrightarrow> 32 \<le> r div 64 mod 64" using 3 d by linarith
    moreover have "r div 4096 = 13 \<Longrightarrow> r div 64 mod 64 \<le> 31" using v d unfolding valid_rune_def by auto
    ultimately have "utf8_Valid (of_nat (0xE0 + r div 4096) # of_nat (0x80 + r div 64 mod 64) # of_nat (0x80 + r mod 64) # bs) = utf8_Valid bs"
      using a by (intro utf8_Valid_three)
    then show ?thesis using 3 a by (simp add: utf8_rune_def string_bytes_def byte_of_char del: of_nat_add utf8_Valid.simps)
  next
    case 4
    have a: "r div 262144 < 5" "r div 4096 mod 64 < 64" "r div 64 mod 64 < 64" "r mod 64 < 64" using 4 by auto
    have d: "r div 4096 = 64 * (r div 262144) + r div 4096 mod 64" "16 \<le> r div 4096" "r div 4096 < 272"
      using div_mult2_eq [of r 4096 64] mult_div_mod_eq [of 64 "r div 4096"] 4 by simp_all
    have "r div 262144 = 0 \<Longrightarrow> 16 \<le> r div 4096 mod 64" using d by linarith
    moreover have "r div 262144 = 4 \<Longrightarrow> r div 4096 mod 64 \<le> 15" using d by linarith
    ultimately have "utf8_Valid (of_nat (0xF0 + r div 262144) # of_nat (0x80 + r div 4096 mod 64) # of_nat (0x80 + r div 64 mod 64) #
        of_nat (0x80 + r mod 64) # bs) = utf8_Valid bs"
      using a by (intro utf8_Valid_four)
    then show ?thesis using 4 a by (simp add: utf8_rune_def string_bytes_def byte_of_char del: of_nat_add utf8_Valid.simps)
  qed
qed

lemma utf8_Valid_utf8: "\<forall>r\<in>set rs. valid_rune r \<Longrightarrow> utf8_Valid (string_bytes (utf8 rs))"
  by (induction rs) (auto simp: utf8_def string_bytes_def utf8_rune_Valid [unfolded string_bytes_def])
subsection \<open>Values that do not survive\<close>

lemma head_major: "t \<in> {0x40, 0x80} \<Longrightarrow> \<exists>x xs. encodeHead t n = x # xs \<and> drop_bit 5 x = drop_bit 5 t"
proof -
  have small: "drop_bit 5 (ucast m :: byte) = 0" if "m \<le> 23" for m :: uint64
  proof -
    have m: "unat m \<in> set [0..<24]" using that by (simp add: word_le_nat_alt)
    have all: "\<forall>k\<in>set [0..<24]. drop_bit 5 (ucast (of_nat k :: uint64) :: byte) = 0" by code_simp
    from bspec [OF all m] show ?thesis by simp
  qed
  assume "t \<in> {0x40, 0x80}"
  then show ?thesis using small [of n] by (auto simp: encodeHead_def)
qed

inductive_cases encodes_MapE: "encodes (AMap m) bs"
inductive_cases encodes_BytesE: "encodes (ABytes b) bs"
inductive_cases encodes_UintE: "encodes (AUint n) bs"

lemma encodes_single_bytes:
  "encodes (AMap [(AUint k, ABytes b)]) bs \<Longrightarrow> bs = encodeHead 0xA0 1 @ encodeHead 0 k @ encode_bytes b"
  by (auto elim!: encodes_MapE encodes_BytesE encodes_UintE simp: list_all2_Cons1)

text \<open>A byte string in metadata becomes an array of numbers when the decoded auxiliary data is encoded
  again, so that its hash is not the one the transaction carries.\<close>

theorem aux_bytes_changed:
  assumes "unmarshal_any env defaultDecMode data = Ok (AMap [(AUint k, ABytes b)])" "fair_order env"
    "AuxData_UnmarshalCBOR env data a0 = Ok a" "AuxData_MarshalCBOR env a = Ok bs"
  shows "\<not> encodes (AMap [(AUint k, ABytes b)]) bs"
proof
  assume e: "encodes (AMap [(AUint k, ABytes b)]) bs"
  let ?v = "if b = [] then ANilSlice else ASlice (map (\<lambda>x. AUint (ucast x)) b)"
  have one: "iterate env [(AUint k, x)] = [(AUint k, x)]" for x :: 'c
    using mset_iterate [OF assms(2), of "[(AUint k, x)]"] by simp
  have "a = a0\<lparr>ax_Value := AKV [(AUint k, ?v)]\<rparr>"
    using assms(1,3) one [of "(AUint k, ?v)"] by (auto simp: AuxData_UnmarshalCBOR_def)
  moreover have "kv_encode env (marshal_pairs env [(AUint k, ?v)]) =
      res_bind (res_concat [Ok (encodeHead 0 k), cbor_Marshal env ?v]) (\<lambda>bs. Ok (0xA1 # bs))"
    using marshal_kv [of "[(AUint k, ?v)]" env] one [of ?v] by simp
  ultimately have "checked (res_bind (res_concat [Ok (encodeHead 0 k), cbor_Marshal env ?v]) (\<lambda>bs. Ok (0xA1 # bs))) = Ok bs"
    using assms(4) by (simp add: AuxData_MarshalCBOR_def tag_pair_def del: res_concat.simps)
  then obtain ys where ys: "cbor_Marshal env ?v = Ok ys" "bs = (0xA1 # encodeHead 0 k) @ ys"
    by (cases "cbor_Marshal env ?v") (auto simp: checked_def simp del: cbor_Marshal.simps split: res.splits)
  then have same: "ys = encode_bytes b" using encodes_single_bytes [OF e] head_small [of 1] by simp
  show False
  proof (cases "b = []")
    case True
    then show False using ys(1) same by (simp add: encode_bytes_def encodeHead_def)
  next
    case False
    then obtain zs where "ys = encodeHead 0x80 (of_nat (length b)) @ zs"
      using ys(1) by (cases "res_concat (marshal_list env (map (\<lambda>x. AUint (ucast x)) b))") auto
    then show False
      using same head_major [of "0x40" "of_nat (length b)"] head_major [of "0x80" "of_nat (length b)"]
      by (auto simp: encode_bytes_def)
  qed
qed

theorem aux_bytes_changed_witness:
  "\<exists>a bs. AuxData_UnmarshalCBOR ex_env [0xA1, 1, 0x41, 7] \<lparr>ax_Value = ANil\<rparr> = Ok a \<and>
     AuxData_MarshalCBOR ex_env a = Ok bs \<and> \<not> encodes (AMap [(AUint 1, ABytes [7])]) bs"
proof -
  have u: "AuxData_UnmarshalCBOR ex_env [0xA1, 1, 0x41, 7] \<lparr>ax_Value = ANil\<rparr> =
      Ok \<lparr>ax_Value = AKV [(AUint 1, ASlice [AUint 7])]\<rparr>" by code_simp
  have m: "AuxData_MarshalCBOR ex_env \<lparr>ax_Value = AKV [(AUint 1, ASlice [AUint 7])]\<rparr> = Ok [0xA1, 1, 0x81, 7]" by code_simp
  have "unmarshal_any ex_env defaultDecMode [0xA1, 1, 0x41, 7] = Ok (AMap [(AUint 1, ABytes [7])])" by code_simp
  from aux_bytes_changed [OF this ex_env_ok u m] u m show ?thesis by auto
qed

text \<open>A tag below the top level is encoded as a map with the keys \<open>Number\<close> and \<open>Content\<close>.\<close>

lemma nested_tag_changed:
  "mapToKVArray ex_env (AMap [(AUint 1, ATag 30 (AUint 2))]) =
   AKV [(AUint 1, AKV [(AString ''Number'', AUint 30), (AString ''Content'', AUint 2)])]"
  by code_simp

text \<open>From 24 entries on the first byte of a \<open>KVSlice\<close> is no longer the head of a map of that size.\<close>

lemma kv_head_wrong:
  "(0xA0 + of_nat 24 :: byte) = 0xB8 \<and> encodeHead 0xA0 24 = [0xB8, 24]"
  by code_simp

subsection \<open>Outputs\<close>

definition the_generic :: "TransactionOutput \<Rightarrow> TransactionOutputGeneric" where
  "the_generic t = (case ToGeneric t of Ok g \<Rightarrow> g | _ \<Rightarrow> \<lparr>tg_Address = [], tg_Amount = 0\<rparr>)"

lemma ToGeneric_Ok: "t \<noteq> OutOther \<Longrightarrow> ToGeneric t = Ok (the_generic t)"
  by (cases t) (simp_all add: the_generic_def)

lemma iterate_outputs_log:
  "iterate_outputs (\<lambda>i g s. (Ok (), s @ [(i, g)])) n ts s =
     (let known = takeWhile (\<lambda>t. t \<noteq> OutOther) ts in
      (if known = ts then Ok () else Err (ErrMsg ''unknown transaction output type''),
       s @ zip [n..<n + length known] (map the_generic known)))"
proof (induction ts arbitrary: n s)
  case (Cons t ts)
  show ?case
  proof (cases "t = OutOther")
    case False
    then show ?thesis
      using Cons.IH [of "Suc n"] by (simp add: ToGeneric_Ok Let_def upt_rec [of n] del: upt_Suc)
  qed (simp add: Let_def)
qed (simp add: Let_def)

end
