(* ===== verification/CborSafe.thy ===== *)
theory CborSafe
  imports CborTargetSpec BlockDataSpec
begin

text \<open>
  Decoding into Go types never panics on data that passed the check: a \<open>safe\<close> parser ends every item of the grammar without a panic and at the end
  of the item. Each kind of target keeps this, so that the parser of a struct is safe when those of its fields are.
\<close>

subsection \<open>An item by itself\<close>

lemma Uint_append:
  "length y = 2 \<Longrightarrow> Uint16 (y @ s) = Uint16 y" "length y = 4 \<Longrightarrow> Uint32 (y @ s) = Uint32 y" "length y = 8 \<Longrightarrow> Uint64 (y @ s) = Uint64 y"
  by (auto simp: Uint16_def Uint32_def Uint64_def numeral_eq_Suc length_Suc_conv)

lemma raw_argument_split:
  assumes "raw_argument n get t ai q = Ok (h, d)" "\<And>y s. length y = n \<Longrightarrow> get (y @ s) = get y"
  shows "\<exists>y. q = y @ d \<and> (\<forall>s. raw_argument n get t ai (y @ s) = Ok (h, s))"
proof -
  have l: "n \<le> length q" "h = (t, ai, get q)" "d = drop n q" using assms(1) by (auto simp: raw_argument_def index_panic_def split: if_splits)
  then have "get q = get (take n q)" using assms(2) [of "take n q" "drop n q"] by simp
  then have "raw_argument n get t ai (take n q @ s) = Ok (h, s)" for s
    using l assms(2) [of "take n q" s] by (simp add: raw_argument_def)
  then show ?thesis using l(3) append_take_drop_id by metis
qed

lemma getHead_split: "getHead p = Ok (h, d) \<Longrightarrow> \<exists>x. p = x @ d \<and> x \<noteq> [] \<and> (\<forall>s. getHead (x @ s) = Ok (h, s))"
proof -
  assume g: "getHead p = Ok (h, d)"
  obtain b q where p: "p = b # q" using g by (cases p) (simp_all add: getHead_def index_panic_def)
  have 1: "length y = 1 \<Longrightarrow> (ucast ((y @ s) ! 0) :: uint64) = ucast (y ! 0)" for y s :: bytes by (simp add: nth_append)
  have "\<exists>y. q = y @ d \<and> (\<forall>s. getHead (b # y @ s) = Ok (h, s))"
  proof -
    consider "getAdditionalInformation b \<le> 23" | "getAdditionalInformation b = 24" | "getAdditionalInformation b = 25" | "getAdditionalInformation b = 26"
      | "getAdditionalInformation b = 27" | "\<not> getAdditionalInformation b \<le> 23 \<and> getAdditionalInformation b \<notin> {24, 25, 26, 27}" by blast
    then show ?thesis
    proof cases
      case 2
      then have r: "raw_argument 1 (\<lambda>d. ucast (d ! 0)) (getType b) 24 q = Ok (h, d)" using g p by (simp add: getHead_def)
      show ?thesis using raw_argument_split [OF r 1] 2 by (simp add: getHead_def)
    next
      case 3
      then have r: "raw_argument 2 (\<lambda>d. ucast (Uint16 d)) (getType b) 25 q = Ok (h, d)" using g p by (simp add: getHead_def)
      show ?thesis using raw_argument_split [OF r] 3 by (simp add: getHead_def Uint_append)
    next
      case 4
      then have r: "raw_argument 4 (\<lambda>d. ucast (Uint32 d)) (getType b) 26 q = Ok (h, d)" using g p by (simp add: getHead_def)
      show ?thesis using raw_argument_split [OF r] 4 by (simp add: getHead_def Uint_append)
    next
      case 5
      then have r: "raw_argument 8 Uint64 (getType b) 27 q = Ok (h, d)" using g p by (simp add: getHead_def)
      show ?thesis using raw_argument_split [OF r] 5 by (simp add: getHead_def Uint_append)
    qed (use g p in \<open>auto simp: getHead_def Let_def intro!: exI [of _ "[]"]\<close>)
  qed
  then obtain y where "q = y @ d" "\<forall>s. getHead (b # y @ s) = Ok (h, s)" by blast
  then show ?thesis using p by (intro exI [of _ "b # y"]) simp
qed

lemma cut_split: "cut val d = Ok (x, r) \<Longrightarrow> d = x @ r \<and> (\<forall>s. cut val (x @ s) = Ok (x, s))"
proof -
  assume "cut val d = Ok (x, r)"
  then have c: "uint val \<le> int (length d)" "x = take (unat val) d" "r = drop (unat val) d" by (auto simp: cut_def index_panic_def split: if_splits)
  have u: "int (unat val) = uint val" by simp
  then have "unat val \<le> length d" using c(1) by linarith
  then have l: "length x = unat val" using c(2) by simp
  then have "cut val (x @ s) = Ok (x, s)" for s using u by (simp add: cut_def)
  then show ?thesis using c(2,3) by simp
qed

lemma item_split:
  "item p r \<Longrightarrow> \<exists>x. p = x @ r \<and> (\<forall>s. item (x @ s) s)"
  "items n p r \<Longrightarrow> \<exists>x. p = x @ r \<and> (\<forall>s. items n (x @ s) s)"
  "chunks_until t p r \<Longrightarrow> \<exists>x. p = x @ r \<and> (\<forall>s. chunks_until t (x @ s) s)"
  "items_until n p r \<Longrightarrow> \<exists>x. p = x @ r \<and> (\<forall>s. items_until n (x @ s) s)"
proof (induction rule: item_items_chunks_until_items_until.inducts)
  case (item_leaf p t ai val d)
  then show ?case using getHead_split [OF item_leaf(1)] item_items_chunks_until_items_until.item_leaf by metis
next
  case (item_string p t ai val d x r)
  obtain y where "p = y @ d" "\<forall>s. getHead (y @ s) = Ok ((t, ai, val), s)" using getHead_split [OF item_string(1)] by blast
  then show ?case using cut_split [OF item_string(4)] item_string(2,3) item_items_chunks_until_items_until.item_string
    by (intro exI [of _ "y @ x"]) (metis append_assoc)
next
  case (item_chunks p t val d r)
  obtain y where y: "p = y @ d" "\<forall>s. getHead (y @ s) = Ok ((t, 31, val), s)" using getHead_split [OF item_chunks(1)] by blast
  obtain z where "d = z @ r" "\<forall>s. chunks_until t (z @ s) s" using item_chunks.IH by blast
  then show ?case using y item_chunks(2) item_items_chunks_until_items_until.item_chunks
    by (intro exI [of _ "y @ z"]) (metis append_assoc)
next
  case (item_array p ai val d r)
  obtain y where y: "p = y @ d" "\<forall>s. getHead (y @ s) = Ok ((0x80, ai, val), s)" using getHead_split [OF item_array(1)] by blast
  obtain z where "d = z @ r" "\<forall>s. items (unat val) (z @ s) s" using item_array.IH by blast
  then show ?case using y item_array(2) item_items_chunks_until_items_until.item_array
    by (intro exI [of _ "y @ z"]) (metis append_assoc)
next
  case (item_map p ai val d r)
  obtain y where y: "p = y @ d" "\<forall>s. getHead (y @ s) = Ok ((0xA0, ai, val), s)" using getHead_split [OF item_map(1)] by blast
  obtain z where "d = z @ r" "\<forall>s. items (2 * unat val) (z @ s) s" using item_map.IH by blast
  then show ?case using y item_map(2) item_items_chunks_until_items_until.item_map
    by (intro exI [of _ "y @ z"]) (metis append_assoc)
next
  case (item_array_indef p val d n r)
  obtain y where y: "p = y @ d" "\<forall>s. getHead (y @ s) = Ok ((0x80, 31, val), s)" using getHead_split [OF item_array_indef(1)] by blast
  obtain z where "d = z @ r" "\<forall>s. items_until n (z @ s) s" using item_array_indef.IH by blast
  then show ?case using y item_items_chunks_until_items_until.item_array_indef
    by (intro exI [of _ "y @ z"]) (metis append_assoc)
next
  case (item_map_indef p val d n r)
  obtain y where y: "p = y @ d" "\<forall>s. getHead (y @ s) = Ok ((0xA0, 31, val), s)" using getHead_split [OF item_map_indef(1)] by blast
  obtain z where "d = z @ r" "\<forall>s. items_until (2 * n) (z @ s) s" using item_map_indef.IH by blast
  then show ?case using y item_items_chunks_until_items_until.item_map_indef
    by (intro exI [of _ "y @ z"]) (metis append_assoc)
next
  case (item_tag p ai val d r)
  obtain y where y: "p = y @ d" "\<forall>s. getHead (y @ s) = Ok ((0xC0, ai, val), s)" using getHead_split [OF item_tag(1)] by blast
  obtain z where "d = z @ r" "\<forall>s. item (z @ s) s" using item_tag.IH by blast
  then show ?case using y item_tag(2) item_items_chunks_until_items_until.item_tag
    by (intro exI [of _ "y @ z"]) (metis append_assoc)
next
  case (items_0 p)
  then show ?case using item_items_chunks_until_items_until.items_0 by auto
next
  case (items_Suc p q n r)
  then obtain y z where "p = y @ q" "\<forall>s. item (y @ s) s" "q = z @ r" "\<forall>s. items n (z @ s) s" by blast
  then show ?case using item_items_chunks_until_items_until.items_Suc by (intro exI [of _ "y @ z"]) (metis append_assoc)
next
  case (chunks_break b t p)
  then show ?case using item_items_chunks_until_items_until.chunks_break by (intro exI [of _ "[b]"]) auto
next
  case (chunks_next b p t ai val d x q r)
  obtain y where y: "b # p = y @ d" "y \<noteq> []" "\<forall>s. getHead (y @ s) = Ok ((t, ai, val), s)" using getHead_split [OF chunks_next(2)] by blast
  obtain y' where y': "y = b # y'" using y(1,2) by (cases y) auto
  obtain z where z: "q = z @ r" "\<forall>s. chunks_until t (z @ s) s" using chunks_next.IH by blast
  have c: "d = x @ q" "\<forall>s. cut val (x @ s) = Ok (x, s)" using cut_split [OF chunks_next(4)] by auto
  have "chunks_until t (b # (y' @ x @ z) @ s) s" for s
    using item_items_chunks_until_items_until.chunks_next [OF chunks_next(1), of "y' @ x @ z @ s" t ai val "x @ z @ s" x "z @ s" s] y(3) y' z(2) c(2) chunks_next(3)
    by simp
  then show ?case using y(1) y' z(1) c(1) by (intro exI [of _ "b # y' @ x @ z"]) simp
next
  case (until_break b p)
  then show ?case using item_items_chunks_until_items_until.until_break by (intro exI [of _ "[b]"]) auto
next
  case (until_next b p q n r)
  obtain y where y: "b # p = y @ q" "\<forall>s. item (y @ s) s" using until_next.IH(1) by blast
  obtain z where z: "q = z @ r" "\<forall>s. items_until n (z @ s) s" using until_next.IH(2) by blast
  have "y \<noteq> []" using y(2) item_not_Nil [of "y @ []" "[]"] by auto
  then obtain y' where y': "y = b # y'" using y(1) by (cases y) auto
  then have "items_until (Suc n) (b # (y' @ z) @ s) s" for s
    using item_items_chunks_until_items_until.until_next [OF until_next(1), of "y' @ z @ s" "z @ s" n s] y(2) z(2) by simp
  then show ?case using y(1) y' z(1) by (intro exI [of _ "b # y' @ z"]) simp
qed

lemma item_alone: "item p r \<Longrightarrow> item (take (length p - length r) p) []"
  using item_split(1) [of p r] by (metis append_Nil2 append_eq_conv_conj length_append add_diff_cancel_right')

subsection \<open>Safe parsers\<close>

definition ends :: "bytes \<Rightarrow> ('a \<times> unit res) \<times> bytes \<Rightarrow> bool" where
  "ends rest x \<longleftrightarrow> snd x = rest \<and> \<not> is_panic (snd (fst x))"

definition safe :: "'a parser \<Rightarrow> bool" where
  "safe p \<longleftrightarrow> (\<forall>old data rest. item data rest \<longrightarrow> ends rest (p old data))"

definition safe_target :: "'a target \<Rightarrow> bool" where
  "safe_target tg \<longleftrightarrow>
     (\<forall>old n i b c. \<not> is_panic (snd (tg_uint tg n old)) \<and> \<not> is_panic (snd (tg_neg tg i old)) \<and> \<not> is_panic (snd (tg_big tg i b old)) \<and>
       \<not> is_panic (snd (tg_bytes tg b old)) \<and> \<not> is_panic (snd (tg_text tg b old)) \<and> \<not> is_panic (snd (tg_bool tg c old)) \<and>
       \<not> is_panic (snd (tg_float tg n old))) \<and>
     (\<forall>old data rest ai val d. item data rest \<longrightarrow>
       (getHead data = Ok ((0x80, ai, val), d) \<longrightarrow> ends rest (tg_array tg old data)) \<and>
       (getHead data = Ok ((0xA0, ai, val), d) \<longrightarrow> ends rest (tg_map tg old data)))"

lemma safeD: "safe p \<Longrightarrow> item data rest \<Longrightarrow> \<exists>v e. p old data = ((v, e), rest) \<and> \<not> is_panic e"
  by (metis safe_def ends_def prod.collapse)

lemma ends_pair [simp]: "ends rest ((v, e), r) \<longleftrightarrow> r = rest \<and> \<not> is_panic e"
  by (simp add: ends_def)

lemma ends_fill [simp]: "ends rest (x, r) \<longleftrightarrow> r = rest \<and> \<not> is_panic (snd x)"
  by (simp add: ends_def)

lemma ends_moved: "ends rest (moved r old d g) \<longleftrightarrow> (case r of Ok x \<Rightarrow> ends rest (g x) | Err e \<Rightarrow> d = rest | Panic p \<Rightarrow> False)"
  by (simp add: moved_def split: res.split)

lemma ends_at_item:
  assumes "item data rest" "\<And>q. item q rest \<Longrightarrow> check_tags (length q) q = Ok None \<Longrightarrow> length q \<le> length data \<Longrightarrow> ends rest (g q)"
  shows "ends rest (at_item old data g)"
proof -
  obtain q where q: "strip_self (length data) data = Ok q" "item q rest" "length q \<le> length data"
    using strip_self_item [OF assms(1) order_refl] by blast
  show ?thesis using check_tags_item [OF q(2) order_refl] assms(2) [OF q(2) _ q(3)] q(1)
    by (auto simp: at_item_def ends_moved)
qed

lemma safe_value:
  assumes tg: "safe_target tg"
  shows "safe (parseToValue env dm tg)"
proof -
  have fills: "\<not> is_panic (snd (tg_uint tg n old))" "\<not> is_panic (snd (tg_neg tg i old))" "\<not> is_panic (snd (tg_big tg i b old))"
    "\<not> is_panic (snd (tg_bytes tg b old))" "\<not> is_panic (snd (tg_text tg b old))" "\<not> is_panic (snd (tg_bool tg c old))"
    "\<not> is_panic (snd (tg_float tg n old))" for n i b c old
    using tg by (simp_all add: safe_target_def)
  have box: "getHead q = Ok ((0x80, ai, val), d) \<Longrightarrow> ends rest (tg_array tg old q)" "getHead q = Ok ((0xA0, ai, val), d) \<Longrightarrow> ends rest (tg_map tg old q)"
    if "item q rest" for q rest ai val d old
    using tg that by (auto simp: safe_target_def)
  have "ends rest (parse_value k env dm tg old data)" if "item data rest" "length data \<le> k" for k old data rest
    using that
  proof (induction k arbitrary: data)
    case 0
    then show ?case using item_not_Nil by auto
  next
    case (Suc k)
    show ?case unfolding parse_value.simps
    proof (rule ends_at_item [OF Suc.prems(1)])
      fix q assume q: "item q rest" "check_tags (length q) q = Ok None" "length q \<le> length data"
      let ?body = "moved (getHead q) old q (\<lambda>((t, ai, val), d).
       if t = 0x00 then (tg_uint tg val old, d)
       else if t = 0x20 then (if 0x8000000000000000 \<le> val then reject old else tg_neg tg (- uint val - 1) old, d)
       else if t = 0x40 then moved (parseByteString ai val d) old d (\<lambda>(b, r). (tg_bytes tg b old, r))
       else if t = 0x60 then
         moved (parseTextString dm ai val d) old d (\<lambda>(x, r). moved x old r (\<lambda>b. (tg_text tg b old, r)))
       else if t = 0xE0 then
         (if ai = 25 then (tg_float tg (ce_float16 env (ucast val)) old, d)
          else if ai = 26 then (tg_float tg (ce_float32 env (ucast val)) old, d)
          else if ai = 27 then (tg_float tg val old, d)
          else if ai = 20 \<or> ai = 21 then (tg_bool tg (ai = 21) old, d)
          else if ai = 22 \<or> ai = 23 then ((tg_nil tg old, Ok ()), d)
          else (tg_uint tg val old, d))
       else if t = 0xC0 then
         (if val = 2 \<or> val = 3 then
            moved (getHead d) old d (\<lambda>((t', ai', val'), d'). moved (parseByteString ai' val' d') old d' (\<lambda>(b, r).
              (tg_big tg (if val = 2 then int (big_SetBytes b) else - int (big_SetBytes b) - 1) b old, r)))
          else parse_value k env dm tg old d)
       else if t = 0x80 then tg_array tg old q
       else tg_map tg old q)"
      from q(1) show "ends rest ?body"
      proof cases
        case (item_leaf t ai val)
        from item_leaf(2) show ?thesis
          by (elim disjE) (simp_all add: item_leaf(1) fills reject_def)
      next
        case (item_string t ai val d x)
        then have b: "parseByteString ai val d = Ok (x, rest)" by (simp add: parseByteString_def)
        obtain y where y: "parseTextString dm ai val d = Ok (y, rest)" "\<not> is_panic y"
          using item_string(3,4) by (auto simp: parseTextString_def)
        show ?thesis using item_string(2)
        proof
          assume "t = 0x40"
          then show ?thesis by (simp add: item_string(1) b fills)
        next
          assume "t = 0x60"
          then show ?thesis using y by (cases y) (simp_all add: item_string(1) fills moved_def)
        qed
      next
        case (item_chunks t val d)
        obtain b where b: "parseByteString 31 val d = Ok (b, rest)"
          using string_chunks_good [OF item_chunks(3), of "length d" "[]"] by (auto simp: parseByteString_def)
        obtain x where x: "parseTextString dm 31 val d = Ok (x, rest)" "\<not> is_panic x"
          using text_chunks_good [OF item_chunks(3,2), of "length d" dm "[]"] by (auto simp: parseTextString_def)
        show ?thesis using item_chunks(2)
        proof
          assume "t = 0x40"
          then show ?thesis by (simp add: item_chunks(1) b fills)
        next
          assume "t = 0x60"
          then show ?thesis using x by (cases x) (simp_all add: item_chunks(1) fills moved_def)
        qed
      next
        case (item_array ai val d)
        then show ?thesis using box(1) [OF q(1)] by simp
      next
        case (item_map ai val d)
        then show ?thesis using box(2) [OF q(1)] by simp
      next
        case (item_array_indef val d n)
        then show ?thesis using box(1) [OF q(1)] by simp
      next
        case (item_map_indef val d n)
        then show ?thesis using box(2) [OF q(1)] by simp
      next
        case (item_tag ai val d)
        obtain c ds where c: "d = c # ds" "validBuiltinTag val c = Ok ()" using check_tags_None [OF item_tag(1) q(2)] by blast
        show ?thesis
        proof (cases "val = 2 \<or> val = 3")
          case True
          then have "getType c = 0x40" using c(2) by (auto simp: validBuiltinTag_def split: if_splits)
          from byte_string_item [OF item_tag(3) [unfolded c(1)] this] show ?thesis
            using True item_tag(1) c(1) by (auto simp: ends_moved fills)
        next
          case False
          have "length d \<le> k" using getHead_consumes [OF item_tag(1)] q(3) Suc.prems(2) by simp
          then show ?thesis using False item_tag(1) Suc.IH [OF item_tag(3)] by simp
        qed
      qed
    qed
  qed
  then show ?thesis by (simp add: safe_def parseToValue_def)
qed


subsection \<open>Scalars and slices\<close>

lemma safe_skip_reject: "item data rest \<Longrightarrow> ends rest (skip_reject old data)"
  by (simp add: skip_reject_def item_skip)

lemma safe_no_target: "safe_target no_target"
  by (simp add: safe_target_def no_target_def reject_def safe_skip_reject)

lemma safe_uint_target: "safe_target (uint_target :: ('n::len word) target)"
  by (simp add: safe_target_def uint_target_def reject_def safe_skip_reject fillPositiveInt_def)

lemma safe_int_target: "safe_target int_target"
  by (simp add: safe_target_def int_target_def reject_def safe_skip_reject fillInt_def)

lemma safe_bool_target: "safe_target bool_target" and safe_string_target: "safe_target string_target"
  by (simp_all add: safe_target_def bool_target_def string_target_def no_target_def reject_def safe_skip_reject)

lemma not_panic_then_err: "\<not> is_panic e \<Longrightarrow> \<not> is_panic e' \<Longrightarrow> \<not> is_panic (then_err e e')"
  by (cases "(e, e')" rule: then_err.cases) auto

lemma until_nonempty: "items_until n p r \<Longrightarrow> p \<noteq> []"
  using grammar_consumes(4) by fastforce

lemma slice_elems_safe:
  assumes "safe p"
  shows "items n d rest \<Longrightarrow> ends rest (slice_elems p zero False n d)"
proof (induction n arbitrary: d)
  case 0
  then show ?case by (auto elim: items_0E)
next
  case (Suc n)
  from Suc.prems obtain q where q: "item d q" "items n q rest" by (auto elim: items_SucE)
  obtain v e where v: "p zero d = ((v, e), q)" "\<not> is_panic e" using safeD [OF assms q(1)] by blast
  obtain vs e' where "slice_elems p zero False n q = ((vs, e'), rest)" "\<not> is_panic e'" using Suc.IH [OF q(2)] by (metis ends_def prod.collapse)
  then show ?case using v by (cases e) (auto simp: not_panic_then_err)
qed

lemma slice_elems_indef_safe:
  assumes "safe p"
  shows "items_until n d rest \<Longrightarrow> length d \<le> k \<Longrightarrow> ends rest (slice_elems p zero True k d)"
proof (induction k arbitrary: n d)
  case 0
  then show ?case using until_nonempty by auto
next
  case (Suc k)
  from Suc.prems(1) show ?case
  proof cases
    case (until_next b d' q m)
    obtain v e where v: "p zero d = ((v, e), q)" "\<not> is_panic e" using safeD [OF assms] until_next by blast
    have "length q \<le> k" using grammar_consumes(1) [OF until_next(4)] Suc.prems(2) until_next(2) by simp
    then obtain vs e' where "slice_elems p zero True k q = ((vs, e'), rest)" "\<not> is_panic e'"
      using Suc.IH [OF until_next(5)] by (metis ends_def prod.collapse)
    then show ?thesis using v until_next by (cases e) (auto simp: not_panic_then_err)
  qed simp
qed

lemma item_array_cases:
  assumes "item p r" "getHead p = Ok ((0x80, ai, val), d)"
  obtains "ai \<noteq> 31" "items (unat val) d r" | n where "ai = 31" "items_until n d r"
  using assms(1) by cases (use assms(2) in auto)

lemma item_map_cases:
  assumes "item p r" "getHead p = Ok ((0xA0, ai, val), d)"
  obtains "ai \<noteq> 31" "items (2 * unat val) d r" | n where "ai = 31" "items_until (2 * n) d r"
  using assms(1) by cases (use assms(2) in auto)

lemma parseArrayToSlice_safe:
  assumes "safe p" "item data rest" "getHead data = Ok ((0x80, ai, val), d)"
  shows "ends rest (parseArrayToSlice p zero old data)"
  by (rule item_array_cases [OF assms(2,3)])
    (auto simp: parseArrayToSlice_def assms(3) intro: slice_elems_safe [OF assms(1)] slice_elems_indef_safe [OF assms(1)])

lemma safe_slice_target: "safe p \<Longrightarrow> safe_target (slice_target p zero)"
  using safe_no_target [where 'a = "'a list"] by (auto simp: safe_target_def slice_target_def parseArrayToSlice_safe)

lemma safe_bytes_target: "safe_target (bytes_target env dm)"
  using safe_slice_target [OF safe_value [OF safe_uint_target], of env dm 0] by (auto simp: safe_target_def bytes_target_def)

subsection \<open>Structs\<close>

lemma field_safe: "safe p \<Longrightarrow> safe (field get put p)"
proof -
  assume p: "safe p"
  have "ends rest (field get put p old data)" if "item data rest" for old data rest
    using safeD [OF p that, of "get old"] by (auto simp: field_def)
  then show ?thesis by (simp add: safe_def)
qed

lemma parse_fields_safe: "list_all safe fs \<Longrightarrow> items (length fs) d rest \<Longrightarrow> ends rest (parse_fields fs s d)"
proof (induction fs arbitrary: s d)
  case Nil
  then show ?case by (auto elim: items_0E)
next
  case (Cons f fs)
  from Cons.prems(2) obtain q where q: "item d q" "items (length fs) q rest" by (auto elim: items_SucE)
  have fs: "safe f" "list_all safe fs" using Cons.prems(1) by simp_all
  obtain v e where v: "f s d = ((v, e), q)" "\<not> is_panic e" using safeD [OF fs(1) q(1)] by blast
  obtain w e' where "parse_fields fs v q = ((w, e'), rest)" "\<not> is_panic e'" using Cons.IH [OF fs(2) q(2), of v] by (metis ends_def prod.collapse)
  then show ?case using v by (cases e) (auto simp: not_panic_then_err)
qed

lemma items_before_break: "items_until n p r \<Longrightarrow> \<exists>b. items n p (b # r)"
proof (induction n arbitrary: p)
  case 0
  then show ?case by (cases rule: until_0E) (auto intro: items_0)
next
  case (Suc n)
  then show ?case by (elim until_SucE) (blast intro: items_Suc)
qed

lemma numOfItems_safe: "items_until n p r \<Longrightarrow> length p \<le> k \<Longrightarrow> numOfItemsUntilBreak k p = Ok n"
proof (induction k arbitrary: n p)
  case 0
  then show ?case using until_nonempty by auto
next
  case (Suc k)
  from Suc.prems(1) show ?case
  proof cases
    case (until_next b d' q m)
    then have "length q \<le> k" using grammar_consumes(1) [OF until_next(4)] Suc.prems(2) by simp
    then show ?thesis using until_next item_skip [OF until_next(4)] Suc.IH [OF until_next(5)] by simp
  qed simp
qed

lemma parseArrayToStruct_safe:
  assumes "list_all safe fs" "item data rest" "getHead data = Ok ((0x80, ai, val), d)"
  shows "ends rest (parseArrayToStruct fs s data)"
proof -
  have go: "ends r' (case parse_fields fs s d of ((s', Panic q), r) \<Rightarrow> ((s', Panic q), g r) | ((s', e), r) \<Rightarrow> ((s', e), h r))"
    if i: "items (length fs) d r" and r: "h r = r'" for r r' and g h :: "bytes \<Rightarrow> bytes"
  proof -
    obtain w e where "parse_fields fs s d = ((w, e), r)" "\<not> is_panic e"
      using parse_fields_safe [OF assms(1) i, of s] by (metis ends_def prod.collapse)
    then show ?thesis using r by (cases e) auto
  qed
  show ?thesis
  proof (rule item_array_cases [OF assms(2,3)])
    assume i: "ai \<noteq> 31" "items (unat val) d rest"
    then show ?thesis using go [where r = rest and r' = rest and g = "\<lambda>r. r" and h = "\<lambda>r. r"] safe_skip_reject [OF assms(2)]
      by (auto simp: parseArrayToStruct_def assms(3))
  next
    fix n assume i: "ai = 31" "items_until n d rest"
    obtain b where "items n d (b # rest)" using items_before_break [OF i(2)] by blast
    then show ?thesis using go [where r = "b # rest" and r' = rest and g = "\<lambda>r. r" and h = tl] safe_skip_reject [OF assms(2)]
        numOfItems_safe [OF i(2) order_refl] i(1)
      by (auto simp: parseArrayToStruct_def assms(3))
  qed
qed

lemma safe_struct_target: "list_all safe fs \<Longrightarrow> safe_target (struct_target fs)"
  using safe_no_target by (auto simp: safe_target_def struct_target_def parseArrayToStruct_safe)


subsection \<open>Structs as maps, and maps\<close>

lemma text_item:
  assumes "item p r" "getHead p = Ok ((0x60, ai, val), d)"
  shows "\<exists>x. parseTextString dm ai val d = Ok (x, r) \<and> \<not> is_panic x"
  using assms(1)
proof cases
  case (item_string t ai' val' d' x)
  then show ?thesis using assms(2) by (auto simp: parseTextString_def)
next
  case (item_chunks t val' d')
  then show ?thesis using assms(2) text_chunks_good [OF item_chunks(3,2), of "length d'" dm "[]"] by (auto simp: parseTextString_def)
qed (use assms(2) in auto)

lemma leaf_item: "item p r \<Longrightarrow> getHead p = Ok ((t, ai, val), d) \<Longrightarrow> t = 0x00 \<or> t = 0x20 \<Longrightarrow> d = r"
  by (cases rule: item.cases) auto

lemma map_key_safe:
  assumes "item p r"
  shows "\<exists>f e. map_key dm flds p = Ok ((f, e), r) \<and> \<not> is_panic e"
proof -
  obtain t ai val d where h: "getHead p = Ok ((t, ai, val), d)" using assms by cases auto
  consider "t = 0x60" | "t = 0x00" | "t = 0x20" | "t \<notin> {0x60, 0x00, 0x20}" by blast
  then show ?thesis
  proof cases
    case 1
    then obtain x where "parseTextString dm ai val d = Ok (x, r)" "\<not> is_panic x" using text_item [OF assms] h by blast
    then show ?thesis using 1 h by (cases x) (auto simp: map_key_def)
  qed (use h leaf_item [OF assms h] item_skip [OF assms] in \<open>auto simp: map_key_def\<close>)
qed

lemma items_two: "items (2 * Suc n) p r \<Longrightarrow> \<exists>q q'. item p q \<and> item q q' \<and> items (2 * n) q' r"
  by (metis items_SucE mult_Suc_right add_2_eq_Suc)

lemma until_two: "items_until (2 * n) p r \<Longrightarrow>
    (\<exists>b. p = b # r \<and> isBreakFlag b \<and> n = 0) \<or>
    (\<exists>m q q'. n = Suc m \<and> \<not> isBreakFlag (hd p) \<and> item p q \<and> item q q' \<and> items_until (2 * m) q' r)"
proof (cases n)
  case 0
  moreover assume "items_until (2 * n) p r"
  ultimately show ?thesis by (auto elim: until_0E)
next
  case (Suc m)
  assume "items_until (2 * n) p r"
  then have "items_until (Suc (Suc (2 * m))) p r" by (simp add: Suc)
  then show ?thesis using Suc by (elim until_SucE) auto
qed

lemma map_fields_step:
  assumes "\<forall>(k, nm, p)\<in>set flds. safe p" "item d q" "item q q'"
    and "\<And>fd s'. ends rest (map_fields dm flds indef n fd s' q')"
    and "\<not> (indef \<and> isBreakFlag (hd d))"
  shows "ends rest (map_fields dm flds indef (Suc n) found s d)"
proof -
  have d: "d \<noteq> []" "\<not> (indef \<and> d = [])" using item_not_Nil [OF assms(2)] by auto
  obtain f e where k: "map_key dm flds d = Ok ((f, e), q)" "\<not> is_panic e" using map_key_safe [OF assms(2)] by blast
  have rec: "\<exists>s'' e''. map_fields dm flds indef n fd s' q' = ((s'', e''), rest) \<and> \<not> is_panic e''" for fd s'
    using assms(4) [of fd s'] by (metis ends_def prod.collapse)
  show ?thesis
  proof (cases f)
    case None
    then show ?thesis using d assms(5) k item_skip [OF assms(3)] rec [of found s] by (auto simp: not_panic_then_err)
  next
    case (Some kp)
    obtain i p where kp: "kp = (i, p)" by fastforce
    obtain qq where "find_field qq flds = Some (i, p)" using map_key_field [of dm flds d "(i, p)" e q] k Some kp by auto
    from find_field_member [OF this] obtain nm where m: "(i, nm, p) \<in> set flds" ..
    have sp: "safe p" using bspec [OF assms(1) m] by simp
    obtain v e' where v: "p s q = ((v, e'), q')" "\<not> is_panic e'" using safeD [OF sp assms(3), of s] by auto
    then show ?thesis using Some kp d assms(5) k item_skip [OF assms(3)] rec [of found s] rec [of "i # found" v]
      by (cases e') (auto simp: not_panic_then_err)
  qed
qed

lemma map_fields_safe:
  assumes "\<forall>(k, nm, p)\<in>set flds. safe p"
  shows "items (2 * n) d rest \<Longrightarrow> ends rest (map_fields dm flds False n found s d)"
proof (induction n arbitrary: d found s)
  case 0
  then show ?case by (auto elim: items_0E)
next
  case (Suc n)
  from items_two [OF Suc.prems] obtain q q' where "item d q" "item q q'" "items (2 * n) q' rest" by blast
  then show ?case using map_fields_step [OF assms, of d q q' rest dm False n] Suc.IH by blast
qed

lemma map_fields_indef_safe:
  assumes "\<forall>(k, nm, p)\<in>set flds. safe p"
  shows "items_until (2 * n) d rest \<Longrightarrow> length d \<le> k \<Longrightarrow> ends rest (map_fields dm flds True k found s d)"
proof (induction k arbitrary: n d found s)
  case 0
  then show ?case using until_nonempty by auto
next
  case (Suc k)
  from until_two [OF Suc.prems(1)] show ?case
  proof (elim disjE exE conjE)
    fix m q q' assume a: "n = Suc m" "\<not> isBreakFlag (hd d)" "item d q" "item q q'" "items_until (2 * m) q' rest"
    have "length q' \<le> k" using grammar_consumes(1) [OF a(3)] grammar_consumes(1) [OF a(4)] Suc.prems(2) by simp
    then show ?thesis using map_fields_step [OF assms a(3,4), of rest dm True k] Suc.IH [OF a(5)] a(2) by blast
  qed auto
qed

lemma parseMapToStruct_safe:
  assumes "\<forall>(k, nm, p)\<in>set flds. safe p" "item data rest" "getHead data = Ok ((0xA0, ai, val), d)"
  shows "ends rest (parseMapToStruct dm flds s data)"
  by (rule item_map_cases [OF assms(2,3)])
    (auto simp: parseMapToStruct_def assms(3) intro: map_fields_safe [OF assms(1)] map_fields_indef_safe [OF assms(1)])

lemma safe_keyed_target: "\<forall>(k, nm, p)\<in>set flds. safe p \<Longrightarrow> safe_target (keyed_target dm flds)"
  using safe_no_target by (auto simp: safe_target_def keyed_target_def parseMapToStruct_safe)

lemma map_elems_step:
  assumes "safe kp" "safe vp" "item d q" "item q q'"
    and "\<And>k v m. ends rest (map_elems kp vp kr vr indef n k v m q')"
    and "\<not> (indef \<and> isBreakFlag (hd d))"
  shows "ends rest (map_elems kp vp kr vr indef (Suc n) k0 v0 m d)"
proof -
  have d: "\<not> (indef \<and> d = [])" using item_not_Nil [OF assms(3)] by auto
  obtain k e where k: "kp (kr k0) d = ((k, e), q)" "\<not> is_panic e" using safeD [OF assms(1,3)] by blast
  obtain v e' where v: "vp (vr v0) q = ((v, e'), q')" "\<not> is_panic e'" using safeD [OF assms(2,4)] by blast
  have rec: "\<exists>m'' e''. map_elems kp vp kr vr indef n k v m q' = ((m'', e''), rest) \<and> \<not> is_panic e''" for k v m
    using assms(5) [of k v m] by (metis ends_def prod.collapse)
  show ?thesis
    using d assms(6) k v item_skip [OF assms(4)] rec [of k v0 m] rec [of k v m] rec [of k v "AList.update k v m"]
    by (cases e; cases e') (auto simp: not_panic_then_err simp del: then_err.simps)
qed

lemma map_elems_safe:
  assumes "safe kp" "safe vp"
  shows "items (2 * n) d rest \<Longrightarrow> ends rest (map_elems kp vp kr vr False n k v m d)"
proof (induction n arbitrary: d k v m)
  case 0
  then show ?case by (auto elim: items_0E)
next
  case (Suc n)
  from items_two [OF Suc.prems] obtain q q' where "item d q" "item q q'" "items (2 * n) q' rest" by blast
  then show ?case using map_elems_step [OF assms, of d q q' rest kr vr False n] Suc.IH by blast
qed

lemma map_elems_indef_safe:
  assumes "safe kp" "safe vp"
  shows "items_until (2 * n) d rest \<Longrightarrow> length d \<le> j \<Longrightarrow> ends rest (map_elems kp vp kr vr True j k v m d)"
proof (induction j arbitrary: n d k v m)
  case 0
  then show ?case using until_nonempty by auto
next
  case (Suc j)
  from until_two [OF Suc.prems(1)] show ?case
  proof (elim disjE exE conjE)
    fix i q q' assume a: "n = Suc i" "\<not> isBreakFlag (hd d)" "item d q" "item q q'" "items_until (2 * i) q' rest"
    have "length q' \<le> j" using grammar_consumes(1) [OF a(3)] grammar_consumes(1) [OF a(4)] Suc.prems(2) by simp
    then show ?thesis using map_elems_step [OF assms a(3,4), of rest kr vr True j] Suc.IH [OF a(5)] a(2) by blast
  qed auto
qed

lemma parseMapToMap_safe:
  assumes "safe kp" "safe vp" "item data rest" "getHead data = Ok ((0xA0, ai, val), d)"
  shows "ends rest (parseMapToMap kp vp kr vr kz vz m data)"
  by (rule item_map_cases [OF assms(3,4)])
    (auto simp: parseMapToMap_def assms(4) intro: map_elems_safe [OF assms(1,2)] map_elems_indef_safe [OF assms(1,2)])

subsection \<open>Types treated before the dispatch\<close>

lemma safe_unmarshaler:
  assumes "\<And>bs old. item bs [] \<Longrightarrow> \<not> is_panic (snd (f bs old))"
  shows "safe (parseToUnmarshaler f)"
  unfolding safe_def parseToUnmarshaler_def
  by (intro allI impI ends_at_item) (simp_all add: item_skip assms item_alone)

lemma not_panic_all_or_nothing: "\<not> is_panic r \<Longrightarrow> \<not> is_panic (snd (all_or_nothing r old))"
  by (cases r) (auto simp: all_or_nothing_def)

lemma ByteString_safe: "item bs [] \<Longrightarrow> \<not> is_panic (snd (ByteString_UnmarshalCBOR bs old))"
proof -
  assume i: "item bs []"
  obtain c ds where c: "bs = c # ds" using item_not_Nil [OF i] by (cases bs) auto
  show ?thesis
  proof (cases "getType c = 0x40")
    case True
    from byte_string_item [OF i [unfolded c] this] show ?thesis using c True
      by (auto simp: ByteString_UnmarshalCBOR_def all_or_nothing_def)
  qed (simp add: ByteString_UnmarshalCBOR_def c reject_def)
qed

lemma safe_ByteString: "safe parse_ByteString"
  unfolding parse_ByteString_def by (rule safe_unmarshaler) (rule ByteString_safe)

lemma safe_number_map_target: "safe vp \<Longrightarrow> safe_target (number_map_target vp vz)"
  using safe_no_target [where 'a = "(string \<times> 'a) list"] parseMapToMap_safe [OF safe_ByteString, of vp]
  by (auto simp: safe_target_def number_map_target_def)

lemma safe_map_map_target: "safe vp \<Longrightarrow> safe_target (map_map_target vp)"
  using safe_no_target [where 'a = "(string \<times> (string \<times> 'a) list) list"] parseMapToMap_safe [OF safe_ByteString, of vp]
  by (auto simp: safe_target_def map_map_target_def)

lemma safe_iface:
  assumes "\<And>b. \<not> is_panic (ce_time env b)"
  shows "safe (parse_iface env dm)"
  unfolding safe_def parse_iface_def
proof (intro allI impI ends_at_item)
  fix old data rest q assume "item data rest" "item q rest"
  then obtain x where "parse_item (length q) env dm False q = (x, rest)" "\<not> is_panic x"
    using parsesD [OF parse_good [of env "length q" dm]] assms by blast
  then show "ends rest (case parse_item (length q) env dm False q of (Ok v, r) \<Rightarrow> ((if v = ANil then old else v, Ok ()), r)
      | (Err e, r) \<Rightarrow> ((old, Err e), r) | (Panic p, r) \<Rightarrow> ((old, Panic p), r))" by (cases x) auto
qed

lemma safe_pointer: "safe p \<Longrightarrow> safe (parse_pointer zero p)"
proof -
  assume p: "safe p"
  have "ends rest (parse_pointer zero p old data)" if i: "item data rest" for old data rest
    using item_skip [OF i] safeD [OF p i, of "case old of None \<Rightarrow> zero | Some v \<Rightarrow> v"] by (auto simp: parse_pointer_def)
  then show ?thesis by (simp add: safe_def)
qed

text \<open>\<open>Unmarshal\<close> with a safe parser, on any bytes.\<close>

lemma safe_Unmarshal:
  assumes "safe p"
  shows "\<not> is_panic (snd (Unmarshal dm p data old))"
proof (cases "wellformed dm False False data")
  case (Ok r)
  then show ?thesis using safeD [OF assms wellformed_item [OF Ok], of old] by (auto simp: Unmarshal_def)
qed (use wellformed_no_panic in \<open>auto simp: Unmarshal_def\<close>)

lemma Optional_safe:
  assumes "\<And>old. \<not> is_panic (snd (u data old))"
  shows "\<not> is_panic (snd (Optional_UnmarshalCBOR u data opt))"
  using assms [of "op_Value opt"] by (cases "snd (u data (op_Value opt))") (auto simp: Optional_UnmarshalCBOR_def split: prod.splits)

lemma SubtypeOf_safe: "\<forall>dec\<in>set decs. \<not> is_panic (dec bs) \<Longrightarrow> \<not> is_panic (SubtypeOf_UnmarshalCBOR decs bs)"
  by (induction decs) (auto split: res.split)

end
