(* ===== verification/BlockCodec.thy ===== *)
theory BlockCodec
  imports BlockData CborTarget
begin

text \<open>
  Blocks and transactions as bytes: what the CBOR library makes of the structs of src/block.go, and the decoding into them
  (the tags of the struct fields, read by src/vendor/github.com/alexdcox/cbor/v2).

  \<^item> A struct with \<open>toarray\<close> is an array of its fields, a struct with \<open>keyasint\<close> a map; a field with \<open>omitempty\<close> is left out of a map when
    it is zero.
  \<^item> Encoders return bytes where they cannot fail, and an outcome where a method \<open>MarshalCBOR\<close> is called or a value of type \<open>any\<close> is encoded.
  \<^item> \<open>SubtypeOf\<close> tries the subtypes in the order of the code, each with the options of \<open>cbor.Unmarshal\<close> and a new object.
\<close>

subsection \<open>Helpers\<close>

text \<open>A struct with \<open>toarray\<close> or \<open>keyasint\<close> with fields that can fail, and a slice and a pointer.\<close>

definition enc_array_res :: "bytes res list \<Rightarrow> bytes res" where
  "enc_array_res rs = res_bind (res_all rs) (\<lambda>bss. Ok (enc_array bss))"

definition enc_fields_res :: "(int \<times> bytes res) list \<Rightarrow> bytes res" where
  "enc_fields_res fs = res_bind (res_all (map snd fs)) (\<lambda>bss. Ok (enc_fields (zip (map fst fs) bss)))"

definition marshal_slice :: "('a \<Rightarrow> bytes res) \<Rightarrow> 'a list \<Rightarrow> bytes res" where
  "marshal_slice enc xs = (if xs = [] then Ok [0xF6] else enc_array_res (map enc xs))"

definition marshal_pointer :: "('a \<Rightarrow> bytes res) \<Rightarrow> 'a option \<Rightarrow> bytes res" where
  "marshal_pointer enc p = (case p of None \<Rightarrow> Ok [0xF6] | Some v \<Rightarrow> enc v)"

text \<open>A field with \<open>omitempty\<close>.\<close>

definition omitempty :: "bool \<Rightarrow> int \<Rightarrow> bytes res \<Rightarrow> (int \<times> bytes res) list" where
  "omitempty absent k r = (if absent then [] else [(k, r)])"

definition parse_int :: "cbor_env \<Rightarrow> DecMode \<Rightarrow> int parser" where
  "parse_int env dm = parseToValue env dm int_target"

definition slice_p :: "cbor_env \<Rightarrow> DecMode \<Rightarrow> 'e parser \<Rightarrow> 'e \<Rightarrow> 'e list parser" where
  "slice_p env dm p zero = parseToValue env dm (slice_target p zero)"

definition parse_Era :: "Era parser" where
  "parse_Era = parseToUnmarshaler (\<lambda>bs. all_or_nothing (Era_UnmarshalCBOR bs))"

text \<open>A new object of a subtype, decoded.\<close>

definition fresh_value :: "('a \<Rightarrow> 'b) \<Rightarrow> 'a \<times> unit res \<Rightarrow> 'b res" where
  "fresh_value c r = res_bind (snd r) (\<lambda>_. Ok (c (fst r)))"

subsection \<open>Zero values\<close>

definition zero_vrf :: VrfCert where "zero_vrf = \<lparr>vc_Pt1 = [], vc_Pt2 = []\<rparr>"

definition zero_header :: BlockHeader where
  "zero_header = \<lparr>hd_Body = \<lparr>bh_Number = 0, bh_Slot = 0, bh_PrevHash = [], bh_IssuerVkey = [], bh_VrfKey = [], bh_VrfResult = zero_vrf,
     bh_BodySize = 0, bh_BodyHash = [], bh_OperationalCert = \<lparr>oc_HotVkey = [], oc_Sequence = 0, oc_KesPeriod = 0, oc_Sigma = []\<rparr>,
     bh_ProtocolVersion = \<lparr>pv_Pt1 = 0, pv_Pt2 = 0\<rparr>\<rparr>, hd_Signature = []\<rparr>"

definition zero_input :: TransactionInput where "zero_input = \<lparr>ti_Txid = [], ti_Index = 0\<rparr>"
definition zero_collateral :: CollateralInput where "zero_collateral = \<lparr>ci_A = [], ci_B = 0\<rparr>"
definition zero_amount :: AmountData where "zero_amount = \<lparr>ad_Amount = 0, ad_Mappings = []\<rparr>"

definition zero_body :: TransactionBody where
  "zero_body = \<lparr>tb_Inputs = [], tb_Outputs = [], tb_Fee = 0, tb_Ttl = 0,
     tb_Certificates = ANil, tb_WithdrawalMap = [], tb_UpdateDI = ANil, tb_AuxiliaryDataHash = [],
     tb_ValidityStartInterval = 0, tb_MintMap = [], tb_ScriptDataHash = [], tb_CollateralInputs = [],
     tb_RequiredSigners = [], tb_NetworkId = 0, tb_CollateralReturn = None, tb_TotalCollateral = 0,
     tb_ReferenceInputs = [], tb_VotingProcedures = ANil, tb_ProposalProcedure = ANil, tb_TreasuryValue = ANil,
     tb_DonationCoin = 0\<rparr>"

definition zero_witness :: TransactionWitnessSet where
  "zero_witness = \<lparr>tw_VkeyWitness = ANil, tw_NativeScript = ANil, tw_BootstrapWitness = ANil, tw_PlutusV1Script = ANil,
     tw_PlutusData = ANil, tw_Redeemer = ANil, tw_PlutusV2Script = ANil, tw_PlutusV3Script = ANil\<rparr>"

definition zero_block :: BlockData.Block where
  "zero_block = \<lparr>bl_Era = 0, bl_Header = zero_header, bl_TransactionBodies = [], bl_TransactionWitnessSets = [],
     bl_AuxiliaryData = \<lparr>ax_Value = ANil\<rparr>, bl_InvalidTransactions = [], bl_Raw = []\<rparr>"

subsection \<open>Headers\<close>

definition marshal_VrfCert :: "VrfCert \<Rightarrow> bytes" where
  "marshal_VrfCert c = enc_array [encode_HexBytes (vc_Pt1 c), encode_HexBytes (vc_Pt2 c)]"

definition marshal_OperationalCert :: "OperationalCert \<Rightarrow> bytes" where
  "marshal_OperationalCert c =
     enc_array [encode_HexBytes (oc_HotVkey c), encodeHead 0x00 (oc_Sequence c), encode_int (oc_KesPeriod c), encode_HexBytes (oc_Sigma c)]"

definition marshal_ProtocolVersion :: "ProtocolVersion \<Rightarrow> bytes" where
  "marshal_ProtocolVersion v = enc_array [encode_int (pv_Pt1 v), encode_int (pv_Pt2 v)]"

definition marshal_BlockHeaderBody :: "BlockHeaderBody \<Rightarrow> bytes" where
  "marshal_BlockHeaderBody b = enc_array
     [encodeHead 0x00 (bh_Number b), encodeHead 0x00 (bh_Slot b), encode_HexBytes (bh_PrevHash b), encode_HexBytes (bh_IssuerVkey b),
      encode_HexBytes (bh_VrfKey b), marshal_VrfCert (bh_VrfResult b), encodeHead 0x00 (bh_BodySize b), encode_HexBytes (bh_BodyHash b),
      marshal_OperationalCert (bh_OperationalCert b), marshal_ProtocolVersion (bh_ProtocolVersion b)]"

definition marshal_BlockHeader :: "BlockHeader \<Rightarrow> bytes" where
  "marshal_BlockHeader h = enc_array [marshal_BlockHeaderBody (hd_Body h), encode_HexBytes (hd_Signature h)]"

definition parse_VrfCert :: "cbor_env \<Rightarrow> DecMode \<Rightarrow> VrfCert parser" where
  "parse_VrfCert env dm = parseToValue env dm (struct_target
     [field vc_Pt1 (\<lambda>v. vc_Pt1_update (\<lambda>_. v)) (parse_bytes env dm),
      field vc_Pt2 (\<lambda>v. vc_Pt2_update (\<lambda>_. v)) (parse_bytes env dm)])"

definition parse_OperationalCert :: "cbor_env \<Rightarrow> DecMode \<Rightarrow> OperationalCert parser" where
  "parse_OperationalCert env dm = parseToValue env dm (struct_target
     [field oc_HotVkey (\<lambda>v. oc_HotVkey_update (\<lambda>_. v)) (parse_bytes env dm),
      field oc_Sequence (\<lambda>v. oc_Sequence_update (\<lambda>_. v)) (parse_uint env dm),
      field oc_KesPeriod (\<lambda>v. oc_KesPeriod_update (\<lambda>_. v)) (parse_int env dm),
      field oc_Sigma (\<lambda>v. oc_Sigma_update (\<lambda>_. v)) (parse_bytes env dm)])"

definition parse_ProtocolVersion :: "cbor_env \<Rightarrow> DecMode \<Rightarrow> ProtocolVersion parser" where
  "parse_ProtocolVersion env dm = parseToValue env dm (struct_target
     [field pv_Pt1 (\<lambda>v. pv_Pt1_update (\<lambda>_. v)) (parse_int env dm),
      field pv_Pt2 (\<lambda>v. pv_Pt2_update (\<lambda>_. v)) (parse_int env dm)])"

definition parse_BlockHeaderBody :: "cbor_env \<Rightarrow> DecMode \<Rightarrow> BlockHeaderBody parser" where
  "parse_BlockHeaderBody env dm = parseToValue env dm (struct_target
     [field bh_Number (\<lambda>v. bh_Number_update (\<lambda>_. v)) (parse_uint env dm),
      field bh_Slot (\<lambda>v. bh_Slot_update (\<lambda>_. v)) (parse_uint env dm),
      field bh_PrevHash (\<lambda>v. bh_PrevHash_update (\<lambda>_. v)) (parse_bytes env dm),
      field bh_IssuerVkey (\<lambda>v. bh_IssuerVkey_update (\<lambda>_. v)) (parse_bytes env dm),
      field bh_VrfKey (\<lambda>v. bh_VrfKey_update (\<lambda>_. v)) (parse_bytes env dm),
      field bh_VrfResult (\<lambda>v. bh_VrfResult_update (\<lambda>_. v)) (parse_VrfCert env dm),
      field bh_BodySize (\<lambda>v. bh_BodySize_update (\<lambda>_. v)) (parse_uint env dm),
      field bh_BodyHash (\<lambda>v. bh_BodyHash_update (\<lambda>_. v)) (parse_bytes env dm),
      field bh_OperationalCert (\<lambda>v. bh_OperationalCert_update (\<lambda>_. v)) (parse_OperationalCert env dm),
      field bh_ProtocolVersion (\<lambda>v. bh_ProtocolVersion_update (\<lambda>_. v)) (parse_ProtocolVersion env dm)])"

definition parse_BlockHeader :: "cbor_env \<Rightarrow> DecMode \<Rightarrow> BlockHeader parser" where
  "parse_BlockHeader env dm = parseToValue env dm (struct_target
     [field hd_Body (\<lambda>v. hd_Body_update (\<lambda>_. v)) (parse_BlockHeaderBody env dm),
      field hd_Signature (\<lambda>v. hd_Signature_update (\<lambda>_. v)) (parse_bytes env dm)])"

subsection \<open>Inputs, amounts and outputs\<close>

definition marshal_TransactionInput :: "TransactionInput \<Rightarrow> bytes" where
  "marshal_TransactionInput i = enc_array [encode_HexBytes (ti_Txid i), encode_int (ti_Index i)]"

definition marshal_CollateralInput :: "CollateralInput \<Rightarrow> bytes" where
  "marshal_CollateralInput i = enc_array [encode_HexBytes (ci_A i), encode_int (ci_B i)]"

definition marshal_TxSigner :: "TxSigner \<Rightarrow> bytes" where
  "marshal_TxSigner t = enc_array [encode_HexBytes (ts_Key t), encode_HexBytes (ts_Signature t)]"

definition marshal_AmountData :: "cbor_env \<Rightarrow> AmountData \<Rightarrow> bytes" where
  "marshal_AmountData env a =
     enc_array [encodeHead 0x00 (ad_Amount a), encode_map env (encode_map env (encodeHead 0x00)) (ad_Mappings a)]"

definition marshal_TransactionOutputExtra :: "TransactionOutputExtra \<Rightarrow> bytes" where
  "marshal_TransactionOutputExtra x = enc_array [encodeHead 0x00 (te_A x), encode_HexBytes (te_B x)]"

definition marshal_TransactionOutputA :: "cbor_env \<Rightarrow> TransactionOutputA \<Rightarrow> bytes res" where
  "marshal_TransactionOutputA env t = enc_fields_res
     [(0, Ok (encode_HexBytes (toA_Address t))), (1, Ok (marshal_AmountData env (toA_AmountData t))),
      (2, checked (Optional_MarshalCBOR (\<lambda>x. Ok (marshal_TransactionOutputExtra x)) (toA_Extra t)))]"

definition marshal_TransactionOutputB :: "TransactionOutputB \<Rightarrow> bytes" where
  "marshal_TransactionOutputB t = enc_fields [(0, encode_HexBytes (toB_Address t)), (1, encodeHead 0x00 (toB_Amount t))]"

definition marshal_TransactionOutputC :: "TransactionOutputC \<Rightarrow> bytes" where
  "marshal_TransactionOutputC t = enc_array [encode_HexBytes (toC_Address t), encodeHead 0x00 (toC_Amount t), encode_HexBytes (toC_Address2 t)]"

definition marshal_TransactionOutputD :: "cbor_env \<Rightarrow> TransactionOutputD \<Rightarrow> bytes res" where
  "marshal_TransactionOutputD env t = enc_array_res
     [Ok (encode_HexBytes (toD_Address t)), Ok (marshal_AmountData env (toD_AmountData t)), marshal_slice (cbor_Marshal env) (toD_Extra t)]"

definition marshal_TransactionOutputE :: "cbor_env \<Rightarrow> TransactionOutputE \<Rightarrow> bytes" where
  "marshal_TransactionOutputE env t =
     enc_array [encode_HexBytes (toE_Address t), marshal_AmountData env (toE_AmountData t), encode_HexBytes (toE_Extra t)]"

definition marshal_TransactionOutputF :: "cbor_env \<Rightarrow> TransactionOutputF \<Rightarrow> bytes" where
  "marshal_TransactionOutputF env t = enc_array [encode_HexBytes (toF_Address t), marshal_AmountData env (toF_AmountData t)]"

definition marshal_TransactionOutputG :: "TransactionOutputG \<Rightarrow> bytes" where
  "marshal_TransactionOutputG t = enc_array [encode_HexBytes (toG_Address t), encodeHead 0x00 (toG_Amount t)]"

text \<open>\<open>SubtypeOf[TransactionOutput].MarshalCBOR\<close>.\<close>

fun marshal_TransactionOutput :: "cbor_env \<Rightarrow> TransactionOutput \<Rightarrow> bytes res" where
  "marshal_TransactionOutput env (OutA t) = marshal_TransactionOutputA env t"
| "marshal_TransactionOutput env (OutB t) = Ok (marshal_TransactionOutputB t)"
| "marshal_TransactionOutput env (OutC t) = Ok (marshal_TransactionOutputC t)"
| "marshal_TransactionOutput env (OutD t) = marshal_TransactionOutputD env t"
| "marshal_TransactionOutput env (OutE t) = Ok (marshal_TransactionOutputE env t)"
| "marshal_TransactionOutput env (OutF t) = Ok (marshal_TransactionOutputF env t)"
| "marshal_TransactionOutput env (OutG t) = Ok (marshal_TransactionOutputG t)"
| "marshal_TransactionOutput env OutOther = Ok [0xF6]"

fun marshal_CollateralReturn :: "cbor_env \<Rightarrow> CollateralReturn \<Rightarrow> bytes res" where
  "marshal_CollateralReturn env NoCollateralSubtype = Ok [0xF6]"
| "marshal_CollateralReturn env (CollateralReturnA a b) = Ok (enc_array [encode_HexBytes a, marshal_AmountData env b])"
| "marshal_CollateralReturn env (CollateralReturnB a b) = Ok (enc_array [encode_HexBytes a, encodeHead 0x00 b])"
| "marshal_CollateralReturn env (CollateralReturnC a b) = Ok (enc_fields [(0, encode_HexBytes a), (1, encodeHead 0x00 b)])"
| "marshal_CollateralReturn env (CollateralReturnD a b) = Ok (enc_fields [(0, encode_HexBytes a), (1, marshal_AmountData env b)])"

definition parse_TransactionInput :: "cbor_env \<Rightarrow> DecMode \<Rightarrow> TransactionInput parser" where
  "parse_TransactionInput env dm = parseToValue env dm (struct_target
     [field ti_Txid (\<lambda>v. ti_Txid_update (\<lambda>_. v)) (parse_bytes env dm),
      field ti_Index (\<lambda>v. ti_Index_update (\<lambda>_. v)) (parse_int env dm)])"

definition parse_CollateralInput :: "cbor_env \<Rightarrow> DecMode \<Rightarrow> CollateralInput parser" where
  "parse_CollateralInput env dm = parseToValue env dm (struct_target
     [field ci_A (\<lambda>v. ci_A_update (\<lambda>_. v)) (parse_bytes env dm),
      field ci_B (\<lambda>v. ci_B_update (\<lambda>_. v)) (parse_int env dm)])"

definition parse_AmountData :: "cbor_env \<Rightarrow> DecMode \<Rightarrow> AmountData parser" where
  "parse_AmountData env dm = parseToValue env dm (struct_target
     [field ad_Amount (\<lambda>v. ad_Amount_update (\<lambda>_. v)) (parse_uint env dm),
      field ad_Mappings (\<lambda>v. ad_Mappings_update (\<lambda>_. v)) (parseToValue env dm (map_map_target (parseToValue env dm (number_map_target (parse_uint env dm) 0))))])"

definition parse_TransactionOutputExtra :: "cbor_env \<Rightarrow> DecMode \<Rightarrow> TransactionOutputExtra parser" where
  "parse_TransactionOutputExtra env dm = parseToValue env dm (struct_target
     [field te_A (\<lambda>v. te_A_update (\<lambda>_. v)) (parse_uint env dm),
      field te_B (\<lambda>v. te_B_update (\<lambda>_. v)) (parse_bytes env dm)])"

definition parse_OptionalExtra :: "cbor_env \<Rightarrow> TransactionOutputExtra Optional parser" where
  "parse_OptionalExtra env = parseToUnmarshaler (Optional_UnmarshalCBOR
     (Unmarshal defaultDecMode (parse_pointer \<lparr>te_A = 0, te_B = []\<rparr> (parse_TransactionOutputExtra env defaultDecMode))))"

definition parse_TransactionOutputA :: "cbor_env \<Rightarrow> DecMode \<Rightarrow> TransactionOutputA parser" where
  "parse_TransactionOutputA env dm = parseToValue env dm (keyed_target dm
     [(0, ''0'', field toA_Address (\<lambda>v. toA_Address_update (\<lambda>_. v)) (parse_bytes env dm)),
      (1, ''1'', field toA_AmountData (\<lambda>v. toA_AmountData_update (\<lambda>_. v)) (parse_AmountData env dm)),
      (2, ''2'', field toA_Extra (\<lambda>v. toA_Extra_update (\<lambda>_. v)) (parse_OptionalExtra env))])"

definition parse_TransactionOutputB :: "cbor_env \<Rightarrow> DecMode \<Rightarrow> TransactionOutputB parser" where
  "parse_TransactionOutputB env dm = parseToValue env dm (keyed_target dm
     [(0, ''0'', field toB_Address (\<lambda>v. toB_Address_update (\<lambda>_. v)) (parse_bytes env dm)),
      (1, ''1'', field toB_Amount (\<lambda>v. toB_Amount_update (\<lambda>_. v)) (parse_uint env dm))])"

definition parse_TransactionOutputC :: "cbor_env \<Rightarrow> DecMode \<Rightarrow> TransactionOutputC parser" where
  "parse_TransactionOutputC env dm = parseToValue env dm (struct_target
     [field toC_Address (\<lambda>v. toC_Address_update (\<lambda>_. v)) (parse_bytes env dm),
      field toC_Amount (\<lambda>v. toC_Amount_update (\<lambda>_. v)) (parse_uint env dm),
      field toC_Address2 (\<lambda>v. toC_Address2_update (\<lambda>_. v)) (parse_bytes env dm)])"

definition parse_TransactionOutputD :: "cbor_env \<Rightarrow> DecMode \<Rightarrow> TransactionOutputD parser" where
  "parse_TransactionOutputD env dm = parseToValue env dm (struct_target
     [field toD_Address (\<lambda>v. toD_Address_update (\<lambda>_. v)) (parse_bytes env dm),
      field toD_AmountData (\<lambda>v. toD_AmountData_update (\<lambda>_. v)) (parse_AmountData env dm),
      field toD_Extra (\<lambda>v. toD_Extra_update (\<lambda>_. v)) (slice_p env dm (parse_iface env dm) ANil)])"

definition parse_TransactionOutputE :: "cbor_env \<Rightarrow> DecMode \<Rightarrow> TransactionOutputE parser" where
  "parse_TransactionOutputE env dm = parseToValue env dm (struct_target
     [field toE_Address (\<lambda>v. toE_Address_update (\<lambda>_. v)) (parse_bytes env dm),
      field toE_AmountData (\<lambda>v. toE_AmountData_update (\<lambda>_. v)) (parse_AmountData env dm),
      field toE_Extra (\<lambda>v. toE_Extra_update (\<lambda>_. v)) (parse_bytes env dm)])"

definition parse_TransactionOutputF :: "cbor_env \<Rightarrow> DecMode \<Rightarrow> TransactionOutputF parser" where
  "parse_TransactionOutputF env dm = parseToValue env dm (struct_target
     [field toF_Address (\<lambda>v. toF_Address_update (\<lambda>_. v)) (parse_bytes env dm),
      field toF_AmountData (\<lambda>v. toF_AmountData_update (\<lambda>_. v)) (parse_AmountData env dm)])"

definition parse_TransactionOutputG :: "cbor_env \<Rightarrow> DecMode \<Rightarrow> TransactionOutputG parser" where
  "parse_TransactionOutputG env dm = parseToValue env dm (struct_target
     [field toG_Address (\<lambda>v. toG_Address_update (\<lambda>_. v)) (parse_bytes env dm),
      field toG_Amount (\<lambda>v. toG_Amount_update (\<lambda>_. v)) (parse_uint env dm)])"

text \<open>\<open>TransactionOutput.Subtypes\<close>: each call makes new objects.\<close>

definition decode_new :: "('a \<Rightarrow> 'b) \<Rightarrow> 'a parser \<Rightarrow> 'a \<Rightarrow> bytes \<Rightarrow> 'b res" where
  "decode_new c p zero bs = fresh_value c (Unmarshal defaultDecMode p bs zero)"

definition TransactionOutput_Subtypes :: "cbor_env \<Rightarrow> (bytes \<Rightarrow> TransactionOutput res) list" where
  "TransactionOutput_Subtypes env =
     [decode_new OutA (parse_TransactionOutputA env defaultDecMode) \<lparr>toA_Address = [], toA_AmountData = zero_amount, toA_Extra = \<lparr>op_Valid = False, op_Value = None\<rparr>\<rparr>,
      decode_new OutB (parse_TransactionOutputB env defaultDecMode) \<lparr>toB_Address = [], toB_Amount = 0\<rparr>,
      decode_new OutC (parse_TransactionOutputC env defaultDecMode) \<lparr>toC_Address = [], toC_Amount = 0, toC_Address2 = []\<rparr>,
      decode_new OutD (parse_TransactionOutputD env defaultDecMode) \<lparr>toD_Address = [], toD_AmountData = zero_amount, toD_Extra = []\<rparr>,
      decode_new OutE (parse_TransactionOutputE env defaultDecMode) \<lparr>toE_Address = [], toE_AmountData = zero_amount, toE_Extra = []\<rparr>,
      decode_new OutF (parse_TransactionOutputF env defaultDecMode) \<lparr>toF_Address = [], toF_AmountData = zero_amount\<rparr>,
      decode_new OutG (parse_TransactionOutputG env defaultDecMode) \<lparr>toG_Address = [], toG_Amount = 0\<rparr>]"

definition parse_TransactionOutput :: "cbor_env \<Rightarrow> TransactionOutput parser" where
  "parse_TransactionOutput env = parseToUnmarshaler (\<lambda>bs. all_or_nothing (SubtypeOf_UnmarshalCBOR (TransactionOutput_Subtypes env) bs))"

text \<open>The two fields of a collateral return.\<close>

definition pair_fields :: "bytes parser \<Rightarrow> 'b parser \<Rightarrow> (bytes \<times> 'b) parser list" where
  "pair_fields p q = [field fst (\<lambda>v s. (v, snd s)) p, field snd (\<lambda>v s. (fst s, v)) q]"

definition pair_keys :: "bytes parser \<Rightarrow> 'b parser \<Rightarrow> (bytes \<times> 'b) field_table" where
  "pair_keys p q = [(0, ''0'', field fst (\<lambda>v s. (v, snd s)) p), (1, ''1'', field snd (\<lambda>v s. (fst s, v)) q)]"

definition CollateralReturn_Subtypes :: "cbor_env \<Rightarrow> (bytes \<Rightarrow> CollateralReturn res) list" where
  "CollateralReturn_Subtypes env =
     (let dm = defaultDecMode; address = parse_bytes env dm; amount = parse_AmountData env dm; coins = parse_uint env dm in
       [decode_new (\<lambda>(a, b). CollateralReturnA a b) (parseToValue env dm (struct_target (pair_fields address amount))) ([], zero_amount),
        decode_new (\<lambda>(a, b). CollateralReturnB a b) (parseToValue env dm (struct_target (pair_fields address coins))) ([], 0),
        decode_new (\<lambda>(a, b). CollateralReturnC a b) (parseToValue env dm (keyed_target dm (pair_keys address coins))) ([], 0),
        decode_new (\<lambda>(a, b). CollateralReturnD a b) (parseToValue env dm (keyed_target dm (pair_keys address amount))) ([], zero_amount)])"

definition parse_CollateralReturn :: "cbor_env \<Rightarrow> CollateralReturn parser" where
  "parse_CollateralReturn env = parseToUnmarshaler (\<lambda>bs. all_or_nothing (SubtypeOf_UnmarshalCBOR (CollateralReturn_Subtypes env) bs))"

subsection \<open>Transaction bodies and witness sets\<close>

definition marshal_TransactionBody :: "cbor_env \<Rightarrow> TransactionBody \<Rightarrow> bytes res" where
  "marshal_TransactionBody env tb = enc_fields_res
     (omitempty (tb_Inputs tb = []) 0 (Ok (encode_slice marshal_TransactionInput (tb_Inputs tb))) @
      omitempty (tb_Outputs tb = []) 1 (marshal_slice (\<lambda>t. checked (marshal_TransactionOutput env t)) (tb_Outputs tb)) @
      omitempty (tb_Fee tb = 0) 2 (Ok (encodeHead 0x00 (tb_Fee tb))) @
      omitempty (tb_Ttl tb = 0) 3 (Ok (encode_int (tb_Ttl tb))) @
      omitempty (tb_Certificates tb = ANil) 4 (cbor_Marshal env (tb_Certificates tb)) @
      omitempty (tb_WithdrawalMap tb = []) 5 (Ok (encode_map env (encodeHead 0x00) (tb_WithdrawalMap tb))) @
      omitempty (tb_UpdateDI tb = ANil) 6 (cbor_Marshal env (tb_UpdateDI tb)) @
      omitempty (tb_AuxiliaryDataHash tb = []) 7 (Ok (encode_HexBytes (tb_AuxiliaryDataHash tb))) @
      omitempty (tb_ValidityStartInterval tb = 0) 8 (Ok (encode_int (tb_ValidityStartInterval tb))) @
      omitempty (tb_MintMap tb = []) 9 (Ok (encode_map env (encode_map env encode_int) (tb_MintMap tb))) @
      omitempty (tb_ScriptDataHash tb = []) 11 (Ok (encode_HexBytes (tb_ScriptDataHash tb))) @
      omitempty (tb_CollateralInputs tb = []) 13 (Ok (encode_slice marshal_CollateralInput (tb_CollateralInputs tb))) @
      omitempty (tb_RequiredSigners tb = []) 14 (Ok (encode_slice encode_HexBytes (tb_RequiredSigners tb))) @
      omitempty (tb_NetworkId tb = 0) 15 (Ok (encode_int (tb_NetworkId tb))) @
      omitempty (tb_CollateralReturn tb = None) 16 (marshal_pointer (\<lambda>r. checked (marshal_CollateralReturn env r)) (tb_CollateralReturn tb)) @
      omitempty (tb_TotalCollateral tb = 0) 17 (Ok (encode_int (tb_TotalCollateral tb))) @
      omitempty (tb_ReferenceInputs tb = []) 18 (Ok (encode_slice marshal_TransactionInput (tb_ReferenceInputs tb))) @
      omitempty (tb_VotingProcedures tb = ANil) 19 (cbor_Marshal env (tb_VotingProcedures tb)) @
      omitempty (tb_ProposalProcedure tb = ANil) 20 (cbor_Marshal env (tb_ProposalProcedure tb)) @
      omitempty (tb_TreasuryValue tb = ANil) 21 (cbor_Marshal env (tb_TreasuryValue tb)) @
      omitempty (tb_DonationCoin tb = 0) 22 (Ok (encodeHead 0x00 (tb_DonationCoin tb))))"

definition marshal_TransactionWitnessSet :: "cbor_env \<Rightarrow> TransactionWitnessSet \<Rightarrow> bytes res" where
  "marshal_TransactionWitnessSet env w = enc_fields_res
     [(0, cbor_Marshal env (tw_VkeyWitness w)),
      (1, cbor_Marshal env (tw_NativeScript w)),
      (2, cbor_Marshal env (tw_BootstrapWitness w)),
      (3, cbor_Marshal env (tw_PlutusV1Script w)),
      (4, cbor_Marshal env (tw_PlutusData w)),
      (5, cbor_Marshal env (tw_Redeemer w)),
      (6, cbor_Marshal env (tw_PlutusV2Script w)),
      (7, cbor_Marshal env (tw_PlutusV3Script w))]"

definition parse_TransactionBody :: "cbor_env \<Rightarrow> DecMode \<Rightarrow> TransactionBody parser" where
  "parse_TransactionBody env dm = parseToValue env dm (keyed_target dm
     [(0, ''0'', field tb_Inputs (\<lambda>v. tb_Inputs_update (\<lambda>_. v)) (slice_p env dm (parse_TransactionInput env dm) zero_input)),
      (1, ''1'', field tb_Outputs (\<lambda>v. tb_Outputs_update (\<lambda>_. v)) (slice_p env dm (parse_TransactionOutput env) OutOther)),
      (2, ''2'', field tb_Fee (\<lambda>v. tb_Fee_update (\<lambda>_. v)) (parse_uint env dm)),
      (3, ''3'', field tb_Ttl (\<lambda>v. tb_Ttl_update (\<lambda>_. v)) (parse_int env dm)),
      (4, ''4'', field tb_Certificates (\<lambda>v. tb_Certificates_update (\<lambda>_. v)) (parse_iface env dm)),
      (5, ''5'', field tb_WithdrawalMap (\<lambda>v. tb_WithdrawalMap_update (\<lambda>_. v)) (parseToValue env dm (number_map_target (parse_uint env dm) 0))),
      (6, ''6'', field tb_UpdateDI (\<lambda>v. tb_UpdateDI_update (\<lambda>_. v)) (parse_iface env dm)),
      (7, ''7'', field tb_AuxiliaryDataHash (\<lambda>v. tb_AuxiliaryDataHash_update (\<lambda>_. v)) (parse_bytes env dm)),
      (8, ''8'', field tb_ValidityStartInterval (\<lambda>v. tb_ValidityStartInterval_update (\<lambda>_. v)) (parse_int env dm)),
      (9, ''9'', field tb_MintMap (\<lambda>v. tb_MintMap_update (\<lambda>_. v)) (parseToValue env dm (map_map_target (parseToValue env dm (number_map_target (parse_int env dm) 0))))),
      (11, ''11'', field tb_ScriptDataHash (\<lambda>v. tb_ScriptDataHash_update (\<lambda>_. v)) (parse_bytes env dm)),
      (13, ''13'', field tb_CollateralInputs (\<lambda>v. tb_CollateralInputs_update (\<lambda>_. v)) (slice_p env dm (parse_CollateralInput env dm) zero_collateral)),
      (14, ''14'', field tb_RequiredSigners (\<lambda>v. tb_RequiredSigners_update (\<lambda>_. v)) (slice_p env dm (parse_bytes env dm) [])),
      (15, ''15'', field tb_NetworkId (\<lambda>v. tb_NetworkId_update (\<lambda>_. v)) (parse_int env dm)),
      (16, ''16'', field tb_CollateralReturn (\<lambda>v. tb_CollateralReturn_update (\<lambda>_. v)) (parse_pointer NoCollateralSubtype (parse_CollateralReturn env))),
      (17, ''17'', field tb_TotalCollateral (\<lambda>v. tb_TotalCollateral_update (\<lambda>_. v)) (parse_int env dm)),
      (18, ''18'', field tb_ReferenceInputs (\<lambda>v. tb_ReferenceInputs_update (\<lambda>_. v)) (slice_p env dm (parse_TransactionInput env dm) zero_input)),
      (19, ''19'', field tb_VotingProcedures (\<lambda>v. tb_VotingProcedures_update (\<lambda>_. v)) (parse_iface env dm)),
      (20, ''20'', field tb_ProposalProcedure (\<lambda>v. tb_ProposalProcedure_update (\<lambda>_. v)) (parse_iface env dm)),
      (21, ''21'', field tb_TreasuryValue (\<lambda>v. tb_TreasuryValue_update (\<lambda>_. v)) (parse_iface env dm)),
      (22, ''22'', field tb_DonationCoin (\<lambda>v. tb_DonationCoin_update (\<lambda>_. v)) (parse_uint env dm))])"

definition parse_TransactionWitnessSet :: "cbor_env \<Rightarrow> DecMode \<Rightarrow> TransactionWitnessSet parser" where
  "parse_TransactionWitnessSet env dm = parseToValue env dm (keyed_target dm
     [(0, ''0'', field tw_VkeyWitness (\<lambda>v. tw_VkeyWitness_update (\<lambda>_. v)) (parse_iface env dm)),
      (1, ''1'', field tw_NativeScript (\<lambda>v. tw_NativeScript_update (\<lambda>_. v)) (parse_iface env dm)),
      (2, ''2'', field tw_BootstrapWitness (\<lambda>v. tw_BootstrapWitness_update (\<lambda>_. v)) (parse_iface env dm)),
      (3, ''3'', field tw_PlutusV1Script (\<lambda>v. tw_PlutusV1Script_update (\<lambda>_. v)) (parse_iface env dm)),
      (4, ''4'', field tw_PlutusData (\<lambda>v. tw_PlutusData_update (\<lambda>_. v)) (parse_iface env dm)),
      (5, ''5'', field tw_Redeemer (\<lambda>v. tw_Redeemer_update (\<lambda>_. v)) (parse_iface env dm)),
      (6, ''6'', field tw_PlutusV2Script (\<lambda>v. tw_PlutusV2Script_update (\<lambda>_. v)) (parse_iface env dm)),
      (7, ''7'', field tw_PlutusV3Script (\<lambda>v. tw_PlutusV3Script_update (\<lambda>_. v)) (parse_iface env dm))])"

subsection \<open>Blocks\<close>

definition parse_AuxData :: "cbor_env \<Rightarrow> AuxData parser" where
  "parse_AuxData env = parseToUnmarshaler (\<lambda>bs a. all_or_nothing (AuxData_UnmarshalCBOR env bs a) a)"

text \<open>\<open>Raw\<close> is not part of the encoding.\<close>

definition marshal_Block :: "cbor_env \<Rightarrow> BlockData.Block \<Rightarrow> bytes res" where
  "marshal_Block env b = enc_array_res
     [Ok (encodeHead 0x00 (bl_Era b)),
      enc_array_res
        [Ok (marshal_BlockHeader (bl_Header b)), marshal_slice (marshal_TransactionBody env) (bl_TransactionBodies b),
         marshal_slice (marshal_TransactionWitnessSet env) (bl_TransactionWitnessSets b),
         checked (AuxData_MarshalCBOR env (bl_AuxiliaryData b)), Ok (encode_slice (encodeHead 0x00) (bl_InvalidTransactions b))]]"

text \<open>The fields of \<open>Data\<close> are fields of the record of the block.\<close>

definition data_fields :: "cbor_env \<Rightarrow> DecMode \<Rightarrow> BlockData.Block parser list" where
  "data_fields env dm =
     [field bl_Header (\<lambda>v. bl_Header_update (\<lambda>_. v)) (parse_BlockHeader env dm),
      field bl_TransactionBodies (\<lambda>v. bl_TransactionBodies_update (\<lambda>_. v)) (slice_p env dm (parse_TransactionBody env dm) zero_body),
      field bl_TransactionWitnessSets (\<lambda>v. bl_TransactionWitnessSets_update (\<lambda>_. v)) (slice_p env dm (parse_TransactionWitnessSet env dm) zero_witness),
      field bl_AuxiliaryData (\<lambda>v. bl_AuxiliaryData_update (\<lambda>_. v)) (parse_AuxData env),
      field bl_InvalidTransactions (\<lambda>v. bl_InvalidTransactions_update (\<lambda>_. v)) (slice_p env dm (parse_uint env dm) 0)]"

definition parse_Block :: "cbor_env \<Rightarrow> DecMode \<Rightarrow> BlockData.Block parser" where
  "parse_Block env dm = parseToValue env dm (struct_target
     [field bl_Era (\<lambda>v. bl_Era_update (\<lambda>_. v)) (parse_Era), parseToValue env dm (struct_target (data_fields env dm))])"

text \<open>\<open>MessageBlock.Block\<close> on the bytes of the message.\<close>

definition MessageBlock_Block :: "cbor_env \<Rightarrow> bytes \<Rightarrow> BlockData.Block \<times> unit res" where
  "MessageBlock_Block env blockData = Unmarshal defaultDecMode (parse_Block env defaultDecMode) blockData zero_block"

text \<open>The hashes with this encoding.\<close>

definition header_hash :: "(bytes \<Rightarrow> bytes) \<Rightarrow> BlockData.Block \<Rightarrow> bytes res" where
  "header_hash sum256 b = Block_Hash (\<lambda>h. Ok (marshal_BlockHeader h)) sum256 b"

definition body_hash :: "cbor_env \<Rightarrow> (bytes \<Rightarrow> bytes) \<Rightarrow> TransactionBody \<Rightarrow> bytes res" where
  "body_hash env sum256 tb = TransactionBody_Hash (marshal_TransactionBody env) sum256 tb"

end
