(* ===== verification/Messages.thy ===== *)
theory Messages
  imports BlockCodec MessageReader
begin

text \<open>
  The messages of the protocols (src/protocol.go, src/protocol_handshake.go, src/protocol_chain_sync.go, src/protocol_block_fetch.go,
  src/protocol_keep_alive.go, src/protocol_local_state.go, src/protocol_tx_submission.go): their structs, what \<open>cbor.Marshal\<close> makes of
  them, and the decoding into them.

  \<^item> A struct that embeds \<open>WithSubprotocol\<close> is an extension of its record. The option \<open>toarray\<close> of the embedded struct holds for the outer one,
    so that a message is an array of its subprotocol and its other fields. The types without other fields are one constructor, \<open>Bare\<close>.
  \<^item> \<open>Message\<close> is the interface: a value with its dynamic type. \<open>zero_message\<close> is the object that \<open>ProtocolMessageMap\<close> holds for a type.
  \<^item> Encoders return bytes where they cannot fail, and an outcome where a method \<open>MarshalCBOR\<close> is called or a value of type \<open>any\<close> is encoded.
  \<^item> \<open>std_decoder\<close> is the decoder of \<open>MessageReader\<close> on these structs. \<open>env\<close> has what a run of the program decides (\<open>Cbor\<close>).
\<close>

subsection \<open>The embedded struct\<close>

record WithSubprotocol =
  ws_raw :: bytes
  ws_Subprotocol :: Subprotocol

definition SetSubprotocol :: "Subprotocol \<Rightarrow> 'a WithSubprotocol_scheme \<Rightarrow> 'a WithSubprotocol_scheme" where
  "SetSubprotocol subprotocol w = w\<lparr>ws_Subprotocol := subprotocol\<rparr>"

definition GetSubprotocol :: "'a WithSubprotocol_scheme \<Rightarrow> Subprotocol" where
  "GetSubprotocol w = ws_Subprotocol w"

definition Raw :: "'a WithSubprotocol_scheme \<Rightarrow> bytes" where
  "Raw w = ws_raw w"

definition SetRaw :: "bytes \<Rightarrow> 'a WithSubprotocol_scheme \<Rightarrow> 'a WithSubprotocol_scheme" where
  "SetRaw raw w = w\<lparr>ws_raw := raw\<rparr>"

subsection \<open>Handshake\<close>

record RefuseDetails =
  rd_Code :: uint16
  rd_Version :: uint16
  rd_Reason :: string

record MessageProposeVersions = WithSubprotocol +
  pv_VersionMap :: VersionMap

record MessageAcceptVersionNtN = WithSubprotocol +
  an_Version :: uint16
  an_VersionData :: VersionField2

record MessageAcceptVersionNtC = WithSubprotocol +
  ac_Version :: uint16
  ac_VersionData :: VersionField1

record MessageRefuse = WithSubprotocol +
  rf_Details :: RefuseDetails

subsection \<open>Chain sync\<close>

record MessageRollForwardDataA =
  da_Number :: uint64
  da_BlockHeader :: bytes

record MessageRollForwardDataB =
  db_EraMaybe :: uint64
  db_A_A :: any
  db_A_B :: any
  db_B :: bytes

text \<open>\<open>SubtypeOf[MessageRollForwardData]\<close>: the dynamic type of \<open>Subtype\<close>, and nil.\<close>

datatype RollForwardData = NoSubtype | RollForwardA MessageRollForwardDataA | RollForwardB MessageRollForwardDataB

record MessageRollForward = WithSubprotocol +
  fw_Data :: RollForwardData
  fw_Tip :: PointAndBlockNum

record MessageRollBackward = WithSubprotocol +
  bw_Point :: "Point Optional"
  bw_Tip :: PointAndBlockNum

record MessageFindIntersect = WithSubprotocol +
  fi_Points :: "Point list"

record MessageIntersectFound = WithSubprotocol +
  if_Point :: Point
  if_Tip :: PointAndBlockNum

record MessageIntersectNotFound = WithSubprotocol +
  in_Tip :: PointAndBlockNum

subsection \<open>Block fetch, keep alive, local state, transaction submission\<close>

record MessageRequestRange = WithSubprotocol +
  rr_From :: Point
  rr_To :: Point

record MessageBlock = WithSubprotocol +
  mb_BlockData :: bytes

record MessageKeepAlive = WithSubprotocol +
  ka_Cookie :: uint16

record MessageKeepAliveResponse = WithSubprotocol +
  kr_Cookie :: uint16

record MessageLocalStateQuery = WithSubprotocol +
  lq_Query :: any

record MessageLocalStateResult = WithSubprotocol +
  lr_Result :: any

record MessageSubmitTx = WithSubprotocol +
  st_BodyType :: Era
  st_TxBytes :: bytes

record MessageRejectTx = WithSubprotocol +
  rj_Reason :: uint64

subsection \<open>Messages with a subprotocol only\<close>

type_synonym MessageQueryReply = WithSubprotocol
type_synonym MessageRequestNext = WithSubprotocol
type_synonym MessageAwaitReply = WithSubprotocol
type_synonym MessageChainSyncDone = WithSubprotocol
type_synonym MessageClientDone = WithSubprotocol
type_synonym MessageStartBatch = WithSubprotocol
type_synonym MessageNoBlocks = WithSubprotocol
type_synonym MessageBatchDone = WithSubprotocol
type_synonym MessageLocalStateAcquire = WithSubprotocol
type_synonym MessageLocalStateAcquired = WithSubprotocol
type_synonym MessageLocalStateFailure = WithSubprotocol
type_synonym MessageLocalStateRelease = WithSubprotocol
type_synonym MessageLocalStateReacquire = WithSubprotocol
type_synonym MessageLocalStateDone = WithSubprotocol
type_synonym MessageLocalStateAcquireVolatileTip = WithSubprotocol
type_synonym MessageLocalStateReacquireVolatileTip = WithSubprotocol
type_synonym MessageLocalStateAcquireImmutableTip = WithSubprotocol
type_synonym MessageLocalStateReacquireImmutableTip = WithSubprotocol
type_synonym MessageAcceptTx = WithSubprotocol

subsection \<open>Messages\<close>

datatype Message =
    Bare MessageType WithSubprotocol
  | M_ProposeVersions MessageProposeVersions
  | M_AcceptVersionNtN MessageAcceptVersionNtN
  | M_AcceptVersionNtC MessageAcceptVersionNtC
  | M_Refuse MessageRefuse
  | M_RollForward MessageRollForward
  | M_RollBackward MessageRollBackward
  | M_FindIntersect MessageFindIntersect
  | M_IntersectFound MessageIntersectFound
  | M_IntersectNotFound MessageIntersectNotFound
  | M_RequestRange MessageRequestRange
  | M_Block MessageBlock
  | M_KeepAlive MessageKeepAlive
  | M_KeepAliveResponse MessageKeepAliveResponse
  | M_LocalStateQuery MessageLocalStateQuery
  | M_LocalStateResult MessageLocalStateResult
  | M_SubmitTx MessageSubmitTx
  | M_RejectTx MessageRejectTx

fun message_type :: "Message \<Rightarrow> MessageType" where
  "message_type (Bare ty m) = ty"
| "message_type (M_ProposeVersions m) = MessageProposeVersions"
| "message_type (M_AcceptVersionNtN m) = MessageAcceptVersionNtN"
| "message_type (M_AcceptVersionNtC m) = MessageAcceptVersionNtC"
| "message_type (M_Refuse m) = MessageRefuse"
| "message_type (M_RollForward m) = MessageRollForward"
| "message_type (M_RollBackward m) = MessageRollBackward"
| "message_type (M_FindIntersect m) = MessageFindIntersect"
| "message_type (M_IntersectFound m) = MessageIntersectFound"
| "message_type (M_IntersectNotFound m) = MessageIntersectNotFound"
| "message_type (M_RequestRange m) = MessageRequestRange"
| "message_type (M_Block m) = MessageBlock"
| "message_type (M_KeepAlive m) = MessageKeepAlive"
| "message_type (M_KeepAliveResponse m) = MessageKeepAliveResponse"
| "message_type (M_LocalStateQuery m) = MessageLocalStateQuery"
| "message_type (M_LocalStateResult m) = MessageLocalStateResult"
| "message_type (M_SubmitTx m) = MessageSubmitTx"
| "message_type (M_RejectTx m) = MessageRejectTx"

text \<open>Calling a method of \<open>WithSubprotocol\<close> on a message.\<close>

fun message_SetSubprotocol :: "Subprotocol \<Rightarrow> Message \<Rightarrow> Message" where
  "message_SetSubprotocol s (Bare ty m) = Bare ty (SetSubprotocol s m)"
| "message_SetSubprotocol s (M_ProposeVersions m) = M_ProposeVersions (SetSubprotocol s m)"
| "message_SetSubprotocol s (M_AcceptVersionNtN m) = M_AcceptVersionNtN (SetSubprotocol s m)"
| "message_SetSubprotocol s (M_AcceptVersionNtC m) = M_AcceptVersionNtC (SetSubprotocol s m)"
| "message_SetSubprotocol s (M_Refuse m) = M_Refuse (SetSubprotocol s m)"
| "message_SetSubprotocol s (M_RollForward m) = M_RollForward (SetSubprotocol s m)"
| "message_SetSubprotocol s (M_RollBackward m) = M_RollBackward (SetSubprotocol s m)"
| "message_SetSubprotocol s (M_FindIntersect m) = M_FindIntersect (SetSubprotocol s m)"
| "message_SetSubprotocol s (M_IntersectFound m) = M_IntersectFound (SetSubprotocol s m)"
| "message_SetSubprotocol s (M_IntersectNotFound m) = M_IntersectNotFound (SetSubprotocol s m)"
| "message_SetSubprotocol s (M_RequestRange m) = M_RequestRange (SetSubprotocol s m)"
| "message_SetSubprotocol s (M_Block m) = M_Block (SetSubprotocol s m)"
| "message_SetSubprotocol s (M_KeepAlive m) = M_KeepAlive (SetSubprotocol s m)"
| "message_SetSubprotocol s (M_KeepAliveResponse m) = M_KeepAliveResponse (SetSubprotocol s m)"
| "message_SetSubprotocol s (M_LocalStateQuery m) = M_LocalStateQuery (SetSubprotocol s m)"
| "message_SetSubprotocol s (M_LocalStateResult m) = M_LocalStateResult (SetSubprotocol s m)"
| "message_SetSubprotocol s (M_SubmitTx m) = M_SubmitTx (SetSubprotocol s m)"
| "message_SetSubprotocol s (M_RejectTx m) = M_RejectTx (SetSubprotocol s m)"

fun message_embedded :: "Message \<Rightarrow> WithSubprotocol" where
  "message_embedded (Bare ty m) = m"
| "message_embedded (M_ProposeVersions m) = WithSubprotocol.truncate m"
| "message_embedded (M_AcceptVersionNtN m) = WithSubprotocol.truncate m"
| "message_embedded (M_AcceptVersionNtC m) = WithSubprotocol.truncate m"
| "message_embedded (M_Refuse m) = WithSubprotocol.truncate m"
| "message_embedded (M_RollForward m) = WithSubprotocol.truncate m"
| "message_embedded (M_RollBackward m) = WithSubprotocol.truncate m"
| "message_embedded (M_FindIntersect m) = WithSubprotocol.truncate m"
| "message_embedded (M_IntersectFound m) = WithSubprotocol.truncate m"
| "message_embedded (M_IntersectNotFound m) = WithSubprotocol.truncate m"
| "message_embedded (M_RequestRange m) = WithSubprotocol.truncate m"
| "message_embedded (M_Block m) = WithSubprotocol.truncate m"
| "message_embedded (M_KeepAlive m) = WithSubprotocol.truncate m"
| "message_embedded (M_KeepAliveResponse m) = WithSubprotocol.truncate m"
| "message_embedded (M_LocalStateQuery m) = WithSubprotocol.truncate m"
| "message_embedded (M_LocalStateResult m) = WithSubprotocol.truncate m"
| "message_embedded (M_SubmitTx m) = WithSubprotocol.truncate m"
| "message_embedded (M_RejectTx m) = WithSubprotocol.truncate m"

fun message_SetRaw :: "bytes \<Rightarrow> Message \<Rightarrow> Message" where
  "message_SetRaw raw (Bare ty m) = Bare ty (SetRaw raw m)"
| "message_SetRaw raw (M_ProposeVersions m) = M_ProposeVersions (SetRaw raw m)"
| "message_SetRaw raw (M_AcceptVersionNtN m) = M_AcceptVersionNtN (SetRaw raw m)"
| "message_SetRaw raw (M_AcceptVersionNtC m) = M_AcceptVersionNtC (SetRaw raw m)"
| "message_SetRaw raw (M_Refuse m) = M_Refuse (SetRaw raw m)"
| "message_SetRaw raw (M_RollForward m) = M_RollForward (SetRaw raw m)"
| "message_SetRaw raw (M_RollBackward m) = M_RollBackward (SetRaw raw m)"
| "message_SetRaw raw (M_FindIntersect m) = M_FindIntersect (SetRaw raw m)"
| "message_SetRaw raw (M_IntersectFound m) = M_IntersectFound (SetRaw raw m)"
| "message_SetRaw raw (M_IntersectNotFound m) = M_IntersectNotFound (SetRaw raw m)"
| "message_SetRaw raw (M_RequestRange m) = M_RequestRange (SetRaw raw m)"
| "message_SetRaw raw (M_Block m) = M_Block (SetRaw raw m)"
| "message_SetRaw raw (M_KeepAlive m) = M_KeepAlive (SetRaw raw m)"
| "message_SetRaw raw (M_KeepAliveResponse m) = M_KeepAliveResponse (SetRaw raw m)"
| "message_SetRaw raw (M_LocalStateQuery m) = M_LocalStateQuery (SetRaw raw m)"
| "message_SetRaw raw (M_LocalStateResult m) = M_LocalStateResult (SetRaw raw m)"
| "message_SetRaw raw (M_SubmitTx m) = M_SubmitTx (SetRaw raw m)"
| "message_SetRaw raw (M_RejectTx m) = M_RejectTx (SetRaw raw m)"

definition message_GetSubprotocol :: "Message \<Rightarrow> Subprotocol" where
  "message_GetSubprotocol m = GetSubprotocol (message_embedded m)"

definition message_Raw :: "Message \<Rightarrow> bytes" where
  "message_Raw m = Raw (message_embedded m)"

subsection \<open>Zero values\<close>

definition zero_point :: Point where "zero_point = \<lparr>pt_Slot = 0, pt_Hash = []\<rparr>"
definition zero_tip :: PointAndBlockNum where "zero_tip = \<lparr>pb_Point = zero_point, pb_Block = 0\<rparr>"
definition zero_version1 :: VersionField1 where "zero_version1 = \<lparr>v1_Network = 0, v1_InitiatorOnlyDiffusionMode = False\<rparr>"

definition zero_version2 :: VersionField2 where
  "zero_version2 = \<lparr>v2_Network = 0, v2_InitiatorOnlyDiffusionMode = False, v2_PeerSharing = 0, v2_Query = False\<rparr>"

definition zero_versions :: VersionMap where
  "zero_versions = \<lparr>vm_V4 = zero_version1, vm_V5 = zero_version1, vm_V6 = zero_version1, vm_V7 = zero_version1, vm_V8 = zero_version1,
     vm_V9 = zero_version1, vm_V10 = zero_version1, vm_V11 = zero_version2, vm_V12 = zero_version2, vm_V13 = zero_version2\<rparr>"

definition zero_A :: MessageRollForwardDataA where "zero_A = \<lparr>da_Number = 0, da_BlockHeader = []\<rparr>"
definition zero_B :: MessageRollForwardDataB where "zero_B = \<lparr>db_EraMaybe = 0, db_A_A = ANil, db_A_B = ANil, db_B = []\<rparr>"

fun zero_message :: "MessageType \<Rightarrow> Message" where
  "zero_message MessageProposeVersions = M_ProposeVersions \<lparr>ws_raw = [], ws_Subprotocol = 0, pv_VersionMap = zero_versions\<rparr>"
| "zero_message MessageAcceptVersionNtN = M_AcceptVersionNtN \<lparr>ws_raw = [], ws_Subprotocol = 0, an_Version = 0, an_VersionData = zero_version2\<rparr>"
| "zero_message MessageAcceptVersionNtC = M_AcceptVersionNtC \<lparr>ws_raw = [], ws_Subprotocol = 0, ac_Version = 0, ac_VersionData = zero_version1\<rparr>"
| "zero_message MessageRefuse = M_Refuse \<lparr>ws_raw = [], ws_Subprotocol = 0, rf_Details = \<lparr>rd_Code = 0, rd_Version = 0, rd_Reason = []\<rparr>\<rparr>"
| "zero_message MessageRollForward = M_RollForward \<lparr>ws_raw = [], ws_Subprotocol = 0, fw_Data = NoSubtype, fw_Tip = zero_tip\<rparr>"
| "zero_message MessageRollBackward =
     M_RollBackward \<lparr>ws_raw = [], ws_Subprotocol = 0, bw_Point = \<lparr>op_Valid = False, op_Value = None\<rparr>, bw_Tip = zero_tip\<rparr>"
| "zero_message MessageFindIntersect = M_FindIntersect \<lparr>ws_raw = [], ws_Subprotocol = 0, fi_Points = []\<rparr>"
| "zero_message MessageIntersectFound = M_IntersectFound \<lparr>ws_raw = [], ws_Subprotocol = 0, if_Point = zero_point, if_Tip = zero_tip\<rparr>"
| "zero_message MessageIntersectNotFound = M_IntersectNotFound \<lparr>ws_raw = [], ws_Subprotocol = 0, in_Tip = zero_tip\<rparr>"
| "zero_message MessageRequestRange = M_RequestRange \<lparr>ws_raw = [], ws_Subprotocol = 0, rr_From = zero_point, rr_To = zero_point\<rparr>"
| "zero_message MessageBlock = M_Block \<lparr>ws_raw = [], ws_Subprotocol = 0, mb_BlockData = []\<rparr>"
| "zero_message MessageKeepAlive = M_KeepAlive \<lparr>ws_raw = [], ws_Subprotocol = 0, ka_Cookie = 0\<rparr>"
| "zero_message MessageKeepAliveResponse = M_KeepAliveResponse \<lparr>ws_raw = [], ws_Subprotocol = 0, kr_Cookie = 0\<rparr>"
| "zero_message MessageLocalStateQuery = M_LocalStateQuery \<lparr>ws_raw = [], ws_Subprotocol = 0, lq_Query = ANil\<rparr>"
| "zero_message MessageLocalStateResult = M_LocalStateResult \<lparr>ws_raw = [], ws_Subprotocol = 0, lr_Result = ANil\<rparr>"
| "zero_message MessageSubmitTx = M_SubmitTx \<lparr>ws_raw = [], ws_Subprotocol = 0, st_BodyType = 0, st_TxBytes = []\<rparr>"
| "zero_message MessageRejectTx = M_RejectTx \<lparr>ws_raw = [], ws_Subprotocol = 0, rj_Reason = 0\<rparr>"
| "zero_message ty = Bare ty \<lparr>ws_raw = [], ws_Subprotocol = 0\<rparr>"

subsection \<open>Encoding\<close>

definition marshal_Point :: "Point \<Rightarrow> bytes" where
  "marshal_Point p = enc_array [encodeHead 0x00 (pt_Slot p), encode_HexBytes (pt_Hash p)]"

definition marshal_PointAndBlockNum :: "PointAndBlockNum \<Rightarrow> bytes" where
  "marshal_PointAndBlockNum t = enc_array [marshal_Point (pb_Point t), encodeHead 0x00 (pb_Block t)]"

definition marshal_bool :: "bool \<Rightarrow> bytes" where
  "marshal_bool b = [if b then 0xF5 else 0xF4]"

definition marshal_VersionField1 :: "VersionField1 \<Rightarrow> bytes" where
  "marshal_VersionField1 v = enc_array [encodeHead 0x00 (v1_Network v), marshal_bool (v1_InitiatorOnlyDiffusionMode v)]"

definition marshal_VersionField2 :: "VersionField2 \<Rightarrow> bytes" where
  "marshal_VersionField2 v =
     enc_array [encodeHead 0x00 (v2_Network v), marshal_bool (v2_InitiatorOnlyDiffusionMode v), encode_int (v2_PeerSharing v), marshal_bool (v2_Query v)]"

definition marshal_VersionMap :: "VersionMap \<Rightarrow> bytes" where
  "marshal_VersionMap v = enc_fields
     [(4, marshal_VersionField1 (vm_V4 v)), (5, marshal_VersionField1 (vm_V5 v)), (6, marshal_VersionField1 (vm_V6 v)),
      (7, marshal_VersionField1 (vm_V7 v)), (8, marshal_VersionField1 (vm_V8 v)), (9, marshal_VersionField1 (vm_V9 v)),
      (10, marshal_VersionField1 (vm_V10 v)), (11, marshal_VersionField2 (vm_V11 v)), (12, marshal_VersionField2 (vm_V12 v)),
      (13, marshal_VersionField2 (vm_V13 v))]"

definition marshal_RefuseDetails :: "RefuseDetails \<Rightarrow> bytes" where
  "marshal_RefuseDetails d = enc_array [encodeHead 0x00 (ucast (rd_Code d)), encodeHead 0x00 (ucast (rd_Version d)), encode_string (rd_Reason d)]"

definition marshal_DataA :: "MessageRollForwardDataA \<Rightarrow> bytes" where
  "marshal_DataA d = enc_array [encodeHead 0x00 (da_Number d), encode_HexBytes (da_BlockHeader d)]"

definition marshal_DataB :: "cbor_env \<Rightarrow> MessageRollForwardDataB \<Rightarrow> bytes res" where
  "marshal_DataB env d =
     enc_array_res [Ok (encodeHead 0x00 (db_EraMaybe d)),
       enc_array_res [enc_array_res [cbor_Marshal env (db_A_A d), cbor_Marshal env (db_A_B d)], Ok (encode_HexBytes (db_B d))]]"

definition SubtypeOf_MarshalCBOR :: "cbor_env \<Rightarrow> RollForwardData \<Rightarrow> bytes res" where
  "SubtypeOf_MarshalCBOR env r =
     (case r of NoSubtype \<Rightarrow> Ok [0xF6] | RollForwardA d \<Rightarrow> Ok (marshal_DataA d) | RollForwardB d \<Rightarrow> marshal_DataB env d)"

text \<open>A message: its subprotocol and its other fields.\<close>

definition enc_message :: "'a WithSubprotocol_scheme \<Rightarrow> bytes res list \<Rightarrow> bytes res" where
  "enc_message w rs = enc_array_res (Ok (encodeHead 0x00 (ucast (ws_Subprotocol w))) # rs)"

fun Marshal_Message :: "cbor_env \<Rightarrow> Message \<Rightarrow> bytes res" where
  "Marshal_Message env (Bare ty m) = enc_message m []"
| "Marshal_Message env (M_ProposeVersions m) = enc_message m [Ok (marshal_VersionMap (pv_VersionMap m))]"
| "Marshal_Message env (M_AcceptVersionNtN m) =
     enc_message m [Ok (encodeHead 0x00 (ucast (an_Version m))), Ok (marshal_VersionField2 (an_VersionData m))]"
| "Marshal_Message env (M_AcceptVersionNtC m) =
     enc_message m [Ok (encodeHead 0x00 (ucast (ac_Version m))), Ok (marshal_VersionField1 (ac_VersionData m))]"
| "Marshal_Message env (M_Refuse m) = enc_message m [Ok (marshal_RefuseDetails (rf_Details m))]"
| "Marshal_Message env (M_RollForward m) =
     enc_message m [checked (SubtypeOf_MarshalCBOR env (fw_Data m)), Ok (marshal_PointAndBlockNum (fw_Tip m))]"
| "Marshal_Message env (M_RollBackward m) =
     enc_message m [checked (Optional_MarshalCBOR (\<lambda>p. Ok (marshal_Point p)) (bw_Point m)), Ok (marshal_PointAndBlockNum (bw_Tip m))]"
| "Marshal_Message env (M_FindIntersect m) = enc_message m [Ok (encode_slice marshal_Point (fi_Points m))]"
| "Marshal_Message env (M_IntersectFound m) = enc_message m [Ok (marshal_Point (if_Point m)), Ok (marshal_PointAndBlockNum (if_Tip m))]"
| "Marshal_Message env (M_IntersectNotFound m) = enc_message m [Ok (marshal_PointAndBlockNum (in_Tip m))]"
| "Marshal_Message env (M_RequestRange m) = enc_message m [Ok (marshal_Point (rr_From m)), Ok (marshal_Point (rr_To m))]"
| "Marshal_Message env (M_Block m) = enc_message m [Ok (encode_HexBytes (mb_BlockData m))]"
| "Marshal_Message env (M_KeepAlive m) = enc_message m [Ok (encodeHead 0x00 (ucast (ka_Cookie m)))]"
| "Marshal_Message env (M_KeepAliveResponse m) = enc_message m [Ok (encodeHead 0x00 (ucast (kr_Cookie m)))]"
| "Marshal_Message env (M_LocalStateQuery m) = enc_message m [cbor_Marshal env (lq_Query m)]"
| "Marshal_Message env (M_LocalStateResult m) = enc_message m [cbor_Marshal env (lr_Result m)]"
| "Marshal_Message env (M_SubmitTx m) = enc_message m [Ok (encodeHead 0x00 (st_BodyType m)), Ok (encode_HexBytes (st_TxBytes m))]"
| "Marshal_Message env (M_RejectTx m) = enc_message m [Ok (encodeHead 0x00 (rj_Reason m))]"

text \<open>What \<open>encodeVersionMap\<close> prints: the encoding of the proposal for the main network. An error ends the program.\<close>

definition encodeVersionMap :: "cbor_env \<Rightarrow> string res" where
  "encodeVersionMap env =
     res_bind (Marshal_Message env (M_ProposeVersions \<lparr>ws_raw = [], ws_Subprotocol = 0, pv_VersionMap = defaultVersionMap 764824073\<rparr>))
       (\<lambda>b. Ok (hex_EncodeToString b @ [CHR 0x0A]))"

subsection \<open>Decoding the parts\<close>

definition parse_Point :: "cbor_env \<Rightarrow> Point parser" where
  "parse_Point env = parseToUnmarshaler (\<lambda>bs. all_or_nothing (Point_UnmarshalCBOR env bs))"

definition parse_PointAndBlockNum :: "cbor_env \<Rightarrow> DecMode \<Rightarrow> PointAndBlockNum parser" where
  "parse_PointAndBlockNum env dm = parseToValue env dm (struct_target
     [field pb_Point (\<lambda>v. pb_Point_update (\<lambda>_. v)) (parse_Point env), field pb_Block (\<lambda>v. pb_Block_update (\<lambda>_. v)) (parse_uint env dm)])"

definition parse_VersionField1 :: "cbor_env \<Rightarrow> DecMode \<Rightarrow> VersionField1 parser" where
  "parse_VersionField1 env dm = parseToValue env dm (struct_target
     [field v1_Network (\<lambda>v. v1_Network_update (\<lambda>_. v)) (parse_uint env dm),
      field v1_InitiatorOnlyDiffusionMode (\<lambda>v. v1_InitiatorOnlyDiffusionMode_update (\<lambda>_. v)) (parseToValue env dm bool_target)])"

definition parse_VersionField2 :: "cbor_env \<Rightarrow> DecMode \<Rightarrow> VersionField2 parser" where
  "parse_VersionField2 env dm = parseToValue env dm (struct_target
     [field v2_Network (\<lambda>v. v2_Network_update (\<lambda>_. v)) (parse_uint env dm),
      field v2_InitiatorOnlyDiffusionMode (\<lambda>v. v2_InitiatorOnlyDiffusionMode_update (\<lambda>_. v)) (parseToValue env dm bool_target),
      field v2_PeerSharing (\<lambda>v. v2_PeerSharing_update (\<lambda>_. v)) (parseToValue env dm int_target),
      field v2_Query (\<lambda>v. v2_Query_update (\<lambda>_. v)) (parseToValue env dm bool_target)])"

definition VersionMap_fields :: "cbor_env \<Rightarrow> DecMode \<Rightarrow> VersionMap field_table" where
  "VersionMap_fields env dm =
     [(4, ''4'', field vm_V4 (\<lambda>v. vm_V4_update (\<lambda>_. v)) (parse_VersionField1 env dm)),
      (5, ''5'', field vm_V5 (\<lambda>v. vm_V5_update (\<lambda>_. v)) (parse_VersionField1 env dm)),
      (6, ''6'', field vm_V6 (\<lambda>v. vm_V6_update (\<lambda>_. v)) (parse_VersionField1 env dm)),
      (7, ''7'', field vm_V7 (\<lambda>v. vm_V7_update (\<lambda>_. v)) (parse_VersionField1 env dm)),
      (8, ''8'', field vm_V8 (\<lambda>v. vm_V8_update (\<lambda>_. v)) (parse_VersionField1 env dm)),
      (9, ''9'', field vm_V9 (\<lambda>v. vm_V9_update (\<lambda>_. v)) (parse_VersionField1 env dm)),
      (10, ''10'', field vm_V10 (\<lambda>v. vm_V10_update (\<lambda>_. v)) (parse_VersionField1 env dm)),
      (11, ''11'', field vm_V11 (\<lambda>v. vm_V11_update (\<lambda>_. v)) (parse_VersionField2 env dm)),
      (12, ''12'', field vm_V12 (\<lambda>v. vm_V12_update (\<lambda>_. v)) (parse_VersionField2 env dm)),
      (13, ''13'', field vm_V13 (\<lambda>v. vm_V13_update (\<lambda>_. v)) (parse_VersionField2 env dm))]"

definition parse_VersionMap :: "cbor_env \<Rightarrow> DecMode \<Rightarrow> VersionMap parser" where
  "parse_VersionMap env dm = parseToValue env dm (keyed_target dm (VersionMap_fields env dm))"

definition parse_RefuseDetails :: "cbor_env \<Rightarrow> DecMode \<Rightarrow> RefuseDetails parser" where
  "parse_RefuseDetails env dm = parseToValue env dm (struct_target
     [field rd_Code (\<lambda>v. rd_Code_update (\<lambda>_. v)) (parse_uint env dm), field rd_Version (\<lambda>v. rd_Version_update (\<lambda>_. v)) (parse_uint env dm),
      field rd_Reason (\<lambda>v. rd_Reason_update (\<lambda>_. v)) (parseToValue env dm string_target)])"

definition parse_DataA :: "cbor_env \<Rightarrow> DecMode \<Rightarrow> MessageRollForwardDataA parser" where
  "parse_DataA env dm = parseToValue env dm (struct_target
     [field da_Number (\<lambda>v. da_Number_update (\<lambda>_. v)) (parse_uint env dm), field da_BlockHeader (\<lambda>v. da_BlockHeader_update (\<lambda>_. v)) (parse_bytes env dm)])"

definition parse_DataB :: "cbor_env \<Rightarrow> DecMode \<Rightarrow> MessageRollForwardDataB parser" where
  "parse_DataB env dm = parseToValue env dm (struct_target
     [field db_EraMaybe (\<lambda>v. db_EraMaybe_update (\<lambda>_. v)) (parse_uint env dm),
      parseToValue env dm (struct_target
        [parseToValue env dm (struct_target
           [field db_A_A (\<lambda>v. db_A_A_update (\<lambda>_. v)) (parse_iface env dm), field db_A_B (\<lambda>v. db_A_B_update (\<lambda>_. v)) (parse_iface env dm)]),
         field db_B (\<lambda>v. db_B_update (\<lambda>_. v)) (parse_bytes env dm)])])"

text \<open>The list \<open>MessageRollForwardData.Subtypes\<close>: each call makes new objects.\<close>

definition RollForwardData_Subtypes :: "cbor_env \<Rightarrow> (bytes \<Rightarrow> RollForwardData res) list" where
  "RollForwardData_Subtypes env =
     [\<lambda>bs. fresh_value RollForwardA (Unmarshal defaultDecMode (parse_DataA env defaultDecMode) bs zero_A),
      \<lambda>bs. fresh_value RollForwardB (Unmarshal defaultDecMode (parse_DataB env defaultDecMode) bs zero_B)]"

definition parse_RollForwardData :: "cbor_env \<Rightarrow> RollForwardData parser" where
  "parse_RollForwardData env = parseToUnmarshaler (\<lambda>bs. all_or_nothing (SubtypeOf_UnmarshalCBOR (RollForwardData_Subtypes env) bs))"

definition parse_OptionalPoint :: "cbor_env \<Rightarrow> Point Optional parser" where
  "parse_OptionalPoint env =
     parseToUnmarshaler (Optional_UnmarshalCBOR (Unmarshal defaultDecMode (parse_pointer zero_point (parse_Point env))))"


subsection \<open>Decoding a message\<close>

definition parse_message_struct :: "cbor_env \<Rightarrow> DecMode \<Rightarrow> ('a WithSubprotocol_scheme) parser list \<Rightarrow> ('a WithSubprotocol_scheme) parser" where
  "parse_message_struct env dm fs = parseToValue env dm (struct_target
     (field ws_Subprotocol (\<lambda>v. ws_Subprotocol_update (\<lambda>_. v)) (parse_uint env dm) # fs))"

definition in_message :: "('m \<Rightarrow> Message) \<Rightarrow> 'm parser \<Rightarrow> 'm \<Rightarrow> bytes \<Rightarrow> (Message \<times> unit res) \<times> bytes" where
  "in_message c p m data = (case p m data of ((v, e), r) \<Rightarrow> ((c v, e), r))"

fun parse_Message :: "cbor_env \<Rightarrow> DecMode \<Rightarrow> Message parser" where
  "parse_Message env dm (Bare ty m) = in_message (Bare ty) (parse_message_struct env dm []) m"
| "parse_Message env dm (M_ProposeVersions m) = in_message M_ProposeVersions (parse_message_struct env dm
     [field pv_VersionMap (\<lambda>v. pv_VersionMap_update (\<lambda>_. v)) (parse_VersionMap env dm)]) m"
| "parse_Message env dm (M_AcceptVersionNtN m) = in_message M_AcceptVersionNtN (parse_message_struct env dm
     [field an_Version (\<lambda>v. an_Version_update (\<lambda>_. v)) (parse_uint env dm),
      field an_VersionData (\<lambda>v. an_VersionData_update (\<lambda>_. v)) (parse_VersionField2 env dm)]) m"
| "parse_Message env dm (M_AcceptVersionNtC m) = in_message M_AcceptVersionNtC (parse_message_struct env dm
     [field ac_Version (\<lambda>v. ac_Version_update (\<lambda>_. v)) (parse_uint env dm),
      field ac_VersionData (\<lambda>v. ac_VersionData_update (\<lambda>_. v)) (parse_VersionField1 env dm)]) m"
| "parse_Message env dm (M_Refuse m) = in_message M_Refuse (parse_message_struct env dm
     [field rf_Details (\<lambda>v. rf_Details_update (\<lambda>_. v)) (parse_RefuseDetails env dm)]) m"
| "parse_Message env dm (M_RollForward m) = in_message M_RollForward (parse_message_struct env dm
     [field fw_Data (\<lambda>v. fw_Data_update (\<lambda>_. v)) (parse_RollForwardData env),
      field fw_Tip (\<lambda>v. fw_Tip_update (\<lambda>_. v)) (parse_PointAndBlockNum env dm)]) m"
| "parse_Message env dm (M_RollBackward m) = in_message M_RollBackward (parse_message_struct env dm
     [field bw_Point (\<lambda>v. bw_Point_update (\<lambda>_. v)) (parse_OptionalPoint env),
      field bw_Tip (\<lambda>v. bw_Tip_update (\<lambda>_. v)) (parse_PointAndBlockNum env dm)]) m"
| "parse_Message env dm (M_FindIntersect m) = in_message M_FindIntersect (parse_message_struct env dm
     [field fi_Points (\<lambda>v. fi_Points_update (\<lambda>_. v)) (parseToValue env dm (slice_target (parse_Point env) zero_point))]) m"
| "parse_Message env dm (M_IntersectFound m) = in_message M_IntersectFound (parse_message_struct env dm
     [field if_Point (\<lambda>v. if_Point_update (\<lambda>_. v)) (parse_Point env),
      field if_Tip (\<lambda>v. if_Tip_update (\<lambda>_. v)) (parse_PointAndBlockNum env dm)]) m"
| "parse_Message env dm (M_IntersectNotFound m) = in_message M_IntersectNotFound (parse_message_struct env dm
     [field in_Tip (\<lambda>v. in_Tip_update (\<lambda>_. v)) (parse_PointAndBlockNum env dm)]) m"
| "parse_Message env dm (M_RequestRange m) = in_message M_RequestRange (parse_message_struct env dm
     [field rr_From (\<lambda>v. rr_From_update (\<lambda>_. v)) (parse_Point env), field rr_To (\<lambda>v. rr_To_update (\<lambda>_. v)) (parse_Point env)]) m"
| "parse_Message env dm (M_Block m) = in_message M_Block (parse_message_struct env dm
     [field mb_BlockData (\<lambda>v. mb_BlockData_update (\<lambda>_. v)) (parse_bytes env dm)]) m"
| "parse_Message env dm (M_KeepAlive m) = in_message M_KeepAlive (parse_message_struct env dm
     [field ka_Cookie (\<lambda>v. ka_Cookie_update (\<lambda>_. v)) (parse_uint env dm)]) m"
| "parse_Message env dm (M_KeepAliveResponse m) = in_message M_KeepAliveResponse (parse_message_struct env dm
     [field kr_Cookie (\<lambda>v. kr_Cookie_update (\<lambda>_. v)) (parse_uint env dm)]) m"
| "parse_Message env dm (M_LocalStateQuery m) = in_message M_LocalStateQuery (parse_message_struct env dm
     [field lq_Query (\<lambda>v. lq_Query_update (\<lambda>_. v)) (parse_iface env dm)]) m"
| "parse_Message env dm (M_LocalStateResult m) = in_message M_LocalStateResult (parse_message_struct env dm
     [field lr_Result (\<lambda>v. lr_Result_update (\<lambda>_. v)) (parse_iface env dm)]) m"
| "parse_Message env dm (M_SubmitTx m) = in_message M_SubmitTx (parse_message_struct env dm
     [field st_BodyType (\<lambda>v. st_BodyType_update (\<lambda>_. v)) parse_Era,
      field st_TxBytes (\<lambda>v. st_TxBytes_update (\<lambda>_. v)) (parse_bytes env dm)]) m"
| "parse_Message env dm (M_RejectTx m) = in_message M_RejectTx (parse_message_struct env dm
     [field rj_Reason (\<lambda>v. rj_Reason_update (\<lambda>_. v)) (parse_uint env dm)]) m"

subsection \<open>The decoder of the message reader\<close>

definition StandardCborDecoder :: DecMode where
  "StandardCborDecoder = \<lparr>dm_maxNestedLevels = 32, dm_maxArrayElements = 2147483647, dm_maxMapPairs = 2147483647, dm_utf8 = UTF8DecodeInvalid\<rparr>"

text \<open>A type with other fields is not \<open>Bare\<close>. The object that \<open>ProtocolMessageMap\<close> holds for a type has that type.\<close>

definition has_type :: "MessageType \<Rightarrow> Message \<Rightarrow> bool" where
  "has_type ty m \<longleftrightarrow> message_type m = ty \<and>
     (case m of Bare t w \<Rightarrow> zero_message t = Bare t \<lparr>ws_raw = [], ws_Subprotocol = 0\<rparr> | _ \<Rightarrow> True)"

definition as_type :: "MessageType \<Rightarrow> Message \<Rightarrow> Message" where
  "as_type ty m = (if has_type ty m then m else zero_message ty)"

text \<open>The decoded value with the rest of the input.\<close>

definition decoded :: "'a \<times> bytes res \<Rightarrow> ('a \<times> bytes) res" where
  "decoded r = res_bind (snd r) (\<lambda>rest. Ok (fst r, rest))"

definition std_decoder :: "cbor_env \<Rightarrow> Message cbor_decoder" where
  "std_decoder env = \<lparr>
     cd_first = (\<lambda>data. decoded (UnmarshalFirst StandardCborDecoder
       (parseToValue env StandardCborDecoder (slice_target (parse_iface env StandardCborDecoder) ANil)) data [])),
     cd_zero = zero_message,
     cd_into = (\<lambda>ty m data. Unmarshal StandardCborDecoder (parse_Message env StandardCborDecoder) data (as_type ty m)),
     cd_intoFirst = (\<lambda>ty m data. case UnmarshalFirst StandardCborDecoder (parse_Message env StandardCborDecoder) data (as_type ty m) of
       (v, r) \<Rightarrow> (v, res_bind r (\<lambda>_. Ok ()))),
     cd_setRaw = message_SetRaw,
     cd_block = (\<lambda>data. decoded (UnmarshalFirst defaultDecMode (parse_Message env defaultDecMode) data (zero_message MessageBlock)))\<rparr>"

text \<open>\<open>MessageReader.Read\<close> on the messages of the program.\<close>

definition Read_messages :: "cbor_env \<Rightarrow> bytes \<Rightarrow> MessageReader \<Rightarrow> Message msg_store \<Rightarrow> (unit res \<times> Message read_state) option" where
  "Read_messages env = Read (zero_message MessageBatchDone) (std_decoder env)"

end
