(* ===== verification/MessagesSpec.thy ===== *)
theory MessagesSpec
  imports Messages CborTargetSpec MessageReaderSpec
begin

text \<open>
  The encodings of messages: every message whose fields are within the limits is written by \<open>Marshal\<close> and read back by the decoder of the
  message reader. \<open>rep_Message\<close> is the value of type \<open>any\<close> that an encoding stands for; the interpretations of \<open>cbor_codec\<close> give
  what \<open>Unmarshal\<close> and \<open>UnmarshalFirst\<close> do.
\<close>

subsection \<open>Modes\<close>

lemma decodable_mono:
  "decodable dm v \<Longrightarrow> dm_maxArrayElements dm \<le> dm_maxArrayElements dm' \<Longrightarrow> dm_maxMapPairs dm \<le> dm_maxMapPairs dm' \<Longrightarrow>
   dm_utf8 dm' = UTF8RejectInvalid \<longrightarrow> dm_utf8 dm = UTF8RejectInvalid \<Longrightarrow> decodable dm' v"
  by (induction dm v rule: decodable.induct) auto

lemma decodable_default:
  assumes "decodable defaultDecMode v"
  shows "decodable StandardCborDecoder v" "decodable marshalerDecMode v"
  by (auto intro!: decodable_mono [OF assms] simp: defaultDecMode_def StandardCborDecoder_def marshalerDecMode_def)

subsection \<open>The values that encodings stand for\<close>

definition rep_bytes :: "bytes \<Rightarrow> any" where
  "rep_bytes b = (if b = [] then ANil else ABytes b)"

definition rep_int :: "int \<Rightarrow> any" where
  "rep_int i = (if 0 \<le> i then AUint (of_int i) else AInt i)"

definition rep_Point :: "Point \<Rightarrow> any" where
  "rep_Point p = ASlice [AUint (pt_Slot p), rep_bytes (pt_Hash p)]"

definition rep_Tip :: "PointAndBlockNum \<Rightarrow> any" where
  "rep_Tip t = ASlice [rep_Point (pb_Point t), AUint (pb_Block t)]"

definition rep_V1 :: "VersionField1 \<Rightarrow> any" where
  "rep_V1 v = ASlice [AUint (v1_Network v), ABool (v1_InitiatorOnlyDiffusionMode v)]"

definition rep_V2 :: "VersionField2 \<Rightarrow> any" where
  "rep_V2 v = ASlice [AUint (v2_Network v), ABool (v2_InitiatorOnlyDiffusionMode v), rep_int (v2_PeerSharing v), ABool (v2_Query v)]"

definition rep_VersionMap :: "VersionMap \<Rightarrow> any" where
  "rep_VersionMap v = AMap
     [(AUint 4, rep_V1 (vm_V4 v)), (AUint 5, rep_V1 (vm_V5 v)), (AUint 6, rep_V1 (vm_V6 v)), (AUint 7, rep_V1 (vm_V7 v)),
      (AUint 8, rep_V1 (vm_V8 v)), (AUint 9, rep_V1 (vm_V9 v)), (AUint 10, rep_V1 (vm_V10 v)), (AUint 11, rep_V2 (vm_V11 v)),
      (AUint 12, rep_V2 (vm_V12 v)), (AUint 13, rep_V2 (vm_V13 v))]"

definition rep_Details :: "RefuseDetails \<Rightarrow> any" where
  "rep_Details d = ASlice [AUint (ucast (rd_Code d)), AUint (ucast (rd_Version d)), AString (rd_Reason d)]"

fun rep_Data :: "RollForwardData \<Rightarrow> any" where
  "rep_Data NoSubtype = ANil"
| "rep_Data (RollForwardA d) = ASlice [AUint (da_Number d), rep_bytes (da_BlockHeader d)]"
| "rep_Data (RollForwardB d) = ASlice [AUint (db_EraMaybe d), ASlice [ASlice [db_A_A d, db_A_B d], rep_bytes (db_B d)]]"

definition rep_Points :: "Point list \<Rightarrow> any" where
  "rep_Points ps = (if ps = [] then ANil else ASlice (map rep_Point ps))"

fun rep_fields :: "Message \<Rightarrow> any list" where
  "rep_fields (Bare ty m) = []"
| "rep_fields (M_ProposeVersions m) = [rep_VersionMap (pv_VersionMap m)]"
| "rep_fields (M_AcceptVersionNtN m) = [AUint (ucast (an_Version m)), rep_V2 (an_VersionData m)]"
| "rep_fields (M_AcceptVersionNtC m) = [AUint (ucast (ac_Version m)), rep_V1 (ac_VersionData m)]"
| "rep_fields (M_Refuse m) = [rep_Details (rf_Details m)]"
| "rep_fields (M_RollForward m) = [rep_Data (fw_Data m), rep_Tip (fw_Tip m)]"
| "rep_fields (M_RollBackward m) =
     [case op_Value (bw_Point m) of None \<Rightarrow> ANil | Some p \<Rightarrow> rep_Point p, rep_Tip (bw_Tip m)]"
| "rep_fields (M_FindIntersect m) = [rep_Points (fi_Points m)]"
| "rep_fields (M_IntersectFound m) = [rep_Point (if_Point m), rep_Tip (if_Tip m)]"
| "rep_fields (M_IntersectNotFound m) = [rep_Tip (in_Tip m)]"
| "rep_fields (M_RequestRange m) = [rep_Point (rr_From m), rep_Point (rr_To m)]"
| "rep_fields (M_Block m) = [rep_bytes (mb_BlockData m)]"
| "rep_fields (M_KeepAlive m) = [AUint (ucast (ka_Cookie m))]"
| "rep_fields (M_KeepAliveResponse m) = [AUint (ucast (kr_Cookie m))]"
| "rep_fields (M_LocalStateQuery m) = [lq_Query m]"
| "rep_fields (M_LocalStateResult m) = [lr_Result m]"
| "rep_fields (M_SubmitTx m) = [AUint (st_BodyType m), rep_bytes (st_TxBytes m)]"
| "rep_fields (M_RejectTx m) = [AUint (rj_Reason m)]"

definition rep_Message :: "Message \<Rightarrow> any" where
  "rep_Message m = ASlice (AUint (ucast (message_GetSubprotocol m)) # rep_fields m)"

subsection \<open>Messages within the limits\<close>

text \<open>A point with a hash, a value that is not null and has one encoding, and so on.\<close>

definition point_ok :: "Point \<Rightarrow> bool" where
  "point_ok p \<longleftrightarrow> pt_Hash p \<noteq> [] \<and> length (pt_Hash p) < 2 ^ 63"

definition tip_ok :: "PointAndBlockNum \<Rightarrow> bool" where
  "tip_ok t \<longleftrightarrow> point_ok (pb_Point t)"

definition int64_ok :: "int \<Rightarrow> bool" where
  "int64_ok i \<longleftrightarrow> - (2 ^ 63) \<le> i \<and> i < 2 ^ 63"

definition any_ok :: "any \<Rightarrow> bool" where
  "any_ok v \<longleftrightarrow> v \<noteq> ANil \<and> rigid v \<and> decodable defaultDecMode v \<and> nest v \<le> 24"

fun data_ok :: "RollForwardData \<Rightarrow> bool" where
  "data_ok NoSubtype \<longleftrightarrow> False"
| "data_ok (RollForwardA d) \<longleftrightarrow> length (da_BlockHeader d) < 2 ^ 63"
| "data_ok (RollForwardB d) \<longleftrightarrow> any_ok (db_A_A d) \<and> any_ok (db_A_B d) \<and> length (db_B d) < 2 ^ 63"

definition optional_ok :: "Point Optional \<Rightarrow> bool" where
  "optional_ok opt \<longleftrightarrow> op_Valid opt \<and> (case op_Value opt of None \<Rightarrow> False | Some p \<Rightarrow> point_ok p)"

definition versions_ok :: "VersionMap \<Rightarrow> bool" where
  "versions_ok v \<longleftrightarrow> int64_ok (v2_PeerSharing (vm_V11 v)) \<and> int64_ok (v2_PeerSharing (vm_V12 v)) \<and> int64_ok (v2_PeerSharing (vm_V13 v))"

fun message_ok :: "Message \<Rightarrow> bool" where
  "message_ok (Bare ty m) \<longleftrightarrow> zero_message ty = Bare ty \<lparr>ws_raw = [], ws_Subprotocol = 0\<rparr>"
| "message_ok (M_ProposeVersions m) \<longleftrightarrow> versions_ok (pv_VersionMap m)"
| "message_ok (M_AcceptVersionNtN m) \<longleftrightarrow> int64_ok (v2_PeerSharing (an_VersionData m))"
| "message_ok (M_AcceptVersionNtC m) \<longleftrightarrow> True"
| "message_ok (M_Refuse m) \<longleftrightarrow> length (rd_Reason (rf_Details m)) < 2 ^ 63"
| "message_ok (M_RollForward m) \<longleftrightarrow> data_ok (fw_Data m) \<and> tip_ok (fw_Tip m)"
| "message_ok (M_RollBackward m) \<longleftrightarrow> optional_ok (bw_Point m) \<and> tip_ok (bw_Tip m)"
| "message_ok (M_FindIntersect m) \<longleftrightarrow> (\<forall>p\<in>set (fi_Points m). point_ok p) \<and> length (fi_Points m) \<le> 2147483647"
| "message_ok (M_IntersectFound m) \<longleftrightarrow> point_ok (if_Point m) \<and> tip_ok (if_Tip m)"
| "message_ok (M_IntersectNotFound m) \<longleftrightarrow> tip_ok (in_Tip m)"
| "message_ok (M_RequestRange m) \<longleftrightarrow> point_ok (rr_From m) \<and> point_ok (rr_To m)"
| "message_ok (M_Block m) \<longleftrightarrow> length (mb_BlockData m) < 2 ^ 63"
| "message_ok (M_KeepAlive m) \<longleftrightarrow> True"
| "message_ok (M_KeepAliveResponse m) \<longleftrightarrow> True"
| "message_ok (M_LocalStateQuery m) \<longleftrightarrow> any_ok (lq_Query m)"
| "message_ok (M_LocalStateResult m) \<longleftrightarrow> any_ok (lr_Result m)"
| "message_ok (M_SubmitTx m) \<longleftrightarrow> st_BodyType m \<le> 23 \<and> length (st_TxBytes m) < 2 ^ 63"
| "message_ok (M_RejectTx m) \<longleftrightarrow> True"

lemmas message_ok_defs = point_ok_def tip_ok_def int64_ok_def optional_ok_def versions_ok_def

subsection \<open>Encodings\<close>

lemma wire_array: "wire (ASlice xs) = enc_array (map wire xs)"
  by (simp add: enc_array_def)

lemma wire_bytes: "wire (rep_bytes b) = encode_HexBytes b"
  by (simp add: rep_bytes_def encode_HexBytes_def)

lemma wire_int: "int64_ok i \<Longrightarrow> wire (rep_int i) = encode_int i"
  by (simp add: rep_int_def encode_int_def)

lemma wire_Point: "wire (rep_Point p) = marshal_Point p"
  by (simp add: rep_Point_def wire_array wire_bytes marshal_Point_def del: wire.simps(7))

lemma wire_Tip: "wire (rep_Tip t) = marshal_PointAndBlockNum t"
  by (simp add: rep_Tip_def wire_array wire_Point marshal_PointAndBlockNum_def del: wire.simps(7))

lemma wire_V1: "wire (rep_V1 v) = marshal_VersionField1 v"
  by (simp add: rep_V1_def wire_array marshal_VersionField1_def marshal_bool_def del: wire.simps(7))

lemma wire_V2: "int64_ok (v2_PeerSharing v) \<Longrightarrow> wire (rep_V2 v) = marshal_VersionField2 v"
  by (simp add: rep_V2_def wire_array wire_int marshal_VersionField2_def marshal_bool_def del: wire.simps(7))

lemma wire_VersionMap: "versions_ok v \<Longrightarrow> wire (rep_VersionMap v) = marshal_VersionMap v"
  by (simp add: rep_VersionMap_def marshal_VersionMap_def wire_V1 wire_V2 versions_ok_def enc_fields_def encode_int_def)

lemma wire_Details: "wire (rep_Details d) = marshal_RefuseDetails d"
  by (simp add: rep_Details_def wire_array marshal_RefuseDetails_def del: wire.simps(7))

lemma wire_Points: "wire (rep_Points ps) = encode_slice marshal_Point ps"
  by (simp add: rep_Points_def encode_slice_def wire_array wire_Point comp_def del: wire.simps(7))

lemma marshal_any: "fair_order env \<Longrightarrow> any_ok v \<Longrightarrow> cbor_Marshal env v = Ok (wire v)"
  using marshal_encodes [of env defaultDecMode v] rigid_wire by (auto simp: any_ok_def)

lemma wire_DataA: "wire (rep_Data (RollForwardA d)) = marshal_DataA d"
  by (simp add: wire_array wire_bytes marshal_DataA_def del: wire.simps(7))

lemma enc_array_Ok: "enc_array_res (map Ok bss) = Ok (enc_array bss)"
proof -
  have "res_all (map Ok bss) = Ok bss" by (induction bss) auto
  then show ?thesis by (simp add: enc_array_res_def)
qed

lemma wire_DataB: "fair_order env \<Longrightarrow> data_ok (RollForwardB d) \<Longrightarrow> marshal_DataB env d = Ok (wire (rep_Data (RollForwardB d)))"
  using enc_array_Ok [of "[wire (db_A_A d), wire (db_A_B d)]"]
  by (simp add: marshal_DataB_def marshal_any enc_array_res_def wire_array wire_bytes del: wire.simps(7))

lemmas wire_parts = wire_array wire_bytes wire_int wire_Point wire_Tip wire_V1 wire_V2 wire_VersionMap wire_Details wire_Points wire_DataA


text \<open>The limits of the modes.\<close>

definition wide :: "DecMode \<Rightarrow> bool" where
  "wide dm \<longleftrightarrow> 16 \<le> dm_maxArrayElements dm \<and> 16 \<le> dm_maxMapPairs dm \<and> dm_maxNestedLevels dm = 32"

lemma wide_modes [simp]: "wide defaultDecMode" "wide StandardCborDecoder"
  by (simp_all add: wide_def defaultDecMode_def StandardCborDecoder_def)

lemma decodable_bytes: "length b < 2 ^ 63 \<Longrightarrow> decodable dm (rep_bytes b)"
  by (simp add: rep_bytes_def)

lemma decodable_int: "int64_ok i \<Longrightarrow> decodable dm (rep_int i)"
  by (simp add: rep_int_def int64_ok_def)

lemma decodable_Point: "wide dm \<Longrightarrow> point_ok p \<Longrightarrow> decodable dm (rep_Point p)"
  by (simp add: rep_Point_def decodable_bytes point_ok_def wide_def)

lemma decodable_Tip: "wide dm \<Longrightarrow> tip_ok t \<Longrightarrow> decodable dm (rep_Tip t)"
  by (simp add: rep_Tip_def decodable_Point tip_ok_def) (simp add: wide_def)

lemma decodable_V1: "wide dm \<Longrightarrow> decodable dm (rep_V1 v)"
  by (simp add: rep_V1_def wide_def)

lemma decodable_V2: "wide dm \<Longrightarrow> int64_ok (v2_PeerSharing v) \<Longrightarrow> decodable dm (rep_V2 v)"
  by (simp add: rep_V2_def decodable_int) (simp add: wide_def)

lemma decodable_VersionMap: "wide dm \<Longrightarrow> versions_ok v \<Longrightarrow> decodable dm (rep_VersionMap v)"
  by (simp add: rep_VersionMap_def decodable_V1 decodable_V2 versions_ok_def) (simp add: wide_def)

lemma any_ok_modes:
  assumes "any_ok v"
  shows "decodable defaultDecMode v" "decodable StandardCborDecoder v" "decodable marshalerDecMode v" "nest v \<le> 24" "v \<noteq> ANil"
  using assms decodable_default by (auto simp: any_ok_def)

lemma decodable_Data: "data_ok d \<Longrightarrow> decodable defaultDecMode (rep_Data d)"
  by (cases d) (auto simp: decodable_bytes any_ok_modes wide_def [symmetric], auto simp: defaultDecMode_def)

lemma nest_parts [simp]:
  "nest (rep_bytes b) = 0" "nest (rep_int i) = 0" "nest (rep_Point p) = 1" "nest (rep_Tip t) = 2" "nest (rep_V1 v) = 1" "nest (rep_V2 w) = 1"
  "nest (rep_VersionMap m) = 2" "nest (rep_Details d) = 1"
  by (simp_all add: rep_bytes_def rep_int_def rep_Point_def rep_Tip_def rep_V1_def rep_V2_def rep_VersionMap_def rep_Details_def)

lemma nest_Points: "nest (rep_Points ps) \<le> 2"
proof -
  have "foldr max (map nest (map rep_Point ps)) 0 \<le> (1 :: nat)" by (induction ps) auto
  then show ?thesis by (simp add: rep_Points_def)
qed

lemma nest_Data: "data_ok d \<Longrightarrow> nest (rep_Data d) \<le> 27"
  by (cases d) (auto dest!: any_ok_modes(4))

lemma checked_wire:
  assumes "decodable defaultDecMode v" "nest v \<le> 65535"
  shows "checked (Ok (wire v)) = Ok (wire v)"
  by (rule checked_encodes [OF decodable_encodes [OF assms(1)] decodable_sizes [OF decodable_default(2) [OF assms(1)]] assms(2)])

text \<open>\<open>Marshal\<close> writes the encoding of \<open>rep_Message\<close>.\<close>

lemma marshal_Data: "fair_order env \<Longrightarrow> data_ok d \<Longrightarrow> checked (SubtypeOf_MarshalCBOR env d) = Ok (wire (rep_Data d))"
  using checked_wire [OF decodable_Data, of d] nest_Data [of d]
  by (cases d) (auto simp: SubtypeOf_MarshalCBOR_def wire_DataA wire_DataB simp del: wire.simps rep_Data.simps data_ok.simps(3))

lemma marshal_Optional:
  assumes "optional_ok opt"
  shows "\<exists>p. op_Value opt = Some p \<and> point_ok p \<and> checked (Optional_MarshalCBOR (\<lambda>p. Ok (marshal_Point p)) opt) = Ok (wire (rep_Point p))"
proof -
  obtain p where p: "op_Value opt = Some p" "point_ok p" "op_Valid opt" using assms by (auto simp: optional_ok_def split: option.splits)
  then show ?thesis using checked_wire [OF decodable_Point [OF wide_modes(1) p(2)]] by (simp add: Optional_MarshalCBOR_def wire_Point)
qed

lemma enc_message_Ok: "enc_message m (map Ok bss) = Ok (enc_array (encodeHead 0x00 (ucast (ws_Subprotocol m)) # bss))"
  using enc_array_Ok [of "encodeHead 0x00 (ucast (ws_Subprotocol m)) # bss"] by (simp add: enc_message_def)

lemmas enc_message_cases = enc_message_Ok [of _ "[]", simplified] enc_message_Ok [of _ "[a]" for a, simplified] enc_message_Ok [of _ "[a, b]" for a b, simplified]

lemma wire_Message: "wire (rep_Message m) = enc_array (encodeHead 0x00 (ucast (message_GetSubprotocol m)) # map wire (rep_fields m))"
  by (simp add: rep_Message_def wire_array del: wire.simps(7))

lemma marshal_Message:
  assumes "fair_order env" "message_ok m"
  shows "Marshal_Message env m = Ok (wire (rep_Message m))"
proof (cases m)
  case (M_RollForward x)
  then show ?thesis using assms marshal_Data [of env "fw_Data x"]
    by (simp add: enc_message_cases wire_Message wire_Tip message_GetSubprotocol_def GetSubprotocol_def WithSubprotocol.truncate_def)
next
  case (M_RollBackward x)
  then show ?thesis using assms marshal_Optional [of "bw_Point x"]
    by (auto simp: enc_message_cases wire_Message wire_Tip message_GetSubprotocol_def GetSubprotocol_def WithSubprotocol.truncate_def)
qed (use assms in \<open>simp_all add: enc_message_cases wire_Message wire_parts marshal_any message_GetSubprotocol_def GetSubprotocol_def
  WithSubprotocol.truncate_def del: wire.simps(7)\<close>)


lemma decodable_Message: "message_ok m \<Longrightarrow> decodable StandardCborDecoder (rep_Message m) \<and> nest (rep_Message m) \<le> 32"
proof (cases m)
  case (M_RollForward x)
  assume "message_ok m"
  then have "decodable StandardCborDecoder (rep_Data (fw_Data x))" "nest (rep_Data (fw_Data x)) \<le> 27" "tip_ok (fw_Tip x)"
    using M_RollForward decodable_default(1) [OF decodable_Data] nest_Data by auto
  then show ?thesis using M_RollForward decodable_Tip [of StandardCborDecoder "fw_Tip x"] by (simp add: rep_Message_def) (simp add: StandardCborDecoder_def)
next
  case (M_FindIntersect x)
  assume "message_ok m"
  then have "decodable StandardCborDecoder (rep_Points (fi_Points x))"
    using M_FindIntersect by (auto simp: rep_Points_def decodable_Point) (simp add: StandardCborDecoder_def)
  then show ?thesis using M_FindIntersect nest_Points [of "fi_Points x"] by (simp add: rep_Message_def) (simp add: StandardCborDecoder_def)
next
  case (M_Refuse x)
  assume "message_ok m"
  then show ?thesis using M_Refuse by (simp add: rep_Message_def rep_Details_def StandardCborDecoder_def)
next
  case (M_RollBackward x)
  assume "message_ok m"
  then show ?thesis using M_RollBackward
    by (auto simp: rep_Message_def optional_ok_def decodable_Point decodable_Tip split: option.splits) (simp_all add: StandardCborDecoder_def)
qed (simp_all add: rep_Message_def decodable_Point decodable_Tip decodable_V1 decodable_V2 decodable_VersionMap decodable_bytes any_ok_modes,
  (simp_all add: StandardCborDecoder_def any_ok_def)?)

subsection \<open>Decoding the parts\<close>

lemma reads_Point:
  assumes "point_ok p"
  shows "reads (parse_Point env) p (marshal_Point p)"
proof -
  have d: "decodable defaultDecMode (rep_Point p)" "int (nest (rep_Point p)) \<le> dm_maxNestedLevels defaultDecMode"
    using decodable_Point [OF _ assms] by simp (simp add: defaultDecMode_def)
  have "Point_UnmarshalCBOR env (wire (rep_Point p)) = Ok p"
    unfolding Point_UnmarshalCBOR_def unmarshal_wire [OF d] using assms by (simp add: rep_Point_def point_ok_def rep_bytes_def)
  then show ?thesis
    by (simp add: reads_def parse_Point_def unmarshaler_wire [OF d, unfolded wire_Point] all_or_nothing_def wire_Point)
qed

lemma reads_word: "LENGTH('n) \<le> 64 \<Longrightarrow> reads (parse_uint env dm) (v :: 'n::len word) (encodeHead 0x00 (ucast v))"
  by (simp add: parse_uint_def reads_uint)

lemma reads_uint64: "reads (parse_uint env dm) (v :: uint64) (encodeHead 0x00 v)"
  using reads_word [where 'n = 64, of env dm v] by simp

lemma reads_uint16: "reads (parse_uint env dm) (v :: uint16) (encodeHead 0x00 (ucast v))"
  by (rule reads_word) simp

lemma reads_bytes: "length b < 2 ^ 63 \<Longrightarrow> reads (parse_bytes env dm) b (encode_HexBytes b)"
  by (simp add: parse_bytes_def reads_HexBytes)

lemma reads_marshal_bool: "reads (parseToValue env dm bool_target) b (marshal_bool b)"
  using reads_bool by (simp add: marshal_bool_def)

lemma parse_fields_Nil: "parse_fields [] s rest = ((s, Ok ()), rest)" by simp

lemmas field_steps = parse_field [OF reads_uint64] parse_field [OF reads_uint16] parse_field [OF reads_bytes] parse_field [OF reads_Point]
  parse_field [OF reads_marshal_bool] parse_field [OF reads_int] parse_field [OF reads_text] parse_field [OF reads_iface] parse_fields_Nil

lemma reads_struct:
  assumes "\<And>old rest. parse_fields fs old (concat bss @ rest) = ((s, Ok ()), rest)" "length bss = length fs" "length fs < 2 ^ 63"
  shows "reads (parseToValue env dm (struct_target fs)) s (enc_array bss)"
  using value_struct [OF assms] by (simp add: reads_def)

lemma reads_Tip: "tip_ok t \<Longrightarrow> reads (parse_PointAndBlockNum env dm) t (marshal_PointAndBlockNum t)"
  unfolding parse_PointAndBlockNum_def marshal_PointAndBlockNum_def
  by (rule reads_struct) (simp_all add: field_steps tip_ok_def del: parse_fields.simps)

lemma reads_V1: "reads (parse_VersionField1 env dm) v (marshal_VersionField1 v)"
  unfolding parse_VersionField1_def marshal_VersionField1_def
  by (rule reads_struct) (simp_all add: field_steps del: parse_fields.simps)

lemma reads_V2: "int64_ok (v2_PeerSharing v) \<Longrightarrow> reads (parse_VersionField2 env dm) v (marshal_VersionField2 v)"
  unfolding parse_VersionField2_def marshal_VersionField2_def
  by (rule reads_struct) (simp_all add: field_steps int64_ok_def del: parse_fields.simps)

lemma reads_Details: "length (rd_Reason d) < 2 ^ 63 \<Longrightarrow> dm_utf8 dm = UTF8DecodeInvalid \<Longrightarrow> reads (parse_RefuseDetails env dm) d (marshal_RefuseDetails d)"
  unfolding parse_RefuseDetails_def marshal_RefuseDetails_def
  by (rule reads_struct) (simp_all add: field_steps del: parse_fields.simps)

lemma reads_DataA: "length (da_BlockHeader d) < 2 ^ 63 \<Longrightarrow> reads (parse_DataA env dm) d (marshal_DataA d)"
  unfolding parse_DataA_def marshal_DataA_def
  by (rule reads_struct) (simp_all add: field_steps del: parse_fields.simps)

lemma reads_Era: "e \<le> 23 \<Longrightarrow> reads parse_Era e (encodeHead 0x00 e)"
proof -
  assume e: "e \<le> 23"
  have "Era_UnmarshalCBOR (encodeHead 0x00 e) = Ok e"
    using e by (simp add: Era_UnmarshalCBOR_def encodeHead_def word_le_nat_alt word_unat_eq_iff unsigned_ucast_eq unsigned_take_bit_eq take_bit_nat_eq_self)
  then show "reads parse_Era e (encodeHead 0x00 e)"
    using unmarshaler_wire [of defaultDecMode "AUint e" "\<lambda>bs. all_or_nothing (Era_UnmarshalCBOR bs)"]
    by (simp add: reads_def parse_Era_def all_or_nothing_def defaultDecMode_def)
qed


lemma field_reads: "reads p v b \<Longrightarrow> field get put p s (b @ rest) = ((put v s, Ok ()), rest)"
  by (simp add: field_def readsD)

lemma reads_VersionMap:
  assumes "versions_ok v"
  shows "reads (parse_VersionMap env dm) v (marshal_VersionMap v)"
proof -
  note V2 = reads_V2 [OF assms [unfolded versions_ok_def, THEN conjunct1]]
    reads_V2 [OF assms [unfolded versions_ok_def, THEN conjunct2, THEN conjunct1]]
    reads_V2 [OF assms [unfolded versions_ok_def, THEN conjunct2, THEN conjunct2]]
  let ?p = "parse_VersionField1 env dm" and ?q = "parse_VersionField2 env dm" and ?f = marshal_VersionField1 and ?g = marshal_VersionField2
  let ?es = "[(4, field vm_V4 (\<lambda>v. vm_V4_update (\<lambda>_. v)) ?p, ?f (vm_V4 v), vm_V4_update (\<lambda>_. vm_V4 v)),
    (5, field vm_V5 (\<lambda>v. vm_V5_update (\<lambda>_. v)) ?p, ?f (vm_V5 v), vm_V5_update (\<lambda>_. vm_V5 v)),
    (6, field vm_V6 (\<lambda>v. vm_V6_update (\<lambda>_. v)) ?p, ?f (vm_V6 v), vm_V6_update (\<lambda>_. vm_V6 v)),
    (7, field vm_V7 (\<lambda>v. vm_V7_update (\<lambda>_. v)) ?p, ?f (vm_V7 v), vm_V7_update (\<lambda>_. vm_V7 v)),
    (8, field vm_V8 (\<lambda>v. vm_V8_update (\<lambda>_. v)) ?p, ?f (vm_V8 v), vm_V8_update (\<lambda>_. vm_V8 v)),
    (9, field vm_V9 (\<lambda>v. vm_V9_update (\<lambda>_. v)) ?p, ?f (vm_V9 v), vm_V9_update (\<lambda>_. vm_V9 v)),
    (10, field vm_V10 (\<lambda>v. vm_V10_update (\<lambda>_. v)) ?p, ?f (vm_V10 v), vm_V10_update (\<lambda>_. vm_V10 v)),
    (11, field vm_V11 (\<lambda>v. vm_V11_update (\<lambda>_. v)) ?q, ?g (vm_V11 v), vm_V11_update (\<lambda>_. vm_V11 v)),
    (12, field vm_V12 (\<lambda>v. vm_V12_update (\<lambda>_. v)) ?q, ?g (vm_V12 v), vm_V12_update (\<lambda>_. vm_V12 v)),
    (13, field vm_V13 (\<lambda>v. vm_V13_update (\<lambda>_. v)) ?q, ?g (vm_V13 v), vm_V13_update (\<lambda>_. vm_V13 v))] :: (int \<times> VersionMap parser \<times> bytes \<times> (VersionMap \<Rightarrow> VersionMap)) list"
  have steps: "\<forall>(k, p, b, u)\<in>set ?es. \<forall>s rest. p s (b @ rest) = ((u s, Ok ()), rest)"
    by (simp add: field_reads [OF reads_V1] field_reads [OF V2(1)] field_reads [OF V2(2)] field_reads [OF V2(3)])
  have "map_fields dm (VersionMap_fields env dm) False (length ?es) [] old (concat (map (\<lambda>(k, p, b, u). encode_int k @ b) ?es) @ rest) = ((fold (\<lambda>(k, p, b, u). u) ?es old, Ok ()), rest)" for old rest
    by (rule map_entries) (use steps in \<open>simp_all add: VersionMap_fields_def find_field_def\<close>)
  then show ?thesis
    unfolding reads_def parse_VersionMap_def marshal_VersionMap_def
    by (intro allI value_keyed) simp_all
qed

lemma reads_DataB:
  assumes "data_ok (RollForwardB d)"
  shows "parse_DataB env defaultDecMode old (wire (rep_Data (RollForwardB d)) @ rest) = ((d, Ok ()), rest)"
proof -
  have a: "any_ok (db_A_A d)" "any_ok (db_A_B d)" "length (db_B d) < 2 ^ 63" using assms by auto
  let ?dm = defaultDecMode
  let ?A = "parseToValue env ?dm (struct_target
     [field db_A_A (\<lambda>v. db_A_A_update (\<lambda>_. v)) (parse_iface env ?dm), field db_A_B (\<lambda>v. db_A_B_update (\<lambda>_. v)) (parse_iface env ?dm)])"
  let ?a = "enc_array [wire (db_A_A d), wire (db_A_B d)]"
  have A: "?A s (?a @ r) = ((s\<lparr>db_A_A := db_A_A d, db_A_B := db_A_B d\<rparr>, Ok ()), r)" for s r
    by (rule value_struct) (simp_all add: field_steps any_ok_modes [OF a(1)] any_ok_modes [OF a(2)] del: parse_fields.simps)
  let ?H = "parseToValue env ?dm (struct_target [?A, field db_B (\<lambda>v. db_B_update (\<lambda>_. v)) (parse_bytes env ?dm)])"
  let ?h = "enc_array [?a, encode_HexBytes (db_B d)]"
  have H: "?H s (?h @ r) = ((s\<lparr>db_A_A := db_A_A d, db_A_B := db_A_B d, db_B := db_B d\<rparr>, Ok ()), r)" for s r
    by (rule value_struct) (simp_all add: parse_field_into [of ?A, OF A] field_steps a(3) [simplified] del: parse_fields.simps)
  have "parse_DataB env ?dm old (enc_array [encodeHead 0x00 (db_EraMaybe d), ?h] @ rest) = ((d, Ok ()), rest)"
    unfolding parse_DataB_def
    by (rule value_struct) (simp_all add: field_steps parse_field_into [of ?H, OF H] del: parse_fields.simps)
  then show ?thesis by (simp add: wire_array wire_bytes del: wire.simps(7))
qed


subsection \<open>Codecs of the parts\<close>

lemma nested_levels [simp]: "dm_maxNestedLevels defaultDecMode = 32" "dm_maxNestedLevels StandardCborDecoder = 32"
  by (simp_all add: defaultDecMode_def StandardCborDecoder_def)

lemma default_limits: "wide dm \<Longrightarrow> nest v \<le> 32 \<Longrightarrow> int (nest v) \<le> dm_maxNestedLevels dm"
  by (simp add: wide_def)

interpretation point: cbor_codec defaultDecMode "parse_Point env" marshal_Point rep_Point point_ok "\<lambda>old v. v" for env
  by unfold_locales (auto simp: wire_Point decodable_Point default_limits readsD [OF reads_Point])

interpretation tip: cbor_codec defaultDecMode "parse_PointAndBlockNum env defaultDecMode" marshal_PointAndBlockNum rep_Tip tip_ok "\<lambda>old v. v" for env
  by unfold_locales (auto simp: wire_Tip decodable_Tip default_limits readsD [OF reads_Tip])

interpretation optional_point: cbor_codec defaultDecMode "parse_pointer zero_point (parse_Point env)" "\<lambda>v. marshal_Point (the v)"
  "\<lambda>v. rep_Point (the v)" "\<lambda>v. v \<noteq> None \<and> point_ok (the v)" "\<lambda>old v. v" for env
proof unfold_locales
  fix v old rest
  assume v: "v \<noteq> None \<and> point_ok (the v)"
  then have "reads (parse_Point env) (the v) (marshal_Point (the v))" by (simp add: reads_Point)
  then have "reads (parse_pointer zero_point (parse_Point env)) (Some (the v)) (marshal_Point (the v))"
    unfolding marshal_Point_def by (rule reads_pointer)
  then show "parse_pointer zero_point (parse_Point env) old (marshal_Point (the v) @ rest) = ((v, Ok ()), rest)"
    using v by (auto simp: readsD)
qed (auto simp: wire_Point decodable_Point default_limits)

interpretation data_a: cbor_codec defaultDecMode "parse_DataA env defaultDecMode" marshal_DataA "\<lambda>d. rep_Data (RollForwardA d)"
  "\<lambda>d. data_ok (RollForwardA d)" "\<lambda>old v. v" for env
proof unfold_locales
  fix d assume d: "data_ok (RollForwardA d)"
  show "int (nest (rep_Data (RollForwardA d))) \<le> dm_maxNestedLevels defaultDecMode"
    using nest_Data [OF d] by (intro default_limits) simp_all
qed (use readsD [OF reads_DataA] in \<open>auto simp: wire_DataA decodable_Data simp del: wire.simps rep_Data.simps\<close>)

interpretation data_b: cbor_codec defaultDecMode "parse_DataB env defaultDecMode" "\<lambda>d. wire (rep_Data (RollForwardB d))" "\<lambda>d. rep_Data (RollForwardB d)"
  "\<lambda>d. data_ok (RollForwardB d)" "\<lambda>old v. v" for env
proof unfold_locales
  fix d assume d: "data_ok (RollForwardB d)"
  show "int (nest (rep_Data (RollForwardB d))) \<le> dm_maxNestedLevels defaultDecMode"
    using nest_Data [OF d] by (intro default_limits) simp_all
qed (use reads_DataB decodable_Data in \<open>auto simp del: wire.simps rep_Data.simps data_ok.simps\<close>)

text \<open>What stands for subtype B is not read as subtype A: an array is not taken for a byte string.\<close>

lemma array_no_bytes:
  assumes "length d < 2 ^ 63" "decodable dm (ASlice xs)" "int (nest (ASlice xs)) \<le> dm_maxNestedLevels dm"
  shows "\<exists>w. parse_bytes env dm old (enc_array [wire (ASlice xs), encode_HexBytes d] @ rest) = ((w, Err errType), rest)"
proof -
  let ?u = "parseToValue env dm (uint_target :: byte target)"
  have a: "?u 0 (wire (ASlice xs) @ r) = ((0, Err errType), r)" for r
    using item_wire [OF assms(2,3), of r] by (simp add: value_array uint_target_def skip_reject_def)
  have "\<exists>w e. ?u 0 (encode_HexBytes d @ rest) = ((w, e), rest) \<and> \<not> is_panic e"
    using value_bytes [of d env dm "uint_target :: byte target" 0 rest] value_null [of env dm "uint_target :: byte target" 0 rest] assms(1)
    by (auto simp: encode_HexBytes_def uint_target_def reject_def)
  then obtain w e where e: "?u 0 (encode_HexBytes d @ rest) = ((w, e), rest)" "\<not> is_panic e" by blast
  have "slice_elems ?u 0 False 2 (wire (ASlice xs) @ encode_HexBytes d @ rest) = (([0, w], Err errType), rest)"
    unfolding numeral_2_eq_2 using a [of "encode_HexBytes d @ rest"] e by (cases e) (simp_all del: wire.simps)
  then show ?thesis
    using value_array [of env dm "bytes_target env dm" old 2 "wire (ASlice xs) @ encode_HexBytes d @ rest"]
      getHead_encodeHead [of "0x80" 2 "wire (ASlice xs) @ encode_HexBytes d @ rest"]
    by (simp add: parse_bytes_def enc_array_def bytes_target_def slice_target_def parseArrayToSlice_def ai_of_definite del: wire.simps slice_elems.simps)
qed

lemma DataA_rejects_B:
  assumes "data_ok (RollForwardB d)"
  shows "\<exists>v. Unmarshal defaultDecMode (parse_DataA env defaultDecMode) (wire (rep_Data (RollForwardB d))) zero_A = (v, Err errType)"
proof -
  let ?dm = defaultDecMode
  let ?h = "enc_array [wire (ASlice [db_A_A d, db_A_B d]), encode_HexBytes (db_B d)]"
  have n: "decodable ?dm (ASlice [db_A_A d, db_A_B d])" "nest (ASlice [db_A_A d, db_A_B d]) \<le> 32"
    using assms by (auto simp: any_ok_modes) (auto simp: defaultDecMode_def dest!: any_ok_modes(4))
  obtain w where w: "parse_bytes env ?dm [] ?h = ((w, Err errType), [])"
    using array_no_bytes [OF _ n(1) default_limits [OF _ n(2)], of "db_B d" env "[]" "[]"] assms by auto
  have "parse_fields [field da_Number (\<lambda>v. da_Number_update (\<lambda>_. v)) (parse_uint env ?dm), field da_BlockHeader (\<lambda>v. da_BlockHeader_update (\<lambda>_. v)) (parse_bytes env ?dm)]
      zero_A (encodeHead 0x00 (db_EraMaybe d) @ ?h) = ((\<lparr>da_Number = db_EraMaybe d, da_BlockHeader = w\<rparr>, Err errType), [])"
    using w by (simp add: parse_field [OF reads_uint64] del: parse_fields.simps) (simp add: field_def zero_A_def)
  then have "parse_DataA env ?dm zero_A (enc_array [encodeHead 0x00 (db_EraMaybe d), ?h]) = ((\<lparr>da_Number = db_EraMaybe d, da_BlockHeader = w\<rparr>, Err errType), [])"
    using getHead_encodeHead [of "0x80" 2 "encodeHead 0x00 (db_EraMaybe d) @ ?h"] value_array [of env ?dm _ zero_A 2 "encodeHead 0x00 (db_EraMaybe d) @ ?h"]
    by (simp add: parse_DataA_def enc_array_def struct_target_def parseArrayToStruct_def ai_of_definite del: wire.simps parse_fields.simps)
  moreover have "wellformed ?dm False False (wire (rep_Data (RollForwardB d))) = Ok []"
    using wire_wellformed [OF data_b.rep_decodable data_b.rep_nest, of d False "[]" False] assms by simp
  ultimately show ?thesis by (simp add: Unmarshal_def wire_array wire_bytes del: wire.simps(7))
qed

lemma reads_Data:
  assumes "data_ok d"
  shows "reads (parse_RollForwardData env) d (wire (rep_Data d))"
proof -
  have d: "decodable defaultDecMode (rep_Data d)" "int (nest (rep_Data d)) \<le> dm_maxNestedLevels defaultDecMode"
    using decodable_Data [OF assms] nest_Data [OF assms] by (auto intro!: default_limits)
  have "SubtypeOf_UnmarshalCBOR (RollForwardData_Subtypes env) (wire (rep_Data d)) = Ok d"
  proof (cases d)
    case (RollForwardA x)
    then show ?thesis using data_a.Unmarshal_enc [of x env zero_A] assms
      by (simp add: RollForwardData_Subtypes_def fresh_value_def wire_DataA del: wire.simps rep_Data.simps)
  next
    case (RollForwardB x)
    then show ?thesis using data_b.Unmarshal_enc [of x env zero_B] DataA_rejects_B [of x env] assms
      by (auto simp: RollForwardData_Subtypes_def fresh_value_def simp del: wire.simps rep_Data.simps)
  qed (use assms in simp)
  then show ?thesis
    by (simp add: reads_def parse_RollForwardData_def unmarshaler_wire [OF d] all_or_nothing_def del: wire.simps)
qed

lemma reads_Optional:
  assumes "op_Value opt = Some p" "op_Valid opt" "point_ok p"
  shows "reads (parse_OptionalPoint env) opt (marshal_Point p)"
proof -
  have d: "decodable defaultDecMode (rep_Point p)" "int (nest (rep_Point p)) \<le> dm_maxNestedLevels defaultDecMode"
    using decodable_Point [OF _ assms(3)] by (auto intro!: default_limits)
  show ?thesis using assms(1,2) optional_point.Unmarshal_enc [of "Some p" env] assms(3)
    by (simp add: reads_def parse_OptionalPoint_def unmarshaler_wire [OF d, unfolded wire_Point] Optional_UnmarshalCBOR_def)
qed


subsection \<open>Decoding a message\<close>

lemma message_struct_reads:
  assumes "parse_fields fs (old\<lparr>ws_Subprotocol := s\<rparr>) (concat bss @ rest) = ((v, Ok ()), rest)" "length bss = length fs" "length fs < 100"
  shows "parse_message_struct env dm fs old (enc_array (encodeHead 0x00 (ucast s) # bss) @ rest) = ((v, Ok ()), rest)"
  unfolding parse_message_struct_def
  by (rule value_struct) (use assms in \<open>simp_all add: field_steps(2) del: parse_fields.simps\<close>)

lemma has_type_zero: "has_type ty (zero_message ty)"
  by (cases ty) (simp_all add: has_type_def)

lemma as_type_has: "has_type ty (as_type ty m)"
  by (simp add: as_type_def has_type_zero)

lemma has_type_Bare: "has_type ty m \<Longrightarrow> zero_message ty = Bare ty \<lparr>ws_raw = [], ws_Subprotocol = 0\<rparr> \<Longrightarrow> \<exists>w. m = Bare ty w"
  by (cases m) (auto simp: has_type_def)

lemma has_type_inject:
  "has_type MessageProposeVersions m \<Longrightarrow> \<exists>x. m = M_ProposeVersions x"
  "has_type MessageAcceptVersionNtN m \<Longrightarrow> \<exists>x. m = M_AcceptVersionNtN x"
  "has_type MessageAcceptVersionNtC m \<Longrightarrow> \<exists>x. m = M_AcceptVersionNtC x"
  "has_type MessageRefuse m \<Longrightarrow> \<exists>x. m = M_Refuse x"
  "has_type MessageRollForward m \<Longrightarrow> \<exists>x. m = M_RollForward x"
  "has_type MessageRollBackward m \<Longrightarrow> \<exists>x. m = M_RollBackward x"
  "has_type MessageFindIntersect m \<Longrightarrow> \<exists>x. m = M_FindIntersect x"
  "has_type MessageIntersectFound m \<Longrightarrow> \<exists>x. m = M_IntersectFound x"
  "has_type MessageIntersectNotFound m \<Longrightarrow> \<exists>x. m = M_IntersectNotFound x"
  "has_type MessageRequestRange m \<Longrightarrow> \<exists>x. m = M_RequestRange x"
  "has_type MessageBlock m \<Longrightarrow> \<exists>x. m = M_Block x"
  "has_type MessageKeepAlive m \<Longrightarrow> \<exists>x. m = M_KeepAlive x"
  "has_type MessageKeepAliveResponse m \<Longrightarrow> \<exists>x. m = M_KeepAliveResponse x"
  "has_type MessageLocalStateQuery m \<Longrightarrow> \<exists>x. m = M_LocalStateQuery x"
  "has_type MessageLocalStateResult m \<Longrightarrow> \<exists>x. m = M_LocalStateResult x"
  "has_type MessageSubmitTx m \<Longrightarrow> \<exists>x. m = M_SubmitTx x"
  "has_type MessageRejectTx m \<Longrightarrow> \<exists>x. m = M_RejectTx x"
  by (cases m; force simp: has_type_def)+

lemma reads_Points:
  assumes "\<forall>p\<in>set ps. point_ok p" "length ps \<le> 2147483647"
  shows "reads (parseToValue env dm (slice_target (parse_Point env) zero_point)) ps (encode_slice marshal_Point ps)"
  by (rule reads_encode_slice) (use assms reads_Point in auto)

lemmas message_steps = field_steps parse_field [OF reads_Tip] parse_field [OF reads_V1] parse_field [OF reads_V2] parse_field [OF reads_Details]
  parse_field [OF reads_Points] parse_field [OF reads_VersionMap] parse_field [OF reads_Era] parse_field [OF reads_Data] parse_field [OF reads_Optional]

lemmas message_defs = in_message_def message_GetSubprotocol_def GetSubprotocol_def message_Raw_def Raw_def SetRaw_def WithSubprotocol.truncate_def

lemma std_utf8: "dm_utf8 StandardCborDecoder = UTF8DecodeInvalid"
  by (simp add: StandardCborDecoder_def)

theorem parse_Message_wire:
  assumes "message_ok m" "has_type (message_type m) old"
  shows "parse_Message env StandardCborDecoder old (wire (rep_Message m) @ rest) = ((message_SetRaw (message_Raw old) m, Ok ()), rest)"
proof (cases m)
  case (Bare ty w)
  then show ?thesis using assms has_type_Bare [of ty old]
    by (auto simp: wire_Message message_defs message_struct_reads message_steps simp del: parse_fields.simps wire.simps(7))
next
  case (M_RollBackward x)
  then obtain y p where y: "old = M_RollBackward y" "op_Value (bw_Point x) = Some p" "op_Valid (bw_Point x)" "point_ok p" "tip_ok (bw_Tip x)"
    using assms has_type_inject(6) [of old] by (auto simp: optional_ok_def split: option.splits)
  then show ?thesis using M_RollBackward
    by (simp add: wire_Message wire_parts message_defs message_struct_reads message_steps del: parse_fields.simps wire.simps(7))
next
  case (M_RollForward x)
  then show ?thesis using assms has_type_inject(5) [of old]
    by (auto simp: wire_Message wire_Tip message_defs message_struct_reads message_steps simp del: parse_fields.simps wire.simps data_ok.simps rep_Data.simps)
next
  case (M_LocalStateQuery x)
  then show ?thesis using assms any_ok_modes [of "lq_Query x"] has_type_inject(14) [of old]
    by (auto simp: wire_Message message_defs message_struct_reads message_steps simp del: parse_fields.simps wire.simps)
next
  case (M_LocalStateResult x)
  then show ?thesis using assms any_ok_modes [of "lr_Result x"] has_type_inject(15) [of old]
    by (auto simp: wire_Message message_defs message_struct_reads message_steps simp del: parse_fields.simps wire.simps)
qed (use assms in \<open>auto simp: wire_Message wire_parts message_defs message_struct_reads message_steps std_utf8 dest!: has_type_inject
  simp del: parse_fields.simps wire.simps(7)\<close>)


interpretation std: cbor_codec StandardCborDecoder "\<lambda>old. parse_Message env StandardCborDecoder (as_type ty old)" "\<lambda>m. wire (rep_Message m)"
  rep_Message "\<lambda>m. message_type m = ty \<and> message_ok m" "\<lambda>old m. message_SetRaw (message_Raw (as_type ty old)) m" for env ty
  by unfold_locales (use decodable_Message parse_Message_wire as_type_has in auto)

interpretation elements: cbor_codec StandardCborDecoder "parseToValue env StandardCborDecoder (slice_target (parse_iface env StandardCborDecoder) ANil)"
  "\<lambda>vs. wire (ASlice vs)" ASlice "\<lambda>vs. decodable StandardCborDecoder (ASlice vs) \<and> nest (ASlice vs) \<le> 32" "\<lambda>old vs. vs" for env
proof unfold_locales
  fix vs old rest
  assume v: "decodable StandardCborDecoder (ASlice vs) \<and> nest (ASlice vs) \<le> 32"
  then have "list_all2 (\<lambda>v b. \<forall>rest. parse_iface env StandardCborDecoder ANil (b @ rest) = ((v, Ok ()), rest)) vs (map wire vs)"
    by (auto simp: list_all2_conv_all_nth iface_fresh)
  then have "reads (parseToValue env StandardCborDecoder (slice_target (parse_iface env StandardCborDecoder) ANil)) vs (enc_array (map wire vs))"
    by (rule reads_slice) (use v in simp)
  then show "parseToValue env StandardCborDecoder (slice_target (parse_iface env StandardCborDecoder) ANil) old (wire (ASlice vs) @ rest) = ((vs, Ok ()), rest)"
    by (simp add: wire_array readsD del: wire.simps)
qed auto

text \<open>A block message in the mode that \<open>nextBlocks\<close> decodes with.\<close>

interpretation block: cbor_codec defaultDecMode "\<lambda>old. parse_Message env defaultDecMode (as_type MessageBlock old)" "\<lambda>m. wire (rep_Message m)"
  rep_Message "\<lambda>m. message_type m = MessageBlock \<and> message_ok m" "\<lambda>old m. message_SetRaw (message_Raw (as_type MessageBlock old)) m" for env
proof unfold_locales
  fix m old rest
  assume m: "message_type m = MessageBlock \<and> message_ok m"
  then obtain x where x: "m = M_Block x" "length (mb_BlockData x) < 2 ^ 63" by (cases m) auto
  obtain y where "as_type MessageBlock old = M_Block y" using has_type_inject(11) [OF as_type_has] by blast
  then show "parse_Message env defaultDecMode (as_type MessageBlock old) (wire (rep_Message m) @ rest) =
      ((message_SetRaw (message_Raw (as_type MessageBlock old)) m, Ok ()), rest)"
    using x by (simp add: wire_Message wire_parts message_defs message_struct_reads message_steps del: parse_fields.simps wire.simps)
next
  fix m assume "message_type m = MessageBlock \<and> message_ok m"
  then obtain x where "m = M_Block x" "length (mb_BlockData x) < 2 ^ 63" by (cases m) auto
  then show "decodable defaultDecMode (rep_Message m)" "int (nest (rep_Message m)) \<le> dm_maxNestedLevels defaultDecMode"
    by (simp_all add: rep_Message_def decodable_bytes) (simp add: defaultDecMode_def)
qed simp

subsection \<open>The decoder of the reader\<close>

lemma SetRaw_twice: "message_SetRaw a (message_SetRaw b m) = message_SetRaw a m"
  by (cases m) (simp_all add: SetRaw_def)

lemma std_first:
  "message_ok m \<Longrightarrow> cd_first (std_decoder env) (wire (rep_Message m) @ rest) = Ok (AUint (ucast (message_GetSubprotocol m)) # rep_fields m, rest)"
  using elements.UnmarshalFirst_enc [of "AUint (ucast (message_GetSubprotocol m)) # rep_fields m" env rest "[]"] decodable_Message [of m]
  by (simp add: std_decoder_def decoded_def rep_Message_def del: wire.simps)

lemma std_into:
  "message_ok m \<Longrightarrow> cd_into (std_decoder env) (message_type m) old (wire (rep_Message m)) =
     (message_SetRaw (message_Raw (as_type (message_type m) old)) m, Ok ())"
  using std.wellformed_enc [of m "message_type m"] std.parses_enc [of m "message_type m" env _ "[]"] by (simp add: std_decoder_def Unmarshal_def)

lemma subprotocol_bits: "ucast (ucast s :: uint64) = (s :: uint16)"
  by (rule ucast_up_ucast_id) (simp add: is_up)

lemma nextMessage_wire:
  assumes "message_ok m" "ProtocolToMessage P (message_GetSubprotocol m) = Ok (message_type m)"
  shows "nextMessage (std_decoder env) P (wire (rep_Message m) @ rest) st =
    (Ok (Shared (message_type m), rest), set_shared (message_type m) (message_SetRaw (wire (rep_Message m)) m) st)"
proof -
  have "cd_setRaw (std_decoder env) = message_SetRaw" by (simp add: std_decoder_def)
  then show ?thesis using assms
    by (simp add: nextMessage_def std_first subprotocol_bits Let_def std_into SetRaw_twice)
qed


text \<open>The outcome of decoding does not depend on the message that the object held before.\<close>

lemma uniform_uint: "uniform (parse_uint env dm)"
  by (simp add: parse_uint_def uniform_value)

lemma uniform_bytes: "uniform (parse_bytes env dm)"
  by (simp add: parse_bytes_def uniform_value)

lemma snd_all_or_nothing: "snd (all_or_nothing r old) = snd (all_or_nothing r old')"
  by (cases r) (simp_all add: all_or_nothing_def)

lemma uniform_nothing: "uniform (parse_Point env)" "uniform parse_Era" "uniform (parse_RollForwardData env)"
  unfolding parse_Point_def parse_Era_def parse_RollForwardData_def by (intro uniform_unmarshaler snd_all_or_nothing)+

lemma uniform_Optional: "uniform (parse_OptionalPoint env)"
proof -
  let ?u = "Unmarshal defaultDecMode (parse_pointer zero_point (parse_Point env))"
  have "snd (Optional_UnmarshalCBOR ?u b old) = snd (Optional_UnmarshalCBOR ?u b old')" for b old old'
    using uniform_Unmarshal [OF uniform_pointer [OF uniform_nothing(1)], of defaultDecMode zero_point env b "op_Value old" "op_Value old'"]
    by (auto simp: Optional_UnmarshalCBOR_def split: prod.split)
  then show ?thesis unfolding parse_OptionalPoint_def by (rule uniform_unmarshaler)
qed

lemmas uniform_atoms = uniform_uint uniform_bytes uniform_nothing uniform_Optional uniform_iface

lemma uniform_parts:
  "uniform (parse_PointAndBlockNum env dm)" "uniform (parse_VersionField1 env dm)" "uniform (parse_VersionField2 env dm)"
  "uniform (parse_RefuseDetails env dm)"
  unfolding parse_PointAndBlockNum_def parse_VersionField1_def parse_VersionField2_def parse_RefuseDetails_def
  by (rule uniform_value, rule uniform_struct, simp add: uniform_field uniform_atoms uniform_value)+

lemma uniform_VersionMap: "uniform (parse_VersionMap env dm)"
  unfolding parse_VersionMap_def VersionMap_fields_def
  by (rule uniform_value, rule uniform_keyed) (simp add: uniform_field uniform_parts)

lemma uniform_message_struct: "list_all uniform fs \<Longrightarrow> uniform (parse_message_struct env dm fs)"
  unfolding parse_message_struct_def by (rule uniform_value, rule uniform_struct) (simp add: uniform_field uniform_uint)

lemma verdict_in_message: "verdict (in_message c p m data) = verdict (p m data)"
  by (cases "p m data") (auto simp: in_message_def)

lemma uniform_Message:
  assumes "has_type ty m" "has_type ty m'"
  shows "verdict (parse_Message env dm m data) = verdict (parse_Message env dm m' data)"
proof -
  have u: "verdict (parse_message_struct env dm fs x data) = verdict (parse_message_struct env dm fs y data)" if "list_all uniform fs" for fs x y
    by (rule uniformD [OF uniform_message_struct [OF that]])
  have "\<exists>c x y. m = Bare ty x \<and> m' = Bare ty y" if "zero_message ty = Bare ty \<lparr>ws_raw = [], ws_Subprotocol = 0\<rparr>"
    using has_type_Bare assms that by blast
  then show ?thesis using assms
    by (cases ty) (auto dest!: has_type_inject simp: verdict_in_message uniform_field uniform_atoms uniform_parts uniform_VersionMap uniform_value intro!: u)
qed

lemma std_stable: "stable (std_decoder env)"
proof -
  have "snd (Unmarshal StandardCborDecoder (parse_Message env StandardCborDecoder) data (as_type ty v)) =
      snd (Unmarshal StandardCborDecoder (parse_Message env StandardCborDecoder) data (as_type ty w))" for ty v w data
    using uniform_Message [OF as_type_has as_type_has, of env StandardCborDecoder ty v data w]
    by (auto simp: Unmarshal_def verdict_def split: res.split)
  then show ?thesis by (simp add: stable_def std_decoder_def)
qed

subsection \<open>From segment to reader\<close>

text \<open>Adding messages until one is refused.\<close>

fun add_all :: "Message list \<Rightarrow> Message Segment \<Rightarrow> unit res \<times> Message Segment" where
  "add_all [] s = (Ok (), s)"
| "add_all (m # ms) s = (case AddMessage message_type m s of (Ok _, s') \<Rightarrow> add_all ms s' | r \<Rightarrow> r)"

lemma add_all_Ok:
  "\<forall>m\<in>set ms. map_of MessageProtocolMap (message_type m) = Some P \<Longrightarrow> sg_messages s = [] \<or> sg_Protocol s = P \<Longrightarrow> ms \<noteq> [] \<Longrightarrow>
   add_all ms s = (Ok (), s\<lparr>sg_Protocol := P, sg_messages := sg_messages s @ ms\<rparr>)"
proof (induction ms arbitrary: s)
  case (Cons m ms)
  have a: "AddMessage message_type m s = (Ok (), s\<lparr>sg_Protocol := P, sg_messages := sg_messages s @ [m]\<rparr>)"
    using Cons.prems by (auto simp: AddMessage_def)
  show ?case
  proof (cases "ms = []")
    case False
    then show ?thesis using a Cons by simp
  qed (use a in simp)
qed simp

text \<open>What a connection carries: a message that \<open>message_ok\<close> admits and whose number pair leads back to its type.\<close>

definition sendable :: "Protocol \<Rightarrow> Message \<Rightarrow> bool" where
  "sendable P m \<longleftrightarrow> message_ok m \<and> MessageToProtocol (message_type m) = Ok (P, message_GetSubprotocol m) \<and>
     message_type m \<noteq> MessageStartBatch \<and> message_type m \<noteq> MessageAcceptVersionNtN"

lemma sendableD:
  assumes "sendable P m"
  shows "message_ok m" "map_of MessageProtocolMap (message_type m) = Some P" "ProtocolToMessage P (message_GetSubprotocol m) = Ok (message_type m)"
    "message_type m \<noteq> MessageStartBatch"
proof -
  show "message_ok m" "message_type m \<noteq> MessageStartBatch" using assms by (simp_all add: sendable_def)
  show "map_of MessageProtocolMap (message_type m) = Some P"
    using assms by (auto simp: sendable_def MessageToProtocol_def split: option.splits)
  show "ProtocolToMessage P (message_GetSubprotocol m) = Ok (message_type m)"
    using assms by (cases "message_type m") (auto simp: sendable_def MessageToProtocol_def ProtocolToMessage_def protocol_tables)
qed

lemma protocol_bound: "map_of MessageProtocolMap ty = Some P \<Longrightarrow> P \<le> 10"
  by (cases ty) (auto simp: protocol_tables)

definition message_bytes :: "Message \<Rightarrow> bytes" where
  "message_bytes m = wire (rep_Message m)"

definition deliver :: "Message \<Rightarrow> Message msg_store \<Rightarrow> Message msg_store" where
  "deliver m st = set_shared (message_type m) (message_SetRaw (message_bytes m) m) st"

lemma next_messages_sendable:
  "\<forall>m\<in>set ms. sendable P m \<Longrightarrow> length (concat (map (message_bytes) ms)) \<le> f \<Longrightarrow>
   next_messages f (std_decoder env) P (concat (map (message_bytes) ms)) False st =
     ((map (Shared \<circ> message_type) ms, [], Ok ()), False, fold deliver ms st)"
proof (induction ms arbitrary: f st)
  case (Cons m ms)
  let ?w = "message_bytes m" and ?rest = "concat (map (message_bytes) ms)"
  note m = sendableD [of P m]
  have ne: "?w \<noteq> []" using decodable_Message m(1) Cons.prems(1) wire_not_Nil by (auto simp: message_bytes_def)
  then obtain g where f: "f = Suc g" "length ?rest \<le> g" using Cons.prems(2) by (cases ?w; cases f) auto
  have "nextMessage (std_decoder env) P (?w @ ?rest) st = (Ok (Shared (message_type m), ?rest), deliver m st)"
    using nextMessage_wire m Cons.prems(1) by (simp add: deliver_def message_bytes_def)
  then show ?case using Cons f ne m(4) by (simp del: wire.simps)
qed (simp add: next_messages_Nil)

lemma deliver_heap: "ms_heap (deliver m st) = (ms_heap st)(Shared (message_type m) \<mapsto> \<lparr>mo_type = message_type m, mo_content = message_SetRaw (message_bytes m) m\<rparr>)"
  by (simp add: deliver_def set_shared_def)

lemma deliver_all:
  "distinct (map message_type ms) \<Longrightarrow> m \<in> set ms \<Longrightarrow>
   map_option mo_content (ms_heap (fold deliver ms st) (Shared (message_type m))) = Some (message_SetRaw (message_bytes m) m)"
proof (induction ms arbitrary: st)
  case (Cons a ms)
  have keep: "p \<notin> Shared ` message_type ` set ms \<Longrightarrow> ms_heap (fold deliver ms s) p = ms_heap s p" for p s
    by (induction ms arbitrary: s) (auto simp: deliver_heap)
  show ?case
  proof (cases "m = a")
    case True
    then show ?thesis using Cons.prems(1) by (subst fold_Cons) (auto simp: keep deliver_heap image_iff)
  next
    case False
    then show ?thesis using Cons by auto
  qed
qed simp

subsection \<open>Properties\<close>

text \<open>Claim C4 (messages_delivered): Messages of different types of one protocol, added to a new segment, are marshalled, and when the bytes have less
  than 65536 bytes of payload, the reader returns the messages in order with the contents that were sent, however the payload is
  cut into reads, and is ready for the next segment.\<close>

theorem messages_delivered:
  assumes "fair_order env" "ms \<noteq> []" "\<forall>m\<in>set ms. sendable P m" "distinct (map message_type ms)" "sg_messages sg = []" "sg_Payload sg = []"
    "clean r"
  shows "\<exists>sg1 out sg2. add_all ms sg = (Ok (), sg1) \<and> MarshalDataItem (Marshal_Message env) sg1 = (Ok out, sg2) \<and>
    (length (sg_Payload sg2) < 65536 \<longrightarrow> (\<forall>c cs. list_all (\<lambda>c. c \<noteq> []) (c # cs) \<longrightarrow> concat (c # cs) = sg_Payload sg2 \<longrightarrow>
      (\<exists>r' st'. feed (zero_message MessageBatchDone) (std_decoder env') ((take 8 out @ c) # cs) r st = Some (Ok (), map (Shared \<circ> message_type) ms, r', st') \<and>
         clean r' \<and> (\<forall>m\<in>set ms. \<exists>b. Marshal_Message env m = Ok b \<and>
           map_option mo_content (ms_heap st' (Shared (message_type m))) = Some (message_SetRaw b m)))))"
proof -
  let ?sg1 = "sg\<lparr>sg_Protocol := P, sg_messages := ms\<rparr>" and ?bs = "map (message_bytes) ms"
  let ?sg2 = "?sg1\<lparr>sg_Payload := concat ?bs, sg_PayloadLength := of_nat (length (concat ?bs))\<rparr>"
  have add: "add_all ms sg = (Ok (), ?sg1)" using add_all_Ok [of ms P sg] assms sendableD(2) by auto
  have enc: "\<forall>m\<in>set ms. Marshal_Message env m = Ok (message_bytes m)" using marshal_Message [OF assms(1)] assms(3) sendableD(1) by (auto simp: message_bytes_def)
  then have "list_all2 (\<lambda>m b. Marshal_Message env m = Ok b) (sg_messages ?sg1) ?bs" by (auto simp: list_all2_conv_all_nth)
  then have out: "MarshalDataItem (Marshal_Message env) ?sg1 = (Ok (header (sg_Timestamp sg) P (of_nat (length (concat ?bs))) @ concat ?bs), ?sg2)"
    using MarshalDataItem_OkI [of "Marshal_Message env" ?sg1 ?bs] assms(6) by (simp del: map_map)
  have p: "P \<le> 10" using assms(2,3) sendableD(2) protocol_bound by (metis list.set_intros(1) neq_Nil_conv)
  have n: "nextMessages (std_decoder env') P (concat ?bs) False st = ((map (Shared \<circ> message_type) ms, [], Ok ()), False, fold deliver ms st)"
    unfolding nextMessages_def by (rule next_messages_sendable [OF assms(3)]) simp
  have "\<exists>r' st'. feed (zero_message MessageBatchDone) (std_decoder env') ((header (sg_Timestamp sg) P (of_nat (length (concat ?bs))) @ c) # cs) r st =
      Some (Ok (), map (Shared \<circ> message_type) ms, r', st') \<and> clean r' \<and> (\<forall>m\<in>set ms. \<exists>b. Marshal_Message env m = Ok b \<and>
           map_option mo_content (ms_heap st' (Shared (message_type m))) = Some (message_SetRaw b m))"
    if cut: "length (concat ?bs) < 65536" "list_all (\<lambda>c. c \<noteq> []) (c # cs)" "concat (c # cs) = concat ?bs" for c cs
  proof -
    have len: "length (concat (c # cs)) = unat (of_nat (length (concat ?bs)) :: uint16)" unfolding cut(3) using cut(1) by (simp add: unat_of_nat)
    have n': "nextMessages (std_decoder env') P (concat (c # cs)) False st = ((map (Shared \<circ> message_type) ms, [], Ok ()), False, fold deliver ms st)"
      unfolding cut(3) by (rule n)
    from feed_segment [OF assms(7) p cut(2) len n'] obtain r' where "clean r'" "feed (zero_message MessageBatchDone) (std_decoder env')
        ((header (sg_Timestamp sg) P (of_nat (length (concat ?bs))) @ c) # cs) r st = Some (Ok (), map (Shared \<circ> message_type) ms, r', fold deliver ms st)"
      by blast
    then show ?thesis using deliver_all [OF assms(4)] enc by blast
  qed
  note delivered = this
  let ?out = "header (sg_Timestamp sg) P (of_nat (length (concat ?bs))) @ concat ?bs"
  have t: "take 8 ?out = header (sg_Timestamp sg) P (of_nat (length (concat ?bs)))" "sg_Payload ?sg2 = concat ?bs" by simp_all
  show ?thesis
    by (rule exI [of _ ?sg1], rule exI [of _ ?out], rule exI [of _ ?sg2], unfold t, intro conjI impI allI) (use add out delivered in blast)+
qed


definition ex_messages :: "Message list" where
  "ex_messages = [Bare MessageRequestNext \<lparr>ws_raw = [], ws_Subprotocol = 0\<rparr>,
     M_FindIntersect \<lparr>ws_raw = [], ws_Subprotocol = 4, fi_Points = [\<lparr>pt_Slot = 5, pt_Hash = [7]\<rparr>]\<rparr>]"

definition ex_empty :: "Message Segment" where
  "ex_empty = \<lparr>sg_Timestamp = 5, sg_Protocol = 0, sg_PayloadLength = 0, sg_Payload = [], sg_Direction = DirectionIn, sg_messages = []\<rparr>"

lemma ex_sendable: "\<forall>m\<in>set ex_messages. sendable 2 m" "distinct (map message_type ex_messages)"
  by (simp_all add: ex_messages_def sendable_def MessageToProtocol_def protocol_tables message_defs point_ok_def)

lemma ex_added: "add_all ex_messages ex_empty = (Ok (), ex_empty\<lparr>sg_Protocol := 2, sg_messages := ex_messages\<rparr>)"
  by (simp add: ex_messages_def ex_empty_def AddMessage_def protocol_tables)

lemma ex_marshalled:
  "MarshalDataItem (Marshal_Message ex_order) (ex_empty\<lparr>sg_Protocol := 2, sg_messages := ex_messages\<rparr>) =
     (Ok (header 5 2 9 @ [0x81, 0x00, 0x82, 0x04, 0x81, 0x82, 0x05, 0x41, 0x07]),
      ex_empty\<lparr>sg_Protocol := 2, sg_messages := ex_messages, sg_Payload := [0x81, 0x00, 0x82, 0x04, 0x81, 0x82, 0x05, 0x41, 0x07], sg_PayloadLength := 9\<rparr>)"
  by (simp add: MarshalDataItem_def ex_messages_def ex_empty_def enc_message_cases encode_slice_def marshal_Point_def encode_HexBytes_def encode_bytes_def
    enc_array_def encodeHead_def Let_def header_def)

theorem messages_delivered_witness:
  "\<exists>r' st'. feed (zero_message MessageBatchDone) (std_decoder ex_order) [header 5 2 9 @ [0x81, 0x00, 0x82], [0x04, 0x81, 0x82, 0x05, 0x41, 0x07]]
      NewMessageReader \<lparr>ms_heap = Map.empty, ms_next = 0\<rparr> = Some (Ok (), [Shared MessageRequestNext, Shared MessageFindIntersect], r', st') \<and>
     clean r' \<and> (\<exists>b. map_option mo_content (ms_heap st' (Shared MessageFindIntersect)) =
       Some (M_FindIntersect \<lparr>ws_raw = b, ws_Subprotocol = 4, fi_Points = [\<lparr>pt_Slot = 5, pt_Hash = [7]\<rparr>]\<rparr>))"
proof -
  have o: "fair_order ex_order" "ex_messages \<noteq> []" "sg_messages ex_empty = []" "sg_Payload ex_empty = []"
    by (simp_all add: fair_order_def ex_order_def ex_messages_def ex_empty_def)
  from messages_delivered [OF o(1,2) ex_sendable o(3,4) clean_new] obtain sg1 out sg2 where sg: "add_all ex_messages ex_empty = (Ok (), sg1)"
    "MarshalDataItem (Marshal_Message ex_order) sg1 = (Ok out, sg2)"
    "length (sg_Payload sg2) < 65536 \<longrightarrow> (\<forall>c cs. list_all (\<lambda>c. c \<noteq> []) (c # cs) \<longrightarrow> concat (c # cs) = sg_Payload sg2 \<longrightarrow>
      (\<exists>r' st'. feed (zero_message MessageBatchDone) (std_decoder ex_order) ((take 8 out @ c) # cs) NewMessageReader \<lparr>ms_heap = Map.empty, ms_next = 0\<rparr> =
          Some (Ok (), map (Shared \<circ> message_type) ex_messages, r', st') \<and>
         clean r' \<and> (\<forall>m\<in>set ex_messages. \<exists>b. Marshal_Message ex_order m = Ok b \<and>
           map_option mo_content (ms_heap st' (Shared (message_type m))) = Some (message_SetRaw b m))))"
    by blast
  from sg(1) ex_added have "sg1 = ex_empty\<lparr>sg_Protocol := 2, sg_messages := ex_messages\<rparr>" by simp
  with sg(2) ex_marshalled have out: "out = header 5 2 9 @ [0x81, 0x00, 0x82, 0x04, 0x81, 0x82, 0x05, 0x41, 0x07]"
    "sg_Payload sg2 = [0x81, 0x00, 0x82, 0x04, 0x81, 0x82, 0x05, 0x41, 0x07]" by auto
  from sg(3) [unfolded out, rule_format, of "[0x81, 0x00, 0x82]" "[[0x04, 0x81, 0x82, 0x05, 0x41, 0x07]]"] show ?thesis
    by (simp add: ex_messages_def SetRaw_def del: feed.simps) blast
qed


text \<open>A complete segment that cannot be decoded stays in the buffer: every later read of any data returns the same
  error and no message, and leaves the reader as it was.\<close>

theorem reader_stuck_after_error:
  assumes "mr_buffer r \<noteq> []" "length (mr_buffer r) = unat (mr_length r)" "\<not> mr_batching r"
    and "nextMessages (std_decoder env) (mr_protocol r) (mr_buffer r) False st0 = ((msgs, rest, Err e), b, st1)" "data \<noteq> []"
  shows "\<exists>s. Read_messages env data r st = Some (Err e, s) \<and> rs_messages s = [] \<and> rs_reader s = r"
  unfolding Read_messages_def by (rule stuck_after_error [OF assms(1-3) std_stable assms(4,5)])

theorem reader_stuck_after_error_witness:
  "\<exists>e s. Read_messages ex_order [1, 2, 3] (NewMessageReader\<lparr>mr_buffer := [0x81, 10], mr_length := 2, mr_protocol := 2\<rparr>) \<lparr>ms_heap = Map.empty, ms_next = 0\<rparr> =
     Some (Err e, s) \<and> rs_reader s = NewMessageReader\<lparr>mr_buffer := [0x81, 10], mr_length := 2, mr_protocol := 2\<rparr>"
proof -
  let ?r = "NewMessageReader\<lparr>mr_buffer := [0x81, 10], mr_length := 2, mr_protocol := 2\<rparr>" and ?st = "\<lparr>ms_heap = Map.empty, ms_next = 0\<rparr>"
  have "cd_first (std_decoder ex_order) [0x81, 10] = Ok ([AUint 10], [])"
    using elements.UnmarshalFirst_enc [of "[AUint 10]" ex_order "[]" "[]"]
    by (simp add: std_decoder_def decoded_def encodeHead_def) (simp add: StandardCborDecoder_def)
  then have n: "nextMessages (std_decoder ex_order) (mr_protocol ?r) (mr_buffer ?r) False ?st =
      (([], [0x81, 10], Err (ErrMsg ''unknown subprotocol'')), False, ?st)"
    by (simp add: nextMessages_def nextMessage_def ProtocolToMessage_def protocol_tables)
  show ?thesis using reader_stuck_after_error [OF _ _ _ n, of "[1, 2, 3]" ?st] by (auto simp: NewMessageReader_def)
qed

text \<open>Claim C39 (bad_point_panics): A peer can stop the program: a message with a point of two items that are not a number and a byte string makes the reader panic.\<close>

theorem bad_point_panics:
  assumes "decodable defaultDecMode (ASlice [x, y])" "nest (ASlice [x, y]) \<le> 31" "\<nexists>slot hash. x = AUint slot \<and> y = ABytes hash"
    "decodable StandardCborDecoder z" "nest z \<le> 31" "msg = wire (ASlice [AUint 5, ASlice [x, y], z])" "length msg = unat n" "clean r"
  shows "\<exists>s. Read_messages env (header ts ProtocolChainSync n @ msg) r st = Some (Panic ''interface conversion'', s)"
proof -
  let ?cd = "std_decoder env" and ?p = "ASlice [x, y]"
  have ok: "decodable StandardCborDecoder (ASlice [AUint 5, ?p, z])" "nest (ASlice [AUint 5, ?p, z]) \<le> 32"
    using decodable_default(1) [OF assms(1)] assms(2,4,5) by (simp_all add: StandardCborDecoder_def)
  have first: "cd_first ?cd msg = Ok ([AUint 5, ?p, z], [])"
    using elements.UnmarshalFirst_enc [of "[AUint 5, ?p, z]" env "[]" "[]"] ok assms(6) by (simp add: std_decoder_def decoded_def del: wire.simps nest.simps decodable.simps)
  have "Point_UnmarshalCBOR env (wire ?p) = Panic ''interface conversion''"
    using unmarshal_wire [OF assms(1), of env] assms(2,3) by (cases x; cases y) (auto simp: Point_UnmarshalCBOR_def simp del: wire.simps)
  then have pt: "parse_Point env old (wire ?p @ rest) = ((old, Panic ''interface conversion''), rest)" for old rest
    using unmarshaler_wire [OF assms(1), of "\<lambda>bs. all_or_nothing (Point_UnmarshalCBOR env bs)" old rest] assms(2)
    by (simp add: parse_Point_def all_or_nothing_def del: wire.simps)
  obtain m where m: "as_type MessageIntersectFound (shared_content ?cd st MessageIntersectFound) = M_IntersectFound m" using has_type_inject(8) [OF as_type_has] by blast
  let ?fs = "[field ws_Subprotocol (\<lambda>v. ws_Subprotocol_update (\<lambda>_. v)) (parse_uint env StandardCborDecoder),
    field if_Point (\<lambda>v. if_Point_update (\<lambda>_. v)) (parse_Point env), field if_Tip (\<lambda>v. if_Tip_update (\<lambda>_. v)) (parse_PointAndBlockNum env StandardCborDecoder)]"
  let ?bss = "[encodeHead 0x00 5, wire ?p, wire z]"
  have "ucast (5 :: uint16) = (5 :: uint64)" by simp
  then have "parse_fields ?fs m (concat ?bss @ []) = ((m\<lparr>ws_Subprotocol := 5\<rparr>, Panic ''interface conversion''), wire z)"
    using parse_field [OF reads_uint16, of ws_Subprotocol "\<lambda>v. ws_Subprotocol_update (\<lambda>_. v)" env StandardCborDecoder "tl ?fs" m 5 "wire ?p @ wire z"]
    by (simp add: field_def pt del: wire.simps)
  from value_struct_panic [OF this] have "\<exists>v r. parse_Message env StandardCborDecoder (M_IntersectFound m) msg = ((v, Panic ''interface conversion''), r)"
    by (simp add: parse_message_struct_def in_message_def assms(6) wire_array del: wire.simps(7))
  then obtain v where "cd_into ?cd MessageIntersectFound (shared_content ?cd st MessageIntersectFound) msg = (v, Panic ''interface conversion'')"
    using m wire_wellformed [OF ok(1), of False "[]" False] ok(2) assms(6) by (auto simp: std_decoder_def Unmarshal_def simp del: wire.simps nest.simps decodable.simps)
  then have nm: "nextMessage ?cd 2 msg st = (Panic ''interface conversion'', set_shared MessageIntersectFound v st)"
    using first by (simp add: nextMessage_def ProtocolToMessage_def protocol_tables)
  have ne: "msg \<noteq> []" unfolding assms(6) by (rule wire_not_Nil [OF ok(1)])
  then have n: "nextMessages ?cd 2 msg False st = (([], msg, Panic ''interface conversion''), False, set_shared MessageIntersectFound v st)"
    using nm unfolding nextMessages_def by (cases "length msg") simp_all
  have "(2 :: uint16) \<le> 10" by simp
  note i = read_iter_header [OF cleanD [OF assms(8)] this ne, of n "zero_message MessageBatchDone" ?cd ts st]
  show ?thesis using i assms(7,8) n unfolding Read_messages_def
    by (auto simp: Read_step read_complete_def Let_def clean_def protocols simp del: zero_message.simps)
qed


theorem bad_point_panics_witness:
  "\<exists>s. Read_messages ex_order (header 7 ProtocolChainSync 7 @ [0x83, 0x05, 0x82, 0x61, 0x61, 0x01, 0x80]) NewMessageReader
     \<lparr>ms_heap = Map.empty, ms_next = 0\<rparr> = Some (Panic ''interface conversion'', s)"
proof -
  have w: "wire (ASlice [AUint 5, ASlice [AString ''a'', AUint 1], ASlice []]) = [0x83, 0x05, 0x82, 0x61, 0x61, 0x01, 0x80]"
    by (simp add: encodeHead_def encode_string_def string_bytes_def)
  have d: "decodable defaultDecMode (ASlice [AString ''a'', AUint 1])" "decodable StandardCborDecoder (ASlice [])"
    by (simp_all add: defaultDecMode_def StandardCborDecoder_def string_bytes_def)
  show ?thesis
    using bad_point_panics [OF d(1) _ _ d(2) _ w [symmetric] _ clean_new, of 7 ex_order 7 "\<lparr>ms_heap = Map.empty, ms_next = 0\<rparr>"] by simp
qed

text \<open>An optional point without a value is written as an empty list and comes back as a point.\<close>

lemma empty_optional_read:
  "checked (Optional_MarshalCBOR (\<lambda>p. Ok (marshal_Point p)) \<lparr>op_Valid = False, op_Value = v\<rparr>) = Ok [0x80]"
  "parse_OptionalPoint env old ([0x80] @ rest) = ((\<lparr>op_Valid = True, op_Value = Some zero_point\<rparr>, Ok ()), rest)"
proof -
  have w: "wire (ASlice []) = [0x80]" by (simp add: encodeHead_def)
  have d: "decodable defaultDecMode (ASlice [])" "int (nest (ASlice [])) \<le> dm_maxNestedLevels defaultDecMode" by (simp_all add: defaultDecMode_def)
  show "checked (Optional_MarshalCBOR (\<lambda>p. Ok (marshal_Point p)) \<lparr>op_Valid = False, op_Value = v\<rparr>) = Ok [0x80]"
    using checked_wire [OF d(1)] w by (simp add: Optional_MarshalCBOR_def)
  have "Point_UnmarshalCBOR env [0x80] = Ok zero_point" using unmarshal_wire [OF d, of env] w by (simp add: Point_UnmarshalCBOR_def zero_point_def)
  then have "parse_Point env o1 ([0x80] @ r) = ((zero_point, Ok ()), r)" for o1 r
    using unmarshaler_wire [OF d, of "\<lambda>bs. all_or_nothing (Point_UnmarshalCBOR env bs)" o1 r] w by (simp add: parse_Point_def all_or_nothing_def)
  from this [of _ "[]"] have "parse_pointer zero_point (parse_Point env) o2 [0x80] = ((Some zero_point, Ok ()), [])" for o2
    by (simp add: parse_pointer_def nextCBORNil_def)
  then have "Unmarshal defaultDecMode (parse_pointer zero_point (parse_Point env)) [0x80] o2 = (Some zero_point, Ok ())" for o2
    using wire_wellformed [OF d, of False "[]" False] w by (simp add: Unmarshal_def)
  then show "parse_OptionalPoint env old ([0x80] @ rest) = ((\<lparr>op_Valid = True, op_Value = Some zero_point\<rparr>, Ok ()), rest)"
    using unmarshaler_wire [OF d, of "Optional_UnmarshalCBOR (Unmarshal defaultDecMode (parse_pointer zero_point (parse_Point env)))" old rest] w
    by (simp add: parse_OptionalPoint_def Optional_UnmarshalCBOR_def)
qed

end
