(* ===== verification/OutputSpec.thy ===== *)
theory OutputSpec
  imports BlockCodecSpec
begin

text \<open>
  Transaction outputs: what is written as one of the seven subtypes is read back as the same subtype, although the decoder finds the subtype by trying
  them in order; the outputs that lose data when they are decoded, and the ones that are written so that they cannot be read back.
\<close>

subsection \<open>Maps with byte strings as keys\<close>

lemma update_fresh: "k \<notin> fst ` set m \<Longrightarrow> AList.update k v m = m @ [(k, v)]"
  by (induction m) auto

lemma reads_ByteString: "length k < 2 ^ 63 \<Longrightarrow> reads parse_ByteString k (encode_bytes (string_bytes k))"
proof -
  assume k: "length k < 2 ^ 63"
  have d: "decodable defaultDecMode (ABytes (string_bytes k))" "int (nest (ABytes (string_bytes k))) \<le> dm_maxNestedLevels defaultDecMode"
    using k by (simp_all add: defaultDecMode_def string_bytes_def)
  let ?b = "encode_bytes (string_bytes k)"
  obtain c bs where c: "?b = c # bs" "getType c = 0x40"
    using encodeHead_Cons [of "0x40" "of_nat (length (string_bytes k))"] getType_encodeHead [of "0x40" "of_nat (length (string_bytes k))"]
    by (auto simp: encode_bytes_def)
  have "getType 0xF6 = 0xE0" "getType 0xF7 = 0xE0" by code_simp+
  then have "c \<noteq> 0xF6" "c \<noteq> 0xF7" using c(2) by auto
  then have "ByteString_UnmarshalCBOR ?b old = (k, Ok ())" for old
    using c k string_bytes_inverse [of k, unfolded string_bytes_def] getHead_encodeHead [of "0x40" "of_nat (length (string_bytes k))" "string_bytes k"] cut_append [of "string_bytes k" "[]"]
    by (simp add: ByteString_UnmarshalCBOR_def) (simp add: encode_bytes_def parseByteString_def ai_of_definite all_or_nothing_def string_bytes_def)
  moreover have "parseToUnmarshaler ByteString_UnmarshalCBOR old (?b @ rest) = (ByteString_UnmarshalCBOR ?b old, rest)" for old rest
    using unmarshaler_wire [OF d, of ByteString_UnmarshalCBOR old rest] by simp
  ultimately show ?thesis by (simp add: reads_def parse_ByteString_def)
qed

text \<open>The loop over encoded entries; \<open>es\<close> has the keys and the values as they are read.\<close>

lemma map_elems_entries:
  assumes "list_all2 (\<lambda>e b. reads kp (fst e) (fst b) \<and> (\<forall>v0 rest. vp (vr v0) (snd b @ rest) = ((snd e, Ok ()), rest))) es bss"
    "distinct (map fst (m @ es))"
  shows "map_elems kp vp kr vr False (length es) k0 v0 m (concat (map (\<lambda>b. fst b @ snd b) bss) @ rest) = ((m @ es, Ok ()), rest)"
  using assms
proof (induction es bss arbitrary: m k0 v0 rule: list_all2_induct)
  case (Cons e es b bss)
  have k: "kp (kr k0) (fst b @ x) = ((fst e, Ok ()), x)" for x using Cons.hyps(1) by (simp add: readsD)
  have u: "AList.update (fst e) (snd e) m = m @ [e]" using Cons.prems by (simp add: update_fresh)
  have "map_elems kp vp kr vr False (length es) (fst e) (snd e) (m @ [e]) (concat (map (\<lambda>b. fst b @ snd b) bss) @ rest) = ((m @ e # es, Ok ()), rest)"
    using Cons.IH [of "m @ [e]"] Cons.prems by simp
  then show ?case using k Cons.hyps(1) u by simp
qed simp

lemma map_head:
  assumes "n < 2 ^ 63"
  shows "getHead (encodeHead 0xA0 (of_nat n) @ rest) = Ok ((0xA0, ai_of (of_nat n), of_nat n), rest)"
  using getHead_encodeHead by auto

lemma parseMapToMap_entries:
  assumes "list_all2 (\<lambda>e b. reads kp (fst e) (fst b) \<and> (\<forall>v0 rest. vp (vr v0) (snd b @ rest) = ((snd e, Ok ()), rest))) es bss"
    "distinct (map fst es)" "length es < 2 ^ 63"
  shows "parseMapToMap kp vp kr vr kz vz [] (encodeHead 0xA0 (of_nat (length es)) @ concat (map (\<lambda>b. fst b @ snd b) bss) @ rest) = ((es, Ok ()), rest)"
  using map_elems_entries [where kp = kp and vp = vp and vr = vr and m = "[]" and kr = kr and es = es and bss = bss, OF assms(1)] assms(2) of_nat_small(1) [OF assms(3)]
  by (simp add: parseMapToMap_def map_head [OF assms(3)] ai_of_definite)

text \<open>An encoded map: some order of the entries.\<close>

lemma encode_map_order:
  assumes "fair_order env" "distinct (map fst m)" "m \<noteq> []"
  shows "\<exists>es. mset es = mset m \<and>
    encode_map env enc m = encodeHead 0xA0 (of_nat (length es)) @ concat (map (\<lambda>(k, v). encode_bytes (string_bytes k) @ enc v) es)"
proof -
  let ?m1 = "map (\<lambda>(k, v). (ABytes (string_bytes k), v)) m"
  let ?f = "\<lambda>a v. (case a of ABytes b \<Rightarrow> encode_bytes b @ enc v | _ \<Rightarrow> [])"
  have inj: "inj (\<lambda>k. ABytes (string_bytes k))" by (rule injI) (auto dest: arg_cong [where f = bytes_string])
  have d: "distinct (map fst ?m1)"
    using distinct_map [of "\<lambda>k. ABytes (string_bytes k)" "map fst m"] assms(2) inj
    by (simp add: comp_def case_prod_unfold inj_on_subset [OF inj])
  let ?it = "iterate env ?m1"
  let ?es = "map (\<lambda>p. (case fst p of ABytes b \<Rightarrow> bytes_string b | _ \<Rightarrow> [], snd p)) ?it"
  have s: "mset ?it = mset ?m1" by (rule mset_iterate [OF assms(1) d])
  then have e: "mset ?es = mset m" by (simp add: multiset.map_comp comp_def case_prod_unfold)
  have m2: "map (\<lambda>(k, v). (ABytes (string_bytes k), encode_bytes (string_bytes k) @ enc v)) m = map (\<lambda>p. (fst p, ?f (fst p) (snd p))) ?m1"
    by (simp add: comp_def case_prod_unfold)
  have "map snd (iterate env (map (\<lambda>(k, v). (ABytes (string_bytes k), encode_bytes (string_bytes k) @ enc v)) m)) = map (\<lambda>p. ?f (fst p) (snd p)) ?it"
    unfolding m2 iterate_map [of env ?f ?m1] by (simp add: comp_def)
  also have "\<dots> = map (\<lambda>(k, v). encode_bytes (string_bytes k) @ enc v) ?es"
  proof -
    have "\<forall>p\<in>set ?it. \<exists>k. fst p = ABytes (string_bytes k)" using s by (metis (no_types, lifting) mset_eq_setD imageE case_prod_beta fst_conv list.set_map)
    then show ?thesis by (auto simp: comp_def case_prod_unfold)
  qed
  finally have "encode_map env enc m = encodeHead 0xA0 (of_nat (length ?es)) @ concat (map (\<lambda>(k, v). encode_bytes (string_bytes k) @ enc v) ?es)"
    using assms(3) arg_cong [OF s, of size] by (simp add: encode_map_def)
  then show ?thesis using e by blast
qed

text \<open>The encoding of a map is that of a value of type \<open>any\<close>.\<close>

lemma encode_map_encodes:
  assumes "fair_order env" "distinct (map fst m)" "m \<noteq> []" "\<And>k v. (k, v) \<in> set m \<Longrightarrow> encodes (r v) (enc v)"
  shows "encodes (AMap (map (\<lambda>(k, v). (ABytes (string_bytes k), r v)) m)) (encode_map env enc m)"
proof -
  obtain es where es: "mset es = mset m"
    "encode_map env enc m = encodeHead 0xA0 (of_nat (length es)) @ concat (map (\<lambda>(k, v). encode_bytes (string_bytes k) @ enc v) es)"
    using encode_map_order [OF assms(1-3)] by blast
  let ?r = "\<lambda>(k, v). (ABytes (string_bytes k), r v)" and ?b = "\<lambda>(k, v). (encode_bytes (string_bytes k), enc v)"
  have "list_all2 (\<lambda>p q. encodes (fst p) (fst q) \<and> encodes (snd p) (snd q)) (map ?r es) (map ?b es)"
    using assms(4) mset_eq_setD [OF es(1)] by (auto simp: list_all2_conv_all_nth split: prod.split intro!: enc_bytes) (metis nth_mem)
  from enc_map [OF _ this, of "map ?r m"] show ?thesis using es mset_eq_length [OF es(1)] by (simp add: comp_def case_prod_unfold)
qed

subsection \<open>Amounts\<close>

text \<open>The number of an asset of a policy; two lists of entries that agree on it are the same Go map.\<close>

definition assets_of :: "(string \<times> (string \<times> 'v) list) list \<Rightarrow> string \<Rightarrow> (string \<Rightarrow> 'v option) option" where
  "assets_of m k = map_option map_of (map_of m k)"

definition same_amount :: "AmountData \<Rightarrow> AmountData \<Rightarrow> bool" where
  "same_amount a b \<longleftrightarrow> ad_Amount a = ad_Amount b \<and> assets_of (ad_Mappings a) = assets_of (ad_Mappings b)"

definition keys_ok :: "(string \<times> 'v) list \<Rightarrow> bool" where
  "keys_ok m \<longleftrightarrow> distinct (map fst m) \<and> length m \<le> 131072 \<and> (\<forall>(k, v)\<in>set m. length k < 2 ^ 63)"

definition amount_ok :: "AmountData \<Rightarrow> bool" where
  "amount_ok a \<longleftrightarrow> keys_ok (ad_Mappings a) \<and> (\<forall>(k, c)\<in>set (ad_Mappings a). keys_ok c)"

definition rep_coins :: "(string \<times> uint64) list \<Rightarrow> any" where
  "rep_coins c = (if c = [] then ANil else AMap (map (\<lambda>(k, n). (ABytes (string_bytes k), AUint n)) c))"

definition rep_assets :: "(string \<times> (string \<times> uint64) list) list \<Rightarrow> any" where
  "rep_assets m = (if m = [] then ANil else AMap (map (\<lambda>(k, c). (ABytes (string_bytes k), rep_coins c)) m))"

definition rep_amount :: "AmountData \<Rightarrow> any" where
  "rep_amount a = ASlice [AUint (ad_Amount a), rep_assets (ad_Mappings a)]"

lemma encodes_coins: "fair_order env \<Longrightarrow> keys_ok c \<Longrightarrow> encodes (rep_coins c) (encode_map env (encodeHead 0x00) c)"
  using encode_map_encodes [of env c AUint "encodeHead 0x00"]
  by (auto simp: rep_coins_def keys_ok_def encode_map_def intro: enc_nil enc_uint)

lemma encodes_assets: "fair_order env \<Longrightarrow> keys_ok m \<Longrightarrow> \<forall>(k, c)\<in>set m. keys_ok c \<Longrightarrow>
    encodes (rep_assets m) (encode_map env (encode_map env (encodeHead 0x00)) m)"
  using encode_map_encodes [of env m rep_coins "encode_map env (encodeHead 0x00)"] encodes_coins
  by (fastforce simp: rep_assets_def keys_ok_def encode_map_def [of env _ "[]"] intro: enc_nil)

lemma encodes_pair: "encodes a x \<Longrightarrow> encodes b y \<Longrightarrow> encodes (ASlice [a, b]) (enc_array [x, y])"
  using enc_slice [of "[a, b]" "[x, y]"] by (simp add: enc_array_def)

lemma encodes_triple: "encodes a x \<Longrightarrow> encodes b y \<Longrightarrow> encodes c z \<Longrightarrow> encodes (ASlice [a, b, c]) (enc_array [x, y, z])"
  using enc_slice [of "[a, b, c]" "[x, y, z]"] by (simp add: enc_array_def)

lemma encodes_amount: "fair_order env \<Longrightarrow> amount_ok a \<Longrightarrow> encodes (rep_amount a) (marshal_AmountData env a)"
  unfolding rep_amount_def marshal_AmountData_def amount_ok_def by (intro encodes_pair enc_uint encodes_assets) auto

lemma sizes_coins: "keys_ok c \<Longrightarrow> sizes_ok defaultDecMode chk (rep_coins c) \<and> nest (rep_coins c) \<le> 1"
proof -
  assume k: "keys_ok c"
  have "foldr max (map (\<lambda>p. max (nest (fst p)) (nest (snd p))) (map (\<lambda>(k, n). (ABytes (string_bytes k), AUint n)) c)) 0 = (0 :: nat)"
    by (induction c) auto
  then show ?thesis using k by (auto simp: rep_coins_def keys_ok_def defaultDecMode_def string_bytes_def)
qed

lemma sizes_assets:
  assumes "keys_ok m" "\<forall>(k, c)\<in>set m. keys_ok c"
  shows "sizes_ok defaultDecMode chk (rep_assets m) \<and> nest (rep_assets m) \<le> 2"
proof -
  have "foldr max (map (\<lambda>p. max (nest (fst p)) (nest (snd p))) (map (\<lambda>(k, c). (ABytes (string_bytes k), rep_coins c)) m)) 0 \<le> (1 :: nat)"
    using assms(2) sizes_coins by (induction m) auto
  then show ?thesis using assms sizes_coins by (auto simp: rep_assets_def keys_ok_def [of m] defaultDecMode_def string_bytes_def)
qed

lemma sizes_amount: "amount_ok a \<Longrightarrow> sizes_ok defaultDecMode chk (rep_amount a) \<and> nest (rep_amount a) \<le> 3"
  using sizes_assets [of "ad_Mappings a" chk] by (auto simp: rep_amount_def amount_ok_def) (auto simp: defaultDecMode_def)

text \<open>What decoding an amount gives.\<close>

lemma map_of_order: "mset es = mset m \<Longrightarrow> distinct (map fst m) \<Longrightarrow> map_of es = map_of m"
proof -
  assume a: "mset es = mset m" "distinct (map fst m)"
  then have "distinct (map fst es)" by (metis mset_map mset_eq_imp_distinct_iff)
  then show "map_of es = map_of m" using a by (metis map_of_inject_set mset_eq_setD)
qed

lemma entries_read:
  assumes "fair_order env" "keys_ok m"
    "\<forall>v\<in>snd ` set m. \<forall>v0 rest. vp (vr v0) (enc v @ rest) = ((dec v, Ok ()), rest)"
    "tg_nil tg = (\<lambda>_. [])" "tg_map tg = parseMapToMap parse_ByteString vp (\<lambda>k. k) vr [] vz"
  shows "\<exists>es. mset es = mset m \<and>
    (\<forall>rest. parseToValue env dm tg [] (encode_map env enc m @ rest) = ((map (\<lambda>(k, v). (k, dec v)) es, Ok ()), rest))"
proof (cases "m = []")
  case True
  then show ?thesis using assms(4) by (auto simp: encode_map_def value_null)
next
  case False
  have d: "distinct (map fst m)" "length m < 2 ^ 63" using assms(2) by (simp_all add: keys_ok_def)
  obtain es where es: "mset es = mset m"
    "encode_map env enc m = encodeHead 0xA0 (of_nat (length es)) @ concat (map (\<lambda>(k, v). encode_bytes (string_bytes k) @ enc v) es)"
    using encode_map_order [OF assms(1) d(1) False] by blast
  have s: "set es = set m" "length es = length m" using mset_eq_setD [OF es(1)] mset_eq_length [OF es(1)] by auto
  have de: "distinct (map fst (map (\<lambda>(k, v). (k, dec v)) es))"
    using d(1) es(1) by (simp add: comp_def case_prod_unfold) (metis mset_map mset_eq_imp_distinct_iff)
  let ?b = "\<lambda>(k, v). (encode_bytes (string_bytes k), enc v)"
  have l: "list_all2 (\<lambda>e b. reads parse_ByteString (fst e) (fst b) \<and> (\<forall>v0 rest. vp (vr v0) (snd b @ rest) = ((snd e, Ok ()), rest)))
      (map (\<lambda>(k, v). (k, dec v)) es) (map ?b es)"
  proof (simp only: list.rel_map, rule list.rel_refl_strong)
    fix e assume "e \<in> set es"
    then have e: "(fst e, snd e) \<in> set m" using s(1) by simp
    moreover have "length (fst e) < 2 ^ 63" using assms(2) e by (auto simp: keys_ok_def)
    ultimately show "reads parse_ByteString (fst ((\<lambda>(k, v). (k, dec v)) e)) (fst (?b e)) \<and>
        (\<forall>v0 rest. vp (vr v0) (snd (?b e) @ rest) = ((snd ((\<lambda>(k, v). (k, dec v)) e), Ok ()), rest))"
      using reads_ByteString [of "fst e"] assms(3) by (force simp: case_prod_unfold)
  qed
  have "parseToValue env dm tg [] (encode_map env enc m @ rest) = ((map (\<lambda>(k, v). (k, dec v)) es, Ok ()), rest)" for rest
    using parseMapToMap_entries [where kp = parse_ByteString and vp = vp and vr = vr and es = "map (\<lambda>(k, v). (k, dec v)) es" and bss = "map ?b es"
        and kr = "\<lambda>k. k" and kz = "[]" and vz = vz and rest = rest, OF l de] d(2) s(2)
    by (simp add: es(2) value_map assms(5) comp_def case_prod_unfold)
  then show ?thesis using es(1) by blast
qed

lemma coins_read:
  assumes "fair_order env" "keys_ok c"
  shows "\<exists>c'. mset c' = mset c \<and>
    (\<forall>rest. parseToValue env dm (number_map_target (parse_uint env dm) 0) [] (encode_map env (encodeHead 0x00) c @ rest) = ((c', Ok ()), rest))"
  using entries_read [of env c "parse_uint env dm" "\<lambda>v. v" "encodeHead 0x00" "\<lambda>v. v" "number_map_target (parse_uint env dm) (0 :: uint64)" 0 dm, OF assms]
    reads_uint64 [of env dm]
  by (simp add: number_map_target_def reads_def case_prod_unfold)

lemma assets_read:
  assumes "fair_order env" "keys_ok m" "\<forall>(k, c)\<in>set m. keys_ok c"
  shows "\<exists>m'. assets_of m' = assets_of m \<and>
    (\<forall>rest. parseToValue env dm (map_map_target (parseToValue env dm (number_map_target (parse_uint env dm) 0))) []
       (encode_map env (encode_map env (encodeHead 0x00)) m @ rest) = ((m', Ok ()), rest))"
proof -
  let ?p = "parseToValue env dm (number_map_target (parse_uint env dm) (0 :: uint64))" and ?e = "encode_map env (encodeHead 0x00)"
  have "\<exists>dec. \<forall>c. keys_ok c \<longrightarrow> mset (dec c) = mset c \<and> (\<forall>rest. ?p [] (?e c @ rest) = ((dec c, Ok ()), rest))"
    using coins_read [OF assms(1)] by (intro choice) blast
  then obtain dec where dec: "\<And>c. keys_ok c \<Longrightarrow> mset (dec c) = mset c" "\<And>c rest. keys_ok c \<Longrightarrow> ?p [] (?e c @ rest) = ((dec c, Ok ()), rest)" by blast
  have v: "\<forall>c\<in>snd ` set m. \<forall>v0 rest. ?p ((\<lambda>_. []) v0) (?e c @ rest) = ((dec c, Ok ()), rest)" using assms(3) dec(2) by fastforce
  have t: "tg_nil (map_map_target ?p) = (\<lambda>_. [])" "tg_map (map_map_target ?p) = parseMapToMap parse_ByteString ?p (\<lambda>k. k) (\<lambda>_. []) [] []"
    by (simp_all add: map_map_target_def)
  obtain es where es: "mset es = mset m"
    "\<And>rest. parseToValue env dm (map_map_target ?p) [] (encode_map env ?e m @ rest) = ((map (\<lambda>(k, c). (k, dec c)) es, Ok ()), rest)"
    using entries_read [where vr = "\<lambda>_. []" and vp = ?p and enc = ?e and dec = dec and env = env and m = m and tg = "map_map_target ?p" and vz = "[]" and dm = dm,
      OF assms(1,2) v t] by blast
  have d: "distinct (map fst m)" using assms(2) by (simp add: keys_ok_def)
  have "map_of (dec c) = map_of c" if "(k, c) \<in> set m" for k c
    using that assms(3) dec(1) [of c] map_of_order [of "dec c" c] by (auto simp: keys_ok_def [of c])
  then have "assets_of (map (\<lambda>(k, c). (k, dec c)) m) k = assets_of m k" for k
    by (cases "map_of m k") (auto simp: assets_of_def map_of_map dest: map_of_SomeD)
  moreover have "mset (map (\<lambda>(k, c). (k, dec c)) es) = mset (map (\<lambda>(k, c). (k, dec c)) m)" using es(1) by simp
  then have "map_of (map (\<lambda>(k, c). (k, dec c)) es) = map_of (map (\<lambda>(k, c). (k, dec c)) m)"
    by (rule map_of_order) (use d in \<open>simp add: comp_def case_prod_unfold\<close>)
  ultimately have "assets_of (map (\<lambda>(k, c). (k, dec c)) es) = assets_of m" by (auto simp: assets_of_def)
  then show ?thesis using es(2) by blast
qed

text \<open>Fields of a struct: the parser makes some value of a class of values of the bytes.\<close>

lemma amount_read:
  assumes "fair_order env" "amount_ok a"
  shows "\<exists>a'. same_amount a a' \<and> (\<forall>rest. parse_AmountData env dm zero_amount (marshal_AmountData env a @ rest) = ((a', Ok ()), rest))"
proof -
  obtain m' where m: "assets_of m' = assets_of (ad_Mappings a)"
    "\<And>rest. parseToValue env dm (map_map_target (parseToValue env dm (number_map_target (parse_uint env dm) 0))) []
       (encode_map env (encode_map env (encodeHead 0x00)) (ad_Mappings a) @ rest) = ((m', Ok ()), rest)"
    using assets_read [OF assms(1), of "ad_Mappings a" dm] assms(2) by (auto simp: amount_ok_def)
  have "parse_AmountData env dm zero_amount (marshal_AmountData env a @ rest) = ((\<lparr>ad_Amount = ad_Amount a, ad_Mappings = m'\<rparr>, Ok ()), rest)" for rest
    unfolding parse_AmountData_def marshal_AmountData_def
    by (simp add: value_fields parse_field [OF reads_uint64]) (simp add: parse_fields.simps(2) field_def zero_amount_def m(2))
  then show ?thesis using m(1) by (intro exI [of _ "\<lparr>ad_Amount = ad_Amount a, ad_Mappings = m'\<rparr>"]) (simp add: same_amount_def)
qed

subsection \<open>Fields that do not fit\<close>

text \<open>Decoding from \<open>data\<close> does not succeed.\<close>

definition fails :: "('a \<times> unit res) \<times> bytes \<Rightarrow> bool" where
  "fails x \<longleftrightarrow> snd (fst x) \<noteq> Ok ()"

lemma then_err_not_Ok: "e \<noteq> Ok () \<or> e' \<noteq> Ok () \<Longrightarrow> then_err e e' \<noteq> Ok ()"
  by (cases e; cases e') auto

lemma fails_here: "fails (p (get s) data) \<Longrightarrow> fails (parse_fields (field get put p # fs) s data)"
  using then_err_not_Ok by (auto simp: fails_def field_def parse_fields.simps(2) split: prod.split res.split)

lemma fails_skip_reject: "fails (skip_reject old data)"
  by (simp add: fails_def skip_reject_def moved_def split: res.split)

lemma fails_length:
  "length bss \<noteq> length fs \<Longrightarrow> length bss < 2 ^ 63 \<Longrightarrow> fails (parseToValue env dm (struct_target fs) old (enc_array bss @ rest))"
  using array_head [of "length bss"] fails_skip_reject
  by (simp add: enc_array_def value_array struct_target_def parseArrayToStruct_def ai_of_definite)

lemma fails_array:
  "fails (parseToValue env dm (keyed_target dm' flds) old (enc_array bss @ rest))" "fails (parse_uint env dm w (enc_array bss @ rest))"
  using fails_skip_reject by (simp_all add: enc_array_def value_array keyed_target_def no_target_def parse_uint_def uint_target_def)

lemma fails_amount: "fails (parse_AmountData env dm old (encodeHead 0x00 n @ rest))"
  by (simp add: fails_def parse_AmountData_def value_uint struct_target_def no_target_def reject_def)

lemma fails_bytes: "b \<noteq> [] \<Longrightarrow> length b < 2 ^ 63 \<Longrightarrow> fails (slice_p env dm p zero old (encode_HexBytes b @ rest))"
  by (simp add: fails_def slice_p_def encode_HexBytes_def value_bytes slice_target_def no_target_def reject_def)

subsection \<open>Decoding an output\<close>

lemma decode_new_fails:
  assumes "safe p" "fails (p zero bs)"
  shows "\<exists>e. decode_new c p zero bs = Err e"
proof (cases "wellformed defaultDecMode False False bs")
  case (Ok r)
  then obtain i where "item bs r" using wellformed_item by blast
  then obtain v e where "p zero bs = ((v, e), r)" "\<not> is_panic e" using safeD [OF assms(1)] by blast
  then show ?thesis using Ok assms(2) by (cases e) (auto simp: decode_new_def fresh_value_def Unmarshal_def fails_def)
next
  case (Panic q)
  then show ?thesis using wellformed_no_panic by (metis is_panic.simps(1))
qed (simp add: decode_new_def fresh_value_def Unmarshal_def)

lemma decode_new_Ok: "wellformed defaultDecMode False False bs = Ok r \<Longrightarrow> p zero bs = ((v, Ok ()), r') \<Longrightarrow> decode_new c p zero bs = Ok (c v)"
  by (simp add: decode_new_def fresh_value_def Unmarshal_def)

text \<open>What is written for an output, as a value of type \<open>any\<close>.\<close>

fun rep_output :: "TransactionOutput \<Rightarrow> any" where
  "rep_output (OutA t) = AMap [(AUint 0, rep_bytes (toA_Address t)), (AUint 1, rep_amount (toA_AmountData t)),
     (AUint 2, case op_Value (toA_Extra t) of None \<Rightarrow> ANil | Some x \<Rightarrow> ASlice [AUint (te_A x), rep_bytes (te_B x)])]"
| "rep_output (OutB t) = AMap [(AUint 0, rep_bytes (toB_Address t)), (AUint 1, AUint (toB_Amount t))]"
| "rep_output (OutC t) = ASlice [rep_bytes (toC_Address t), AUint (toC_Amount t), rep_bytes (toC_Address2 t)]"
| "rep_output (OutD t) = ASlice [rep_bytes (toD_Address t), rep_amount (toD_AmountData t), if toD_Extra t = [] then ANil else ASlice (toD_Extra t)]"
| "rep_output (OutE t) = ASlice [rep_bytes (toE_Address t), rep_amount (toE_AmountData t), rep_bytes (toE_Extra t)]"
| "rep_output (OutF t) = ASlice [rep_bytes (toF_Address t), rep_amount (toF_AmountData t)]"
| "rep_output (OutG t) = ASlice [rep_bytes (toG_Address t), AUint (toG_Amount t)]"
| "rep_output OutOther = ANil"

fun output_ok :: "TransactionOutput \<Rightarrow> bool" where
  "output_ok (OutA t) \<longleftrightarrow> length (toA_Address t) < 2 ^ 63 \<and> amount_ok (toA_AmountData t) \<and> op_Valid (toA_Extra t) \<and>
     (case op_Value (toA_Extra t) of None \<Rightarrow> False | Some x \<Rightarrow> length (te_B x) < 2 ^ 63)"
| "output_ok (OutB t) \<longleftrightarrow> length (toB_Address t) < 2 ^ 63"
| "output_ok (OutC t) \<longleftrightarrow> length (toC_Address t) < 2 ^ 63 \<and> length (toC_Address2 t) < 2 ^ 63"
| "output_ok (OutD t) \<longleftrightarrow> length (toD_Address t) < 2 ^ 63 \<and> amount_ok (toD_AmountData t) \<and> length (toD_Extra t) \<le> 131072 \<and> (\<forall>x\<in>set (toD_Extra t). any_ok x)"
| "output_ok (OutE t) \<longleftrightarrow> length (toE_Address t) < 2 ^ 63 \<and> amount_ok (toE_AmountData t) \<and> toE_Extra t \<noteq> [] \<and> length (toE_Extra t) < 2 ^ 63"
| "output_ok (OutF t) \<longleftrightarrow> length (toF_Address t) < 2 ^ 63 \<and> amount_ok (toF_AmountData t)"
| "output_ok (OutG t) \<longleftrightarrow> length (toG_Address t) < 2 ^ 63"
| "output_ok OutOther \<longleftrightarrow> False"

text \<open>Equal but for the order in which the association lists hold the assets.\<close>

fun same_output :: "TransactionOutput \<Rightarrow> TransactionOutput \<Rightarrow> bool" where
  "same_output (OutA t) (OutA u) \<longleftrightarrow> toA_Address t = toA_Address u \<and> same_amount (toA_AmountData t) (toA_AmountData u) \<and> toA_Extra t = toA_Extra u"
| "same_output (OutD t) (OutD u) \<longleftrightarrow> toD_Address t = toD_Address u \<and> same_amount (toD_AmountData t) (toD_AmountData u) \<and> toD_Extra t = toD_Extra u"
| "same_output (OutE t) (OutE u) \<longleftrightarrow> toE_Address t = toE_Address u \<and> same_amount (toE_AmountData t) (toE_AmountData u) \<and> toE_Extra t = toE_Extra u"
| "same_output (OutF t) (OutF u) \<longleftrightarrow> toF_Address t = toF_Address u \<and> same_amount (toF_AmountData t) (toF_AmountData u)"
| "same_output t u \<longleftrightarrow> t = u"

lemma encodes_bytes_field: "encodes (rep_bytes b) (encode_HexBytes b)"
  by (auto simp: rep_bytes_def encode_HexBytes_def intro: enc_nil enc_bytes)

lemma encodes_fields2:
  "encodes a x \<Longrightarrow> encodes b y \<Longrightarrow> encodes (AMap [(AUint 0, a), (AUint 1, b)]) (enc_fields [(0, x), (1, y)])"
  using enc_map [OF refl, of "[(AUint 0, a), (AUint 1, b)]" "[(encodeHead 0x00 0, x), (encodeHead 0x00 1, y)]"] enc_uint [of 0] enc_uint [of 1]
  by (simp add: enc_fields_def encode_int_def)

lemma encodes_fields3:
  "encodes a x \<Longrightarrow> encodes b y \<Longrightarrow> encodes c z \<Longrightarrow>
   encodes (AMap [(AUint 0, a), (AUint 1, b), (AUint 2, c)]) (enc_fields [(0, x), (1, y), (2, z)])"
  using enc_map [OF refl, of "[(AUint 0, a), (AUint 1, b), (AUint 2, c)]" "[(encodeHead 0x00 0, x), (encodeHead 0x00 1, y), (encodeHead 0x00 2, z)]"]
    enc_uint [of 0] enc_uint [of 1] enc_uint [of 2]
  by (simp add: enc_fields_def encode_int_def)

text \<open>The extra data of the subtypes A and D.\<close>

lemma marshal_extra:
  assumes "op_Valid opt" "op_Value opt = Some x" "length (te_B x) < 2 ^ 63"
  shows "checked (Optional_MarshalCBOR (\<lambda>x. Ok (marshal_TransactionOutputExtra x)) opt) = Ok (marshal_TransactionOutputExtra x)"
proof -
  have "encodes (ASlice [AUint (te_A x), rep_bytes (te_B x)]) (marshal_TransactionOutputExtra x)"
    unfolding marshal_TransactionOutputExtra_def by (intro encodes_pair enc_uint encodes_bytes_field)
  moreover have "sizes_ok marshalerDecMode True (ASlice [AUint (te_A x), rep_bytes (te_B x)])" using assms(3) by (simp add: rep_bytes_def marshalerDecMode_def)
  ultimately show ?thesis using assms checked_encodes by (simp add: Optional_MarshalCBOR_def)
qed

lemma marshal_extras:
  assumes "fair_order env" "\<forall>x\<in>set xs. any_ok x"
  shows "marshal_slice (cbor_Marshal env) xs = Ok (encode_slice wire xs)"
proof -
  have "map (cbor_Marshal env) xs = map Ok (map wire xs)" using assms marshal_any by simp
  then show ?thesis using enc_array_Ok by (simp only: marshal_slice_def encode_slice_def) simp
qed

lemma encodes_extras:
  assumes "\<forall>x\<in>set xs. any_ok x"
  shows "encodes (if xs = [] then ANil else ASlice xs) (encode_slice wire xs)"
proof -
  have "list_all2 encodes xs (map wire xs)" using assms by (auto simp: list_all2_conv_all_nth any_ok_def intro!: decodable_encodes)
  then show ?thesis using enc_slice [of xs "map wire xs"] by (simp add: encode_slice_def enc_array_def enc_nil)
qed

fun output_bytes :: "cbor_env \<Rightarrow> TransactionOutput \<Rightarrow> bytes" where
  "output_bytes env (OutA t) = enc_fields [(0, encode_HexBytes (toA_Address t)), (1, marshal_AmountData env (toA_AmountData t)),
     (2, marshal_TransactionOutputExtra (the (op_Value (toA_Extra t))))]"
| "output_bytes env (OutD t) =
     enc_array [encode_HexBytes (toD_Address t), marshal_AmountData env (toD_AmountData t), encode_slice wire (toD_Extra t)]"
| "output_bytes env t = (case marshal_TransactionOutput env t of Ok b \<Rightarrow> b | _ \<Rightarrow> [])"

lemma marshal_output:
  assumes "fair_order env" "output_ok t"
  shows "marshal_TransactionOutput env t = Ok (output_bytes env t)"
proof (cases t)
  case (OutA a)
  then obtain x where "op_Value (toA_Extra a) = Some x" using assms(2) by (auto split: option.splits)
  then show ?thesis using OutA assms(2) marshal_extra [of "toA_Extra a" x] by (simp add: marshal_TransactionOutputA_def enc_fields_res_def)
next
  case (OutD a)
  then show ?thesis
    using assms marshal_extras [OF assms(1), of "toD_Extra a"] by (simp add: marshal_TransactionOutputD_def enc_array_res_def)
qed (use assms in auto)

lemma encodes_output:
  assumes "fair_order env" "output_ok t"
  shows "encodes (rep_output t) (output_bytes env t)"
proof (cases t)
  case (OutA a)
  then show ?thesis using assms
    by (auto simp: marshal_TransactionOutputExtra_def split: option.splits
      intro!: encodes_fields3 encodes_amount encodes_bytes_field encodes_pair enc_uint)
next
  case (OutD a)
  then have "\<forall>x\<in>set (toD_Extra a). any_ok x" "amount_ok (toD_AmountData a)" using assms(2) by simp_all
  then show ?thesis using encodes_triple [OF encodes_bytes_field encodes_amount [OF assms(1)] encodes_extras] OutD by simp
qed (use assms in \<open>auto simp: marshal_TransactionOutputB_def marshal_TransactionOutputC_def marshal_TransactionOutputE_def marshal_TransactionOutputF_def
    marshal_TransactionOutputG_def intro!: encodes_fields2 encodes_triple encodes_pair encodes_amount encodes_bytes_field enc_uint\<close>)

lemma sizes_extras:
  assumes "\<forall>x\<in>set xs. any_ok x" "length xs \<le> 131072"
  shows "sizes_ok defaultDecMode False (if xs = [] then ANil else ASlice xs) \<and> nest (if xs = [] then ANil else ASlice xs) \<le> 25"
proof -
  have "foldr max (map nest xs) 0 \<le> 24" using assms(1) by (induction xs) (auto simp: any_ok_def)
  then show ?thesis using assms decodable_sizes by (auto simp: any_ok_def defaultDecMode_def)
qed

lemma sizes_output:
  assumes "output_ok t"
  shows "sizes_ok defaultDecMode False (rep_output t) \<and> nest (rep_output t) \<le> 26"
proof -
  have l: "sizes_ok defaultDecMode False (rep_bytes b) \<longleftrightarrow> length b < 2 ^ 63" for b
    by (simp add: rep_bytes_def)
  have n: "dm_maxArrayElements defaultDecMode = 131072" "dm_maxMapPairs defaultDecMode = 131072" by (simp_all add: defaultDecMode_def)
  show ?thesis
  proof (cases t)
    case (OutA a)
    then show ?thesis using assms sizes_amount [of "toA_AmountData a" False] by (auto simp: l n split: option.splits)
  next
    case (OutD a)
    then show ?thesis using assms sizes_amount [of "toD_AmountData a" False] sizes_extras [of "toD_Extra a"] by (auto simp: l n)
  next
    case (OutE a)
    then show ?thesis using assms sizes_amount [of "toE_AmountData a" False] by (auto simp: l n)
  next
    case (OutF a)
    then show ?thesis using assms sizes_amount [of "toF_AmountData a" False] by (auto simp: l n)
  qed (use assms in \<open>simp_all add: l n\<close>)
qed

lemma wellformed_output:
  assumes "fair_order env" "output_ok t"
  shows "wellformed defaultDecMode False False (output_bytes env t) = Ok []"
  using encodes_wellformed [OF encodes_output [OF assms], of defaultDecMode False False "[]"] sizes_output [OF assms(2)]
  by (simp add: defaultDecMode_def)

text \<open>The method gets the bytes of the item.\<close>

lemma unmarshaler_item:
  assumes "item bs []" "bs = encodeHead m n @ xs" "m = 0x80 \<or> m = 0xA0"
  shows "parseToUnmarshaler f old (bs @ rest) = (f bs old, rest)"
proof -
  have "skip (bs @ rest) = Ok rest" using item_split(1) [OF assms(1)] grammar_skip(1) by (auto simp: skip_def)
  moreover have "at_item old (bs @ rest) g = g (bs @ rest)" for g :: "bytes \<Rightarrow> ('a \<times> unit res) \<times> bytes"
    using at_item_head [of m old n "xs @ rest" g] assms(2,3) by auto
  ultimately show ?thesis by (simp add: parseToUnmarshaler_def)
qed

lemma output_head: "output_ok t \<Longrightarrow> \<exists>m n xs. output_bytes env t = encodeHead m n @ xs \<and> (m = 0x80 \<or> m = 0xA0)"
  by (cases t) (auto simp: enc_fields_def enc_array_def marshal_TransactionOutputB_def marshal_TransactionOutputC_def marshal_TransactionOutputE_def
    marshal_TransactionOutputF_def marshal_TransactionOutputG_def)

text \<open>The keys of the subtypes written as maps.\<close>

lemma value_map_fields:
  assumes "length es < 2 ^ 63"
  shows "parseToValue env dm (keyed_target dm flds) old (enc_fields es @ rest) =
    map_fields dm flds False (length es) [] old (concat (map (\<lambda>(k, b). encode_int k @ b) es) @ rest)"
  using getHead_encodeHead [of "0xA0" "of_nat (length es)" "concat (map (\<lambda>(k, b). encode_int k @ b) es) @ rest"] of_nat_small(1) [OF assms]
  by (simp add: enc_fields_def value_map keyed_target_def parseMapToStruct_def ai_of_definite)

lemma map_key_int:
  assumes "0 \<le> k" "k < 2 ^ 63"
  shows "map_key dm flds (encode_int k @ b) = Ok ((find_field (\<lambda>k' nm. k' = k) flds, Ok ()), b)"
proof -
  have "sint (of_int k :: uint64) = k" using assms by (simp add: signed_of_int signed_take_bit_int_eq_self)
  then show ?thesis using assms(1) by (simp add: map_key_def encode_int_def getHead_encodeHead)
qed

lemma map_entry_fails:
  assumes "0 \<le> k" "k < 2 ^ 63" "find_field (\<lambda>k' nm. k' = k) flds = Some (k, p)" "k \<notin> set found" "fails (p s b)"
  shows "fails (map_fields dm flds False (Suc n) found s (encode_int k @ b))"
  using assms(3-5) then_err_not_Ok by (auto simp: map_key_int [OF assms(1,2)] fails_def split: prod.split res.split)

lemma map_entry_unknown:
  assumes "0 \<le> k" "k < 2 ^ 63" "find_field (\<lambda>k' nm. k' = k) flds = None" "item b []"
  shows "map_fields dm flds False (Suc n) found s (encode_int k @ b @ rest) = map_fields dm flds False n found s rest"
proof -
  have "skip (b @ rest) = Ok rest" using item_split(1) [OF assms(4)] grammar_skip(1) by (auto simp: skip_def)
  then show ?thesis using assms(3)
    by (cases "map_fields dm flds False n found s rest") (auto simp: map_key_int [OF assms(1,2)])
qed

lemma find_field_simps [simp]:
  "find_field q [] = None" "find_field q ((k, nm, p) # flds) = (if q k nm then Some (k, p) else find_field q flds)"
  by (simp_all add: find_field_def)

lemma fails_field: "fails (p (get s) data) \<Longrightarrow> fails (field get put p s data)"
  by (auto simp: fails_def field_def split: prod.split)

lemma value_entries:
  "length es < 100 \<Longrightarrow> parseToValue env dm (keyed_target dm flds) old (enc_fields es) =
    map_fields dm flds False (length es) [] old (concat (map (\<lambda>(k, b). encode_int k @ b) es))"
  using value_map_fields [of es env dm flds old "[]"] by simp

lemma map_field:
  assumes "reads p v b" "0 \<le> k" "k < 2 ^ 63" "find_field (\<lambda>k' nm. k' = k) flds = Some (k, field get put p)" "k \<notin> set found"
  shows "map_fields dm flds False (Suc n) found s (encode_int k @ b @ rest) = map_fields dm flds False n (k # found) (put v s) rest"
  by (rule map_entry [of k flds "field get put p" found s b rest "put v s"]) (use assms in \<open>simp_all add: field_def readsD\<close>)

lemma fails_coin_amount:
  assumes "length a < 2 ^ 63" "length es < 90"
  shows "fails (parse_TransactionOutputA env defaultDecMode z (enc_fields ((0, encode_HexBytes a) # (1, encodeHead 0x00 n) # es)))"
  unfolding parse_TransactionOutputA_def using assms(2)
  by (simp add: value_entries map_field [OF reads_bytes [OF assms(1)]] del: map_fields.simps)
    (auto intro!: map_entry_fails fails_field fails_amount simp del: map_fields.simps)

lemma unknown_entries:
  "\<forall>(k, b)\<in>set es. 0 \<le> k \<and> k < 2 ^ 63 \<and> find_field (\<lambda>k' nm. k' = k) flds = None \<and> item b [] \<Longrightarrow>
   map_fields dm flds False (length es) found s (concat (map (\<lambda>(k, b). encode_int k @ b) es)) = ((s, Ok ()), [])"
proof (induction es)
  case (Cons e es)
  then show ?case using map_entry_unknown [of "fst e" flds "snd e" dm "length es" found s] by (auto simp del: map_fields.simps)
qed simp

lemma reads_B:
  assumes "length a < 2 ^ 63" "\<forall>(k, b)\<in>set es. 1 < k \<and> k < 2 ^ 63 \<and> item b []" "length es < 90"
  shows "parse_TransactionOutputB env defaultDecMode z (enc_fields ((0, encode_HexBytes a) # (1, encodeHead 0x00 n) # es)) =
    ((\<lparr>toB_Address = a, toB_Amount = n\<rparr>, Ok ()), [])"
  unfolding parse_TransactionOutputB_def using assms(2,3)
  by (simp add: value_entries map_field [OF reads_bytes [OF assms(1)]] map_field [OF reads_uint64]
      del: map_fields.simps)
    (subst unknown_entries, auto)

lemma reads_OptionalExtra:
  assumes "length (te_B x) < 2 ^ 63"
  shows "reads (parse_OptionalExtra env) \<lparr>op_Valid = True, op_Value = Some x\<rparr> (marshal_TransactionOutputExtra x)"
proof -
  let ?b = "marshal_TransactionOutputExtra x"
  have "reads (parse_TransactionOutputExtra env defaultDecMode) x ?b"
    unfolding parse_TransactionOutputExtra_def marshal_TransactionOutputExtra_def
    by (rule struct_reads) (use assms in \<open>simp_all add: parse_field [OF reads_bytes] parse_field [OF reads_uint64]\<close>)
  then have p: "reads (parse_pointer z (parse_TransactionOutputExtra env defaultDecMode)) (Some x) ?b" for z
    unfolding marshal_TransactionOutputExtra_def by (rule reads_pointer)
  have e: "encodes (ASlice [AUint (te_A x), rep_bytes (te_B x)]) ?b"
    unfolding marshal_TransactionOutputExtra_def by (intro encodes_pair enc_uint encodes_bytes_field)
  have w: "wellformed defaultDecMode False False ?b = Ok []"
    using encodes_wellformed [OF e, of defaultDecMode False False "[]"] assms by (simp add: rep_bytes_def defaultDecMode_def)
  have "parse_OptionalExtra env old (?b @ rest) = ((\<lparr>op_Valid = True, op_Value = Some x\<rparr>, Ok ()), rest)" for old rest
  proof -
    have "?b = encodeHead 0x80 2 @ encodeHead 0x00 (te_A x) @ encode_HexBytes (te_B x)"
      by (simp add: marshal_TransactionOutputExtra_def enc_array_def)
    from unmarshaler_item [OF wellformed_item [OF w] this] have u: "parseToUnmarshaler f old (?b @ rest) = (f ?b old, rest)" for f old by simp
    show ?thesis unfolding parse_OptionalExtra_def u using readsD [OF p, of _ _ "[]"] w by (simp add: Optional_UnmarshalCBOR_def Unmarshal_def)
  qed
  then show ?thesis by (simp add: reads_def)
qed

text \<open>An amount, as a field of a new struct.\<close>

definition amount_reads :: "cbor_env \<Rightarrow> AmountData \<Rightarrow> AmountData \<Rightarrow> bool" where
  "amount_reads env a m \<longleftrightarrow> same_amount a m \<and>
     (\<forall>rest. parse_AmountData env defaultDecMode zero_amount (marshal_AmountData env a @ rest) = ((m, Ok ()), rest))"

lemma amount_exists: "fair_order env \<Longrightarrow> amount_ok a \<Longrightarrow> \<exists>m. amount_reads env a m"
  using amount_read by (fastforce simp: amount_reads_def)

lemma parse_amount:
  assumes "amount_reads env a m" "get s = zero_amount"
  shows "parse_fields (field get put (parse_AmountData env defaultDecMode) # fs) s (marshal_AmountData env a @ rest) = parse_fields fs (put m s) rest"
  by (rule parse_field_into [where s' = "put m s"]) (use assms in \<open>simp add: field_def amount_reads_def\<close>)

lemma map_amount:
  assumes "amount_reads env a m" "0 \<le> k" "k < 2 ^ 63"
    "find_field (\<lambda>k' nm. k' = k) flds = Some (k, field get put (parse_AmountData env defaultDecMode))" "k \<notin> set found" "get s = zero_amount"
  shows "map_fields dm flds False (Suc n) found s (encode_int k @ marshal_AmountData env a @ rest) = map_fields dm flds False n (k # found) (put m s) rest"
  by (rule map_entry [where p = "field get put (parse_AmountData env defaultDecMode)" and s' = "put m s"])
    (use assms in \<open>simp_all add: field_def amount_reads_def\<close>)

lemma reads_A:
  assumes "fair_order env" "output_ok (OutA t)" "z = \<lparr>toA_Address = [], toA_AmountData = zero_amount, toA_Extra = e\<rparr>"
  shows "\<exists>u. same_output (OutA t) (OutA u) \<and> parse_TransactionOutputA env defaultDecMode z (output_bytes env (OutA t)) = ((u, Ok ()), [])"
proof -
  obtain x where x: "op_Value (toA_Extra t) = Some x" "length (te_B x) < 2 ^ 63" "op_Valid (toA_Extra t)" "length (toA_Address t) < 2 ^ 63"
    using assms(2) by (auto split: option.splits)
  obtain m where m: "amount_reads env (toA_AmountData t) m" using amount_exists [OF assms(1), of "toA_AmountData t"] assms(2) by auto
  have "parse_TransactionOutputA env defaultDecMode z (output_bytes env (OutA t)) =
    ((\<lparr>toA_Address = toA_Address t, toA_AmountData = m, toA_Extra = \<lparr>op_Valid = True, op_Value = Some x\<rparr>\<rparr>, Ok ()), [])"
    unfolding parse_TransactionOutputA_def
    using x(1) assms(3)
    by (simp add: value_entries map_field [OF reads_OptionalExtra [OF x(2)], where rest = "[]", unfolded append_Nil2] map_field [OF reads_bytes [OF x(4)]] map_amount [OF m] del: map_fields.simps(2))
  moreover have "toA_Extra t = \<lparr>op_Valid = True, op_Value = Some x\<rparr>" using x(1,3) by (cases "toA_Extra t") simp
  ultimately show ?thesis using m by (auto simp: amount_reads_def)
qed

text \<open>The subtypes written as arrays.\<close>

lemma reads_C: "length a < 2 ^ 63 \<Longrightarrow> length b < 2 ^ 63 \<Longrightarrow> reads (parse_TransactionOutputC env dm) \<lparr>toC_Address = a, toC_Amount = n, toC_Address2 = b\<rparr>
    (enc_array [encode_HexBytes a, encodeHead 0x00 n, encode_HexBytes b])"
  unfolding parse_TransactionOutputC_def
  by (rule struct_reads) (simp_all add: parse_field [OF reads_bytes] parse_field [OF reads_uint64])

lemma reads_G: "length a < 2 ^ 63 \<Longrightarrow> reads (parse_TransactionOutputG env dm) \<lparr>toG_Address = a, toG_Amount = n\<rparr>
    (enc_array [encode_HexBytes a, encodeHead 0x00 n])"
  unfolding parse_TransactionOutputG_def
  by (rule struct_reads) (simp_all add: parse_field [OF reads_bytes] parse_field [OF reads_uint64])

lemma reads_extras:
  assumes "\<forall>x\<in>set xs. any_ok x" "length xs \<le> 131072"
  shows "reads (slice_p env defaultDecMode (parse_iface env defaultDecMode) ANil) xs (encode_slice wire xs)"
  unfolding slice_p_def using assms
  by (intro reads_encode_slice) (auto simp: any_ok_def intro!: reads_iface)

subsection \<open>The round trip\<close>

lemma SubtypeOf_next: "\<exists>e. dec bs = Err e \<Longrightarrow> SubtypeOf_UnmarshalCBOR (dec # decs) bs = SubtypeOf_UnmarshalCBOR decs bs"
  by auto

lemma SubtypeOf_here: "dec bs = Ok v \<Longrightarrow> SubtypeOf_UnmarshalCBOR (dec # decs) bs = Ok v"
  by simp

declare SubtypeOf_UnmarshalCBOR.simps(2) [simp del]

lemma SubtypeOf_none: "(\<And>dec. dec \<in> set decs \<Longrightarrow> \<exists>e. dec bs = Err e) \<Longrightarrow> \<exists>e. SubtypeOf_UnmarshalCBOR decs bs = Err e"
  by (induction decs) (auto simp: SubtypeOf_next)

lemma decode_new_reads: "reads p v bs \<Longrightarrow> wellformed defaultDecMode False False bs = Ok r \<Longrightarrow> decode_new c p zero bs = Ok (c v)"
  using decode_new_Ok [of bs r p zero v "[]" c] readsD [of p v bs zero "[]"] by simp

lemma array_not_map:
  assumes "calm env"
  shows "\<exists>e. decode_new OutA (parse_TransactionOutputA env defaultDecMode) z (enc_array bss) = Err e"
    "\<exists>e. decode_new OutB (parse_TransactionOutputB env defaultDecMode) w (enc_array bss) = Err e"
  using fails_array(1) [of env defaultDecMode defaultDecMode _ _ bss "[]"]
  by (auto intro!: decode_new_fails [OF safe_outputs(1) [OF assms]] decode_new_fails [OF safe_outputs(2) [OF assms]])
    (simp_all add: parse_TransactionOutputA_def parse_TransactionOutputB_def)

text \<open>Arrays of another length.\<close>

lemma array_other_length:
  assumes "calm env" "length bss < 100"
  shows "length bss \<noteq> 3 \<Longrightarrow> \<exists>e. decode_new OutC (parse_TransactionOutputC env defaultDecMode) z3 (enc_array bss) = Err e"
    "length bss \<noteq> 3 \<Longrightarrow> \<exists>e. decode_new OutD (parse_TransactionOutputD env defaultDecMode) z4 (enc_array bss) = Err e"
    "length bss \<noteq> 3 \<Longrightarrow> \<exists>e. decode_new OutE (parse_TransactionOutputE env defaultDecMode) z5 (enc_array bss) = Err e"
proof -
  have f: "fails (parseToValue env defaultDecMode (struct_target fs) z (enc_array bss))" if "length fs \<noteq> length bss" for fs and z :: 's
    using assms(2) fails_length [of bss fs, where rest = "[]"] that by simp
  note new = decode_new_fails [OF safe_outputs(3) [OF assms(1)]] decode_new_fails [OF safe_outputs(4) [OF assms(1)]]
    decode_new_fails [OF safe_outputs(5) [OF assms(1)]]
  show "length bss \<noteq> 3 \<Longrightarrow> \<exists>e. decode_new OutC (parse_TransactionOutputC env defaultDecMode) z3 (enc_array bss) = Err e"
    by (rule new(1)) (simp add: parse_TransactionOutputC_def f)
  show "length bss \<noteq> 3 \<Longrightarrow> \<exists>e. decode_new OutD (parse_TransactionOutputD env defaultDecMode) z4 (enc_array bss) = Err e"
    by (rule new(2)) (simp add: parse_TransactionOutputD_def f)
  show "length bss \<noteq> 3 \<Longrightarrow> \<exists>e. decode_new OutE (parse_TransactionOutputE env defaultDecMode) z5 (enc_array bss) = Err e"
    by (rule new(3)) (simp add: parse_TransactionOutputE_def f)
qed

text \<open>An amount with assets is not a number, a number is not one, and a byte string is not a slice.\<close>

lemma amount_not_coins:
  assumes "calm env" "length a < 2 ^ 63"
  shows "\<exists>e. decode_new OutC (parse_TransactionOutputC env defaultDecMode) z (enc_array [encode_HexBytes a, marshal_AmountData env m, x]) = Err e"
proof (rule decode_new_fails [OF safe_outputs(3) [OF assms(1)]])
  show "fails (parse_TransactionOutputC env defaultDecMode z (enc_array [encode_HexBytes a, marshal_AmountData env m, x]))"
    unfolding parse_TransactionOutputC_def
    by (simp add: value_fields_nil parse_field [OF reads_bytes [OF assms(2)]]) (simp add: marshal_AmountData_def fails_here fails_array)
qed

lemma coins_not_amount:
  assumes "calm env" "length a < 2 ^ 63"
  shows "\<exists>e. decode_new OutF (parse_TransactionOutputF env defaultDecMode) z (enc_array [encode_HexBytes a, encodeHead 0x00 n]) = Err e"
proof (rule decode_new_fails [OF safe_outputs(6) [OF assms(1)]])
  show "fails (parse_TransactionOutputF env defaultDecMode z (enc_array [encode_HexBytes a, encodeHead 0x00 n]))"
    unfolding parse_TransactionOutputF_def using fails_amount [where rest = "[]"]
    by (simp add: value_fields_nil parse_field [OF reads_bytes [OF assms(2)]] fails_here)
qed

lemma bytes_not_extras:
  assumes "calm env" "fair_order env" "length a < 2 ^ 63" "amount_ok m" "b \<noteq> []" "length b < 2 ^ 63" "toD_AmountData z = zero_amount"
  shows "\<exists>e. decode_new OutD (parse_TransactionOutputD env defaultDecMode) z
    (enc_array [encode_HexBytes a, marshal_AmountData env m, encode_HexBytes b]) = Err e"
proof (rule decode_new_fails [OF safe_outputs(4) [OF assms(1)]])
  obtain m' where m: "amount_reads env m m'" using amount_exists [OF assms(2,4)] by blast
  show "fails (parse_TransactionOutputD env defaultDecMode z (enc_array [encode_HexBytes a, marshal_AmountData env m, encode_HexBytes b]))"
    unfolding parse_TransactionOutputD_def using fails_bytes [where p = "parse_iface env defaultDecMode" and rest = "[]", OF assms(5,6)]
    by (simp add: value_fields_nil parse_field [OF reads_bytes [OF assms(3)]] parse_amount [OF m] assms(7) fails_here)
qed

lemma reads_D:
  assumes "amount_reads env (toD_AmountData t) m" "length (toD_Address t) < 2 ^ 63" "\<forall>x\<in>set (toD_Extra t). any_ok x" "length (toD_Extra t) \<le> 131072"
    "toD_AmountData z = zero_amount"
  shows "parse_TransactionOutputD env defaultDecMode z (output_bytes env (OutD t)) = ((t\<lparr>toD_AmountData := m\<rparr>, Ok ()), [])"
  unfolding parse_TransactionOutputD_def using assms(5)
  by (simp add: value_fields_nil parse_field [OF reads_bytes [OF assms(2)]] parse_amount [OF assms(1)]
    parse_field [OF reads_extras [OF assms(3,4)], where rest = "[]", unfolded append_Nil2])

lemma reads_E:
  assumes "amount_reads env (toE_AmountData t) m" "length (toE_Address t) < 2 ^ 63" "length (toE_Extra t) < 2 ^ 63" "toE_AmountData z = zero_amount"
  shows "parse_TransactionOutputE env defaultDecMode z (output_bytes env (OutE t)) = ((t\<lparr>toE_AmountData := m\<rparr>, Ok ()), [])"
  unfolding parse_TransactionOutputE_def using assms(4)
  by (simp add: marshal_TransactionOutputE_def value_fields_nil parse_field [OF reads_bytes [OF assms(2)]] parse_amount [OF assms(1)]
    parse_field [OF reads_bytes [OF assms(3)], where rest = "[]", unfolded append_Nil2])

lemma reads_F:
  assumes "amount_reads env (toF_AmountData t) m" "length (toF_Address t) < 2 ^ 63" "toF_AmountData z = zero_amount"
  shows "parse_TransactionOutputF env defaultDecMode z (output_bytes env (OutF t)) = ((t\<lparr>toF_AmountData := m\<rparr>, Ok ()), [])"
  unfolding parse_TransactionOutputF_def using assms(3)
  by (simp add: marshal_TransactionOutputF_def value_fields_nil parse_field [OF reads_bytes [OF assms(2)]]
    parse_amount [OF assms(1), where rest = "[]", unfolded append_Nil2])

lemma decode_D:
  assumes "amount_reads env (toD_AmountData t) m" "length (toD_Address t) < 2 ^ 63" "\<forall>x\<in>set (toD_Extra t). any_ok x" "length (toD_Extra t) \<le> 131072"
    "toD_AmountData z = zero_amount"
    "wellformed defaultDecMode False False (enc_array [encode_HexBytes (toD_Address t), marshal_AmountData env (toD_AmountData t), encode_slice wire (toD_Extra t)]) = Ok r"
  shows "decode_new OutD (parse_TransactionOutputD env defaultDecMode) z (enc_array [encode_HexBytes (toD_Address t), marshal_AmountData env (toD_AmountData t), encode_slice wire (toD_Extra t)]) = Ok (OutD (t\<lparr>toD_AmountData := m\<rparr>))"
  using reads_D [OF assms(1-5)]
  by (intro decode_new_Ok [OF assms(6), where v = "t\<lparr>toD_AmountData := m\<rparr>" and r' = "[]"]) simp

lemma decode_E:
  assumes "amount_reads env (toE_AmountData t) m" "length (toE_Address t) < 2 ^ 63" "length (toE_Extra t) < 2 ^ 63" "toE_AmountData z = zero_amount"
    "wellformed defaultDecMode False False (enc_array [encode_HexBytes (toE_Address t), marshal_AmountData env (toE_AmountData t), encode_HexBytes (toE_Extra t)]) = Ok r"
  shows "decode_new OutE (parse_TransactionOutputE env defaultDecMode) z (enc_array [encode_HexBytes (toE_Address t), marshal_AmountData env (toE_AmountData t), encode_HexBytes (toE_Extra t)]) = Ok (OutE (t\<lparr>toE_AmountData := m\<rparr>))"
  using reads_E [OF assms(1-4)]
  by (intro decode_new_Ok [OF assms(5), where v = "t\<lparr>toE_AmountData := m\<rparr>" and r' = "[]"]) (simp add: marshal_TransactionOutputE_def)

lemma decode_F:
  assumes "amount_reads env (toF_AmountData t) m" "length (toF_Address t) < 2 ^ 63" "toF_AmountData z = zero_amount"
    "wellformed defaultDecMode False False (enc_array [encode_HexBytes (toF_Address t), marshal_AmountData env (toF_AmountData t)]) = Ok r"
  shows "decode_new OutF (parse_TransactionOutputF env defaultDecMode) z (enc_array [encode_HexBytes (toF_Address t), marshal_AmountData env (toF_AmountData t)]) = Ok (OutF (t\<lparr>toF_AmountData := m\<rparr>))"
  using reads_F [OF assms(1-3)]
  by (intro decode_new_Ok [OF assms(4), where v = "t\<lparr>toF_AmountData := m\<rparr>" and r' = "[]"]) (simp add: marshal_TransactionOutputF_def)

text \<open>The decoder tries the subtypes in order; the one that was written is the first that takes the bytes.\<close>

lemma subtype_found:
  assumes "calm env" "fair_order env" "output_ok t"
  shows "\<exists>u. same_output t u \<and> SubtypeOf_UnmarshalCBOR (TransactionOutput_Subtypes env) (output_bytes env t) = Ok u"
proof (cases t)
  case (OutA a)
  obtain u where "same_output (OutA a) (OutA u)" "parse_TransactionOutputA env defaultDecMode
      \<lparr>toA_Address = [], toA_AmountData = zero_amount, toA_Extra = \<lparr>op_Valid = False, op_Value = None\<rparr>\<rparr> (output_bytes env (OutA a)) = ((u, Ok ()), [])"
    using reads_A [OF assms(2) assms(3) [unfolded OutA] refl] by blast
  then show ?thesis using wellformed_output [OF assms(2,3)] OutA
    by (intro exI [of _ "OutA u"]) (simp add: TransactionOutput_Subtypes_def SubtypeOf_here decode_new_Ok del: output_bytes.simps same_output.simps)
next
  case (OutB a)
  then have l: "length (toB_Address a) < 2 ^ 63" using assms(3) by simp
  have "output_bytes env t = enc_fields [(0, encode_HexBytes (toB_Address a)), (1, encodeHead 0x00 (toB_Amount a))]"
    using OutB by (simp add: marshal_TransactionOutputB_def)
  moreover have "\<exists>e. decode_new OutA (parse_TransactionOutputA env defaultDecMode) z
      (enc_fields [(0, encode_HexBytes (toB_Address a)), (1, encodeHead 0x00 (toB_Amount a))]) = Err e" for z
    by (rule decode_new_fails [OF safe_outputs(1) [OF assms(1)]]) (simp add: fails_coin_amount [OF l])
  ultimately show ?thesis using wellformed_output [OF assms(2,3)] OutB reads_B [OF l, of "[]" env]
    by (intro exI [of _ "OutB a"]) (simp add: TransactionOutput_Subtypes_def SubtypeOf_next SubtypeOf_here decode_new_Ok del: output_bytes.simps)
next
  case (OutC a)
  have b: "output_bytes env t = enc_array [encode_HexBytes (toC_Address a), encodeHead 0x00 (toC_Amount a), encode_HexBytes (toC_Address2 a)]"
    using OutC by (simp add: marshal_TransactionOutputC_def)
  then show ?thesis
    using decode_new_reads [OF reads_C wellformed_output [OF assms(2,3), unfolded b], of OutC] assms(3) OutC array_not_map [OF assms(1)]
    by (intro exI [of _ "OutC a"]) (simp add: TransactionOutput_Subtypes_def SubtypeOf_next SubtypeOf_here del: output_bytes.simps)
next
  case (OutD a)
  then obtain m where m: "amount_reads env (toD_AmountData a) m" using amount_exists [OF assms(2)] assms(3) by auto
  show ?thesis
    using OutD assms(3) m array_not_map [OF assms(1)] amount_not_coins [OF assms(1)] wellformed_output [OF assms(2,3)]
    by (intro exI [of _ "OutD (a\<lparr>toD_AmountData := m\<rparr>)"])
      (simp add: TransactionOutput_Subtypes_def SubtypeOf_next SubtypeOf_here amount_reads_def decode_D [OF m])
next
  case (OutE a)
  then obtain m where m: "amount_reads env (toE_AmountData a) m" using amount_exists [OF assms(2)] assms(3) by auto
  have b: "output_bytes env (OutE a) = enc_array [encode_HexBytes (toE_Address a), marshal_AmountData env (toE_AmountData a), encode_HexBytes (toE_Extra a)]"
    by (simp add: marshal_TransactionOutputE_def)
  show ?thesis
    using OutE assms(3) m array_not_map [OF assms(1)] amount_not_coins [OF assms(1)] bytes_not_extras [OF assms(1,2)] wellformed_output [OF assms(2,3)]
    by (intro exI [of _ "OutE (a\<lparr>toE_AmountData := m\<rparr>)"])
      (simp add: TransactionOutput_Subtypes_def SubtypeOf_next SubtypeOf_here amount_reads_def b decode_E [OF m] del: output_bytes.simps)
next
  case (OutF a)
  then obtain m where m: "amount_reads env (toF_AmountData a) m" using amount_exists [OF assms(2)] assms(3) by auto
  have b: "output_bytes env (OutF a) = enc_array [encode_HexBytes (toF_Address a), marshal_AmountData env (toF_AmountData a)]"
    by (simp add: marshal_TransactionOutputF_def)
  show ?thesis
    using OutF assms(3) m array_not_map [OF assms(1)] array_other_length [OF assms(1)] wellformed_output [OF assms(2,3)]
    by (intro exI [of _ "OutF (a\<lparr>toF_AmountData := m\<rparr>)"])
      (simp add: TransactionOutput_Subtypes_def SubtypeOf_next SubtypeOf_here amount_reads_def b decode_F [OF m] del: output_bytes.simps)
next
  case (OutG a)
  have b: "output_bytes env t = enc_array [encode_HexBytes (toG_Address a), encodeHead 0x00 (toG_Amount a)]"
    using OutG by (simp add: marshal_TransactionOutputG_def)
  then show ?thesis
    using decode_new_reads [OF reads_G wellformed_output [OF assms(2,3), unfolded b], of OutG] assms(3) OutG
      array_not_map [OF assms(1)] array_other_length [OF assms(1)] coins_not_amount [OF assms(1)]
    by (intro exI [of _ "OutG a"]) (simp add: TransactionOutput_Subtypes_def SubtypeOf_next SubtypeOf_here del: output_bytes.simps)
qed (use assms in simp)

text \<open>Claim C5 (output_roundtrip): Every transaction output that the code can write, in any of the seven formats, is read back as an output
  of the same format with the same address, the same amounts of all assets and the same extra data, whatever follows it: the decoder, which tries the
  formats in order, never takes one format for another. An output of the first format needs its extra data, and one of the fifth a nonempty byte string.\<close>

theorem output_roundtrip:
  assumes "calm env" "fair_order env" "output_ok t"
  shows "\<exists>bs u. marshal_TransactionOutput env t = Ok bs \<and> same_output t u \<and> (\<forall>old rest. parse_TransactionOutput env old (bs @ rest) = ((u, Ok ()), rest))"
proof -
  obtain u where u: "same_output t u" "SubtypeOf_UnmarshalCBOR (TransactionOutput_Subtypes env) (output_bytes env t) = Ok u"
    using subtype_found [OF assms] by blast
  obtain m n xs where h: "output_bytes env t = encodeHead m n @ xs" "m = 0x80 \<or> m = 0xA0" using output_head [OF assms(3)] by blast
  have "parse_TransactionOutput env old (output_bytes env t @ rest) = ((u, Ok ()), rest)" for old rest
    using u(2) by (simp add: parse_TransactionOutput_def all_or_nothing_def unmarshaler_item [OF wellformed_item [OF wellformed_output [OF assms(2,3)]] h])
  then show ?thesis using u(1) marshal_output [OF assms(2,3)] by blast
qed

theorem output_roundtrip_witness:
  "\<exists>bs u. marshal_TransactionOutput ex_order (OutD \<lparr>toD_Address = [0x61, 7], toD_AmountData = \<lparr>ad_Amount = 1000000, ad_Mappings = [(''policy'', [(''token'', 5), (''nft'', 1)])]\<rparr>,
      toD_Extra = [AUint 1, ABytes [0xAA]]\<rparr>) = Ok bs \<and>
    same_output (OutD \<lparr>toD_Address = [0x61, 7], toD_AmountData = \<lparr>ad_Amount = 1000000, ad_Mappings = [(''policy'', [(''token'', 5), (''nft'', 1)])]\<rparr>,
      toD_Extra = [AUint 1, ABytes [0xAA]]\<rparr>) u \<and>
    (\<forall>old rest. parse_TransactionOutput ex_order old (bs @ rest) = ((u, Ok ()), rest))"
  by (rule output_roundtrip) (simp_all add: calm_def ex_order_def fair_order_def amount_ok_def keys_ok_def any_ok_def)

subsection \<open>Outputs that lose data\<close>

text \<open>Claim C32 (output_datum_dropped): An output that is a map with an address, an amount of coins and further entries, such as the datum and
  the script of newer eras, is decoded without an error, but to the format of address and coins alone: it is written back without
  the other entries.\<close>

theorem output_datum_dropped:
  assumes "calm env" "length a < 2 ^ 63" "\<forall>(k, b)\<in>set es. 1 < k \<and> k < 2 ^ 63 \<and> item b []" "length es < 90"
    and "wellformed defaultDecMode False False (enc_fields ((0, encode_HexBytes a) # (1, encodeHead 0x00 n) # es)) = Ok []"
  shows "parse_TransactionOutput env old (enc_fields ((0, encode_HexBytes a) # (1, encodeHead 0x00 n) # es) @ rest) =
      ((OutB \<lparr>toB_Address = a, toB_Amount = n\<rparr>, Ok ()), rest) \<and>
    marshal_TransactionOutput env (OutB \<lparr>toB_Address = a, toB_Amount = n\<rparr>) = Ok (enc_fields [(0, encode_HexBytes a), (1, encodeHead 0x00 n)])"
proof -
  let ?b = "enc_fields ((0, encode_HexBytes a) # (1, encodeHead 0x00 n) # es)"
  have "\<exists>e. decode_new OutA (parse_TransactionOutputA env defaultDecMode) z ?b = Err e" for z
    by (rule decode_new_fails [OF safe_outputs(1) [OF assms(1)]]) (simp add: fails_coin_amount [OF assms(2,4)])
  then have s: "SubtypeOf_UnmarshalCBOR (TransactionOutput_Subtypes env) ?b = Ok (OutB \<lparr>toB_Address = a, toB_Amount = n\<rparr>)"
    using assms(5) reads_B [OF assms(2-4)] by (simp add: TransactionOutput_Subtypes_def SubtypeOf_next SubtypeOf_here decode_new_Ok)
  have h: "?b = encodeHead 0xA0 (of_nat (length es + 2)) @ concat (map (\<lambda>(k, b). encode_int k @ b) ((0, encode_HexBytes a) # (1, encodeHead 0x00 n) # es))"
    by (simp add: enc_fields_def)
  have "parse_TransactionOutput env old (?b @ rest) = ((OutB \<lparr>toB_Address = a, toB_Amount = n\<rparr>, Ok ()), rest)"
    by (simp only: parse_TransactionOutput_def unmarshaler_item [OF wellformed_item [OF assms(5)] h disjI2 [OF refl]]) (simp add: all_or_nothing_def s)
  then show ?thesis by (simp add: marshal_TransactionOutputB_def)
qed

theorem output_datum_dropped_witness:
  "parse_TransactionOutput ex_order OutOther (enc_fields [(0, encode_HexBytes [0x61]), (1, encodeHead 0x00 5), (2, [0x82, 0x00, 0x41, 0xAB])]) =
    ((OutB \<lparr>toB_Address = [0x61], toB_Amount = 5\<rparr>, Ok ()), [])"
proof -
  have w: "wellformed defaultDecMode False False [0x82, 0x00, 0x41, 0xAB] = Ok []"
    "wellformed defaultDecMode False False (enc_fields [(0, encode_HexBytes [0x61]), (1, encodeHead 0x00 5), (2, [0x82, 0x00, 0x41, 0xAB])]) = Ok []"
    by code_simp+
  show ?thesis
    using output_datum_dropped [of ex_order "[0x61]" "[(2, [0x82, 0x00, 0x41, 0xAB])]" 5 OutOther "[]"] w wellformed_item [OF w(1)]
    by (simp add: calm_def ex_order_def)
qed

lemma fails_map: "length es < 100 \<Longrightarrow> fails (parseToValue env dm (struct_target fs) old (enc_fields es))"
  using fails_skip_reject by (simp add: enc_fields_def value_map struct_target_def no_target_def)

lemma fails_no_extra: "fails (parse_OptionalExtra env old [0x80])"
proof -
  have h: "encodeHead 0x80 0 = [0x80]" by (simp add: encodeHead_def)
  have i: "wellformed defaultDecMode False False [0x80] = Ok []" "skip [0x80] = Ok []" "\<not> nextCBORNil [0x80]" by code_simp+
  have "parse_TransactionOutputExtra env defaultDecMode z [0x80] = ((z, Err errType), [])" for z
    using array_head(1) [of 0 "[]"] value_array [of env defaultDecMode _ z 0 "[]"] i(2)
    by (simp add: h parse_TransactionOutputExtra_def struct_target_def parseArrayToStruct_def skip_reject_def ai_of_definite)
  then have "snd (Optional_UnmarshalCBOR (Unmarshal defaultDecMode (parse_pointer z (parse_TransactionOutputExtra env defaultDecMode))) [0x80] old) = Err errType" for z old
    using i(1,3) by (simp add: Optional_UnmarshalCBOR_def Unmarshal_def parse_pointer_def errType_def split: option.split)
  moreover have "[0x80] = encodeHead 0x80 0 @ []" by (simp add: h)
  note u = unmarshaler_item [OF wellformed_item [OF i(1)] this disjI1 [OF refl], where rest = "[]", unfolded append_Nil2]
  ultimately show ?thesis by (simp add: fails_def parse_OptionalExtra_def u)
qed

text \<open>An output of the first format without extra data, as most outputs with assets are, is written with an empty
  array as its extra data, and no format reads that: what was written is refused.\<close>

theorem output_without_datum:
  assumes "calm env" "fair_order env" "length a < 2 ^ 63" "amount_ok m"
  shows "\<exists>bs. marshal_TransactionOutput env (OutA \<lparr>toA_Address = a, toA_AmountData = m, toA_Extra = \<lparr>op_Valid = False, op_Value = v\<rparr>\<rparr>) = Ok bs \<and>
    (\<forall>old rest. \<exists>e. parse_TransactionOutput env old (bs @ rest) = ((old, Err e), rest))"
proof -
  let ?bs = "enc_fields [(0, encode_HexBytes a), (1, marshal_AmountData env m), (2, [0x80])]"
  have x: "encodes (ASlice []) [0x80]" using enc_slice [of "[]" "[]"] by (simp add: encodeHead_def)
  have e: "encodes (AMap [(AUint 0, rep_bytes a), (AUint 1, rep_amount m), (AUint 2, ASlice [])]) ?bs"
    by (intro encodes_fields3 encodes_bytes_field encodes_amount assms x)
  have w: "wellformed defaultDecMode False False ?bs = Ok []"
    using encodes_wellformed [OF e, of defaultDecMode False False "[]"] assms(3) sizes_amount [OF assms(4), of False]
    by (simp add: rep_bytes_def) (simp add: defaultDecMode_def)
  have "checked (Ok [0x80]) = Ok [0x80]" using checked_encodes [OF x] by (simp add: marshalerDecMode_def)
  then have m: "marshal_TransactionOutput env (OutA \<lparr>toA_Address = a, toA_AmountData = m, toA_Extra = \<lparr>op_Valid = False, op_Value = v\<rparr>\<rparr>) = Ok ?bs"
    by (simp add: marshal_TransactionOutputA_def enc_fields_res_def Optional_MarshalCBOR_def)
  obtain m' where m': "amount_reads env m m'" using amount_exists [OF assms(2,4)] by blast
  have "fails (parse_TransactionOutputA env defaultDecMode \<lparr>toA_Address = [], toA_AmountData = zero_amount, toA_Extra = o'\<rparr> ?bs)" for o'
    unfolding parse_TransactionOutputA_def
    by (simp add: value_entries map_field [OF reads_bytes [OF assms(3)]] map_amount [OF m'] del: map_fields.simps)
      (rule map_entry_fails, auto intro!: fails_field fails_no_extra)
  moreover have "fails (parse_TransactionOutputB env defaultDecMode z ?bs)" for z
    unfolding parse_TransactionOutputB_def
    by (simp add: value_entries map_field [OF reads_bytes [OF assms(3)]] del: map_fields.simps)
      (rule map_entry_fails, auto intro!: fails_field simp: fails_array marshal_AmountData_def)
  ultimately have "\<exists>e. dec ?bs = Err e" if "dec \<in> set (TransactionOutput_Subtypes env)" for dec
    using that
    by (auto simp: TransactionOutput_Subtypes_def intro!: decode_new_fails safe_outputs [OF assms(1)])
      (simp_all add: parse_TransactionOutputC_def parse_TransactionOutputD_def parse_TransactionOutputE_def parse_TransactionOutputF_def
        parse_TransactionOutputG_def fails_map)
  then obtain e where s: "SubtypeOf_UnmarshalCBOR (TransactionOutput_Subtypes env) ?bs = Err e" using SubtypeOf_none by blast
  have h: "?bs = encodeHead 0xA0 3 @ concat (map (\<lambda>(k, b). encode_int k @ b) [(0, encode_HexBytes a), (1, marshal_AmountData env m), (2, [0x80])])"
    by (simp add: enc_fields_def)
  have "parse_TransactionOutput env old (?bs @ rest) = ((old, Err e), rest)" for old rest
    by (simp only: parse_TransactionOutput_def unmarshaler_item [OF wellformed_item [OF w] h disjI2 [OF refl]]) (simp add: all_or_nothing_def s)
  then show ?thesis using m by blast
qed

theorem output_without_datum_witness:
  "\<exists>bs. marshal_TransactionOutput ex_order (OutA \<lparr>toA_Address = [0x61], toA_AmountData = \<lparr>ad_Amount = 5, ad_Mappings = [(''policy'', [(''nft'', 1)])]\<rparr>,
      toA_Extra = \<lparr>op_Valid = False, op_Value = None\<rparr>\<rparr>) = Ok bs \<and>
    (\<forall>old rest. \<exists>e. parse_TransactionOutput ex_order old (bs @ rest) = ((old, Err e), rest))"
  by (rule output_without_datum) (simp_all add: calm_def ex_order_def fair_order_def amount_ok_def keys_ok_def)

end
