(* ===== verification/BatchSpec.thy ===== *)
theory BatchSpec
  imports MessagesSpec
begin

text \<open>
  Blocks of a batch: the stream of block messages and the end of the batch, cut into segments, is put together again by the reader.
\<close>

subsection \<open>Cutting a stream of items\<close>

definition starts :: "bytes list \<Rightarrow> nat set" where
  "starts ws = (\<lambda>k. length (concat (take k ws))) ` {..length ws}"

lemma starts_drop: "m \<le> length ws \<Longrightarrow> n \<in> starts (drop m ws) \<Longrightarrow> length (concat (take m ws)) + n \<in> starts ws"
proof -
  assume m: "m \<le> length ws" and "n \<in> starts (drop m ws)"
  then obtain k where "n = length (concat (take k (drop m ws)))" "k \<le> length ws - m" by (auto simp: starts_def)
  then have "length (concat (take m ws)) + n = length (concat (take (m + k) ws))" "m + k \<le> length ws" using m by (simp_all add: take_add)
  then show "length (concat (take m ws)) + n \<in> starts ws" unfolding starts_def by blast
qed

lemma split_stream:
  "x @ y = concat ws @ e \<Longrightarrow> \<exists>m part. m \<le> length ws \<and> x = concat (take m ws) @ part \<and> part @ y = concat (drop m ws) @ e \<and>
     (m < length ws \<longrightarrow> length part < length (ws ! m))"
proof (induction ws arbitrary: x)
  case (Cons w ws)
  show ?case
  proof (cases "length x < length w")
    case True
    then show ?thesis using Cons.prems by (intro exI [of _ 0]) simp
  next
    case False
    have p: "x @ y = w @ concat ws @ e" using Cons.prems by simp
    from p obtain us where "x = w @ us \<and> us @ y = concat ws @ e \<or> x @ us = w \<and> y = us @ concat ws @ e"
      unfolding append_eq_append_conv2 by blast
    with False obtain x' where x: "x = w @ x'" "x' @ y = concat ws @ e" by force
    then obtain m part where "m \<le> length ws" "x' = concat (take m ws) @ part" "part @ y = concat (drop m ws) @ e" "m < length ws \<longrightarrow> length part < length (ws ! m)"
      using Cons.IH by blast
    then show ?thesis using x by (intro exI [of _ "Suc m"] exI [of _ part]) simp
  qed
qed simp

subsection \<open>Blocks\<close>

definition block_ok :: "Message \<Rightarrow> bool" where
  "block_ok b \<longleftrightarrow> message_type b = MessageBlock \<and> message_ok b \<and> message_GetSubprotocol b = SubprotocolBlockFetchBlock"

lemma block_bytes:
  assumes "block_ok b"
  shows "\<exists>c d. message_bytes b = 0x82 # 0x04 # c # d"
proof -
  obtain x where x: "b = M_Block x" using assms by (cases b) (auto simp: block_ok_def)
  have "\<exists>c d. encode_HexBytes y = c # d" for y by (auto simp: encode_HexBytes_def encode_bytes_def encodeHead_def)
  then show ?thesis using assms x
    by (simp add: block_ok_def message_bytes_def wire_Message wire_bytes enc_array_def encodeHead_def subprotocols)
qed

lemma UnmarshalFirst_cong: "p old = q old \<Longrightarrow> UnmarshalFirst dm p data old = UnmarshalFirst dm q data old"
  by (simp add: UnmarshalFirst_def split: res.split)

lemma cd_block_eq:
  "cd_block (std_decoder env) data =
     decoded (UnmarshalFirst defaultDecMode (\<lambda>old. parse_Message env defaultDecMode (as_type MessageBlock old)) data (zero_message MessageBlock))"
proof -
  have "as_type MessageBlock (zero_message MessageBlock) = zero_message MessageBlock" by (simp add: as_type_def has_type_def)
  then show ?thesis unfolding std_decoder_def by (simp del: zero_message.simps cong: UnmarshalFirst_cong)
qed

lemma cd_block_Ok: "block_ok b \<Longrightarrow> cd_block (std_decoder env) (message_bytes b @ rest) = Ok (message_SetRaw [] b, rest)"
  using block.UnmarshalFirst_enc [of b env rest "zero_message MessageBlock"]
  by (simp add: cd_block_eq decoded_def message_bytes_def block_ok_def as_type_def has_type_def message_defs)

lemma cd_block_cut:
  "block_ok b \<Longrightarrow> message_bytes b = part @ cut_off \<Longrightarrow> part \<noteq> [] \<Longrightarrow> cut_off \<noteq> [] \<Longrightarrow> cd_block (std_decoder env) part = Err ErrUnexpectedEOF"
  using block.UnmarshalFirst_cut [of b part cut_off env "zero_message MessageBlock"]
  by (simp add: cd_block_eq decoded_def message_bytes_def block_ok_def)

text \<open>The store after blocks were put into new objects.\<close>

definition put_block :: "Message \<Rightarrow> Message msg_store \<Rightarrow> Message msg_store" where
  "put_block b st = snd (alloc \<lparr>mo_type = MessageBlock, mo_content = message_SetRaw [] b\<rparr> st)"

definition put_end :: "Message msg_store \<Rightarrow> Message msg_store" where
  "put_end st = snd (alloc \<lparr>mo_type = MessageBatchDone, mo_content = zero_message MessageBatchDone\<rparr> st)"

abbreviation "batch_done \<equiv> zero_message MessageBatchDone"

lemma blocks_then:
  assumes "list_all block_ok bs" "\<And>st. next_blocks g batch_done (std_decoder env) tail st = ((ps st, left, e), f st)"
    "length (concat (map message_bytes bs)) + g \<le> fuel" "\<And>h st. g \<le> h \<Longrightarrow> next_blocks h batch_done (std_decoder env) tail st = next_blocks g batch_done (std_decoder env) tail st"
  shows "next_blocks fuel batch_done (std_decoder env) (concat (map message_bytes bs) @ tail) st =
    ((map Fresh [ms_next st..<ms_next st + length bs] @ ps (fold put_block bs st), left, e), f (fold put_block bs st))"
  using assms(1,3)
proof (induction bs arbitrary: fuel st)
  case Nil
  then show ?case using assms(2,4) by simp
next
  case (Cons b bs)
  obtain c d where b: "message_bytes b = 0x82 # 0x04 # c # d" using block_bytes [of b] Cons.prems(1) by auto
  obtain k where k: "fuel = Suc k" using Cons.prems(2) b by (cases fuel) auto
  have IH: "next_blocks k batch_done (std_decoder env) (concat (map message_bytes bs) @ tail) (put_block b st) =
    ((map Fresh [ms_next (put_block b st)..<ms_next (put_block b st) + length bs] @ ps (fold put_block bs (put_block b st)), left, e),
     f (fold put_block bs (put_block b st)))"
    by (rule Cons.IH) (use Cons.prems k b in auto)
  have n: "ms_next (put_block b st) = Suc (ms_next st)" by (simp add: put_block_def alloc_def)
  have a: "alloc \<lparr>mo_type = MessageBlock, mo_content = message_SetRaw [] b\<rparr> st = (Fresh (ms_next st), put_block b st)"
    by (simp add: put_block_def alloc_def)
  have p: "has_prefix (message_bytes b @ r) blockStart" "\<not> has_prefix (message_bytes b @ r) batchEnd" for r
    using b by (simp_all add: has_prefix_def blockStart_def batchEnd_def)
  have u: "[ms_next st..<ms_next st + length (b # bs)] = ms_next st # [Suc (ms_next st)..<Suc (ms_next st) + length bs]"
    by (simp add: upt_rec)
  show ?case using cd_block_Ok [of b env] Cons.prems(1) IH n a p b unfolding k u by simp
qed


text \<open>The rest of the data behind complete blocks: a part of a block stays, the end of the batch is read.\<close>

lemma part_waits:
  assumes "length part \<noteq> 1" "part = [] \<or> (\<exists>b cut_off. block_ok b \<and> message_bytes b = part @ cut_off \<and> cut_off \<noteq> [])"
  shows "next_blocks h batch_done (std_decoder env) part st = (([], part, Ok ()), st)"
proof (cases "part = []")
  case False
  then obtain b cut_off where b: "block_ok b" "message_bytes b = part @ cut_off" "cut_off \<noteq> []" using assms(2) by blast
  obtain c d where "message_bytes b = 0x82 # 0x04 # c # d" using block_bytes [OF b(1)] by blast
  moreover obtain x y z where p: "part = x # y # z" using assms(1) False by (cases part; cases "tl part") auto
  ultimately have "has_prefix part blockStart" "\<not> has_prefix part batchEnd" using b(2) by (auto simp: has_prefix_def blockStart_def batchEnd_def)
  then show ?thesis using cd_block_cut [OF b(1,2) False b(3), of env] False by (cases h) (simp_all add: ErrUnexpectedEOF_def)
qed (cases h; simp)

lemma end_read:
  "1 \<le> h \<Longrightarrow> next_blocks h batch_done (std_decoder env) batchEnd st = (([Fresh (ms_next st)], [], Ok ()), put_end st)"
  by (cases h) (simp_all add: batchEnd_def has_prefix_def put_end_def alloc_def)

lemma blocks_part:
  assumes "list_all block_ok bs" "length part \<noteq> 1" "part = [] \<or> (\<exists>b cut_off. block_ok b \<and> message_bytes b = part @ cut_off \<and> cut_off \<noteq> [])"
  shows "nextBlocks batch_done (std_decoder env) (concat (map message_bytes bs) @ part) st =
    ((map Fresh [ms_next st..<ms_next st + length bs], part, Ok ()), fold put_block bs st)"
  using blocks_then [OF assms(1), where g = 0 and tail = part and env = env and ps = "\<lambda>_. []" and f = "\<lambda>st. st"] part_waits [OF assms(2,3)]
  by (simp add: nextBlocks_def)

lemma blocks_end:
  assumes "list_all block_ok bs"
  shows "nextBlocks batch_done (std_decoder env) (concat (map message_bytes bs) @ batchEnd) st =
    ((map Fresh [ms_next st..<ms_next st + length bs] @ [Fresh (ms_next (fold put_block bs st))], [], Ok ()), put_end (fold put_block bs st))"
  unfolding nextBlocks_def
proof (rule blocks_then [OF assms, where g = 1])
  show "next_blocks 1 batch_done (std_decoder env) batchEnd s = (([Fresh (ms_next s)], [], Ok ()), put_end s)" for s by (rule end_read) simp
  show "next_blocks h batch_done (std_decoder env) batchEnd s = next_blocks 1 batch_done (std_decoder env) batchEnd s" if "1 \<le> h" for h s
    unfolding end_read [OF that] by (rule end_read [symmetric]) simp
qed (simp add: batchEnd_def)

lemma put_blocks_heap:
  "ms_next (fold put_block bs st) = ms_next st + length bs \<and>
   (\<forall>i<length bs. ms_heap (fold put_block bs st) (Fresh (ms_next st + i)) = Some \<lparr>mo_type = MessageBlock, mo_content = message_SetRaw [] (bs ! i)\<rparr>) \<and>
   (\<forall>q. (\<forall>i. q \<noteq> Fresh (ms_next st + i)) \<longrightarrow> ms_heap (fold put_block bs st) q = ms_heap st q)"
proof (induction bs arbitrary: st)
  case (Cons b bs)
  let ?st = "put_block b st"
  have n: "ms_next ?st = Suc (ms_next st)" "ms_heap ?st = (ms_heap st)(Fresh (ms_next st) \<mapsto> \<lparr>mo_type = MessageBlock, mo_content = message_SetRaw [] b\<rparr>)"
    by (simp_all add: put_block_def alloc_def)
  have first: "ms_heap (fold put_block bs ?st) (Fresh (ms_next st)) = Some \<lparr>mo_type = MessageBlock, mo_content = message_SetRaw [] b\<rparr>"
    using Cons.IH [of ?st] n by auto
  have "ms_heap (fold put_block bs ?st) (Fresh (ms_next st + i)) = Some \<lparr>mo_type = MessageBlock, mo_content = message_SetRaw [] ((b # bs) ! i)\<rparr>"
    if "i < length (b # bs)" for i
    using that first Cons.IH [of ?st] n by (cases i) auto
  moreover have "ms_heap (fold put_block bs ?st) q = ms_heap st q" if "\<forall>i. q \<noteq> Fresh (ms_next st + i)" for q
    using Cons.IH [of ?st] n that [rule_format, of 0] that [rule_format, of "Suc _"] by auto
  ultimately show ?case using Cons.IH [of ?st] n by simp
qed simp

subsection \<open>Segments of a batch\<close>

definition in_batch :: "bytes \<Rightarrow> MessageReader \<Rightarrow> bool" where
  "in_batch part r \<longleftrightarrow> mr_buffer r = [] \<and> mr_partialHeader r = [] \<and> mr_batching r \<and> mr_batchBuffer r = part"

lemma read_batch_segment:
  assumes "in_batch part r" "P \<le> 10" "p \<noteq> []" "length p < 65536" "nextBlocks dc cd (part @ p) st = ((msgs, left, Ok ()), st')"
    "d \<longleftrightarrow> msgs \<noteq> [] \<and> map_option mo_type (ms_heap st' (last msgs)) = Some MessageBatchDone" "\<not> (d \<and> left \<noteq> [])"
  shows "\<exists>s. Read dc cd (header ts P (of_nat (length p)) @ p) r st = Some (Ok (), s) \<and> rs_messages s = msgs \<and> rs_store s = st' \<and>
    (d \<longrightarrow> clean (rs_reader s)) \<and> (\<not> d \<longrightarrow> in_batch left (rs_reader s))"
proof -
  have len: "unat (of_nat (length p) :: uint16) = length p" using assms(4) by (simp add: unat_of_nat)
  let ?s = "\<lparr>rs_index = int (8 + length p), rs_reader = r\<lparr>mr_timestamp := PutUint32 ts, mr_protocol := P, mr_length := of_nat (length p),
    mr_partialHeader := [], mr_buffer := p\<rparr>, rs_store = st, rs_messages = []\<rparr>"
  have i: "read_iter dc cd (header ts P (of_nat (length p)) @ p) \<lparr>rs_index = 0, rs_reader = r, rs_store = st, rs_messages = []\<rparr> = read_complete dc cd ?s"
    using read_iter_header [of r P p "of_nat (length p)" dc cd ts st] assms(1-3) len by (simp add: in_batch_def Let_def)
  have "\<exists>s. read_complete dc cd ?s = ReadContinue s \<and> rs_index s = rs_index ?s \<and> rs_messages s = msgs \<and> rs_store s = st' \<and>
      (d \<longrightarrow> clean (rs_reader s)) \<and> (\<not> d \<longrightarrow> in_batch left (rs_reader s))"
    using assms(1,5,6,7) by (auto simp: read_complete_def in_batch_def Let_def reader_reset_def clean_def)
  then show ?thesis by (auto simp: Read_step i)
qed


text \<open>The segments of the stream \<open>ps\<close>, and what a read of all of them gives: new objects with the blocks and the end of the batch.\<close>

definition batch_segments :: "uint32 \<Rightarrow> uint16 \<Rightarrow> bytes list \<Rightarrow> bytes list" where
  "batch_segments ts P ps = map (\<lambda>p. header ts P (of_nat (length p)) @ p) ps"

definition batch_result :: "Message list \<Rightarrow> Message msg_store \<Rightarrow> (unit res \<times> msg_ptr list \<times> MessageReader \<times> Message msg_store) option \<Rightarrow> bool" where
  "batch_result bs st out \<longleftrightarrow> (\<exists>r' st'. out = Some (Ok (), map Fresh [ms_next st..<ms_next st + Suc (length bs)], r', st') \<and> clean r' \<and>
     (\<forall>i<length bs. ms_heap st' (Fresh (ms_next st + i)) = Some \<lparr>mo_type = MessageBlock, mo_content = message_SetRaw [] (bs ! i)\<rparr>) \<and>
     (\<forall>q. (\<forall>i. q \<noteq> Fresh (ms_next st + i)) \<longrightarrow> ms_heap st' q = ms_heap st q))"

lemma last_piece:
  assumes "part @ p = concat (map message_bytes bs) @ batchEnd" "list_all block_ok bs" "in_batch part r" "P \<le> 10" "p \<noteq> []" "length p < 65536"
  shows "batch_result bs st (feed batch_done (std_decoder env) (batch_segments ts P [p]) r st)"
proof -
  let ?st = "put_end (fold put_block bs st)"
  note heap = put_blocks_heap [of bs st]
  let ?msgs = "map Fresh [ms_next st..<ms_next st + length bs] @ [Fresh (ms_next (fold put_block bs st))]"
  have u: "map Fresh [ms_next st..<ms_next st + Suc (length bs)] = ?msgs" using heap by simp
  have e: "ms_heap ?st = (ms_heap (fold put_block bs st))(Fresh (ms_next st + length bs) \<mapsto> \<lparr>mo_type = MessageBatchDone, mo_content = batch_done\<rparr>)"
    using heap by (simp add: put_end_def alloc_def)
  have n: "nextBlocks batch_done (std_decoder env) (part @ p) st = ((?msgs, [], Ok ()), ?st)"
    unfolding assms(1) by (rule blocks_end [OF assms(2)])
  have d: "True \<longleftrightarrow> ?msgs \<noteq> [] \<and> map_option mo_type (ms_heap ?st (last ?msgs)) = Some MessageBatchDone" using e heap by simp
  have nd: "\<not> (True \<and> [] \<noteq> ([] :: bytes))" by simp
  obtain s where s: "Read batch_done (std_decoder env) (header ts P (of_nat (length p)) @ p) r st = Some (Ok (), s)" "rs_messages s = ?msgs" "rs_store s = ?st"
    "clean (rs_reader s)"
    using read_batch_segment [OF assms(3-6) n d nd, of ts] by auto
  then show ?thesis unfolding batch_result_def u batch_segments_def using heap e by (auto simp del: zero_message.simps)
qed

lemma more_pieces:
  assumes "nextBlocks batch_done (std_decoder env) (part @ p) st = ((map Fresh [ms_next st..<ms_next st + length bs1], part', Ok ()), fold put_block bs1 st)"
    "in_batch part r" "P \<le> 10" "p \<noteq> []" "length p < 65536"
    "\<And>r1. in_batch part' r1 \<Longrightarrow> batch_result bs2 (fold put_block bs1 st) (feed batch_done (std_decoder env) (batch_segments ts P ps) r1 (fold put_block bs1 st))"
  shows "batch_result (bs1 @ bs2) st (feed batch_done (std_decoder env) (batch_segments ts P (p # ps)) r st)"
proof -
  let ?st = "fold put_block bs1 st" and ?msgs = "map Fresh [ms_next st..<ms_next st + length bs1]"
  note heap = put_blocks_heap [of bs1 st]
  have "map_option mo_type (ms_heap ?st (last ?msgs)) = Some MessageBlock" if "bs1 \<noteq> []"
  proof -
    have "last ?msgs = Fresh (ms_next st + (length bs1 - 1))" using that by (cases bs1 rule: rev_cases) (simp_all add: last_map)
    then show ?thesis using heap that by simp
  qed
  then have d: "False \<longleftrightarrow> ?msgs \<noteq> [] \<and> map_option mo_type (ms_heap ?st (last ?msgs)) = Some MessageBatchDone" by auto
  have nd: "\<not> (False \<and> part' \<noteq> [])" by simp
  obtain s where s: "Read batch_done (std_decoder env) (header ts P (of_nat (length p)) @ p) r st = Some (Ok (), s)" "rs_messages s = ?msgs" "rs_store s = ?st"
    "in_batch part' (rs_reader s)"
    using read_batch_segment [OF assms(2-5,1) d nd, of ts] by auto
  from assms(6) [OF s(4)] obtain r' st' where f: "feed batch_done (std_decoder env) (batch_segments ts P ps) (rs_reader s) ?st =
      Some (Ok (), map Fresh [ms_next ?st..<ms_next ?st + Suc (length bs2)], r', st')" "clean r'"
    "\<forall>i<length bs2. ms_heap st' (Fresh (ms_next ?st + i)) = Some \<lparr>mo_type = MessageBlock, mo_content = message_SetRaw [] (bs2 ! i)\<rparr>"
    "\<forall>q. (\<forall>i. q \<noteq> Fresh (ms_next ?st + i)) \<longrightarrow> ms_heap st' q = ms_heap ?st q"
    unfolding batch_result_def by blast
  have m: "?msgs @ map Fresh [ms_next ?st..<ms_next ?st + Suc (length bs2)] = map Fresh [ms_next st..<ms_next st + Suc (length (bs1 @ bs2))]"
  proof -
    have "[ms_next st..<ms_next st + length bs1] @ [ms_next st + length bs1..<ms_next st + length bs1 + Suc (length bs2)] = [ms_next st..<ms_next st + Suc (length (bs1 @ bs2))]"
      using upt_add_eq_append [of "ms_next st" "ms_next st + length bs1" "Suc (length bs2)"] by (simp add: add.assoc del: upt_Suc)
    then show ?thesis using heap by (metis map_append)
  qed
  have c: "ms_heap st' (Fresh (ms_next st + i)) = Some \<lparr>mo_type = MessageBlock, mo_content = message_SetRaw [] ((bs1 @ bs2) ! i)\<rparr>" if "i < length (bs1 @ bs2)" for i
  proof (cases "i < length bs1")
    case True
    then have "\<forall>j. Fresh (ms_next st + i) \<noteq> Fresh (ms_next ?st + j)" using heap by simp
    then show ?thesis using f(4) heap True by (auto simp: nth_append)
  next
    case False
    then show ?thesis using f(3) [rule_format, of "i - length bs1"] heap that by (simp add: nth_append)
  qed
  have k: "ms_heap st' q = ms_heap st q" if "\<forall>i. q \<noteq> Fresh (ms_next st + i)" for q
    using f(4) heap that by (metis add.assoc)
  have "feed batch_done (std_decoder env) (batch_segments ts P (p # ps)) r st =
      Some (Ok (), ?msgs @ map Fresh [ms_next ?st..<ms_next ?st + Suc (length bs2)], r', st')"
    using s f(1) by (simp add: batch_segments_def del: zero_message.simps upt_Suc)
  then show ?thesis unfolding batch_result_def m using f(2) c k by blast
qed

lemma batch_pieces:
  assumes "part @ concat ps = concat (map message_bytes bs) @ batchEnd" "list_all block_ok bs" "bs \<noteq> [] \<longrightarrow> length part < length (message_bytes (hd bs))"
    "bs = [] \<longrightarrow> length part < 2" "list_all (\<lambda>p. p \<noteq> [] \<and> length p < 65536) ps"
    "\<forall>j. 0 < j \<and> j < length ps \<longrightarrow> length part + length (concat (take j ps)) \<notin> Suc ` starts (map message_bytes bs)"
    "in_batch part r" "P \<le> 10"
  shows "batch_result bs st (feed batch_done (std_decoder env) (batch_segments ts P ps) r st)"
  using assms
proof (induction ps arbitrary: part bs r st)
  case Nil
  then show ?case by (cases bs) (auto simp: batchEnd_def)
next
  case (Cons p ps)
  let ?ws = "map message_bytes bs"
  have "(part @ p) @ concat ps = concat ?ws @ batchEnd" using Cons.prems(1) by simp
  from split_stream [OF this] obtain m part' where m: "m \<le> length bs" "part @ p = concat (take m ?ws) @ part'"
    "part' @ concat ps = concat (drop m ?ws) @ batchEnd" "m < length bs \<longrightarrow> length part' < length (?ws ! m)" by auto
  show ?case
  proof (cases "ps = []")
    case True
    then show ?thesis using last_piece [of part p bs r P st env ts] Cons.prems by simp
  next
    case False
    then have y: "concat ps \<noteq> []" using Cons.prems(5) by (cases ps) auto
    have one: "length part' \<noteq> 1"
    proof
      assume "length part' = 1"
      then have "length part + length (concat (take 1 (p # ps))) = Suc (length (concat (take m ?ws)))" using arg_cong [OF m(2), of length] by simp
      moreover have "length (concat (take m ?ws)) \<in> starts ?ws" using m(1) by (auto simp: starts_def)
      ultimately show False using Cons.prems(6) [rule_format, of 1] False by auto
    qed
    have last: "part' = []" if "m = length bs"
      using m(3) that y one by (cases part'; cases "tl part'") (auto simp: batchEnd_def append_eq_Cons_conv)
    have cut: "part' = [] \<or> (\<exists>b cut_off. block_ok b \<and> message_bytes b = part' @ cut_off \<and> cut_off \<noteq> [])"
    proof (cases "m = length bs")
      case False
      then have lt: "m < length bs" using m(1) by simp
      then have "concat (drop m ?ws) = message_bytes (bs ! m) @ concat (drop (Suc m) ?ws)" by (simp add: Cons_nth_drop_Suc [symmetric])
      then have "part' @ concat ps = message_bytes (bs ! m) @ concat (drop (Suc m) ?ws) @ batchEnd" using m(3) by simp
      then obtain cut_off where "message_bytes (bs ! m) = part' @ cut_off" using m(4) lt by (auto simp: append_eq_append_conv2) metis
      moreover have "block_ok (bs ! m)" using Cons.prems(2) lt by (simp add: list_all_length)
      ultimately show ?thesis using m(4) lt by auto
    qed (use last in simp)
    have n: "nextBlocks batch_done (std_decoder env) (concat (map message_bytes (take m bs)) @ part') st =
        ((map Fresh [ms_next st..<ms_next st + length (take m bs)], part', Ok ()), fold put_block (take m bs) st)"
      using Cons.prems(2) one cut by (intro blocks_part) (auto simp: list_all_iff dest: in_set_takeD)
    have "batch_result (take m bs @ drop m bs) st (feed batch_done (std_decoder env) (batch_segments ts P (p # ps)) r st)"
    proof (rule more_pieces)
      show "nextBlocks batch_done (std_decoder env) (part @ p) st =
          ((map Fresh [ms_next st..<ms_next st + length (take m bs)], part', Ok ()), fold put_block (take m bs) st)"
        using n m(2) by (simp add: take_map)
      fix r1 assume r1: "in_batch part' r1"
      show "batch_result (drop m bs) (fold put_block (take m bs) st)
          (feed batch_done (std_decoder env) (batch_segments ts P ps) r1 (fold put_block (take m bs) st))"
      proof (rule Cons.IH [OF _ _ _ _ _ _ r1 Cons.prems(8)])
        show "part' @ concat ps = concat (map message_bytes (drop m bs)) @ batchEnd" using m(3) by (simp add: drop_map)
        show "\<forall>j. 0 < j \<and> j < length ps \<longrightarrow> length part' + length (concat (take j ps)) \<notin> Suc ` starts (map message_bytes (drop m bs))"
        proof (intro allI impI notI)
          fix j assume j: "0 < j \<and> j < length ps" "length part' + length (concat (take j ps)) \<in> Suc ` starts (map message_bytes (drop m bs))"
          then obtain k where k: "length part' + length (concat (take j ps)) = Suc k" "k \<in> starts (drop m ?ws)" by (auto simp: drop_map)
          have "length (concat (take m ?ws)) + k \<in> starts ?ws" by (rule starts_drop [OF _ k(2)]) (use m(1) in simp)
          moreover have "length part + length (concat (take (Suc j) (p # ps))) = Suc (length (concat (take m ?ws)) + k)"
            using arg_cong [OF m(2), of length] k(1) by simp
          ultimately show False using Cons.prems(6) [rule_format, of "Suc j"] j(1) by auto
        qed
        show "drop m bs = [] \<longrightarrow> length part' < 2" using last m(1) by auto
      qed (use Cons.prems m in \<open>auto simp: list_all_iff hd_drop_conv_nth dest: in_set_dropD\<close>)
    qed (use Cons.prems in auto)
    then show ?thesis by simp
  qed
qed


subsection \<open>Properties\<close>

text \<open>Claim C7 (batch_reassembled): The block messages of a batch and its end, cut into segments anywhere except one byte behind the start of a message, are put together
  again: the reader returns a new object with the content of each block, in order, and the end of the batch, and leaves the batch.\<close>

theorem batch_reassembled:
  assumes "list_all block_ok bs" "concat ps = concat (map message_bytes bs) @ batchEnd" "list_all (\<lambda>p. p \<noteq> [] \<and> length p < 65536) ps"
    "\<forall>j. 0 < j \<and> j < length ps \<longrightarrow> length (concat (take j ps)) \<notin> Suc ` starts (map message_bytes bs)"
    "in_batch [] r" "P \<le> 10"
  shows "\<exists>r' st'. feed batch_done (std_decoder env) (batch_segments ts P ps) r st = Some (Ok (), map Fresh [ms_next st..<ms_next st + Suc (length bs)], r', st') \<and>
    clean r' \<and> (\<forall>i<length bs. map_option mo_content (ms_heap st' (Fresh (ms_next st + i))) = Some (message_SetRaw [] (bs ! i)))"
proof -
  have "bs \<noteq> [] \<longrightarrow> length ([] :: bytes) < length (message_bytes (hd bs))"
    using assms(1) block_bytes [of "hd bs"] by (cases bs) auto
  then have "batch_result bs st (feed batch_done (std_decoder env) (batch_segments ts P ps) r st)"
    using assms by (intro batch_pieces [where part = "[]"]) auto
  then show ?thesis unfolding batch_result_def by fastforce
qed

definition ex_block :: "byte \<Rightarrow> Message" where
  "ex_block b = M_Block \<lparr>ws_raw = [], ws_Subprotocol = 4, mb_BlockData = [b, 9]\<rparr>"

definition ex_reader :: MessageReader where
  "ex_reader = NewMessageReader\<lparr>mr_batching := True\<rparr>"

lemma ex_block_bytes: "message_bytes (ex_block b) = [0x82, 0x04, 0x42, b, 9]"
  by (simp add: message_bytes_def ex_block_def wire_Message wire_bytes message_defs enc_array_def encode_HexBytes_def encode_bytes_def encodeHead_def)

lemma ex_block_ok: "list_all block_ok [ex_block 1, ex_block 2]"
  by (simp add: block_ok_def ex_block_def message_defs subprotocols)

theorem batch_reassembled_witness:
  "\<exists>r' st'. feed batch_done (std_decoder ex_order) (batch_segments 7 3 [[0x82, 0x04, 0x42, 1, 9, 0x82, 0x04], [0x42, 2, 9, 0x81, 0x05]]) ex_reader
     \<lparr>ms_heap = Map.empty, ms_next = 0\<rparr> = Some (Ok (), [Fresh 0, Fresh 1, Fresh 2], r', st') \<and> clean r' \<and>
   map_option mo_content (ms_heap st' (Fresh 1)) = Some (ex_block 2)"
proof -
  let ?ps = "[[0x82, 0x04, 0x42, 1, 9, 0x82, 0x04], [0x42, 2, 9, 0x81, 0x05]] :: bytes list"
  have c: "\<forall>j. 0 < j \<and> j < length ?ps \<longrightarrow> length (concat (take j ?ps)) \<notin> Suc ` starts (map message_bytes [ex_block 1, ex_block 2])"
    by (auto simp: starts_def ex_block_bytes atMost_Suc less_Suc_eq numeral_2_eq_2)
  have e: "concat ?ps = concat (map message_bytes [ex_block 1, ex_block 2]) @ batchEnd" "list_all (\<lambda>p. p \<noteq> [] \<and> length p < 65536) ?ps"
    "in_batch [] ex_reader" "(3 :: uint16) \<le> 10"
    by (simp_all add: ex_block_bytes batchEnd_def in_batch_def ex_reader_def NewMessageReader_def)
  from batch_reassembled [OF ex_block_ok e(1,2) c e(3,4), of ex_order 7 "\<lparr>ms_heap = Map.empty, ms_next = 0\<rparr>"] obtain r' st' where
    r: "feed batch_done (std_decoder ex_order) (batch_segments 7 3 ?ps) ex_reader \<lparr>ms_heap = Map.empty, ms_next = 0\<rparr> =
      Some (Ok (), map Fresh [0..<Suc (length [ex_block 1, ex_block 2])], r', st')" "clean r'"
    "\<forall>i<length [ex_block 1, ex_block 2]. map_option mo_content (ms_heap st' (Fresh i)) = Some (message_SetRaw [] ([ex_block 1, ex_block 2] ! i))" by auto
  have "map Fresh [0..<Suc (length [ex_block 1, ex_block 2])] = [Fresh 0, Fresh 1, Fresh 2]" by (simp add: upt_rec)
  moreover have "map_option mo_content (ms_heap st' (Fresh 1)) = Some (ex_block 2)" using r(3) [rule_format, of 1] by (simp add: ex_block_def SetRaw_def)
  ultimately show ?thesis using r(1,2) by metis
qed

text \<open>Claim C38 (batch_cut_fails): When a segment ends one byte behind the start of a block message, the reader returns an error for it, although the
  same bytes cut elsewhere are read.\<close>

theorem batch_cut_fails:
  assumes "list_all block_ok bs" "in_batch [] r" "P \<le> 10" "length (concat (map message_bytes bs)) < 65535"
  shows "\<exists>s. Read batch_done (std_decoder env) (header ts P (of_nat (Suc (length (concat (map message_bytes bs))))) @ concat (map message_bytes bs) @ [0x82]) r st =
    Some (Err (ErrMsg ''expecting batch to have block start 0x8204''), s) \<and> rs_messages s = []"
proof -
  let ?c = "concat (map message_bytes bs)" and ?e = "Err (ErrMsg ''expecting batch to have block start 0x8204'') :: unit res"
  let ?p = "?c @ [0x82]" and ?n = "of_nat (Suc (length (concat (map message_bytes bs)))) :: uint16"
  have t: "next_blocks h batch_done (std_decoder env) [0x82] st = (([], [0x82], ?e), st)" if "1 \<le> h" for h st
    using that by (cases h) (simp_all add: has_prefix_def blockStart_def batchEnd_def)
  have n: "nextBlocks batch_done (std_decoder env) ?p st = ((map Fresh [ms_next st..<ms_next st + length bs] @ [], [0x82], ?e), fold put_block bs st)"
    unfolding nextBlocks_def
  proof (rule blocks_then [OF assms(1), where g = 1])
    show "next_blocks h batch_done (std_decoder env) [0x82] s = next_blocks 1 batch_done (std_decoder env) [0x82] s" if "1 \<le> h" for h s
      unfolding t [OF that] by (rule t [symmetric]) simp
  qed (simp_all add: t del: next_blocks.simps zero_message.simps)
  have len: "unat ?n = length ?p" using assms(4) by (simp add: unat_of_nat del: of_nat_Suc)
  let ?s = "\<lparr>rs_index = int (8 + length ?p), rs_reader = r\<lparr>mr_timestamp := PutUint32 ts, mr_protocol := P, mr_length := ?n,
    mr_partialHeader := [], mr_buffer := ?p\<rparr>, rs_store = st, rs_messages = []\<rparr>"
  have "read_iter batch_done (std_decoder env) (header ts P ?n @ ?p) \<lparr>rs_index = 0, rs_reader = r, rs_store = st, rs_messages = []\<rparr> =
      read_complete batch_done (std_decoder env) ?s"
    using read_iter_header [of r P ?p ?n batch_done "std_decoder env" ts st] assms(2,3) len by (simp add: in_batch_def Let_def)
  moreover have "\<exists>s. read_complete batch_done (std_decoder env) ?s = ReadReturn ?e s \<and> rs_messages s = []"
    using assms(2) n by (simp add: read_complete_def in_batch_def Let_def del: zero_message.simps)
  ultimately show ?thesis by (auto simp: Read_step simp del: zero_message.simps)
qed

theorem batch_cut_fails_witness:
  "\<exists>s. Read batch_done (std_decoder ex_order) (header 7 3 11 @ [0x82, 0x04, 0x42, 1, 9, 0x82, 0x04, 0x42, 2, 9] @ [0x82]) ex_reader
     \<lparr>ms_heap = Map.empty, ms_next = 0\<rparr> = Some (Err (ErrMsg ''expecting batch to have block start 0x8204''), s) \<and> rs_messages s = []"
  using batch_cut_fails [OF ex_block_ok, of ex_reader 3 ex_order 7 "\<lparr>ms_heap = Map.empty, ms_next = 0\<rparr>"]
  by (simp add: ex_block_bytes in_batch_def ex_reader_def NewMessageReader_def)

end
