(* ===== verification/Cmd.thy ===== *)
theory Cmd
  imports Era
begin

text \<open>
  Running the node's command line tool with files that exist only as pipes (src/cmd/rpc/cmd.go).

  \<^item> \<open>fdPool\<close> is the pool of descriptor numbers: the buffered channel is a list with the capacity \<open>fp_maxFds\<close>, the map of
    used numbers a list without repetitions; each operation holds the mutex for its whole body.
  \<^item> \<open>prepare_files\<close> is the loop over the virtual files; \<open>pipes\<close> gives the result of each \<open>os.Pipe\<close>. The child sees the
    \<open>i\<close>-th extra file as descriptor \<open>3 + i\<close> (os/exec).
  \<^item> \<open>replace_refs\<close> is the regular expression \<open>file://(.*?)(?:\s|$)\<close> with its replacement: a match reaches to the next
    white space, which it consumes, or to the end. White space and \<open>strings.Fields\<close> are those of ASCII text.
  \<^item> The process is the argument \<open>exec\<close>: an error of \<open>Start\<close>, or the output with the result of \<open>Wait\<close>. The two goroutine-safe methods of
    \<open>syncBuffer\<close> are that output.
\<close>

subsection \<open>The pool\<close>

definition maxFileDescriptors :: nat where "maxFileDescriptors = 10"

record fdPool =
  fp_fds :: "int list"
  fp_inUse :: "int list"
  fp_nextFd :: int
  fp_maxFds :: nat

definition newFdPool :: "nat \<Rightarrow> fdPool" where
  "newFdPool n = \<lparr>fp_fds = [], fp_inUse = [], fp_nextFd = 3, fp_maxFds = n\<rparr>"

definition fdPool_get :: "fdPool \<Rightarrow> int res \<times> fdPool" where
  "fdPool_get p =
     (if fp_maxFds p \<le> length (fp_inUse p) then (Err (ErrMsg ''max file descriptors reached''), p)
      else
        case fp_fds p of
          fd # rest \<Rightarrow> (Ok fd, p\<lparr>fp_fds := rest, fp_inUse := List.insert fd (fp_inUse p)\<rparr>)
        | [] \<Rightarrow> (Ok (fp_nextFd p), p\<lparr>fp_nextFd := fp_nextFd p + 1, fp_inUse := List.insert (fp_nextFd p) (fp_inUse p)\<rparr>))"

definition fdPool_release :: "int \<Rightarrow> fdPool \<Rightarrow> fdPool" where
  "fdPool_release fd p =
     (if fd \<in> set (fp_inUse p) then
        p\<lparr>fp_inUse := removeAll fd (fp_inUse p),
          fp_fds := (if length (fp_fds p) < fp_maxFds p then fp_fds p @ [fd] else fp_fds p)\<rparr>
      else p)"

subsection \<open>Virtual files\<close>

record VirtualFile =
  vf_Name :: string
  vf_Content :: bytes

record prepared =
  pf_pool :: fdPool
  pf_fileMap :: "(string \<times> int) list"
  pf_extra :: "bytes list"

fun prepare_files :: "unit res list \<Rightarrow> VirtualFile list \<Rightarrow> prepared \<Rightarrow> prepared res" where
  "prepare_files pipes [] s = Ok s"
| "prepare_files pipes (vf # vfs) s =
     (case (case pipes of [] \<Rightarrow> Ok () | r # _ \<Rightarrow> r) of
        Err e \<Rightarrow> Err (ErrMsg ''failed to create pipe'')
      | Panic p \<Rightarrow> Panic p
      | Ok _ \<Rightarrow>
          (case fdPool_get (pf_pool s) of
             (Ok fd, pool) \<Rightarrow>
               prepare_files (tl pipes) vfs
                 \<lparr>pf_pool = pool, pf_fileMap = (vf_Name vf, fd) # pf_fileMap s, pf_extra = pf_extra s @ [vf_Content vf]\<rparr>
           | (Err e, pool) \<Rightarrow> Err (ErrMsg ''failed to get file descriptor'')
           | (Panic p, pool) \<Rightarrow> Panic p))"

subsection \<open>References\<close>

definition re_space :: "char \<Rightarrow> bool" where
  "re_space c \<longleftrightarrow> c \<in> {CHR 0x09, CHR 0x0A, CHR 0x0C, CHR 0x0D, CHR '' ''}"

definition is_space :: "char \<Rightarrow> bool" where
  "is_space c \<longleftrightarrow> re_space c \<or> c = CHR 0x0B"

definition TrimSpace :: "string \<Rightarrow> string" where
  "TrimSpace s = rev (dropWhile is_space (rev (dropWhile is_space s)))"

definition file_scheme :: string where "file_scheme = ''file://''"

definition scheme_here :: "string \<Rightarrow> bool" where
  "scheme_here s \<longleftrightarrow> take (length file_scheme) s = file_scheme"

text \<open>The replacement of one match: the name up to the white space and that white space, if any.\<close>

definition replace_match :: "(string \<times> int) list \<Rightarrow> string \<Rightarrow> string \<Rightarrow> string" where
  "replace_match fileMap name ws =
     (case map_of fileMap (TrimSpace (name @ ws)) of
        Some fd \<Rightarrow> ''/dev/fd/'' @ fmt_d (nat fd) @ '' ''
      | None \<Rightarrow> file_scheme @ name @ ws)"

function replace_refs :: "(string \<times> int) list \<Rightarrow> string \<Rightarrow> string" where
  "replace_refs fileMap s =
     (if s = [] then []
      else if scheme_here s then
        let r = drop (length file_scheme) s;
            name = takeWhile (\<lambda>c. \<not> re_space c) r;
            rest = dropWhile (\<lambda>c. \<not> re_space c) r
        in replace_match fileMap name (take 1 rest) @ replace_refs fileMap (drop 1 rest)
      else hd s # replace_refs fileMap (tl s))"
  by pat_completeness auto
termination
proof (relation "measure (\<lambda>(_, s). length s)", goal_cases)
  case (2 fileMap s x xa xb)
  have "length (drop 1 (dropWhile (\<lambda>c. \<not> re_space c) (drop (length file_scheme) s))) \<le> length (drop (length file_scheme) s)"
    by (metis diff_le_self le_trans length_drop length_dropWhile_le)
  also have "\<dots> < length s" using 2(1) by (simp add: file_scheme_def)
  finally show ?case using 2 by simp
qed auto

declare replace_refs.simps [simp del]

function strings_Fields :: "string \<Rightarrow> string list" where
  "strings_Fields s =
     (let r = dropWhile is_space s in
      if r = [] then [] else takeWhile (\<lambda>c. \<not> is_space c) r # strings_Fields (dropWhile (\<lambda>c. \<not> is_space c) r))"
  by pat_completeness auto
termination
proof (relation "measure length", goal_cases)
  case (2 s x)
  then obtain c cs where r: "dropWhile is_space s = c # cs" by (cases "dropWhile is_space s") auto
  then have "\<not> is_space c" by (metis hd_dropWhile list.distinct(1) list.sel(1))
  then have "length (dropWhile (\<lambda>c. \<not> is_space c) (c # cs)) \<le> length cs" by (simp add: length_dropWhile_le)
  also have "length cs < length s" using length_dropWhile_le [of is_space s] r by simp
  finally show ?case using 2(1) r by simp
qed simp

declare strings_Fields.simps [simp del]

subsection \<open>runCommandWithVirtualFiles\<close>

text \<open>\<open>exec command env args files\<close>: \<open>Inl\<close> an error of \<open>Start\<close>, \<open>Inr\<close> the output and the error of \<open>Wait\<close>.\<close>

type_synonym process = "string \<Rightarrow> string list \<Rightarrow> string list \<Rightarrow> bytes list \<Rightarrow> gerror + (bytes \<times> gerror option)"

definition exec_result :: "gerror + (bytes \<times> gerror option) \<Rightarrow> bytes \<times> gerror option" where
  "exec_result r =
     (case r of
        Inl e \<Rightarrow> ([], Some (ErrMsg ''failed to start command''))
      | Inr (out, None) \<Rightarrow> (out, None)
      | Inr (out, Some e) \<Rightarrow> (out, Some (ErrMsg ''command failed'')))"

definition runCommandWithVirtualFiles ::
  "process \<Rightarrow> unit res list \<Rightarrow> string \<Rightarrow> string \<Rightarrow> string list \<Rightarrow> VirtualFile list \<Rightarrow> (bytes \<times> gerror option) res" where
  "runCommandWithVirtualFiles exec pipes command params env files =
     (case prepare_files pipes files \<lparr>pf_pool = newFdPool maxFileDescriptors, pf_fileMap = [], pf_extra = []\<rparr> of
        Err e \<Rightarrow> Ok ([], Some e)
      | Panic p \<Rightarrow> Panic p
      | Ok s \<Rightarrow> Ok (exec_result (exec command env (strings_Fields (replace_refs (pf_fileMap s) params)) (pf_extra s))))"

subsection \<open>Properties of the pool\<close>

datatype pool_op = PoolGet | PoolRelease int

fun pool_exec :: "pool_op \<Rightarrow> fdPool \<Rightarrow> fdPool" where
  "pool_exec PoolGet p = snd (fdPool_get p)"
| "pool_exec (PoolRelease fd) p = fdPool_release fd p"

definition pool_inv :: "fdPool \<Rightarrow> bool" where
  "pool_inv p \<longleftrightarrow> distinct (fp_fds p @ fp_inUse p) \<and> set (fp_fds p @ fp_inUse p) = {3..<fp_nextFd p} \<and> 3 \<le> fp_nextFd p \<and>
     length (fp_fds p @ fp_inUse p) \<le> fp_maxFds p"

lemma pool_inv_new: "pool_inv (newFdPool n)"
  by (simp add: pool_inv_def newFdPool_def)

lemma pool_get_fresh:
  assumes "pool_inv p" "length (fp_inUse p) < fp_maxFds p"
  shows "\<exists>fd. fst (fdPool_get p) = Ok fd \<and> fd \<notin> set (fp_inUse p) \<and> 3 \<le> fd \<and>
    fp_inUse (snd (fdPool_get p)) = fd # fp_inUse p \<and> fp_maxFds (snd (fdPool_get p)) = fp_maxFds p \<and> pool_inv (snd (fdPool_get p))"
proof (cases "fp_fds p")
  case Nil
  then show ?thesis using assms by (auto simp: pool_inv_def fdPool_get_def)
next
  case (Cons fd rest)
  then have "fd \<in> {3..<fp_nextFd p}" using assms(1) unfolding pool_inv_def by (metis list.set_intros(1) append_Cons)
  then show ?thesis using Cons assms by (auto simp: pool_inv_def fdPool_get_def)
qed

lemma pool_get_full: "fp_maxFds p \<le> length (fp_inUse p) \<Longrightarrow> fdPool_get p = (Err (ErrMsg ''max file descriptors reached''), p)"
  by (simp add: fdPool_get_def)

lemma pool_release_inv: "pool_inv p \<Longrightarrow> pool_inv (fdPool_release fd p) \<and> fp_maxFds (fdPool_release fd p) = fp_maxFds p"
proof (cases "fd \<in> set (fp_inUse p)")
  case True
  assume p: "pool_inv p"
  have "length (removeAll fd (fp_inUse p)) < length (fp_inUse p)" using True by (rule length_removeAll_less)
  then have l: "length (fp_fds p) + length (removeAll fd (fp_inUse p)) < fp_maxFds p" using p by (simp add: pool_inv_def)
  have "set (fp_fds p @ [fd] @ removeAll fd (fp_inUse p)) = set (fp_fds p @ fp_inUse p)" using True by auto
  then show ?thesis using True p l by (auto simp: pool_inv_def fdPool_release_def distinct_removeAll)
qed (simp add: fdPool_release_def)

lemma pool_exec_inv: "pool_inv p \<Longrightarrow> pool_inv (pool_exec op p) \<and> fp_maxFds (pool_exec op p) = fp_maxFds p"
proof (cases op)
  case PoolGet
  then show "pool_inv p \<Longrightarrow> ?thesis"
    using pool_get_fresh [of p] pool_get_full [of p] by (cases "length (fp_inUse p) < fp_maxFds p") auto
qed (simp add: pool_release_inv)

lemma pool_run_inv: "pool_inv p \<Longrightarrow> pool_inv (fold pool_exec ops p) \<and> fp_maxFds (fold pool_exec ops p) = fp_maxFds p"
  by (induction ops arbitrary: p) (auto simp: pool_exec_inv)

lemma pool_bound:
  assumes "pool_inv p" "fd \<in> set (fp_inUse p)"
  shows "fd < 3 + int (fp_maxFds p)"
proof -
  have "card (set (fp_fds p @ fp_inUse p)) = length (fp_fds p @ fp_inUse p)"
    using assms(1) unfolding pool_inv_def by (blast intro: distinct_card)
  then have "nat (fp_nextFd p - 3) \<le> fp_maxFds p" using assms(1) unfolding pool_inv_def by (metis card_atLeastLessThan_int)
  moreover have "fd \<in> {3..<fp_nextFd p}" using assms unfolding pool_inv_def by auto
  ultimately show ?thesis by auto
qed

lemma pool_get_spec:
  assumes p: "pool_inv p" "fp_maxFds p = n"
  shows "if length (fp_inUse p) < n then \<exists>fd. fst (fdPool_get p) = Ok fd \<and> fd \<notin> set (fp_inUse p) \<and> 3 \<le> fd \<and> fd < 3 + int n
    else fst (fdPool_get p) = Err (ErrMsg ''max file descriptors reached'') \<and> length (fp_inUse p) = n"
proof (cases "length (fp_inUse p) < n")
  case True
  then obtain fd where fd: "fst (fdPool_get p) = Ok fd" "fd \<notin> set (fp_inUse p)" "3 \<le> fd"
    "fp_inUse (snd (fdPool_get p)) = fd # fp_inUse p" "pool_inv (snd (fdPool_get p))" "fp_maxFds (snd (fdPool_get p)) = n"
    using pool_get_fresh [OF p(1)] p(2) by auto
  have "fd < 3 + int n" using pool_bound [OF fd(5), of fd] fd(4,6) by simp
  then show ?thesis using True fd by auto
next
  case False
  then show ?thesis using p pool_get_full [of p] by (auto simp: pool_inv_def)
qed

text \<open>After any sequence of \<open>get\<close> and \<open>release\<close>, \<open>get\<close> hands out a descriptor that nobody
  holds, from 3 up to the limit, and it fails exactly when all are in use.\<close>

theorem fd_pool_exclusive:
  "let p = fold pool_exec ops (newFdPool n) in
    if length (fp_inUse p) < n then \<exists>fd. fst (fdPool_get p) = Ok fd \<and> fd \<notin> set (fp_inUse p) \<and> 3 \<le> fd \<and> fd < 3 + int n
    else fst (fdPool_get p) = Err (ErrMsg ''max file descriptors reached'') \<and> length (fp_inUse p) = n"
  using pool_get_spec [of "fold pool_exec ops (newFdPool n)" n] pool_run_inv [OF pool_inv_new, of ops n]
  by (simp only: Let_def) (simp add: newFdPool_def)

subsection \<open>Properties of the references\<close>

fun join_words :: "string list \<Rightarrow> string" where
  "join_words [] = []"
| "join_words [w] = w"
| "join_words (w # ws) = w @ '' '' @ join_words ws"

definition word_ok :: "string \<Rightarrow> bool" where
  "word_ok w \<longleftrightarrow> w \<noteq> [] \<and> (\<forall>c\<in>set w. \<not> is_space c) \<and> (\<forall>i>0. \<not> scheme_here (drop i w))"

definition subst_word :: "(string \<times> int) list \<Rightarrow> string \<Rightarrow> string" where
  "subst_word fileMap w =
     (if scheme_here w then
        case map_of fileMap (drop (length file_scheme) w) of
          Some fd \<Rightarrow> ''/dev/fd/'' @ fmt_d (nat fd)
        | None \<Rightarrow> w
      else w)"

definition word_end :: "string \<Rightarrow> bool" where
  "word_end s \<longleftrightarrow> s = [] \<or> hd s = CHR '' ''"

lemma space_is_space [simp]: "is_space CHR '' ''" "re_space CHR '' ''"
  by (simp_all add: is_space_def re_space_def)

lemma fields_space: "is_space c \<Longrightarrow> strings_Fields (c # s) = strings_Fields s"
  by (simp add: strings_Fields.simps [of "c # s"] strings_Fields.simps [of s])

lemma fields_word:
  assumes "w \<noteq> []" "\<forall>c\<in>set w. \<not> is_space c" "word_end s"
  shows "strings_Fields (w @ s) = w # strings_Fields s"
proof -
  have "dropWhile is_space (w @ s) = w @ s" using assms(1,2) by (cases w) auto
  moreover have "takeWhile (\<lambda>c. \<not> is_space c) (w @ s) = w" "dropWhile (\<lambda>c. \<not> is_space c) (w @ s) = s"
    using assms(2,3) by (cases s; auto simp: takeWhile_append dropWhile_append word_end_def)+
  ultimately show ?thesis using assms(1) by (subst strings_Fields.simps) (simp add: Let_def)
qed

lemma scheme_no_space: "\<forall>c\<in>set file_scheme. \<not> is_space c"
  by (simp add: file_scheme_def is_space_def re_space_def)

lemma scheme_here_word:
  assumes "word_end s"
  shows "scheme_here (w @ s) \<longleftrightarrow> scheme_here w"
proof
  assume h: "scheme_here (w @ s)"
  show "scheme_here w"
  proof (rule ccontr)
    assume n: "\<not> scheme_here w"
    then have l: "length w < length file_scheme" using h by (rule_tac ccontr) (simp add: scheme_here_def)
    then have "s \<noteq> []" using h by (auto simp: scheme_here_def)
    then have "hd s = CHR '' ''" using assms by (simp add: word_end_def)
    moreover have "hd s \<in> set (take (length file_scheme) (w @ s))" using l \<open>s \<noteq> []\<close> by (cases s) (auto simp: take_Cons')
    ultimately have "CHR '' '' \<in> set file_scheme" using h unfolding scheme_here_def by metis
    then show False using scheme_no_space space_is_space(1) by blast
  qed
next
  assume "scheme_here w"
  then have "take (length file_scheme) w = file_scheme" by (simp add: scheme_here_def)
  moreover from this have "length file_scheme \<le> length w" by (metis length_take min.absorb_iff1 min.commute)
  ultimately show "scheme_here (w @ s)" by (simp add: scheme_here_def)
qed

lemma replace_no_scheme:
  "\<forall>i. \<not> scheme_here (drop i w) \<Longrightarrow> word_end s \<Longrightarrow> replace_refs m (w @ s) = w @ replace_refs m s"
proof (induction w)
  case (Cons c w)
  have "\<not> scheme_here (c # w)" using spec [OF Cons.prems(1), of 0] by simp
  then have "\<not> scheme_here ((c # w) @ s)" using scheme_here_word [OF Cons.prems(2)] by blast
  moreover have "\<forall>i. \<not> scheme_here (drop i w)" using Cons.prems(1) by (metis drop_Suc_Cons)
  ultimately show ?case using Cons.IH Cons.prems(2) by (subst replace_refs.simps) simp
qed simp

lemma replace_space: "replace_refs m (CHR '' '' # s) = CHR '' '' # replace_refs m s"
  by (subst replace_refs.simps) (simp add: scheme_here_def file_scheme_def)

lemma replace_Nil [simp]: "replace_refs m [] = []"
  by (simp add: replace_refs.simps)

lemma TrimSpace_word: "\<forall>c\<in>set w. \<not> is_space c \<Longrightarrow> \<forall>c\<in>set ws. is_space c \<Longrightarrow> TrimSpace (w @ ws) = w"
proof (cases "w = []")
  case True
  assume "\<forall>c\<in>set ws. is_space c"
  then have "dropWhile is_space ws = []" by simp
  then show ?thesis using True by (simp only: TrimSpace_def append_Nil rev.simps dropWhile.simps)
next
  case False
  assume a: "\<forall>c\<in>set w. \<not> is_space c" "\<forall>c\<in>set ws. is_space c"
  have "dropWhile is_space (w @ ws) = w @ ws" using False a(1) by (cases w) auto
  moreover have "dropWhile is_space (rev ws @ rev w) = dropWhile is_space (rev w)" using a(2) by (intro dropWhile_append2) simp
  moreover have "dropWhile is_space (rev w) = rev w" using a(1) False by (simp add: dropWhile_eq_self_iff hd_rev)
  ultimately show ?thesis by (simp add: TrimSpace_def)
qed

lemma replace_scheme:
  assumes "\<forall>c\<in>set name. \<not> is_space c" "word_end s"
  shows "replace_refs m (file_scheme @ name @ s) =
    (case map_of m name of Some fd \<Rightarrow> ''/dev/fd/'' @ fmt_d (nat fd) @ '' '' | None \<Rightarrow> file_scheme @ name @ take 1 s) @
    replace_refs m (drop 1 s)"
proof -
  have n: "\<forall>c\<in>set name. \<not> re_space c" using assms(1) by (auto simp: is_space_def)
  have t: "takeWhile (\<lambda>c. \<not> re_space c) (name @ s) = name" "dropWhile (\<lambda>c. \<not> re_space c) (name @ s) = s"
    using n assms(2) by (cases s; auto simp: takeWhile_append dropWhile_append word_end_def)+
  have ws: "\<forall>c\<in>set (take 1 s). is_space c" using assms(2) by (cases s) (auto simp: word_end_def)
  have "file_scheme @ name @ s \<noteq> []" "scheme_here (file_scheme @ name @ s)" by (simp_all add: scheme_here_def file_scheme_def)
  then show ?thesis
    by (subst replace_refs.simps) (simp add: Let_def t replace_match_def TrimSpace_word [OF assms(1) ws] del: One_nat_def split: option.split)
qed

lemma fmt_d_no_space: "fmt_d n \<noteq> [] \<and> (\<forall>c\<in>set (fmt_d n). \<not> is_space c)"
proof (induction n rule: fmt_d.induct)
  case (1 n)
  have d: "\<forall>k\<in>set [0..<10]. \<not> is_space (hex_char k)" by code_simp
  then have d': "k < 10 \<Longrightarrow> \<not> is_space (hex_char k)" for k by simp
  then show ?case using 1 by (subst fmt_d.simps, subst (2) fmt_d.simps) auto
qed

lemma subst_word_ok:
  assumes "word_ok w"
  shows "subst_word m w \<noteq> [] \<and> (\<forall>c\<in>set (subst_word m w). \<not> is_space c)"
  using assms fmt_d_no_space by (auto simp: subst_word_def word_ok_def is_space_def re_space_def split: option.splits)

lemma word_cases:
  assumes "word_ok w"
  shows "(scheme_here w \<and> w = file_scheme @ drop (length file_scheme) w) \<or> (\<forall>i. \<not> scheme_here (drop i w))"
proof (cases "scheme_here w")
  case True
  then show ?thesis unfolding scheme_here_def by (metis append_take_drop_id)
next
  case False
  then show ?thesis using assms unfolding word_ok_def by (metis drop0 gr0I)
qed

text \<open>A word followed by the end or by a space.\<close>

lemma replace_word:
  assumes "word_ok w" "word_end s"
  shows "\<exists>t. replace_refs m (w @ s) = subst_word m w @ t @ replace_refs m (drop 1 s) \<and> set t \<subseteq> {CHR '' ''} \<and> (s \<noteq> [] \<longrightarrow> t \<noteq> [])"
  using word_cases [OF assms(1)]
proof
  assume sch: "scheme_here w \<and> w = file_scheme @ drop (length file_scheme) w"
  define name where "name = drop (length file_scheme) w"
  have w: "w = file_scheme @ name" "scheme_here w" using sch by (simp_all add: name_def)
  have "\<forall>c\<in>set name. \<not> is_space c" using assms(1) unfolding word_ok_def w(1) by simp
  note r = replace_scheme [OF this assms(2), of m]
  show ?thesis
  proof (cases "map_of m name")
    case None
    then have "subst_word m w = w" by (simp add: subst_word_def name_def)
    moreover have "set (take 1 s) \<subseteq> {CHR '' ''}" using assms(2) by (cases s) (auto simp: word_end_def)
    ultimately show ?thesis using r None w(1) by (intro exI [of _ "take 1 s"]) (simp add: take_eq_Nil)
  next
    case (Some fd)
    then have "subst_word m w = ''/dev/fd/'' @ fmt_d (nat fd)" using w(2) by (simp add: subst_word_def name_def)
    then show ?thesis using r Some w(1) by (intro exI [of _ "'' ''"]) simp
  qed
next
  assume no: "\<forall>i. \<not> scheme_here (drop i w)"
  then have "subst_word m w = w" using spec [OF no, of 0] by (simp add: subst_word_def)
  then show ?thesis
    using replace_no_scheme [OF no assms(2), of m] assms(2)
    by (intro exI [of _ "take 1 s"], cases s) (simp_all add: word_end_def replace_space)
qed

lemma fields_spaces: "set t \<subseteq> {CHR '' ''} \<Longrightarrow> strings_Fields (t @ s) = strings_Fields s"
  by (induction t) (auto simp: fields_space)

lemma fields_subst_word:
  assumes "word_ok w" "set t \<subseteq> {CHR '' ''}" "t = [] \<longrightarrow> s = []"
  shows "strings_Fields (subst_word m w @ t @ s) = subst_word m w # strings_Fields s"
proof -
  have "word_end (t @ s)" using assms(2,3) by (cases t) (auto simp: word_end_def)
  then show ?thesis
    using fields_word [of "subst_word m w" "t @ s"] subst_word_ok [OF assms(1), of m] fields_spaces [OF assms(2)] by simp
qed

lemma fields_replace_words:
  "\<forall>w\<in>set ws. word_ok w \<Longrightarrow> strings_Fields (replace_refs m (join_words ws)) = map (subst_word m) ws"
proof (induction ws rule: join_words.induct)
  case 1
  then show ?case by (simp add: strings_Fields.simps)
next
  case (2 w)
  then obtain t where "replace_refs m (w @ []) = subst_word m w @ t @ replace_refs m (drop 1 [])" "set t \<subseteq> {CHR '' ''}"
    using replace_word [of w "[]" m] by (auto simp: word_end_def)
  then show ?case using fields_subst_word [of w t "[]" m] 2 by (simp add: strings_Fields.simps [of "[]"])
next
  case (3 w v ws)
  obtain t where t: "replace_refs m (w @ '' '' @ join_words (v # ws)) = subst_word m w @ t @ replace_refs m (join_words (v # ws))"
    "set t \<subseteq> {CHR '' ''}" "t \<noteq> []"
    using replace_word [of w "'' '' @ join_words (v # ws)" m] 3 by (auto simp: word_end_def)
  then show ?case using fields_subst_word [of w t _ m] 3 by simp
qed

subsection \<open>Properties of the command\<close>

text \<open>\<open>k\<close> descriptors are in use and none was released.\<close>

definition pool_at :: "nat \<Rightarrow> fdPool \<Rightarrow> bool" where
  "pool_at k p \<longleftrightarrow> fp_fds p = [] \<and> length (fp_inUse p) = k \<and> fp_nextFd p = 3 + int k \<and> (\<forall>fd\<in>set (fp_inUse p). fd < fp_nextFd p)"

lemma pool_at_get:
  "pool_at k p \<Longrightarrow> k < fp_maxFds p \<Longrightarrow>
   \<exists>p'. fdPool_get p = (Ok (3 + int k), p') \<and> pool_at (Suc k) p' \<and> fp_maxFds p' = fp_maxFds p"
  by (auto simp: pool_at_def fdPool_get_def)

definition all_pipes :: "unit res list \<Rightarrow> bool" where
  "all_pipes pipes \<longleftrightarrow> (\<forall>r\<in>set pipes. r = Ok ())"

lemma all_pipes_next: "all_pipes pipes \<Longrightarrow> (case pipes of [] \<Rightarrow> Ok () | r # _ \<Rightarrow> r) = Ok () \<and> all_pipes (tl pipes)"
  by (cases pipes) (auto simp: all_pipes_def)

definition file_fds :: "nat \<Rightarrow> VirtualFile list \<Rightarrow> (string \<times> int) list" where
  "file_fds k vfs = zip (map vf_Name vfs) (map (\<lambda>i. 3 + int i) [k..<k + length vfs])"

lemma file_fds_Cons: "file_fds k (vf # vfs) = (vf_Name vf, 3 + int k) # file_fds (Suc k) vfs"
  by (simp add: file_fds_def upt_rec [of k] del: upt_Suc)

lemma prepare_files_run:
  "all_pipes pipes \<Longrightarrow> pool_at k (pf_pool s) \<Longrightarrow>
   (if k + length vfs \<le> fp_maxFds (pf_pool s)
    then \<exists>s'. prepare_files pipes vfs s = Ok s' \<and> pf_fileMap s' = rev (file_fds k vfs) @ pf_fileMap s \<and>
      pf_extra s' = pf_extra s @ map vf_Content vfs
    else k \<le> fp_maxFds (pf_pool s) \<longrightarrow> prepare_files pipes vfs s = Err (ErrMsg ''failed to get file descriptor''))"
proof (induction vfs arbitrary: pipes k s)
  case Nil
  then show ?case by (simp add: file_fds_def)
next
  case (Cons vf vfs)
  note pipe = all_pipes_next [OF Cons.prems(1)]
  show ?case
  proof (cases "k < fp_maxFds (pf_pool s)")
    case True
    then obtain p' where p': "fdPool_get (pf_pool s) = (Ok (3 + int k), p')" "pool_at (Suc k) p'" "fp_maxFds p' = fp_maxFds (pf_pool s)"
      using pool_at_get [OF Cons.prems(2)] by blast
    define s1 where "s1 = \<lparr>pf_pool = p', pf_fileMap = (vf_Name vf, 3 + int k) # pf_fileMap s, pf_extra = pf_extra s @ [vf_Content vf]\<rparr>"
    have "prepare_files pipes (vf # vfs) s = prepare_files (tl pipes) vfs s1" using pipe p'(1) by (simp add: s1_def)
    then show ?thesis
      using Cons.IH [of "tl pipes" "Suc k" s1] pipe p' True by (auto simp: s1_def file_fds_Cons)
  next
    case False
    then show ?thesis using pipe Cons.prems(2) pool_get_full [of "pf_pool s"] by (auto simp: pool_at_def)
  qed
qed

lemma map_of_rev_distinct: "distinct (map fst m) \<Longrightarrow> map_of (rev m) = map_of m"
  by (metis map_of_inject_set distinct_rev rev_map set_rev)

lemma run_virtual_files:
  assumes "all_pipes pipes" "distinct (map vf_Name files)" "\<forall>w\<in>set words. word_ok w"
  shows "runCommandWithVirtualFiles exec pipes command (join_words words) env files =
    Ok (if length files \<le> 10
        then exec_result (exec command env (map (subst_word (file_fds 0 files)) words) (map vf_Content files))
        else ([], Some (ErrMsg ''failed to get file descriptor'')))"
proof -
  define s0 where "s0 = \<lparr>pf_pool = newFdPool maxFileDescriptors, pf_fileMap = [], pf_extra = []\<rparr>"
  have p: "pool_at 0 (pf_pool s0)" "fp_maxFds (pf_pool s0) = 10"
    by (simp_all add: s0_def pool_at_def newFdPool_def maxFileDescriptors_def)
  have "map fst (file_fds 0 files) = map vf_Name files" by (simp add: file_fds_def)
  then have m: "subst_word (rev (file_fds 0 files)) = subst_word (file_fds 0 files)"
    using map_of_rev_distinct [of "file_fds 0 files"] assms(2) by (auto simp: subst_word_def fun_eq_iff)
  show ?thesis
    using prepare_files_run [OF assms(1) p(1), of files] p(2) fields_replace_words [OF assms(3)] m
    by (auto simp: runCommandWithVirtualFiles_def s0_def split: if_splits)
qed

text \<open>Claim C24 (virtual_files): The command is run with every word of the form \<open>file://name\<close> replaced by the descriptor under which the
  child sees the content of that file, and all other words unchanged; with more than ten files nothing is run.\<close>

theorem virtual_files:
  assumes "all_pipes pipes" "distinct (map vf_Name files)" "\<forall>w\<in>set words. word_ok w"
  shows "runCommandWithVirtualFiles exec pipes command (join_words words) env files =
    Ok (if length files \<le> 10
        then exec_result (exec command env (map (subst_word (file_fds 0 files)) words) (map vf_Content files))
        else ([], Some (ErrMsg ''failed to get file descriptor'')))"
  using assms by (rule run_virtual_files)

definition ex_words :: "string list" where
  "ex_words = [''sign'', ''--key'', ''file://key'', ''--tx'', ''file://tx'', ''file://none'']"

lemma ex_words_ok: "\<forall>w\<in>set ex_words. word_ok w"
proof -
  have no: "\<not> scheme_here (drop i w)" if "\<forall>i\<in>set [1..<length w]. \<not> scheme_here (drop i w)" "0 < i" for i w
    using that by (cases "i < length w") (auto simp: scheme_here_def file_scheme_def)
  have "\<forall>w\<in>set ex_words. w \<noteq> [] \<and> (\<forall>c\<in>set w. \<not> is_space c) \<and> (\<forall>i\<in>set [1..<length w]. \<not> scheme_here (drop i w))"
    by code_simp
  then show ?thesis using no unfolding word_ok_def by blast
qed

theorem virtual_files_witness:
  "runCommandWithVirtualFiles (\<lambda>cmd env args files. Inr (concat files, if args = [''sign'', ''--key'', ''/dev/fd/4'', ''--tx'', ''/dev/fd/3'', ''file://none''] then None else Some ErrNoRows))
     [] ''cli'' (join_words ex_words) [] [\<lparr>vf_Name = ''tx'', vf_Content = [1]\<rparr>, \<lparr>vf_Name = ''key'', vf_Content = [2]\<rparr>] =
   Ok ([1, 2], None)"
proof -
  have p: "all_pipes []" by (simp add: all_pipes_def)
  have d: "distinct (map vf_Name [\<lparr>vf_Name = ''tx'', vf_Content = [1]\<rparr>, \<lparr>vf_Name = ''key'', vf_Content = [2]\<rparr>])" by simp
  have a: "map (subst_word (file_fds 0 [\<lparr>vf_Name = ''tx'', vf_Content = [1]\<rparr>, \<lparr>vf_Name = ''key'', vf_Content = [2]\<rparr>])) ex_words =
    [''sign'', ''--key'', ''/dev/fd/4'', ''--tx'', ''/dev/fd/3'', ''file://none'']" by code_simp
  show ?thesis by (subst virtual_files [OF p d ex_words_ok]) (simp add: a exec_result_def)
qed

end
