(* ===== verification/RpcTypes.thy ===== *)
theory RpcTypes
  imports BlockData Client
begin

text \<open>
  The request and response structs of src/rpcclient/rpcclient.go with their JSON forms, which the server writes and the client reads.

  \<^item> Encoding follows the struct tags; \<open>encoding/json\<close> decoding matches field names without regard to case, ignores unknown members,
    leaves a missing or null member at its zero value, and fails on a value of another type or out of range.
  \<^item> Documents are trees (see \<open>BlockData\<close>); a body that is not JSON is \<open>BText\<close>.
\<close>

subsection \<open>Structs\<close>

record TxInput =
  xi_Hash :: string
  xi_Index :: uint32

record TxOutput =
  xo_Amount :: uint64
  xo_Address :: string

record TxResponse =
  xr_Hash :: string
  xr_Inputs :: "TxInput list"
  xr_Outputs :: "TxOutput list"
  xr_Memo :: string
  xr_Fee :: uint64

record BlockResponse =
  br_Height :: uint64
  br_Slot :: uint64
  br_Hash :: string
  br_Type :: int
  br_Transactions :: "TxResponse list"

record Utxo =
  u_TxHash :: string
  u_Address :: string
  u_Amount :: uint64
  u_Index :: uint64
  u_Height :: uint64

record ProtocolOut =
  po_CoinsPerUtxoByte :: uint64
  po_MaxTxSize :: uint64
  po_MinFeeCoefficient :: uint64
  po_MinFeeConstant :: uint64
  po_MinUtxoThreshold :: uint64

record GetStatusOut =
  so_Tip :: PointRef
  so_Protocol :: "ProtocolOut option"
  so_ReorgWindow :: int

record TransactionBuildInput =
  bi_TxHash :: string
  bi_Index :: uint64

record TransactionBuildOutput =
  bo_Address :: string
  bo_Value :: uint64

record TransactionBuildIn =
  ti_Inputs :: "TransactionBuildInput list"
  ti_Outputs :: "TransactionBuildOutput list"
  ti_ChangeAddress :: string
  ti_Memo :: "nat list"

record TransactionBuildOut =
  to_Hash :: string
  to_RawHex :: string
  to_EstimatedFee :: uint64

record TransactionEstimateFeeIn =
  fi_Inputs :: int
  fi_OutputAmounts :: "uint64 list"
  fi_Memo :: "nat list"

record TransactionEstimateFeeOut =
  fo_Size :: uint64
  fo_Fee :: uint64

record TransactionSignIn =
  si_Tx :: string
  si_PrivateKeyHex :: string

record TransactionSignOut =
  so_Tx :: string

record BroadcastTxIn =
  bt_TxHex :: string

record BroadcastTxOut =
  bt_TxHash :: string

record PublicKeyToAddress =
  pk_Network :: Network
  pk_PublicKeyHex :: string

subsection \<open>Encoding\<close>

abbreviation jnum :: "'a::len word \<Rightarrow> json" where "jnum w \<equiv> JNum (uint w)"

definition PointRef_json :: "PointRef \<Rightarrow> json" where
  "PointRef_json p = JObj [(''slot'', jnum (pr_Slot p)), (''hash'', JStr (pr_Hash p)), (''era'', JNum (pr_Type p)), (''height'', jnum (pr_Height p))]"

definition TxInput_json :: "TxInput \<Rightarrow> json" where
  "TxInput_json i = JObj [(''hash'', JStr (xi_Hash i)), (''index'', jnum (xi_Index i))]"

definition TxOutput_json :: "TxOutput \<Rightarrow> json" where
  "TxOutput_json t = JObj [(''amount'', jnum (xo_Amount t)), (''address'', JStr (xo_Address t))]"

definition TxResponse_json :: "TxResponse \<Rightarrow> json" where
  "TxResponse_json r = JObj ([(''hash'', JStr (xr_Hash r)), (''inputs'', JArr (map TxInput_json (xr_Inputs r))),
     (''outputs'', JArr (map TxOutput_json (xr_Outputs r)))] @
     (if xr_Memo r = [] then [] else [(''memo'', JStr (xr_Memo r))]) @ [(''fee'', jnum (xr_Fee r))])"

definition BlockResponse_json :: "BlockResponse \<Rightarrow> json" where
  "BlockResponse_json r = JObj [(''height'', jnum (br_Height r)), (''slot'', jnum (br_Slot r)), (''hash'', JStr (br_Hash r)),
     (''type'', JNum (br_Type r)), (''transactions'', JArr (map TxResponse_json (br_Transactions r)))]"

definition Utxo_json :: "Utxo \<Rightarrow> json" where
  "Utxo_json u = JObj [(''txHash'', JStr (u_TxHash u)), (''address'', JStr (u_Address u)), (''amount'', jnum (u_Amount u)),
     (''index'', jnum (u_Index u)), (''height'', jnum (u_Height u))]"

definition ProtocolOut_json :: "ProtocolOut \<Rightarrow> json" where
  "ProtocolOut_json p = JObj [(''coinsPerUtxoByte'', jnum (po_CoinsPerUtxoByte p)), (''maxTxSize'', jnum (po_MaxTxSize p)),
     (''minFeeCoefficient'', jnum (po_MinFeeCoefficient p)), (''minFeeConstant'', jnum (po_MinFeeConstant p)),
     (''minUtxoThreshold'', jnum (po_MinUtxoThreshold p))]"

definition GetStatusOut_json :: "GetStatusOut \<Rightarrow> json" where
  "GetStatusOut_json s = JObj ([(''tip'', PointRef_json (so_Tip s))] @
     (case so_Protocol s of None \<Rightarrow> [] | Some p \<Rightarrow> [(''fees'', ProtocolOut_json p)]) @ [(''reorgWindow'', JNum (so_ReorgWindow s))])"

definition TransactionBuildOut_json :: "TransactionBuildOut \<Rightarrow> json" where
  "TransactionBuildOut_json t = JObj [(''hash'', JStr (to_Hash t)), (''rawHex'', JStr (to_RawHex t)), (''estimatedFee'', jnum (to_EstimatedFee t))]"

definition TransactionEstimateFeeOut_json :: "TransactionEstimateFeeOut \<Rightarrow> json" where
  "TransactionEstimateFeeOut_json t = JObj [(''size'', jnum (fo_Size t)), (''fee'', jnum (fo_Fee t))]"

subsection \<open>Decoding\<close>

definition lower :: "char \<Rightarrow> char" where
  "lower c = (let n = (of_char c :: nat) in if 65 \<le> n \<and> n \<le> 90 then char_of (n + 32) else c)"

definition json_field :: "string \<Rightarrow> (string \<times> json) list \<Rightarrow> json" where
  "json_field name m = (case map_of (rev (map (\<lambda>(k, v). (map lower k, v)) m)) (map lower name) of Some j \<Rightarrow> j | None \<Rightarrow> JNull)"

definition json_error :: "'a res" where
  "json_error = Err (ErrMsg ''json: cannot unmarshal'')"

fun dec_string :: "json \<Rightarrow> string res" where
  "dec_string JNull = Ok []"
| "dec_string (JStr s) = Ok s"
| "dec_string j = json_error"

fun dec_word :: "json \<Rightarrow> 'a::len word res" where
  "dec_word JNull = Ok 0"
| "dec_word (JNum i) = (if 0 \<le> i \<and> i < 2 ^ LENGTH('a) then Ok (of_int i) else json_error)"
| "dec_word j = json_error"

fun dec_int :: "json \<Rightarrow> int res" where
  "dec_int JNull = Ok 0"
| "dec_int (JNum i) = (if - (2 ^ 63) \<le> i \<and> i < 2 ^ 63 then Ok i else json_error)"
| "dec_int j = json_error"

fun dec_list :: "(json \<Rightarrow> 'a res) \<Rightarrow> json \<Rightarrow> 'a list res" where
  "dec_list dec JNull = Ok []"
| "dec_list dec (JArr js) = res_all (map dec js)"
| "dec_list dec j = json_error"

text \<open>A struct is read from an object; null leaves it as it is.\<close>

fun dec_struct :: "((string \<Rightarrow> json) \<Rightarrow> 'a res) \<Rightarrow> json \<Rightarrow> 'a res" where
  "dec_struct f JNull = f (\<lambda>_. JNull)"
| "dec_struct f (JObj m) = f (\<lambda>name. json_field name m)"
| "dec_struct f j = json_error"

definition PointRef_of_json :: "json \<Rightarrow> PointRef res" where
  "PointRef_of_json = dec_struct (\<lambda>fld.
     res_bind (dec_word (fld ''slot'')) (\<lambda>slot. res_bind (dec_string (fld ''hash'')) (\<lambda>hash.
     res_bind (dec_int (fld ''era'')) (\<lambda>era. res_bind (dec_word (fld ''height'')) (\<lambda>height.
       Ok \<lparr>pr_Slot = slot, pr_Hash = hash, pr_Type = era, pr_Height = height\<rparr>)))))"

definition TxInput_of_json :: "json \<Rightarrow> TxInput res" where
  "TxInput_of_json = dec_struct (\<lambda>fld.
     res_bind (dec_string (fld ''hash'')) (\<lambda>h. res_bind (dec_word (fld ''index'')) (\<lambda>i. Ok \<lparr>xi_Hash = h, xi_Index = i\<rparr>)))"

definition TxOutput_of_json :: "json \<Rightarrow> TxOutput res" where
  "TxOutput_of_json = dec_struct (\<lambda>fld.
     res_bind (dec_word (fld ''amount'')) (\<lambda>a. res_bind (dec_string (fld ''address'')) (\<lambda>d. Ok \<lparr>xo_Amount = a, xo_Address = d\<rparr>)))"

definition TxResponse_of_json :: "json \<Rightarrow> TxResponse res" where
  "TxResponse_of_json = dec_struct (\<lambda>fld.
     res_bind (dec_string (fld ''hash'')) (\<lambda>h. res_bind (dec_list TxInput_of_json (fld ''inputs'')) (\<lambda>is.
     res_bind (dec_list TxOutput_of_json (fld ''outputs'')) (\<lambda>os. res_bind (dec_string (fld ''memo'')) (\<lambda>m.
     res_bind (dec_word (fld ''fee'')) (\<lambda>f.
       Ok \<lparr>xr_Hash = h, xr_Inputs = is, xr_Outputs = os, xr_Memo = m, xr_Fee = f\<rparr>))))))"

definition BlockResponse_of_json :: "json \<Rightarrow> BlockResponse res" where
  "BlockResponse_of_json = dec_struct (\<lambda>fld.
     res_bind (dec_word (fld ''height'')) (\<lambda>ht. res_bind (dec_word (fld ''slot'')) (\<lambda>sl.
     res_bind (dec_string (fld ''hash'')) (\<lambda>h. res_bind (dec_int (fld ''type'')) (\<lambda>ty.
     res_bind (dec_list TxResponse_of_json (fld ''transactions'')) (\<lambda>ts.
       Ok \<lparr>br_Height = ht, br_Slot = sl, br_Hash = h, br_Type = ty, br_Transactions = ts\<rparr>))))))"

definition Utxo_of_json :: "json \<Rightarrow> Utxo res" where
  "Utxo_of_json = dec_struct (\<lambda>fld.
     res_bind (dec_string (fld ''txHash'')) (\<lambda>h. res_bind (dec_string (fld ''address'')) (\<lambda>a.
     res_bind (dec_word (fld ''amount'')) (\<lambda>n. res_bind (dec_word (fld ''index'')) (\<lambda>i.
     res_bind (dec_word (fld ''height'')) (\<lambda>ht.
       Ok \<lparr>u_TxHash = h, u_Address = a, u_Amount = n, u_Index = i, u_Height = ht\<rparr>))))))"

definition ProtocolOut_of_json :: "json \<Rightarrow> ProtocolOut res" where
  "ProtocolOut_of_json = dec_struct (\<lambda>fld.
     res_bind (dec_word (fld ''coinsPerUtxoByte'')) (\<lambda>a. res_bind (dec_word (fld ''maxTxSize'')) (\<lambda>b.
     res_bind (dec_word (fld ''minFeeCoefficient'')) (\<lambda>c. res_bind (dec_word (fld ''minFeeConstant'')) (\<lambda>d.
     res_bind (dec_word (fld ''minUtxoThreshold'')) (\<lambda>e.
       Ok \<lparr>po_CoinsPerUtxoByte = a, po_MaxTxSize = b, po_MinFeeCoefficient = c, po_MinFeeConstant = d, po_MinUtxoThreshold = e\<rparr>))))))"

definition GetStatusOut_of_json :: "json \<Rightarrow> GetStatusOut res" where
  "GetStatusOut_of_json = dec_struct (\<lambda>fld.
     res_bind (PointRef_of_json (fld ''tip'')) (\<lambda>t.
     res_bind (case fld ''fees'' of JNull \<Rightarrow> Ok None | j \<Rightarrow> res_bind (ProtocolOut_of_json j) (\<lambda>p. Ok (Some p))) (\<lambda>p.
     res_bind (dec_int (fld ''reorgWindow'')) (\<lambda>w. Ok \<lparr>so_Tip = t, so_Protocol = p, so_ReorgWindow = w\<rparr>))))"

definition TransactionBuildOut_of_json :: "json \<Rightarrow> TransactionBuildOut res" where
  "TransactionBuildOut_of_json = dec_struct (\<lambda>fld.
     res_bind (dec_string (fld ''hash'')) (\<lambda>h. res_bind (dec_string (fld ''rawHex'')) (\<lambda>r.
     res_bind (dec_word (fld ''estimatedFee'')) (\<lambda>f. Ok \<lparr>to_Hash = h, to_RawHex = r, to_EstimatedFee = f\<rparr>))))"

definition BroadcastTxOut_of_json :: "json \<Rightarrow> BroadcastTxOut res" where
  "BroadcastTxOut_of_json = dec_struct (\<lambda>fld. res_bind (dec_string (fld ''txHash'')) (\<lambda>h. Ok \<lparr>bt_TxHash = h\<rparr>))"

text \<open>\<open>RpcError\<close> has no struct tags: its members are named \<open>Msg\<close>, \<open>Details\<close> and \<open>Code\<close>.\<close>

definition RpcError_of_json :: "json \<Rightarrow> RpcError res" where
  "RpcError_of_json = dec_struct (\<lambda>fld.
     res_bind (dec_string (fld ''Msg'')) (\<lambda>m. res_bind (dec_string (fld ''Details'')) (\<lambda>d.
     res_bind (dec_int (fld ''Code'')) (\<lambda>c. Ok \<lparr>rpc_Msg = m, rpc_Details = d, rpc_Code = c\<rparr>))))"

subsection \<open>Responses\<close>

datatype body = BJson json | BText string

record http_rsp =
  hr_Status :: int
  hr_Body :: body

end
