(* ===== verification/Http.thy ===== *)
theory Http
  imports RpcTypes Cmd BlockCodec
begin

text \<open>
  The HTTP server (src/cmd/rpc/http.go): its routes, handlers and responses.

  \<^item> A handler is a function of the request and the server to an \<open>http_rsp\<close>; an error that the handler returns to fiber, and a
    panic, which the recover middleware turns into an error, become a response in \<open>serve\<close>.
  \<^item> \<open>request\<close> holds what a handler reads: path parameter, content type and the result of \<open>BodyParser\<close>. \<open>unmarshalJson\<close> returns the
    request that the handler goes on with, and the status that \<open>SendStatus\<close> has set by then.
  \<^item> \<open>node\<close> is the world outside: the blocks of the node and the accessors of the ledger library, the decoder, the command line
    tool, JSON text, gjson lookups in text.
  \<^item> The printing to standard output, \<open>returnBlock\<close> (not called) and the timeouts are left out.
\<close>

subsection \<open>The server and its surroundings\<close>

record tx_view =
  tv_Inputs :: "(string \<times> uint32) list"
  tv_Outputs :: "(uint64 \<times> string) list"
  tv_Metadata :: "bytes option"
  tv_Fee :: uint64

record node =
  nd_getBlock :: "common_Point \<Rightarrow> BlockProcessor.Block res"
  nd_number :: "BlockProcessor.Block \<Rightarrow> uint64"
  nd_view :: "Transaction \<Rightarrow> tx_view"
  nd_env :: cbor_env
  nd_raw :: "json \<Rightarrow> string"
  nd_json :: "json \<Rightarrow> bytes"
  nd_cborHex :: "string \<Rightarrow> string"
  nd_parseRaw :: "string \<Rightarrow> string"
  nd_details :: "gerror \<Rightarrow> string"
  nd_exec :: process
  nd_pipes :: "unit res list"

record config =
  cf_DatabasePath :: string
  cf_NtNHostPort :: string
  cf_NtCHostPort :: string
  cf_Network :: string
  cf_RpcHostPort :: string
  cf_SocketPath :: string
  cf_LogLevel :: string
  cf_ReorgWindow :: int

record 'db HttpRpcServer =
  hs_client :: "'db Client"
  hs_config :: config
  hs_db :: "'db Database"

definition NewHttpRpcServer :: "config \<Rightarrow> 'db Database \<Rightarrow> 'db Client \<Rightarrow> 'db HttpRpcServer res" where
  "NewHttpRpcServer cfg db client = Ok \<lparr>hs_client = client, hs_config = cfg, hs_db = db\<rparr>"

definition CardanoBinaryPath :: string where "CardanoBinaryPath = ''/usr/local/bin/cardano-cli''"

subsection \<open>Responses\<close>

text \<open>The message of an error; of formatted messages only the format is kept.\<close>

fun error_text :: "gerror \<Rightarrow> string" where
  "error_text ErrNoRows = ''sql: no rows in result set''"
| "error_text (ErrRpc r) = rpc_Msg r"
| "error_text (ErrMsg m) = m"
| "error_text (ErrWrap m e) = m @ '': '' @ error_text e"

text \<open>A status of 0 is sent as 200 (fasthttp).\<close>

definition http_status :: "int \<Rightarrow> int" where
  "http_status code = (if code = 0 then 200 else code)"

definition rsp_json :: "int \<Rightarrow> json \<Rightarrow> http_rsp" where
  "rsp_json status j = \<lparr>hr_Status = http_status status, hr_Body = BJson j\<rparr>"

definition errorResponse :: "node \<Rightarrow> gerror \<Rightarrow> http_rsp" where
  "errorResponse nd err =
     (case errors_As_Rpc err of
        Some r \<Rightarrow> rsp_json (rpc_Code r) (JObj [(''error'', JStr (rpc_Msg r))])
      | None \<Rightarrow> rsp_json 500 (JObj [(''error'', JStr (error_text err)), (''details'', JStr (nd_details nd err))]))"

definition commandFailed :: "bytes \<Rightarrow> http_rsp" where
  "commandFailed out = rsp_json 500 (JObj [(''details'', JStr (bytes_string out)), (''error'', JStr (error_text ErrNodeCommandFailed))])"

text \<open>What fiber answers for a handler that returned an error or panicked.\<close>

fun serve :: "http_rsp res \<Rightarrow> http_rsp" where
  "serve (Ok r) = r"
| "serve (Err e) = \<lparr>hr_Status = 500, hr_Body = BText (error_text e)\<rparr>"
| "serve (Panic p) = \<lparr>hr_Status = 500, hr_Body = BText p\<rparr>"

text \<open>\<open>if err != nil { return s.errorResponse(c, err) }\<close>\<close>

fun or_error :: "node \<Rightarrow> 'a res \<Rightarrow> ('a \<Rightarrow> http_rsp res) \<Rightarrow> http_rsp res" where
  "or_error nd (Ok a) f = f a"
| "or_error nd (Err e) f = Ok (errorResponse nd e)"
| "or_error nd (Panic p) f = Panic p"

subsection \<open>Transactions and blocks\<close>

fun gjson_get :: "string list \<Rightarrow> json \<Rightarrow> json" where
  "gjson_get [] j = j"
| "gjson_get (k # ks) (JObj m) = (case map_of m k of Some j \<Rightarrow> gjson_get ks j | None \<Rightarrow> JNull)"
| "gjson_get (k # ks) (JArr js) =
     (if k \<noteq> [] \<and> (\<forall>c\<in>set k. 48 \<le> (of_char c :: nat) \<and> (of_char c :: nat) \<le> 57) \<and> ParseUint k < length js
      then gjson_get ks (js ! ParseUint k) else JNull)"
| "gjson_get (k # ks) j = JNull"

fun gjson_Array :: "json \<Rightarrow> json list" where
  "gjson_Array JNull = []"
| "gjson_Array (JArr js) = js"
| "gjson_Array (JObj m) = []"
| "gjson_Array j = [j]"

fun gjson_String :: "(json \<Rightarrow> string) \<Rightarrow> json \<Rightarrow> string" where
  "gjson_String raw JNull = []"
| "gjson_String raw (JBool b) = (if b then ''true'' else ''false'')"
| "gjson_String raw (JNum i) = fmt_int i"
| "gjson_String raw (JStr s) = s"
| "gjson_String raw j = raw j"

definition memo_path :: "string list" where
  "memo_path = [''0'', ''0'', fmt_int MayaProtocolAuxKey, ''memo'']"

definition tx_memo :: "node \<Rightarrow> bytes option \<Rightarrow> string res" where
  "tx_memo nd metadata =
     (case metadata of
        None \<Rightarrow> Ok []
      | Some data \<Rightarrow>
          (case AuxData_UnmarshalCBOR (nd_env nd) data \<lparr>ax_Value = ANil\<rparr> of
             Ok aux \<Rightarrow>
               (case AuxData_MarshalJSON (nd_env nd) aux of
                  Ok j \<Rightarrow> Ok (concat (map (gjson_String (nd_raw nd)) (gjson_Array (gjson_get memo_path j))))
                | Err e \<Rightarrow> Ok []
                | Panic p \<Rightarrow> Panic p)
           | Err e \<Rightarrow> Ok []
           | Panic p \<Rightarrow> Panic p))"

definition txResponse :: "node \<Rightarrow> Transaction \<Rightarrow> TxResponse res" where
  "txResponse nd tx =
     (let v = nd_view nd tx in
      res_bind (tx_memo nd (tv_Metadata v)) (\<lambda>memo.
        Ok \<lparr>xr_Hash = lt_Hash tx,
            xr_Inputs = map (\<lambda>(h, i). \<lparr>xi_Hash = h, xi_Index = i\<rparr>) (tv_Inputs v),
            xr_Outputs = map (\<lambda>(n, a). \<lparr>xo_Amount = n, xo_Address = a\<rparr>) (tv_Outputs v),
            xr_Memo = memo, xr_Fee = tv_Fee v\<rparr>))"

definition blockResponse :: "node \<Rightarrow> BlockProcessor.Block \<Rightarrow> PointRef \<Rightarrow> BlockResponse res" where
  "blockResponse nd block point =
     res_bind (res_all (map (txResponse nd) (lb_Transactions block))) (\<lambda>txs.
       Ok \<lparr>br_Height = (if nd_number nd block = 0 then pr_Height point else nd_number nd block),
           br_Slot = lb_Slot block, br_Hash = lb_Hash block, br_Type = lb_Type block, br_Transactions = txs\<rparr>)"

definition getBlockByPoint :: "node \<Rightarrow> PointRef \<Rightarrow> http_rsp res" where
  "getBlockByPoint nd point =
     or_error nd (GetBlockByPoint (nd_getBlock nd) point) (\<lambda>block.
     res_bind (blockResponse nd block point) (\<lambda>r. Ok (rsp_json 200 (BlockResponse_json r))))"

definition getLatestBlock :: "node \<Rightarrow> 'db HttpRpcServer \<Rightarrow> 'db \<Rightarrow> http_rsp res" where
  "getLatestBlock nd s db = or_error nd (db_GetHighestPoint (hs_db s) db) (getBlockByPoint nd)"

definition getBlockByHash :: "node \<Rightarrow> 'db HttpRpcServer \<Rightarrow> 'db \<Rightarrow> string \<Rightarrow> http_rsp res" where
  "getBlockByHash nd s db hash = or_error nd (db_GetPointByHash (hs_db s) hash db) (getBlockByPoint nd)"

definition http_getBlockByHeight :: "node \<Rightarrow> 'db HttpRpcServer \<Rightarrow> 'db \<Rightarrow> uint64 \<Rightarrow> http_rsp res" where
  "http_getBlockByHeight nd s db number = or_error nd (db_GetPointByHeight (hs_db s) number db) (getBlockByPoint nd)"

text \<open>\<open>strconv.ParseUint(s, 10, 64)\<close> with its error.\<close>

definition strconv_ParseUint :: "string \<Rightarrow> uint64 res" where
  "strconv_ParseUint s =
     (if s = [] \<or> (\<exists>c\<in>set s. \<not> (48 \<le> (of_char c :: nat) \<and> (of_char c :: nat) \<le> 57)) then Err (ErrMsg ''strconv.ParseUint: invalid syntax'')
      else let n = fold (\<lambda>c n. 10 * n + (of_char c - 48)) s 0 in
        if n < 2 ^ 64 then Ok (of_nat n) else Err (ErrMsg ''strconv.ParseUint: value out of range''))"

definition getBlock :: "node \<Rightarrow> 'db HttpRpcServer \<Rightarrow> 'db \<Rightarrow> string \<Rightarrow> http_rsp res" where
  "getBlock nd s db param =
     (if length param = 64 then getBlockByHash nd s db param
      else or_error nd (strconv_ParseUint param) (http_getBlockByHeight nd s db))"

definition getTransaction :: "node \<Rightarrow> 'db HttpRpcServer \<Rightarrow> 'db \<Rightarrow> string \<Rightarrow> http_rsp res" where
  "getTransaction nd s db txHash =
     or_error nd (db_GetBlockNumForTx (hs_db s) txHash db) (\<lambda>height.
     or_error nd (GetBlockByHeight (nd_getBlock nd) height (hs_client s) db) (\<lambda>block.
       case find (\<lambda>tx. lt_Hash tx = txHash) (lb_Transactions block) of
         Some tx \<Rightarrow> res_bind (txResponse nd tx) (\<lambda>r. Ok (rsp_json 200 (TxResponse_json r)))
       | None \<Rightarrow> Ok (errorResponse nd ErrTransactionNotFound)))"

definition getTransactionBlock :: "node \<Rightarrow> 'db HttpRpcServer \<Rightarrow> 'db \<Rightarrow> string \<Rightarrow> http_rsp res" where
  "getTransactionBlock nd s db txHash =
     or_error nd (db_GetBlockNumForTx (hs_db s) txHash db) (\<lambda>height.
     or_error nd (db_GetPointByHeight (hs_db s) height db) (\<lambda>point.
     or_error nd (GetBlockByHeight (nd_getBlock nd) height (hs_client s) db) (\<lambda>block.
     res_bind (blockResponse nd block point) (\<lambda>r. Ok (rsp_json 200 (BlockResponse_json r))))))"

subsection \<open>Status, height and outputs\<close>

record protocol_params =
  pp_CoinsPerUtxoByte :: uint64
  pp_MaxTxSize :: uint64
  pp_MinFeeCoefficient :: uint64
  pp_MinFeeConstant :: uint64

definition io_EOF :: gerror where "io_EOF = ErrMsg ''EOF''"

definition strings_Contains :: "string \<Rightarrow> string \<Rightarrow> bool" where
  "strings_Contains s sub \<longleftrightarrow> (\<exists>i\<in>set [0..<Suc (length s)]. take (length sub) (drop i s) = sub)"

text \<open>\<open>protocol\<close> is the answer of \<open>client.GetProtocolParams\<close>.\<close>

definition getStatus :: "node \<Rightarrow> protocol_params res \<Rightarrow> 'db HttpRpcServer \<Rightarrow> http_rsp res" where
  "getStatus nd protocol s =
     (let height = GetHeight (hs_client s);
          tip = (case height of Ok p \<Rightarrow> p | _ \<Rightarrow> empty_PointRef);
          answer = (\<lambda>pp. Ok (rsp_json 200 (GetStatusOut_json \<lparr>so_Tip = tip, so_Protocol = pp,
            so_ReorgWindow = co_ReorgWindow (cl_Options (hs_client s))\<rparr>)))
      in case height of
           Panic p \<Rightarrow> Panic p
         | _ \<Rightarrow>
           (case (case height of Err e \<Rightarrow> if errors_Is e ErrPointNotFound then None else Some e | _ \<Rightarrow> None) of
              Some e \<Rightarrow> Ok (errorResponse nd e)
            | None \<Rightarrow>
                (case protocol of
                   Panic p \<Rightarrow> Panic p
                 | Err e \<Rightarrow>
                     if strings_Contains (error_text e) ''unknown era ID: 0'' then answer None
                     else if errors_Is e io_EOF then Ok (errorResponse nd ErrNodeUnavailable)
                     else Ok (errorResponse nd e)
                 | Ok pp \<Rightarrow> answer (Some
                     \<lparr>po_CoinsPerUtxoByte = pp_CoinsPerUtxoByte pp, po_MaxTxSize = pp_MaxTxSize pp,
                      po_MinFeeCoefficient = pp_MinFeeCoefficient pp, po_MinFeeConstant = pp_MinFeeConstant pp,
                      po_MinUtxoThreshold = of_nat MinUtxoBytes * pp_CoinsPerUtxoByte pp\<rparr>))))"

definition http_getHeight :: "node \<Rightarrow> 'db HttpRpcServer \<Rightarrow> http_rsp res" where
  "http_getHeight nd s =
     (case GetHeight (hs_client s) of
        Ok p \<Rightarrow> Ok (rsp_json 200 (PointRef_json p))
      | Err e \<Rightarrow> if errors_Is e ErrPointNotFound then Ok (errorResponse nd ErrBlockProcessorStarting) else Ok (errorResponse nd e)
      | Panic p \<Rightarrow> Panic p)"

text \<open>\<open>connected\<close>, \<open>addr\<close> and \<open>results\<close> as in \<open>Client.GetUtxoForAddress\<close>.\<close>

definition http_getUtxoForAddress :: "node \<Rightarrow> unit res \<Rightarrow> unit res \<Rightarrow> node_utxo list res \<Rightarrow> 'db HttpRpcServer \<Rightarrow> 'db \<Rightarrow> string \<Rightarrow> http_rsp res" where
  "http_getUtxoForAddress nd connected addr results s db param =
     or_error nd (Address_ParseBech32String param (cf_Network (hs_config s))) (\<lambda>_.
     or_error nd (GetUtxoForAddress connected addr results (hs_client s) db) (\<lambda>utxos.
       Ok (rsp_json 200 (JArr (map (\<lambda>u. Utxo_json \<lparr>u_TxHash = ut_TxHash u, u_Address = ut_Address u, u_Amount = ut_Amount u,
         u_Index = ut_Index u, u_Height = ut_Height u\<rparr>) utxos)))))"

subsection \<open>Requests with a body\<close>

text \<open>\<open>unmarshalJson\<close>: with another content type the status becomes 400 and the handler goes on, since \<open>SendStatus\<close> returns nil, with
  the zero request. The result is the request and the status that a later \<open>c.JSON\<close> keeps.\<close>

definition unmarshalJson :: "string \<Rightarrow> 'a \<Rightarrow> 'a res \<Rightarrow> ('a \<times> int) res" where
  "unmarshalJson contentType zero parsed =
     (if contentType \<noteq> ''application/json'' then Ok (zero, 400) else res_bind parsed (\<lambda>a. Ok (a, 200)))"

definition runCardanoBinaryWithFiles :: "node \<Rightarrow> 'db HttpRpcServer \<Rightarrow> string \<Rightarrow> VirtualFile list \<Rightarrow> (bytes \<times> gerror option) res" where
  "runCardanoBinaryWithFiles nd s command files =
     (case Network_Params (co_Network (cl_Options (hs_client s))) of
        Ok params \<Rightarrow>
          runCommandWithVirtualFiles (nd_exec nd) (nd_pipes nd) CardanoBinaryPath command
            [''CARDANO_NODE_NETWORK_ID='' @ fmt_d (unat (np_Magic params)), ''CARDANO_NODE_SOCKET_PATH='' @ cf_SocketPath (hs_config s)] files
      | Err e \<Rightarrow> Ok ([], Some e)
      | Panic p \<Rightarrow> Panic p)"

definition runCardanoBinary :: "node \<Rightarrow> 'db HttpRpcServer \<Rightarrow> string \<Rightarrow> (bytes \<times> gerror option) res" where
  "runCardanoBinary nd s command = runCardanoBinaryWithFiles nd s command []"

definition run_ok :: "(bytes \<times> gerror option) res \<Rightarrow> (string \<Rightarrow> http_rsp res) \<Rightarrow> http_rsp res" where
  "run_ok r f = res_bind r (\<lambda>(out, err). case err of Some e \<Rightarrow> Ok (commandFailed out) | None \<Rightarrow> f (bytes_string out))"

definition txid_command :: "string list" where
  "txid_command = [''conway transaction txid'', ''--tx-file file://tx'']"

text \<open>The first match of \<open>(?i)(fee:\s*)(\d+)(\s+lovelace)\<close>: its digits.\<close>

definition is_digit :: "char \<Rightarrow> bool" where
  "is_digit c \<longleftrightarrow> 48 \<le> (of_char c :: nat) \<and> (of_char c :: nat) \<le> 57"

definition fee_here :: "string \<Rightarrow> string option" where
  "fee_here s =
     (if map lower (take 4 s) = ''fee:'' then
        let r = dropWhile re_space (drop 4 s);
            digits = takeWhile is_digit r;
            r2 = dropWhile is_digit r;
            r3 = dropWhile re_space r2
        in if digits \<noteq> [] \<and> r2 \<noteq> r3 \<and> map lower (take 8 r3) = ''lovelace'' then Some digits else None
      else None)"

fun find_fee :: "string \<Rightarrow> string option" where
  "find_fee [] = None"
| "find_fee (c # s) = (case fee_here (c # s) of Some d \<Rightarrow> Some d | None \<Rightarrow> find_fee s)"

fun split_lines :: "string \<Rightarrow> string \<Rightarrow> string list" where
  "split_lines [] acc = [rev acc]"
| "split_lines (c # s) acc = (if c = CHR 0x0A then rev acc # split_lines s [] else split_lines s (c # acc))"

definition join_lines :: "string list \<Rightarrow> string" where
  "join_lines ls = (case ls of [] \<Rightarrow> [] | l # ls \<Rightarrow> l @ concat (map (\<lambda>x. CHR 0x0A # x) ls))"

definition build_args :: "TransactionBuildIn \<Rightarrow> string list" where
  "build_args q =
     [''conway transaction build'', ''--cardano-mode'', ''--change-address '' @ ti_ChangeAddress q, ''--out-file /dev/stdout''] @
     map (\<lambda>i. ''--tx-in '' @ bi_TxHash i @ ''#'' @ fmt_d (unat (bi_Index i))) (ti_Inputs q) @
     map (\<lambda>t. ''--tx-out '' @ bo_Address t @ ''+'' @ fmt_d (unat (bo_Value t))) (ti_Outputs q) @
     (if ti_Memo q \<noteq> [] then [''--metadata-json-file file://metadata''] else [])"

definition memo_json :: "nat list \<Rightarrow> json" where
  "memo_json memo = JObj [(''0'', JObj [(fmt_int MayaProtocolAuxKey,
     JObj [(''memo'', JArr (map (\<lambda>c. JStr (utf8 c)) (ChunkString memo (int MaxAuxDataStringSize))))])])]"

definition build_files :: "node \<Rightarrow> TransactionBuildIn \<Rightarrow> VirtualFile list" where
  "build_files nd q = (if ti_Memo q \<noteq> [] then [\<lparr>vf_Name = ''metadata'', vf_Content = nd_json nd (memo_json (ti_Memo q))\<rparr>] else [])"

definition cli_error :: "node \<Rightarrow> string \<Rightarrow> http_rsp res" where
  "cli_error nd what = Ok (errorResponse nd (ErrWrap what ErrInvalidCliResponse))"

definition zero_TransactionBuildIn :: TransactionBuildIn where
  "zero_TransactionBuildIn = \<lparr>ti_Inputs = [], ti_Outputs = [], ti_ChangeAddress = [], ti_Memo = []\<rparr>"

definition postTransactionBuild :: "node \<Rightarrow> 'db HttpRpcServer \<Rightarrow> string \<Rightarrow> TransactionBuildIn res \<Rightarrow> http_rsp res" where
  "postTransactionBuild nd s contentType parsed =
     res_bind (unmarshalJson contentType zero_TransactionBuildIn parsed) (\<lambda>(q, status).
     run_ok (runCardanoBinaryWithFiles nd s (join_words (build_args q)) (build_files nd q)) (\<lambda>result.
       let lines = split_lines (TrimSpace result) [] in
       if length lines < 2 then cli_error nd ''unable to parse build tx cardano-cli response''
       else
         let doc = join_lines (butlast lines);
             feeLine = last lines
         in run_ok (runCardanoBinaryWithFiles nd s (join_words txid_command)
              [\<lparr>vf_Name = ''tx'', vf_Content = string_bytes (nd_parseRaw nd doc)\<rparr>]) (\<lambda>hash.
            case find_fee feeLine of
              None \<Rightarrow> cli_error nd ''unable to find estimated fee from cardano-cli response''
            | Some digits \<Rightarrow>
                (case strconv_ParseUint digits of
                   Ok fee \<Rightarrow> Ok (rsp_json status (TransactionBuildOut_json
                     \<lparr>to_Hash = TrimSpace hash, to_RawHex = nd_cborHex nd doc, to_EstimatedFee = fee\<rparr>))
                 | _ \<Rightarrow> cli_error nd ''unable to parse estimated fee from cardano-cli response''))))"

definition tx_document :: "string \<Rightarrow> string \<Rightarrow> json" where
  "tx_document typ tx = JObj [(''type'', JStr typ), (''description'', JStr ''Ledger Cddl Format''), (''cborHex'', JStr tx)]"

definition key_document :: "bytes \<Rightarrow> json" where
  "key_document key = JObj [(''type'', JStr ''PaymentSigningKeyShelley_ed25519''), (''description'', JStr ''Payment Signing Key''),
     (''cborHex'', JStr (hex_EncodeToString (encode_bytes key)))]"

definition sign_args :: "string list" where
  "sign_args = [''conway transaction sign'', ''--tx-body-file file://tx'', ''--signing-key-file file://key'', ''--out-file /dev/stdout'']"

definition postTransactionSign :: "node \<Rightarrow> 'db HttpRpcServer \<Rightarrow> string \<Rightarrow> TransactionSignIn res \<Rightarrow> http_rsp res" where
  "postTransactionSign nd s contentType parsed =
     res_bind (unmarshalJson contentType \<lparr>si_Tx = [], si_PrivateKeyHex = []\<rparr> parsed) (\<lambda>(q, status).
     case hex_DecodeString (si_PrivateKeyHex q) of
       (key, Some e) \<Rightarrow> Ok (errorResponse nd ErrInvalidPrivateKey)
     | (key, None) \<Rightarrow>
         run_ok (runCardanoBinaryWithFiles nd s (join_words sign_args)
           [\<lparr>vf_Name = ''tx'', vf_Content = nd_json nd (tx_document ''Unwitnessed Tx ConwayEra'' (si_Tx q))\<rparr>,
            \<lparr>vf_Name = ''key'', vf_Content = nd_json nd (key_document key)\<rparr>]) (\<lambda>result.
           Ok (rsp_json status (JObj [(''tx'', JStr (nd_cborHex nd result))]))))"

definition broadcast_args :: "string list" where
  "broadcast_args = [''conway transaction submit'', ''--cardano-mode'', ''--tx-file file://tx'']"

definition postTransactionBroadcast :: "node \<Rightarrow> 'db HttpRpcServer \<Rightarrow> string \<Rightarrow> BroadcastTxIn res \<Rightarrow> http_rsp res" where
  "postTransactionBroadcast nd s contentType parsed =
     res_bind (unmarshalJson contentType \<lparr>bt_TxHex = []\<rparr> parsed) (\<lambda>(q, status).
     let files = [\<lparr>vf_Name = ''tx'', vf_Content = nd_json nd (tx_document ''Witnessed Tx ConwayEra'' (bt_TxHex q))\<rparr>] in
     res_bind (runCardanoBinaryWithFiles nd s (join_words broadcast_args) files) (\<lambda>(out, err).
       if err \<noteq> None \<or> TrimSpace (bytes_string out) \<noteq> ''Transaction successfully submitted.'' then Ok (commandFailed out)
       else run_ok (runCardanoBinaryWithFiles nd s (join_words txid_command) files) (\<lambda>hash.
         Ok (rsp_json 200 (JObj [(''txHash'', JStr (TrimSpace hash))])))))"

definition postPubkeyToAddress :: "node \<Rightarrow> (nat \<Rightarrow> bytes \<Rightarrow> bytes) \<Rightarrow> string \<Rightarrow> PublicKeyToAddress res \<Rightarrow> http_rsp res" where
  "postPubkeyToAddress nd blake2b contentType parsed =
     or_error nd (unmarshalJson contentType \<lparr>pk_Network = [], pk_PublicKeyHex = []\<rparr> parsed) (\<lambda>(q, status).
     if \<not> Network_Valid (pk_Network q) then Ok (errorResponse nd ErrNetworkInvalid)
     else case hex_DecodeString (pk_PublicKeyHex q) of
       (key, Some e) \<Rightarrow> Ok (errorResponse nd ErrInvalidPublicKey)
     | (key, None) \<Rightarrow>
         or_error nd (EncodeAddress blake2b key (pk_Network q) AddressTypePayment) (\<lambda>address.
           case Address_Bech32String address (pk_Network q) of
             Panic p \<Rightarrow> Panic p
           | r \<Rightarrow> Ok (rsp_json status (JObj [(''address'', JStr (case r of Ok t \<Rightarrow> t | _ \<Rightarrow> []))]))))"

subsection \<open>Fee estimates\<close>

text \<open>\<open>tx2\<close> of the handler; all outputs are of the subtype G. The library checks what \<open>WithCborTag\<close>, \<open>SubtypeOf\<close> and \<open>AuxData\<close> return.\<close>

definition estimate_inputs :: "TransactionEstimateFeeIn \<Rightarrow> TransactionInput list WithCborTag" where
  "estimate_inputs q = \<lparr>wt_Tag = 258, wt_Value = replicate (nat (fi_Inputs q)) \<lparr>ti_Txid = replicate 32 0, ti_Index = 1\<rparr>\<rparr>"

definition estimate_outputs :: "TransactionEstimateFeeIn \<Rightarrow> TransactionOutputG list" where
  "estimate_outputs q = map (\<lambda>n. \<lparr>toG_Address = replicate 29 0, toG_Amount = n\<rparr>) (fi_OutputAmounts q)"

definition estimate_signers :: "TxSigner list WithCborTag" where
  "estimate_signers = \<lparr>wt_Tag = 258, wt_Value = [\<lparr>ts_Key = replicate 32 0, ts_Signature = replicate 64 0\<rparr>]\<rparr>"

definition estimate_aux :: "TransactionEstimateFeeIn \<Rightarrow> AuxData option" where
  "estimate_aux q = (if fi_Memo q \<noteq> [] then Some (SetMemo (fi_Memo q) \<lparr>ax_Value = ANil\<rparr>) else None)"

definition marshal_estimate :: "cbor_env \<Rightarrow> TransactionEstimateFeeIn \<Rightarrow> bytes res" where
  "marshal_estimate env q =
     res_bind (checked (WithCborTag_MarshalCBOR encode_int (\<lambda>is. Ok (enc_array (map marshal_TransactionInput is))) (estimate_inputs q))) (\<lambda>inputs.
     res_bind (res_all (map (\<lambda>t. checked (Ok (marshal_TransactionOutputG t))) (estimate_outputs q))) (\<lambda>outputs.
     res_bind (checked (WithCborTag_MarshalCBOR encode_int (\<lambda>ss. Ok (enc_array (map marshal_TxSigner ss))) estimate_signers)) (\<lambda>signers.
     res_bind (case estimate_aux q of None \<Rightarrow> Ok [0xF6] | Some a \<Rightarrow> checked (AuxData_MarshalCBOR env a)) (\<lambda>aux.
       Ok (enc_array
         [enc_fields [(0, inputs), (1, enc_array outputs), (2, encodeHead 0x00 200000), (7, encode_bytes (replicate 32 0))],
          enc_fields [(0, signers)], [0xF5], aux])))))"

definition postTransactionEstimateFee :: "node \<Rightarrow> string \<Rightarrow> TransactionEstimateFeeIn res \<Rightarrow> http_rsp res" where
  "postTransactionEstimateFee nd contentType parsed =
     res_bind (unmarshalJson contentType \<lparr>fi_Inputs = 0, fi_OutputAmounts = [], fi_Memo = []\<rparr> parsed) (\<lambda>(q, status).
     or_error nd (marshal_estimate (nd_env nd) q) (\<lambda>bs.
       let estimatedSize = int (length bs);
           estimatedFee = 155381 + (estimatedSize + 100) * 44
       in Ok (rsp_json status (TransactionEstimateFeeOut_json \<lparr>fo_Size = of_int estimatedSize, fo_Fee = of_int estimatedFee\<rparr>))))"

end
