(* ===== verification/RpcClient.thy ===== *)
theory RpcClient
  imports Http
begin

text \<open>
  The HTTP client (src/rpcclient/rpcclient.go) and the routes of the server that it calls.

  \<^item> \<open>transport\<close> carries a request to its response: method, path and body; \<open>Err\<close> is a failed connection. \<open>server_transport\<close> is the
    transport to a server of \<open>Http\<close>, by the routes of \<open>HttpRpcServer.Start\<close>.
  \<^item> \<open>RpcClient\<close> is the interface as a record of methods.
\<close>

subsection \<open>The client\<close>

datatype http_method = GET | POST

type_synonym transport = "http_method \<Rightarrow> string \<Rightarrow> json option \<Rightarrow> http_rsp res"

record HttpRpcClient =
  hc_HostPort :: transport
  hc_Network :: Network

definition NewHttpRpcClient :: "transport \<Rightarrow> Network \<Rightarrow> HttpRpcClient res" where
  "NewHttpRpcClient hostPort network = Ok \<lparr>hc_HostPort = hostPort, hc_Network = network\<rparr>"

text \<open>\<open>rsp.Status[0] != '2'\<close>: the first digit of a status of three digits.\<close>

definition rpc_req :: "HttpRpcClient \<Rightarrow> http_method \<Rightarrow> string \<Rightarrow> json option \<Rightarrow> body res" where
  "rpc_req c meth path b =
     res_bind (hc_HostPort c meth path b) (\<lambda>rsp.
       if hr_Status rsp div 100 \<noteq> 2 then
         (case hr_Body rsp of
            BJson j \<Rightarrow>
              (case RpcError_of_json j of
                 Ok e \<Rightarrow> Err (ErrRpc e)
               | _ \<Rightarrow> Err (ErrWrap ''rpc response code with body'' ErrRpcFailed))
          | BText t \<Rightarrow> Err (ErrWrap ''rpc response code with body'' ErrRpcFailed))
       else Ok (hr_Body rsp))"

definition reqUnmarshal :: "HttpRpcClient \<Rightarrow> http_method \<Rightarrow> string \<Rightarrow> json option \<Rightarrow> (json \<Rightarrow> 'a res) \<Rightarrow> 'a res" where
  "reqUnmarshal c meth path b dec =
     res_bind (rpc_req c meth path b) (\<lambda>rspBody.
       case rspBody of
         BText t \<Rightarrow> Err (ErrMsg ''unable to unmarshal body'')
       | BJson j \<Rightarrow> (case dec j of Err e \<Rightarrow> Err (ErrWrap ''unable to unmarshal body'' e) | r \<Rightarrow> r))"

definition rpc_get :: "HttpRpcClient \<Rightarrow> string \<Rightarrow> (json \<Rightarrow> 'a res) \<Rightarrow> 'a res" where
  "rpc_get c path dec = reqUnmarshal c GET path None dec"

definition rpc_post :: "HttpRpcClient \<Rightarrow> string \<Rightarrow> json \<Rightarrow> (json \<Rightarrow> 'a res) \<Rightarrow> 'a res" where
  "rpc_post c path inp dec = reqUnmarshal c POST path (Some inp) dec"

definition rpc_GetHeight :: "HttpRpcClient \<Rightarrow> PointRef res" where
  "rpc_GetHeight c = rpc_get c ''/height'' PointRef_of_json"

definition rpc_GetTransaction :: "HttpRpcClient \<Rightarrow> string \<Rightarrow> TxResponse res" where
  "rpc_GetTransaction c hash = rpc_get c (''/tx/'' @ hash) TxResponse_of_json"

definition BroadcastTx :: "HttpRpcClient \<Rightarrow> BroadcastTxIn \<Rightarrow> BroadcastTxOut res" where
  "BroadcastTx c inp = rpc_post c ''/tx/broadcast'' (JObj [(''tx'', JStr (bt_TxHex inp))]) BroadcastTxOut_of_json"

definition GetUtxosForAddress :: "HttpRpcClient \<Rightarrow> Address \<Rightarrow> Utxo list res" where
  "GetUtxosForAddress c address =
     res_bind (Address_Bech32String address (hc_Network c)) (\<lambda>addr. rpc_get c (''/utxo/'' @ addr) (dec_list Utxo_of_json))"

definition GetStatus :: "HttpRpcClient \<Rightarrow> GetStatusOut res" where
  "GetStatus c = rpc_get c ''/status'' GetStatusOut_of_json"

definition TransactionBuildIn_json :: "TransactionBuildIn \<Rightarrow> json" where
  "TransactionBuildIn_json q = JObj
     [(''txIn'', JArr (map (\<lambda>i. JObj [(''txHash'', JStr (bi_TxHash i)), (''index'', jnum (bi_Index i))]) (ti_Inputs q))),
      (''txOut'', JArr (map (\<lambda>t. JObj [(''address'', JStr (bo_Address t)), (''value'', jnum (bo_Value t))]) (ti_Outputs q))),
      (''changeAddress'', JStr (ti_ChangeAddress q)), (''memo'', JStr (utf8 (ti_Memo q)))]"

definition BuildTx :: "HttpRpcClient \<Rightarrow> TransactionBuildIn \<Rightarrow> TransactionBuildOut res" where
  "BuildTx c inp = rpc_post c ''/tx/build'' (TransactionBuildIn_json inp) TransactionBuildOut_of_json"

definition rpc_GetBlockByHash :: "HttpRpcClient \<Rightarrow> string \<Rightarrow> BlockResponse res" where
  "rpc_GetBlockByHash c hash = rpc_get c (''/block/'' @ hash) BlockResponse_of_json"

definition rpc_GetBlockByHeight :: "HttpRpcClient \<Rightarrow> uint64 \<Rightarrow> BlockResponse res" where
  "rpc_GetBlockByHeight c height = rpc_get c (''/block/'' @ fmt_d (unat height)) BlockResponse_of_json"

text \<open>\<open>unmarshal\<close> is the library's decoder of the struct.\<close>

definition Submission :: "(bytes \<Rightarrow> TxSubmission res) \<Rightarrow> TransactionBuildOut option \<Rightarrow> TxSubmission res" where
  "Submission unmarshal t =
     (case t of
        None \<Rightarrow> Err (ErrMsg ''transaction build out is nil'')
      | Some r \<Rightarrow>
          (case hex_DecodeString (to_RawHex r) of
             (b, Some e) \<Rightarrow> Err (ErrWrap ''failed to decode tx cbor from build output'' e)
           | (b, None) \<Rightarrow>
               (case unmarshal b of
                  Err e \<Rightarrow> Err (ErrWrap ''failed to unmarshal tx build output to tx submission struct'' e)
                | r \<Rightarrow> r)))"

record RpcClient =
  rc_GetHeight :: "PointRef res"
  rc_GetTransaction :: "string \<Rightarrow> TxResponse res"
  rc_BroadcastTx :: "BroadcastTxIn \<Rightarrow> BroadcastTxOut res"
  rc_GetUtxosForAddress :: "Address \<Rightarrow> Utxo list res"
  rc_GetStatus :: "GetStatusOut res"
  rc_BuildTx :: "TransactionBuildIn \<Rightarrow> TransactionBuildOut res"
  rc_GetBlockByHash :: "string \<Rightarrow> BlockResponse res"
  rc_GetBlockByHeight :: "uint64 \<Rightarrow> BlockResponse res"

definition http_RpcClient :: "HttpRpcClient \<Rightarrow> RpcClient" where
  "http_RpcClient c = \<lparr>rc_GetHeight = rpc_GetHeight c, rc_GetTransaction = rpc_GetTransaction c, rc_BroadcastTx = BroadcastTx c,
     rc_GetUtxosForAddress = GetUtxosForAddress c, rc_GetStatus = GetStatus c, rc_BuildTx = BuildTx c,
     rc_GetBlockByHash = rpc_GetBlockByHash c, rc_GetBlockByHeight = rpc_GetBlockByHeight c\<rparr>"

subsection \<open>Routes\<close>

text \<open>The segments of a path after its first slash.\<close>

fun split_path :: "string \<Rightarrow> string \<Rightarrow> string list" where
  "split_path [] acc = [rev acc]"
| "split_path (c # s) acc = (if c = CHR ''/'' then rev acc # split_path s [] else split_path s (c # acc))"

text \<open>What the node answers to the queries of a request.\<close>

record queries =
  qr_protocol :: "protocol_params res"
  qr_connected :: "unit res"
  qr_addr :: "unit res"
  qr_utxos :: "node_utxo list res"

definition no_route :: "http_rsp" where
  "no_route = \<lparr>hr_Status = 404, hr_Body = BText ''Cannot GET''\<rparr>"

text \<open>The GET routes, in the order of \<open>Start\<close>; a parameter is a non-empty segment.\<close>

definition route_get :: "node \<Rightarrow> queries \<Rightarrow> 'db HttpRpcServer \<Rightarrow> 'db \<Rightarrow> string list \<Rightarrow> http_rsp res" where
  "route_get nd qs s db segs =
     (if length segs = 2 \<and> segs ! 0 = ''utxo'' \<and> segs ! 1 \<noteq> [] then
        http_getUtxoForAddress nd (qr_connected qs) (qr_addr qs) (qr_utxos qs) s db (segs ! 1)
      else if segs = [''block'', ''latest''] then getLatestBlock nd s db
      else if length segs = 2 \<and> segs ! 0 = ''block'' \<and> segs ! 1 \<noteq> [] then getBlock nd s db (segs ! 1)
      else if length segs = 2 \<and> segs ! 0 = ''tx'' \<and> segs ! 1 \<noteq> [] then getTransaction nd s db (segs ! 1)
      else if length segs = 3 \<and> segs ! 0 = ''tx'' \<and> segs ! 1 \<noteq> [] \<and> segs ! 2 = ''block'' then getTransactionBlock nd s db (segs ! 1)
      else if segs = [''status''] then getStatus nd (qr_protocol qs) s
      else if segs = [''height''] then http_getHeight nd s
      else Ok no_route)"

text \<open>\<open>post\<close> answers the POST routes.\<close>

definition server_transport :: "node \<Rightarrow> queries \<Rightarrow> (string list \<Rightarrow> json \<Rightarrow> http_rsp res) \<Rightarrow> 'db HttpRpcServer \<Rightarrow> 'db \<Rightarrow> transport" where
  "server_transport nd qs post s db meth path b =
     (let segs = split_path (tl path) [] in
      case (meth, b) of
        (POST, Some j) \<Rightarrow> Ok (serve (post segs j))
      | _ \<Rightarrow> Ok (serve (route_get nd qs s db segs)))"

end
