(* ===== verification/RpcMain.thy ===== *)
theory RpcMain
  imports RpcClient
begin

text \<open>
  The start of the server program (src/cmd/rpc/main.go): flags, log level, and the order in which the database, the client and the HTTP server
  are made.

  \<^item> \<open>flags\<close> are the flags that the command line sets; \<open>parseLevel\<close> is \<open>zerolog.ParseLevel\<close>, \<open>openDb\<close> the result of
    \<open>NewSqlLiteDatabase\<close>.
  \<^item> A nil client is \<open>None\<close>: \<open>main\<close> does not look at the error of \<open>NewClient\<close>. \<open>running\<close> is the state in which it waits for
    a signal, \<open>graceful_shutdown\<close> what follows it.
\<close>

definition default_config :: config where
  "default_config = \<lparr>cf_DatabasePath = ''cardano-rpc.db'', cf_NtNHostPort = ''localhost:3000'', cf_NtCHostPort = ''localhost:3001'', cf_Network = [],
     cf_RpcHostPort = ''localhost:3002'', cf_SocketPath = ''/opt/cardano/ipc/socket'', cf_LogLevel = [], cf_ReorgWindow = -1\<rparr>"

datatype flag =
    FlagDatabasePath string
  | FlagNtNHostPort string
  | FlagNtCHostPort string
  | FlagNetwork string
  | FlagRpcHostPort string
  | FlagSocketPath string
  | FlagLogLevel string
  | FlagReorgWindow int

fun set_flag :: "flag \<Rightarrow> config \<Rightarrow> config" where
  "set_flag (FlagDatabasePath v) c = c\<lparr>cf_DatabasePath := v\<rparr>"
| "set_flag (FlagNtNHostPort v) c = c\<lparr>cf_NtNHostPort := v\<rparr>"
| "set_flag (FlagNtCHostPort v) c = c\<lparr>cf_NtCHostPort := v\<rparr>"
| "set_flag (FlagNetwork v) c = c\<lparr>cf_Network := v\<rparr>"
| "set_flag (FlagRpcHostPort v) c = c\<lparr>cf_RpcHostPort := v\<rparr>"
| "set_flag (FlagSocketPath v) c = c\<lparr>cf_SocketPath := v\<rparr>"
| "set_flag (FlagLogLevel v) c = c\<lparr>cf_LogLevel := v\<rparr>"
| "set_flag (FlagReorgWindow v) c = c\<lparr>cf_ReorgWindow := v\<rparr>"

definition config_Load :: "flag list \<Rightarrow> config" where
  "config_Load flags = fold set_flag flags default_config"

definition resolve_log_level :: "string \<Rightarrow> config \<Rightarrow> config" where
  "resolve_log_level envLogLevel c =
     (if cf_LogLevel c = [] then c\<lparr>cf_LogLevel := (if envLogLevel \<noteq> [] then envLogLevel else ''info'')\<rparr> else c)"

definition client_options :: "config \<Rightarrow> 'db Database \<Rightarrow> 'db ClientOptions" where
  "client_options c db = \<lparr>co_NtNHostPort = cf_NtNHostPort c, co_NtCHostPort = cf_NtCHostPort c, co_Network = cf_Network c,
     co_Database = Some db, co_StartPoint = empty_PointRef, co_ReorgWindow = cf_ReorgWindow c\<rparr>"

record 'db running =
  rn_config :: config
  rn_client :: "'db Client"
  rn_server :: "'db HttpRpcServer"

text \<open>\<open>Err\<close> is the error with which \<open>log.Fatal\<close> ends the program. The goroutine that starts a nil client panics.\<close>

definition rpc_main :: "flag list \<Rightarrow> string \<Rightarrow> (string \<Rightarrow> unit res) \<Rightarrow> (string \<Rightarrow> 'db Database res) \<Rightarrow> 'db running res" where
  "rpc_main flags envLogLevel parseLevel openDb =
     (let c = resolve_log_level envLogLevel (config_Load flags) in
      res_bind (parseLevel (cf_LogLevel c)) (\<lambda>_.
      res_bind (openDb (cf_DatabasePath c)) (\<lambda>db.
        let client = (case NewClient (Some (client_options c db)) of Ok cl \<Rightarrow> Some cl | _ \<Rightarrow> None) in
        if cf_NtNHostPort c = [] then Err (ErrMsg ''node-to-node rpc host/port not configured'')
        else if cf_NtCHostPort c = [] then Err (ErrMsg ''node-to-client rpc host/port not configured'')
        else (case client of
                None \<Rightarrow> Panic ''nil pointer dereference''
              | Some cl \<Rightarrow> res_bind (NewHttpRpcServer c db cl) (\<lambda>server.
                  Ok \<lparr>rn_config = c, rn_client = cl, rn_server = server\<rparr>)))))"

text \<open>After the signal: the client is stopped and then the server, unless the first fails, which ends the program. \<open>closed\<close> and \<open>stopped\<close>
  are the results of closing the connection and of fiber's \<open>Shutdown\<close>. The server holds the same client.\<close>

definition server_Stop :: "unit res \<Rightarrow> unit res" where
  "server_Stop stopped = stopped"

definition graceful_shutdown :: "unit res \<Rightarrow> unit res \<Rightarrow> 'db running \<Rightarrow> unit res \<times> 'db running" where
  "graceful_shutdown closed stopped r =
     (case Stop closed (rn_client r) of (e, client) \<Rightarrow>
        (res_bind e (\<lambda>_. server_Stop stopped),
         r\<lparr>rn_client := client, rn_server := (rn_server r)\<lparr>hs_client := client\<rparr>\<rparr>))"

subsection \<open>Properties\<close>

text \<open>Whatever the results, the client is shut down afterwards and the server sees that.\<close>

lemma shutdown_complete:
  assumes "graceful_shutdown closed stopped r = (e, r')"
  shows "cl_shutdown (rn_client r') \<and> hs_client (rn_server r') = rn_client r' \<and> (e = Ok () \<longrightarrow> stopped = Ok ())"
  using assms by (auto simp: graceful_shutdown_def Stop_def server_Stop_def split: if_splits prod.splits)


lemma main_runs:
  assumes "rpc_main flags envLogLevel parseLevel openDb = Ok r"
  shows "hs_client (rn_server r) = rn_client r \<and> cl_db (rn_client r) = hs_db (rn_server r) \<and>
    Network_Valid (co_Network (cl_Options (rn_client r))) \<and> 0 \<le> co_ReorgWindow (cl_Options (rn_client r))"
proof -
  have "is_ok (Network_Params n) \<Longrightarrow> Network_Valid n" for n by (simp add: Network_Params_total)
  then show ?thesis
    using assms
    by (fastforce simp: rpc_main_def Let_def NewHttpRpcServer_def NewClient_def client_options_def setDefaults_def defaultClientOptions_def
      split: if_splits res.splits option.splits)
qed

text \<open>An unknown network is not reported: the program goes on without a client.\<close>

lemma unknown_network_panics:
  assumes "rpc_main flags envLogLevel parseLevel openDb = Ok r" "network \<noteq> []" "\<not> Network_Valid network"
  shows "rpc_main (flags @ [FlagNetwork network]) envLogLevel parseLevel openDb = Panic ''nil pointer dereference''"
proof -
  define c where "c = resolve_log_level envLogLevel (config_Load flags)"
  have c': "resolve_log_level envLogLevel (config_Load (flags @ [FlagNetwork network])) = c\<lparr>cf_Network := network\<rparr>"
    by (simp add: c_def resolve_log_level_def config_Load_def)
  have "NewClient (Some (client_options (c\<lparr>cf_Network := network\<rparr>) db)) = Err (ErrMsg ''invalid network'')" for db :: "'a Database"
    using assms(2,3) by (simp add: NewClient_def client_options_def setDefaults_def defaultClientOptions_def Let_def Network_Params_invalid)
  then show ?thesis
    using assms(1) unfolding rpc_main_def c' c_def [symmetric] Let_def
    by (auto split: if_splits)
qed

end
