(* ===== verification/RpcSpec.thy ===== *)
theory RpcSpec
  imports RpcMain BlockDataSpec
begin

text \<open>
  Properties of the HTTP server and client: queries and errors end to end, memos from the request to the response, the fee estimate, and the
  commands that the server runs.

  The hypothesis \<open>fair_order\<close> is the one of \<open>BlockDataSpec\<close>: an iteration visits each entry of a map once.
\<close>

subsection \<open>JSON round trips\<close>

lemma dec_word_jnum [simp]: "dec_word (JNum (uint w)) = Ok w"
  using uint_bounded [of w] by simp

declare dec_word.simps(2) [simp del]

lemma res_all_map_Ok [simp]: "res_all (map Ok xs) = Ok xs"
  by (induction xs) auto

lemmas json_simps = json_field_def lower_def Let_def comp_def

lemma TxInput_roundtrip [simp]: "TxInput_of_json (TxInput_json i) = Ok i"
  by (simp add: TxInput_of_json_def TxInput_json_def json_simps)

lemma TxOutput_roundtrip [simp]: "TxOutput_of_json (TxOutput_json i) = Ok i"
  by (simp add: TxOutput_of_json_def TxOutput_json_def json_simps)

lemma TxResponse_roundtrip [simp]: "TxResponse_of_json (TxResponse_json r) = Ok r"
  by (cases r) (simp add: TxResponse_of_json_def TxResponse_json_def json_simps)

definition int64 :: "int \<Rightarrow> bool" where "int64 i \<longleftrightarrow> - (2 ^ 63) \<le> i \<and> i < 2 ^ 63"

lemma PointRef_roundtrip: "int64 (pr_Type p) \<Longrightarrow> PointRef_of_json (PointRef_json p) = Ok p"
  by (simp add: PointRef_of_json_def PointRef_json_def json_simps int64_def)

lemma BlockResponse_roundtrip: "int64 (br_Type r) \<Longrightarrow> BlockResponse_of_json (BlockResponse_json r) = Ok r"
  by (simp add: BlockResponse_of_json_def BlockResponse_json_def json_simps int64_def)

subsection \<open>Paths\<close>

lemma split_path_word: "CHR ''/'' \<notin> set w \<Longrightarrow> split_path w acc = [rev acc @ w]"
  by (induction w arbitrary: acc) auto

lemma split_path_two: "CHR ''/'' \<notin> set w \<Longrightarrow> split_path (''block/'' @ w) [] = [''block'', w] \<and> split_path (''tx/'' @ w) [] = [''tx'', w]"
  by (simp add: split_path_word)

lemma fmt_d_path: "CHR ''/'' \<notin> set (fmt_d n)" "fmt_d n \<noteq> []" "fmt_d n \<noteq> ''latest''"
proof -
  show "CHR ''/'' \<notin> set (fmt_d n)" using fmt_d_digits [of "CHR ''/''" n] by auto
  show "fmt_d n \<noteq> []" by (simp add: fmt_d.simps [of n])
  show "fmt_d n \<noteq> ''latest''" using fmt_d_digits [of "CHR ''l''" n] by auto
qed

lemma ParseUint_fmt_d: "strconv_ParseUint (fmt_d (unat h)) = Ok h"
proof -
  have "unat h < 2 ^ 64" using unsigned_less [of h] by simp
  then show ?thesis
    using fmt_d_digits [of _ "unat h"] fmt_d_path(2) [of "unat h"] dec_value_fmt_d [of "unat h"]
    by (auto simp: strconv_ParseUint_def Let_def simp del: dec_value.simps simp flip: dec_value.simps)
qed

lemma length_fmt_d: "n < 10 ^ k \<Longrightarrow> 0 < k \<Longrightarrow> length (fmt_d n) \<le> k"
proof (induction k arbitrary: n)
  case (Suc k)
  show ?case
  proof (cases "n < 10")
    case False
    then have "n div 10 < 10 ^ k" "0 < k" using Suc.prems(1) by (auto intro: Suc_leI ccontr)
    then show ?thesis using Suc.IH [of "n div 10"] False by (simp add: fmt_d.simps [of n])
  qed (simp add: fmt_d.simps [of n])
qed simp

lemma length_fmt_uint64: "length (fmt_d (unat (h :: uint64))) \<le> 20"
proof -
  have "unat h < 2 ^ 64" using unsigned_less [of h] by simp
  also have "(2 :: nat) ^ 64 \<le> 10 ^ 20" by simp
  finally show ?thesis by (intro length_fmt_d) auto
qed

subsection \<open>Queries end to end\<close>

lemma rpc_get_server:
  assumes "hc_HostPort c = server_transport nd qs post s db" "serve (route_get nd qs s db (split_path path [])) = rsp_json 200 j"
  shows "rpc_get c (CHR ''/'' # path) dec = (case dec j of Err e \<Rightarrow> Err (ErrWrap ''unable to unmarshal body'' e) | r \<Rightarrow> r)"
  using assms by (simp add: rpc_get_def reqUnmarshal_def rpc_req_def server_transport_def rsp_json_def http_status_def)

text \<open>Claim C14 (rpc_get_block): A client that asks a server for a block by its height gets the response that the server built from the block of the point stored at
  that height: the number in the path, the route, the lookup and the JSON form of the response all read back.\<close>

theorem rpc_get_block:
  assumes "hc_HostPort c = server_transport nd qs post s db" "db_GetPointByHeight (hs_db s) h db = Ok point"
    "nd_getBlock nd (PointRef_Common point) = Ok block" "blockResponse nd block point = Ok r" "int64 (lb_Type block)"
  shows "rpc_GetBlockByHeight c h = Ok r"
proof -
  let ?p = "fmt_d (unat h)"
  have t: "int64 (br_Type r)" using assms(4,5) by (auto simp: blockResponse_def)
  have "length ?p \<noteq> 64" using length_fmt_uint64 [of h] by simp
  then have "serve (route_get nd qs s db [''block'', ?p]) = rsp_json 200 (BlockResponse_json r)"
    using assms(2-4) fmt_d_path [of "unat h"] ParseUint_fmt_d [of h]
    by (simp add: route_get_def getBlock_def http_getBlockByHeight_def getBlockByPoint_def GetBlockByPoint_def)
  then have "serve (route_get nd qs s db (split_path (''block/'' @ ?p) [])) = rsp_json 200 (BlockResponse_json r)"
    using split_path_two [of ?p] fmt_d_path(1) [of "unat h"] by simp
  from rpc_get_server [OF assms(1) this, of BlockResponse_of_json] show ?thesis
    by (simp add: rpc_GetBlockByHeight_def BlockResponse_roundtrip [OF t])
qed

definition ex_server :: "SqlLiteDatabase HttpRpcServer" where
  "ex_server = \<lparr>hs_client = ex_client, hs_config = default_config\<lparr>cf_Network := NetworkMainNet\<rparr>, hs_db = sqlite\<rparr>"

definition ex_block_node :: node where
  "ex_block_node = \<lparr>nd_getBlock = (\<lambda>_. Ok (ex_block 6 ''bb'' ''aa'' 11 [''t1''])), nd_number = (\<lambda>_. 0),
     nd_view = (\<lambda>_. \<lparr>tv_Inputs = [(''t0'', 1)], tv_Outputs = [(5, ''addr'')], tv_Metadata = None, tv_Fee = 2\<rparr>), nd_env = ex_env,
     nd_raw = (\<lambda>_. []), nd_json = (\<lambda>_. []), nd_cborHex = (\<lambda>s. s), nd_parseRaw = (\<lambda>s. s),
     nd_details = (\<lambda>_. []), nd_exec = (\<lambda>_ _ _ _. Inr ([], None)), nd_pipes = []\<rparr>"

definition ex_queries :: queries where
  "ex_queries = \<lparr>qr_protocol = Err ErrNodeUnavailable, qr_connected = Ok (), qr_addr = Ok (), qr_utxos = Ok []\<rparr>"

definition ex_rpc :: HttpRpcClient where
  "ex_rpc = \<lparr>hc_HostPort = server_transport ex_block_node ex_queries (\<lambda>_ _. Ok no_route) ex_server ex_txdb, hc_Network = NetworkMainNet\<rparr>"

theorem rpc_get_block_witness:
  "rpc_GetBlockByHeight ex_rpc 4 = Ok \<lparr>br_Height = 4, br_Slot = 11, br_Hash = ''bb'', br_Type = 6, br_Transactions =
     [\<lparr>xr_Hash = ''t1'', xr_Inputs = [\<lparr>xi_Hash = ''t0'', xi_Index = 1\<rparr>], xr_Outputs = [\<lparr>xo_Amount = 5, xo_Address = ''addr''\<rparr>],
       xr_Memo = [], xr_Fee = 2\<rparr>]\<rparr>"
proof -
  let ?p = "\<lparr>pr_Slot = 11, pr_Hash = ''bb'', pr_Type = 6, pr_Height = 4\<rparr>" and ?b = "ex_block 6 ''bb'' ''aa'' 11 [''t1'']"
  have c: "hc_HostPort ex_rpc = server_transport ex_block_node ex_queries (\<lambda>_ _. Ok no_route) ex_server ex_txdb"
    by (simp add: ex_rpc_def)
  have p: "db_GetPointByHeight (hs_db ex_server) 4 ex_txdb = Ok ?p"
    by (simp add: ex_server_def ex_txdb_def ex_db_def ex_row_def sqlite_def GetPointByHeight_def query_row_def scan_uint64_def
      sql_arg_def scan_point_def)
  have g: "nd_getBlock ex_block_node (PointRef_Common ?p) = Ok ?b" "int64 (lb_Type ?b)"
    by (simp_all add: ex_block_node_def ex_block_def int64_def)
  show ?thesis
    by (rule rpc_get_block [OF c p g(1) _ g(2)]) (simp add: blockResponse_def txResponse_def tx_memo_def ex_block_node_def ex_block_def Let_def)
qed

text \<open>A client that asks for a transaction by hash gets the first transaction of that hash in the block at its recorded height.\<close>

lemma rpc_get_transaction:
  assumes "hc_HostPort c = server_transport nd qs post s db" "hash \<noteq> []" "CHR ''/'' \<notin> set hash"
    "db_GetBlockNumForTx (hs_db s) hash db = Ok h" "db_GetPointByHeight (cl_db (hs_client s)) h db = Ok point"
    "nd_getBlock nd (PointRef_Common point) = Ok block" "find (\<lambda>tx. lt_Hash tx = hash) (lb_Transactions block) = Some tx"
    "txResponse nd tx = Ok r"
  shows "rpc_GetTransaction c hash = Ok r"
proof -
  have "serve (route_get nd qs s db (split_path (''tx/'' @ hash) [])) = rsp_json 200 (TxResponse_json r)"
    using assms(2-) split_path_two [of hash]
    by (simp add: route_get_def getTransaction_def GetBlockByHeight_def)
  from rpc_get_server [OF assms(1) this, of TxResponse_of_json] show ?thesis
    by (simp add: rpc_GetTransaction_def)
qed

subsection \<open>Errors end to end\<close>

lemma RpcError_of_error_json:
  "RpcError_of_json (JObj [(''error'', j)]) = Ok \<lparr>rpc_Msg = [], rpc_Details = [], rpc_Code = 0\<rparr>"
  by (simp add: RpcError_of_json_def json_simps)

text \<open>Claim C33 (rpc_error_message_lost): An RPC error of the server arrives at the client as an error without a message, which does not match the
  error that was sent: the server writes the member \<open>error\<close>, the client reads \<open>Msg\<close>.\<close>

theorem rpc_error_message_lost:
  assumes "hc_HostPort c meth path b = Ok (errorResponse nd e)" "errors_As_Rpc e = Some r" "rpc_Msg r \<noteq> []"
    "http_status (rpc_Code r) div 100 \<noteq> 2"
  shows "\<exists>e'. rpc_req c meth path b = Err e' \<and> \<not> errors_Is e' e \<and> error_text e' = []"
proof -
  have "errors_Cause e = ErrRpc r" using assms(2) by (auto simp: errors_As_Rpc_Cause split: gerror.splits)
  moreover have "rpc_req c meth path b = Err (ErrRpc \<lparr>rpc_Msg = [], rpc_Details = [], rpc_Code = 0\<rparr>)"
    using assms by (simp add: rpc_req_def errorResponse_def rsp_json_def RpcError_of_error_json)
  ultimately show ?thesis using assms(3) by auto
qed

theorem rpc_error_message_lost_witness:
  "\<exists>e'. rpc_req \<lparr>hc_HostPort = (\<lambda>_ _ _. Ok (errorResponse ex_block_node ErrPointNotFound)), hc_Network = []\<rparr> GET ''/block/7'' None = Err e' \<and>
     \<not> errors_Is e' ErrPointNotFound \<and> error_text e' = []"
  by (rule rpc_error_message_lost [of _ _ _ _ ex_block_node ErrPointNotFound
    "\<lparr>rpc_Msg = ''point not found'', rpc_Details = [], rpc_Code = 404\<rparr>"])
    (simp_all add: ErrPointNotFound_def rpc_sentinel_def http_status_def)

subsection \<open>Requests of another content type\<close>

text \<open>A broadcast request of another content type is not refused: the empty transaction is submitted.\<close>

lemma non_json_request_processed:
  assumes "ct \<noteq> ''application/json''"
  shows "postTransactionBroadcast nd s ct parsed = postTransactionBroadcast nd s ''application/json'' (Ok \<lparr>bt_TxHex = []\<rparr>)"
  using assms by (simp add: postTransactionBroadcast_def unmarshalJson_def)

subsection \<open>Memos\<close>

text \<open>What a node decodes from the auxiliary data that \<open>SetMemo\<close> makes.\<close>

definition memo_chunks :: "nat list \<Rightarrow> string list" where
  "memo_chunks memo = map utf8 (ChunkString memo (int MaxAuxDataStringSize))"

definition memo_map :: "any \<Rightarrow> any" where
  "memo_map v = AMap [(AUint 0, AMap [(AUint 0, AMap [(AUint 6676, AMap [(AString ''memo'', v)])])])]"

definition memo_value :: "nat list \<Rightarrow> any" where
  "memo_value memo = ATag 259 (memo_map (ASlice (map AString (memo_chunks memo))))"

lemma chunks_not_empty: "memo \<noteq> [] \<Longrightarrow> ChunkString memo (int MaxAuxDataStringSize) \<noteq> []"
  by (simp add: ChunkString_def MaxAuxDataStringSize_def chunks.simps [of _ memo])

lemma concat_memo_chunks: "concat (memo_chunks memo) = utf8 memo"
proof -
  have "concat (map utf8 cs) = utf8 (concat cs)" for cs by (induction cs) (auto simp: utf8_def)
  then show ?thesis using chunk_string(1) [of "int MaxAuxDataStringSize" memo] by (simp add: memo_chunks_def MaxAuxDataStringSize_def)
qed

lemma chunks_count: "length xs \<le> n * k \<Longrightarrow> length (chunks n xs) \<le> k"
proof (induction k arbitrary: xs)
  case (Suc k)
  then show ?case by (subst chunks.simps) simp
qed simp

lemma memo_chunks_count: "length memo \<le> 64 * k \<Longrightarrow> length (memo_chunks memo) \<le> k"
  by (simp add: memo_chunks_def ChunkString_def MaxAuxDataStringSize_def chunks_count)

lemma length_utf8: "length (utf8 rs) \<le> 4 * length rs"
  by (induction rs) (auto simp: utf8_def utf8_rune_def)

lemma memo_chunk_length: "c \<in> set (memo_chunks memo) \<Longrightarrow> length c \<le> 256"
proof -
  assume "c \<in> set (memo_chunks memo)"
  then obtain rs where "rs \<in> set (ChunkString memo 64)" "c = utf8 rs" by (auto simp: memo_chunks_def MaxAuxDataStringSize_def)
  then show ?thesis using chunk_string(2) [of 64 memo] length_utf8 [of rs] by fastforce
qed

lemma memo_chunk_Valid: "\<forall>r\<in>set memo. valid_rune r \<Longrightarrow> c \<in> set (memo_chunks memo) \<Longrightarrow> utf8_Valid (string_bytes c)"
proof -
  assume v: "\<forall>r\<in>set memo. valid_rune r" and "c \<in> set (memo_chunks memo)"
  then obtain rs where "rs \<in> set (ChunkString memo 64)" "c = utf8 rs" by (auto simp: memo_chunks_def MaxAuxDataStringSize_def)
  moreover have "set rs \<subseteq> set memo" if "rs \<in> set (ChunkString memo 64)" for rs
    using chunk_string(1) [of 64 memo] that by (metis UN_upper set_concat zero_less_numeral)
  ultimately show ?thesis using v utf8_Valid_utf8 [of rs] by blast
qed

lemma nest_texts: "nest (ASlice (map AString ss)) = 1"
  by (induction ss) auto

lemma iterate_single: "fair_order env \<Longrightarrow> iterate env [(k, x)] = [(k, x)]"
  using mset_iterate [of env "[(k, x)]"] by simp

lemma marshal_single:
  assumes "fair_order env" "hashable k" "v \<noteq> ANil" "cbor_Marshal env k = Ok kb" "cbor_Marshal env v = Ok vb"
    "checked (Ok (0xA1 # kb @ vb)) = Ok (0xA1 # kb @ vb)"
  shows "cbor_Marshal env (AKV [(k, v)]) = Ok (0xA1 # kb @ vb)"
  using assms marshal_kv [of "[(k, v)]" env] by (simp add: iterate_single [OF assms(1)])

lemma encodes_single: "encodes k kb \<Longrightarrow> encodes v vb \<Longrightarrow> encodes (AMap [(k, v)]) (0xA1 # kb @ vb)"
  using enc_map [of "[(k, v)]" "[(k, v)]" "[(kb, vb)]"] head_small [of 1] by simp

text \<open>A map with one key, with the key written as any integer type.\<close>

lemma single_level:
  assumes "fair_order env" "hashable k" "cbor_Marshal env k = Ok kb" "encodes k' kb"
    "v \<noteq> ANil" "cbor_Marshal env v = Ok vb" "encodes v' vb"
    "sizes_ok marshalerDecMode True (AMap [(k', v')])" "nest (AMap [(k', v')]) \<le> 65535"
  shows "cbor_Marshal env (AKV [(k, v)]) = Ok (0xA1 # kb @ vb) \<and> encodes (AMap [(k', v')]) (0xA1 # kb @ vb)"
proof -
  have e: "encodes (AMap [(k', v')]) (0xA1 # kb @ vb)" using assms(4,7) by (rule encodes_single)
  then show ?thesis using marshal_single [OF assms(1,2,5,3,6)] checked_encodes [OF e assms(8,9)] by blast
qed

lemma int_key: "0 \<le> i \<Longrightarrow> cbor_Marshal env (AInt i) = Ok (encodeHead 0 (of_int i)) \<and> encodes (AUint (of_int i)) (encodeHead 0 (of_int i))"
  by (simp add: encode_int_def enc_uint)

definition memo_data :: "any \<Rightarrow> any" where
  "memo_data v = AKV [(AInt 0, AKV [(AInt 0, AKV [(AInt MayaProtocolAuxKey, AKV [(AString ''memo'', v)])])])]"

lemma memo_data_marshal:
  assumes "fair_order env" "v \<noteq> ANil" "cbor_Marshal env v = Ok sb" "encodes v' sb" "sizes_ok marshalerDecMode True v'" "nest v' \<le> 60000"
  shows "\<exists>bs. cbor_Marshal env (memo_data v) = Ok bs \<and> encodes (memo_map v') bs"
proof -
  have k0: "cbor_Marshal env (AInt 0) = Ok (encodeHead 0 0)" "encodes (AUint 0) (encodeHead 0 0)"
    using int_key [of 0 env] by simp_all
  have k: "cbor_Marshal env (AInt MayaProtocolAuxKey) = Ok (encodeHead 0 6676)" "encodes (AUint 6676) (encodeHead 0 6676)"
    using int_key [of MayaProtocolAuxKey env] by (simp_all add: MayaProtocolAuxKey_def)
  have km: "cbor_Marshal env (AString ''memo'') = Ok (encode_string ''memo'')" by simp
  have "1 \<le> dm_maxMapPairs marshalerDecMode" by (simp add: marshalerDecMode_def)
  note size = assms(5,6) this
  obtain b3 where b3: "cbor_Marshal env (AKV [(AString ''memo'', v)]) = Ok b3" "encodes (AMap [(AString ''memo'', v')]) b3"
    using single_level [OF assms(1) _ km enc_string assms(2-4)] size by (auto simp del: cbor_Marshal.simps(12))
  obtain b2 where b2: "cbor_Marshal env (AKV [(AInt MayaProtocolAuxKey, AKV [(AString ''memo'', v)])]) = Ok b2"
    "encodes (AMap [(AUint 6676, AMap [(AString ''memo'', v')])]) b2"
    using single_level [OF assms(1) _ k _ b3] size by (auto simp del: cbor_Marshal.simps(12))
  obtain b1 where b1: "cbor_Marshal env (AKV [(AInt 0, AKV [(AInt MayaProtocolAuxKey, AKV [(AString ''memo'', v)])])]) = Ok b1"
    "encodes (AMap [(AUint 0, AMap [(AUint 6676, AMap [(AString ''memo'', v')])])]) b1"
    using single_level [OF assms(1) _ k0 _ b2] size by (auto simp del: cbor_Marshal.simps(12))
  show ?thesis using single_level [OF assms(1) _ k0 _ b1] size unfolding memo_map_def memo_data_def by (auto simp del: cbor_Marshal.simps(12))
qed

lemma SetMemo_data: "ax_Value (SetMemo memo a) = AKV [(AString ''Tag'', AUint 259), (AString ''Content'', memo_data (chunk_value memo))]"
  by (simp add: SetMemo_def memo_data_def)

lemma aux_marshal_memo:
  "cbor_Marshal env (memo_data (chunk_value memo)) = Ok b \<Longrightarrow> AuxData_MarshalCBOR env (SetMemo memo a) = Ok (encodeHead 0xC0 259 @ b)"
  by (simp add: AuxData_MarshalCBOR_def SetMemo_data tag_pair_def memo_data_def del: cbor_Marshal.simps(12))

lemma memo_marshal:
  assumes "fair_order env" "memo \<noteq> []" "length memo < 2 ^ 31"
  shows "\<exists>bs. AuxData_MarshalCBOR env (SetMemo memo a) = Ok bs \<and> encodes (memo_value memo) bs"
proof -
  let ?s = "ASlice (map AString (memo_chunks memo))"
  have v: "chunk_value memo = ?s" "memo_chunks memo \<noteq> []"
    using chunks_not_empty [OF assms(2)] by (auto simp: chunk_value_def memo_chunks_def comp_def split: list.split)
  from slice_reencodes [of "map AString (memo_chunks memo)" env] v(2) obtain sb where
    s: "cbor_Marshal env ?s = Ok sb" "encodes ?s sb"
    by (auto simp: conv_list_map comp_def intro: enc_string)
  have "length (memo_chunks memo) \<le> 2147483647" using memo_chunks_count [of memo "2147483647"] assms(3) by simp
  then have "sizes_ok marshalerDecMode True ?s" using memo_chunk_length [of _ memo] by (fastforce simp: marshalerDecMode_def)
  then obtain b where "cbor_Marshal env (memo_data ?s) = Ok b" "encodes (memo_map ?s) b"
    using memo_data_marshal [OF assms(1) _ s] nest_texts by auto
  then show ?thesis using aux_marshal_memo [of env memo] v(1) by (auto simp: memo_value_def intro: enc_tag)
qed

lemma memo_decodable:
  assumes "\<forall>r\<in>set memo. valid_rune r" "length memo \<le> 64 * 131072" "encodes (memo_value memo) bs"
  shows "unmarshal_any env defaultDecMode bs = Ok (memo_value memo)"
proof (rule encodes_unmarshal [OF assms(3)])
  have "length (memo_chunks memo) \<le> 131072" using memo_chunks_count assms(2) by blast
  then show "decodable defaultDecMode (memo_value memo)"
    using memo_chunk_length [of _ memo] memo_chunk_Valid [OF assms(1)]
    by (fastforce simp: memo_value_def memo_map_def defaultDecMode_def string_bytes_def intro: utf8_Valid_ascii)
qed (simp_all add: memo_value_def memo_map_def defaultDecMode_def nest_texts [simplified])

lemma memo_read:
  assumes "fair_order (nd_env nd)" "memo \<noteq> []" "unmarshal_any (nd_env nd) defaultDecMode bs = Ok (memo_value memo)"
  shows "tx_memo nd (Some bs) = Ok (utf8 memo)"
proof -
  have ne: "memo_chunks memo \<noteq> []" using chunks_not_empty [OF assms(2)] by (simp add: memo_chunks_def)
  have keys: "fmt_d 0 = ''0''" "fmt_d 6676 = ''6676''"
    by (simp_all add: fmt_d.simps [of 0] fmt_d.simps [of 6] fmt_d.simps [of 66] fmt_d.simps [of 667] fmt_d.simps [of 6676] hex_char_def hex_digits_def)
  have list: "json_list env (map AString ss) = map (\<lambda>s. Ok (JStr s)) ss" for env ss by (induction ss) auto
  have all: "res_all (map (\<lambda>s. Ok (JStr s)) ss) = Ok (map JStr ss)" for ss by (induction ss) auto
  have "AuxData_MarshalJSON (nd_env nd) \<lparr>ax_Value = mapToKVArray (nd_env nd) (memo_value memo)\<rparr> =
    Ok (JObj [(''0'', JObj [(''0'', JObj [(''6676'', JObj [(''memo'', JArr (map JStr (memo_chunks memo)))])])])])"
    using ne by (simp add: AuxData_MarshalJSON_def memo_value_def memo_map_def tag_pair_def iterate_single [OF assms(1)]
      conv_list_map comp_def list all kv_json_def obj_set_def keys)
  moreover have "gjson_get memo_path (JObj [(''0'', JObj [(''0'', JObj [(''6676'', JObj [(''memo'', j)])])])]) = j" for j
    by (simp add: memo_path_def MayaProtocolAuxKey_def fmt_int_def keys)
  ultimately show ?thesis
    using assms(3) concat_memo_chunks [of memo] by (simp add: tx_memo_def AuxData_UnmarshalCBOR_def comp_def)
qed

definition ex_node :: node where
  "ex_node = \<lparr>nd_getBlock = (\<lambda>_. Err ErrBlockNotFound), nd_number = (\<lambda>_. 0),
     nd_view = (\<lambda>_. \<lparr>tv_Inputs = [], tv_Outputs = [], tv_Metadata = None, tv_Fee = 0\<rparr>), nd_env = ex_env,
     nd_raw = (\<lambda>_. []), nd_json = (\<lambda>_. []), nd_cborHex = (\<lambda>s. s), nd_parseRaw = (\<lambda>s. s),
     nd_details = (\<lambda>_. []), nd_exec = (\<lambda>_ _ _ _. Inr ([], None)), nd_pipes = []\<rparr>"

text \<open>Claim C15 (memo_roundtrip): A memo that \<open>SetMemo\<close> puts into the auxiliary data is what \<open>txResponse\<close> shows for a transaction with these bytes as metadata,
  for every memo but the empty one, up to the length at which the decoder rejects the array of its parts.\<close>

theorem memo_roundtrip:
  assumes "fair_order (nd_env nd)" "memo \<noteq> []" "\<forall>r\<in>set memo. valid_rune r" "length memo \<le> 64 * 131072"
  shows "\<exists>bs. AuxData_MarshalCBOR (nd_env nd) (SetMemo memo a) = Ok bs \<and> encodes (memo_value memo) bs \<and>
    tx_memo nd (Some bs) = Ok (utf8 memo)"
  using memo_marshal [OF assms(1,2)] memo_read [OF assms(1,2)] memo_decodable [OF assms(3,4)] assms(4) by force

theorem memo_roundtrip_witness:
  "\<exists>bs. AuxData_MarshalCBOR ex_env (SetMemo [104, 233] \<lparr>ax_Value = ANil\<rparr>) = Ok bs \<and> tx_memo ex_node (Some bs) = Ok (utf8 [104, 233])"
proof -
  have env: "nd_env ex_node = ex_env" by (simp add: ex_node_def)
  show ?thesis using memo_roundtrip [of ex_node "[104, 233]"] ex_env_ok unfolding env by (auto simp: valid_rune_def)
qed

lemma chunk_bytes:
  "memo_chunks (replicate 64 233) = [concat (replicate 64 (utf8_rune 233))] \<and> length (utf8_rune 233) = 2"
proof -
  have "ChunkString (replicate 64 (233 :: nat)) (int MaxAuxDataStringSize) = [replicate 64 233]"
    by (simp add: ChunkString_def MaxAuxDataStringSize_def chunks.simps)
  then show ?thesis by (simp add: memo_chunks_def utf8_def utf8_rune_def)
qed

lemma empty_memo:
  assumes "fair_order (nd_env nd)"
  shows "\<exists>bs. AuxData_MarshalCBOR (nd_env nd) (SetMemo [] a) = Ok bs \<and> tx_memo nd (Some bs) = Ok ''<nil>''"
proof -
  have v: "chunk_value [] = ANilSlice" by (simp add: chunk_value_def ChunkString_def)
  have "cbor_Marshal (nd_env nd) ANilSlice = Ok [0xF6]" "encodes ANil [0xF6]" by (simp_all add: enc_nil)
  then obtain b where b: "cbor_Marshal (nd_env nd) (memo_data ANilSlice) = Ok b" "encodes (memo_map ANil) b"
    using memo_data_marshal [OF assms, of ANilSlice "[0xF6]" ANil] by auto
  have "encodes (ATag 259 (memo_map ANil)) (encodeHead 0xC0 259 @ b)" by (rule enc_tag [OF b(2)])
  then have "unmarshal_any (nd_env nd) defaultDecMode (encodeHead 0xC0 259 @ b) = Ok (ATag 259 (memo_map ANil))"
    by (rule encodes_unmarshal) (simp_all add: memo_map_def defaultDecMode_def string_bytes_def utf8_Valid_ascii)
  moreover have keys: "fmt_d 0 = ''0''" "fmt_d 6676 = ''6676''"
    by (simp_all add: fmt_d.simps [of 0] fmt_d.simps [of 6] fmt_d.simps [of 66] fmt_d.simps [of 667] fmt_d.simps [of 6676] hex_char_def hex_digits_def)
  ultimately have "tx_memo nd (Some (encodeHead 0xC0 259 @ b)) = Ok ''<nil>''"
    by (simp add: tx_memo_def AuxData_UnmarshalCBOR_def AuxData_MarshalJSON_def tag_pair_def memo_map_def iterate_single [OF assms(1)]
      kv_json_def obj_set_def memo_path_def MayaProtocolAuxKey_def fmt_int_def)
  then show ?thesis using aux_marshal_memo [of "nd_env nd" "[]"] b(1) v by auto
qed

subsection \<open>Fee estimates\<close>

definition head_size :: "uint64 \<Rightarrow> nat" where
  "head_size n = (if n \<le> 23 then 1 else if n \<le> 0xFF then 2 else if n \<le> 0xFFFF then 3 else if n \<le> 0xFFFFFFFF then 5 else 9)"

lemma size_encodeHead: "length (encodeHead t n) = head_size n"
  by (simp add: encodeHead_def head_size_def PutUint64_def)

lemma length_enc_array: "length (enc_array bss) = head_size (of_nat (length bss)) + sum_list (map length bss)"
  by (simp add: enc_array_def size_encodeHead length_concat)

lemma input_size: "length (marshal_TransactionInput \<lparr>ti_Txid = replicate 32 0, ti_Index = 1\<rparr>) = 36"
  by (simp add: marshal_TransactionInput_def length_enc_array encode_HexBytes_def encode_bytes_def encode_int_def size_encodeHead head_size_def)

lemma output_size: "length (marshal_TransactionOutputG \<lparr>toG_Address = replicate 29 0, toG_Amount = n\<rparr>) = 32 + head_size n"
  by (simp add: marshal_TransactionOutputG_def length_enc_array encode_HexBytes_def encode_bytes_def size_encodeHead head_size_def)

lemma signer_size: "length (marshal_TxSigner \<lparr>ts_Key = replicate 32 0, ts_Signature = replicate 64 0\<rparr>) = 101"
  by (simp add: marshal_TxSigner_def length_enc_array encode_HexBytes_def encode_bytes_def size_encodeHead head_size_def)

text \<open>The parts of the transaction whose encoding the library checks.\<close>

definition tagged :: "bytes \<Rightarrow> bytes" where
  "tagged b = [0xD9, 0x01, 0x02] @ b"

definition inputs_bytes :: "TransactionEstimateFeeIn \<Rightarrow> bytes" where
  "inputs_bytes q = tagged (enc_array (map marshal_TransactionInput (wt_Value (estimate_inputs q))))"

definition signers_bytes :: bytes where
  "signers_bytes = tagged (enc_array (map marshal_TxSigner (wt_Value estimate_signers)))"

lemma map_encodes: "\<forall>x\<in>set vs. encodes (g x) (f x) \<Longrightarrow> encodes (ASlice (map g vs)) (enc_array (map f vs))"
  using enc_slice [of "map g vs" "map f vs"] by (simp add: enc_array_def list.rel_map list.rel_refl_strong)

lemma pair_encodes: "encodes a x \<Longrightarrow> encodes b y \<Longrightarrow> encodes (ASlice [a, b]) (enc_array [x, y])"
  using enc_slice [of "[a, b]" "[x, y]"] by (simp add: enc_array_def)

lemma nest_slice_le: "\<forall>x\<in>set xs. nest x \<le> n \<Longrightarrow> nest (ASlice xs) \<le> Suc n"
  by (induction xs) auto

lemma tagged_checked:
  assumes "\<forall>x\<in>set vs. encodes (g x) (f x) \<and> sizes_ok marshalerDecMode True (g x) \<and> nest (g x) \<le> 100" "length vs \<le> 2147483647"
  shows "checked (Ok (tagged (enc_array (map f vs)))) = Ok (tagged (enc_array (map f vs)))"
proof (rule checked_encodes)
  have "encodeHead 0xC0 258 = [0xD9, 0x01, 0x02]" by code_simp
  then show "encodes (ATag 258 (ASlice (map g vs))) (tagged (enc_array (map f vs)))"
    using enc_tag [OF map_encodes [of vs g f], of 258] assms(1) by (simp add: tagged_def)
  have "nest (ASlice (map g vs)) \<le> Suc 100" using assms(1) by (intro nest_slice_le) simp
  then show "nest (ATag 258 (ASlice (map g vs))) \<le> 65535" by simp
qed (use assms in \<open>simp add: marshalerDecMode_def\<close>)

lemma bytes_encodes: "b \<noteq> [] \<Longrightarrow> encodes (ABytes b) (encode_HexBytes b)"
  by (simp add: encode_HexBytes_def enc_bytes)

lemma input_encodes: "ti_Txid i \<noteq> [] \<Longrightarrow> encodes (ASlice [ABytes (ti_Txid i), AInt (ti_Index i)]) (marshal_TransactionInput i)"
  unfolding marshal_TransactionInput_def by (intro pair_encodes bytes_encodes enc_int)

lemma signer_encodes:
  "ts_Key t \<noteq> [] \<Longrightarrow> ts_Signature t \<noteq> [] \<Longrightarrow> encodes (ASlice [ABytes (ts_Key t), ABytes (ts_Signature t)]) (marshal_TxSigner t)"
  unfolding marshal_TxSigner_def by (intro pair_encodes bytes_encodes)

lemma output_encodes: "toG_Address t \<noteq> [] \<Longrightarrow> encodes (ASlice [ABytes (toG_Address t), AUint (toG_Amount t)]) (marshal_TransactionOutputG t)"
  unfolding marshal_TransactionOutputG_def by (intro pair_encodes bytes_encodes enc_uint)

lemma inputs_checked: "fi_Inputs q \<le> 2147483647 \<Longrightarrow> checked (Ok (inputs_bytes q)) = Ok (inputs_bytes q)"
  unfolding inputs_bytes_def
  by (rule tagged_checked [where g = "\<lambda>i. ASlice [ABytes (ti_Txid i), AInt (ti_Index i)]"])
    (simp_all add: input_encodes [of "\<lparr>ti_Txid = replicate 32 0, ti_Index = 1\<rparr>", simplified] estimate_inputs_def marshalerDecMode_def)

lemma signers_checked: "checked (Ok signers_bytes) = Ok signers_bytes"
  unfolding signers_bytes_def
  by (rule tagged_checked [where g = "\<lambda>t. ASlice [ABytes (ts_Key t), ABytes (ts_Signature t)]"])
    (simp_all add: signer_encodes [of "\<lparr>ts_Key = replicate 32 0, ts_Signature = replicate 64 0\<rparr>", simplified] estimate_signers_def marshalerDecMode_def)

lemma output_checked: "t \<in> set (estimate_outputs q) \<Longrightarrow> checked (Ok (marshal_TransactionOutputG t)) = Ok (marshal_TransactionOutputG t)"
  by (rule checked_encodes [OF output_encodes]) (auto simp: estimate_outputs_def marshalerDecMode_def)

lemma memo_value_checked:
  assumes "encodes (memo_value memo) bs" "length memo < 2 ^ 31"
  shows "checked (Ok bs) = Ok bs"
proof (rule checked_encodes [OF assms(1)])
  have "length (memo_chunks memo) \<le> 2147483647" using memo_chunks_count [of memo "2147483647"] assms(2) by simp
  then show "sizes_ok marshalerDecMode True (memo_value memo)"
    using memo_chunk_length [of _ memo] by (fastforce simp: memo_value_def memo_map_def marshalerDecMode_def)
qed (simp add: memo_value_def memo_map_def nest_texts [simplified])

lemma tag_258: "WithCborTag_MarshalCBOR encode_int enc \<lparr>wt_Tag = 258, wt_Value = v\<rparr> = res_bind (enc v) (\<lambda>b. Ok (tagged b))"
proof -
  have "encode_int 258 = [0x19, 0x01, 0x02]" by code_simp
  then show ?thesis by (simp add: WithCborTag_MarshalCBOR_def tagged_def Let_def)
qed

lemma length_enc_fields4: "length (enc_fields [(0, a), (1, b), (2, c), (7, d)]) = 5 + length a + length b + length c + length d"
  by (simp add: enc_fields_def size_encodeHead head_size_def encode_int_def)

lemma length_enc_fields1: "length (enc_fields [(0, a)]) = 2 + length a"
  by (simp add: enc_fields_def size_encodeHead head_size_def encode_int_def)

lemma res_all_checked: "\<forall>t\<in>set ts. checked (Ok (f t)) = Ok (f t) \<Longrightarrow> res_all (map (\<lambda>t. checked (Ok (f t))) ts) = Ok (map f ts)"
  by (induction ts) auto

definition aux_bytes :: "cbor_env \<Rightarrow> nat list \<Rightarrow> bytes \<Rightarrow> bool" where
  "aux_bytes env memo aux \<longleftrightarrow> (if memo = [] then aux = [0xF6] else AuxData_MarshalCBOR env (SetMemo memo \<lparr>ax_Value = ANil\<rparr>) = Ok aux)"

lemma aux_bytes_ex:
  assumes "fair_order env" "fi_Inputs q \<le> 2147483647" "length (fi_Memo q) < 2 ^ 31"
  shows "\<exists>aux. aux_bytes env (fi_Memo q) aux \<and>
    (case estimate_aux q of None \<Rightarrow> Ok [0xF6] | Some a \<Rightarrow> checked (AuxData_MarshalCBOR env a)) = Ok aux"
proof (cases "fi_Memo q = []")
  case False
  then obtain bs where "AuxData_MarshalCBOR env (SetMemo (fi_Memo q) \<lparr>ax_Value = ANil\<rparr>) = Ok bs" "encodes (memo_value (fi_Memo q)) bs"
    using memo_marshal [OF assms(1) False assms(3)] by blast
  then show ?thesis using False memo_value_checked assms(3) by (auto simp: aux_bytes_def estimate_aux_def)
qed (simp add: aux_bytes_def estimate_aux_def)

definition estimate_size :: "TransactionEstimateFeeIn \<Rightarrow> nat \<Rightarrow> nat" where
  "estimate_size q aux = 156 + head_size (of_nat (nat (fi_Inputs q))) + 36 * nat (fi_Inputs q) +
     head_size (of_nat (length (fi_OutputAmounts q))) + (\<Sum>n\<leftarrow>fi_OutputAmounts q. 32 + head_size n) + aux"

lemma marshal_estimate_size:
  assumes "fair_order env" "fi_Inputs q \<le> 2147483647" "length (fi_Memo q) < 2 ^ 31"
  shows "\<exists>aux bs. aux_bytes env (fi_Memo q) aux \<and> marshal_estimate env q = Ok bs \<and> length bs = estimate_size q (length aux)"
proof -
  obtain aux where aux: "aux_bytes env (fi_Memo q) aux"
    "(case estimate_aux q of None \<Rightarrow> Ok [0xF6] | Some a \<Rightarrow> checked (AuxData_MarshalCBOR env a)) = Ok aux"
    using aux_bytes_ex [OF assms] by blast
  let ?outs = "map marshal_TransactionOutputG (estimate_outputs q)"
  define bs where "bs = enc_array [enc_fields [(0, inputs_bytes q), (1, enc_array ?outs), (2, encodeHead 0x00 200000), (7, encode_bytes (replicate 32 0))],
    enc_fields [(0, signers_bytes)], [0xF5], aux]"
  have "checked (WithCborTag_MarshalCBOR encode_int (\<lambda>is. Ok (enc_array (map marshal_TransactionInput is))) (estimate_inputs q)) = Ok (inputs_bytes q)"
    using inputs_checked [OF assms(2)] by (simp add: estimate_inputs_def tag_258 inputs_bytes_def)
  moreover have "checked (WithCborTag_MarshalCBOR encode_int (\<lambda>ss. Ok (enc_array (map marshal_TxSigner ss))) estimate_signers) = Ok signers_bytes"
    using signers_checked by (simp add: estimate_signers_def tag_258 signers_bytes_def)
  ultimately have m: "marshal_estimate env q = Ok bs"
    using aux(2) res_all_checked [of "estimate_outputs q" marshal_TransactionOutputG] output_checked by (simp add: marshal_estimate_def bs_def)
  have "length (inputs_bytes q) = 3 + head_size (of_nat (nat (fi_Inputs q))) + 36 * nat (fi_Inputs q)"
    by (simp add: inputs_bytes_def tagged_def length_enc_array estimate_inputs_def input_size sum_list_replicate)
  moreover have "length (enc_array ?outs) = head_size (of_nat (length (fi_OutputAmounts q))) + (\<Sum>n\<leftarrow>fi_OutputAmounts q. 32 + head_size n)"
    by (simp add: length_enc_array estimate_outputs_def output_size comp_def)
  moreover have "length signers_bytes = 105"
    by (simp add: signers_bytes_def tagged_def length_enc_array estimate_signers_def signer_size head_size_def)
  ultimately have "length bs = estimate_size q (length aux)"
    by (simp add: bs_def length_enc_array length_enc_fields4 length_enc_fields1 size_encodeHead encode_bytes_def head_size_def estimate_size_def)
  then show ?thesis using m aux(1) by blast
qed

text \<open>Claim C26 (estimate_fee): The size of the estimate is 156 bytes plus the inputs, the outputs and the auxiliary data, each with the sizes of their
  heads, and the fee is 155381 plus 44 for each byte and for 100 more.\<close>

theorem estimate_fee:
  assumes "fair_order (nd_env nd)" "fi_Inputs q \<le> 2147483647" "length (fi_Memo q) < 2 ^ 31"
  shows "\<exists>aux. aux_bytes (nd_env nd) (fi_Memo q) aux \<and>
    postTransactionEstimateFee nd ''application/json'' (Ok q) =
      Ok (rsp_json 200 (TransactionEstimateFeeOut_json
        \<lparr>fo_Size = of_nat (estimate_size q (length aux)), fo_Fee = of_nat (155381 + (estimate_size q (length aux) + 100) * 44)\<rparr>))"
proof -
  obtain aux bs where "aux_bytes (nd_env nd) (fi_Memo q) aux" "marshal_estimate (nd_env nd) q = Ok bs"
    "length bs = estimate_size q (length aux)" using marshal_estimate_size [OF assms] by blast
  then show ?thesis by (intro exI [of _ aux]) (simp add: postTransactionEstimateFee_def unmarshalJson_def Let_def)
qed

lemma enc_array_ne [simp]: "enc_array bss \<noteq> []"
  by (auto simp: enc_array_def encodeHead_def)

theorem estimate_fee_witness:
  "\<exists>aux. aux_bytes ex_env [] aux \<and>
    postTransactionEstimateFee ex_node ''application/json'' (Ok \<lparr>fi_Inputs = 2, fi_OutputAmounts = [1000000, 20], fi_Memo = []\<rparr>) =
      Ok (rsp_json 200 (TransactionEstimateFeeOut_json
        \<lparr>fo_Size = of_nat (estimate_size \<lparr>fi_Inputs = 2, fi_OutputAmounts = [1000000, 20], fi_Memo = []\<rparr> (length aux)),
         fo_Fee = of_nat (155381 + (estimate_size \<lparr>fi_Inputs = 2, fi_OutputAmounts = [1000000, 20], fi_Memo = []\<rparr> (length aux) + 100) * 44)\<rparr>))"
proof -
  have env: "nd_env ex_node = ex_env" by (simp add: ex_node_def)
  show ?thesis
    using estimate_fee [of ex_node "\<lparr>fi_Inputs = 2, fi_OutputAmounts = [1000000, 20], fi_Memo = []\<rparr>"] ex_env_ok unfolding env by simp
qed

subsection \<open>Commands\<close>

lemma join_words_append: "ws \<noteq> [] \<Longrightarrow> vs \<noteq> [] \<Longrightarrow> join_words (ws @ vs) = join_words ws @ '' '' @ join_words vs"
proof (induction ws rule: join_words.induct)
  case (2 w)
  then show ?case by (cases vs) auto
qed auto

lemma join_words_concat: "[] \<notin> set wss \<Longrightarrow> join_words (map join_words wss) = join_words (concat wss)"
proof (induction "map join_words wss" arbitrary: wss rule: join_words.induct)
  case (3 w v ws)
  then obtain a b r where wss: "wss = a # b # r" by (cases wss; cases "tl wss") auto
  then show ?case using 3(1) [of "b # r"] 3(2-) join_words_append [of a "b @ concat r"] by auto
qed (auto simp: Cons_eq_map_conv)

text \<open>The environment and arguments with which the tool is run.\<close>

definition cli_env :: "'db HttpRpcServer \<Rightarrow> NetworkParams \<Rightarrow> string list" where
  "cli_env s params = [''CARDANO_NODE_NETWORK_ID='' @ fmt_d (unat (np_Magic params)), ''CARDANO_NODE_SOCKET_PATH='' @ cf_SocketPath (hs_config s)]"

lemma run_cli:
  assumes "Network_Params (co_Network (cl_Options (hs_client s))) = Ok params" "all_pipes (nd_pipes nd)"
    "distinct (map vf_Name files)" "\<forall>w\<in>set words. word_ok w" "length files \<le> 10"
  shows "runCardanoBinaryWithFiles nd s (join_words words) files =
    Ok (exec_result (nd_exec nd CardanoBinaryPath (cli_env s params) (map (subst_word (file_fds 0 files)) words) (map vf_Content files)))"
  using assms run_virtual_files [OF assms(2-4), of "nd_exec nd" CardanoBinaryPath "cli_env s params"]
  by (simp add: runCardanoBinaryWithFiles_def cli_env_def)

definition sign_words :: "string list" where
  "sign_words = [''conway'', ''transaction'', ''sign'', ''--tx-body-file'', ''file://tx'', ''--signing-key-file'', ''file://key'',
     ''--out-file'', ''/dev/stdout'']"

definition word_okb :: "string \<Rightarrow> bool" where
  "word_okb w \<longleftrightarrow> w \<noteq> [] \<and> (\<forall>c\<in>set w. \<not> is_space c) \<and> (\<forall>i\<in>set [1..<length w]. \<not> scheme_here (drop i w))"

lemma word_okb: "word_okb w \<Longrightarrow> word_ok w"
proof -
  assume w: "word_okb w"
  have "\<not> scheme_here (drop i w)" if "0 < i" for i
    using w that by (cases "i < length w") (auto simp: word_okb_def scheme_here_def file_scheme_def)
  then show "word_ok w" using w by (auto simp: word_okb_def word_ok_def)
qed

lemma sign_words_ok: "\<forall>w\<in>set sign_words. word_ok w"
proof -
  have "\<forall>w\<in>set sign_words. word_okb w" by code_simp
  then show ?thesis using word_okb by blast
qed

lemma sign_args_words: "join_words sign_args = join_words sign_words"
  by (simp add: sign_args_def sign_words_def)

text \<open>The tool signs the transaction of the request with its key, through the descriptors 3 and 4.\<close>

lemma sign_command:
  assumes "Network_Params (co_Network (cl_Options (hs_client s))) = Ok params" "all_pipes (nd_pipes nd)"
    "hex_DecodeString (si_PrivateKeyHex q) = (key, None)"
  shows "postTransactionSign nd s ''application/json'' (Ok q) =
    run_ok (Ok (exec_result (nd_exec nd CardanoBinaryPath (cli_env s params)
        [''conway'', ''transaction'', ''sign'', ''--tx-body-file'', ''/dev/fd/3'', ''--signing-key-file'', ''/dev/fd/4'', ''--out-file'', ''/dev/stdout'']
        [nd_json nd (tx_document ''Unwitnessed Tx ConwayEra'' (si_Tx q)), nd_json nd (key_document key)])))
      (\<lambda>result. Ok (rsp_json 200 (JObj [(''tx'', JStr (nd_cborHex nd result))])))"
proof -
  define files where "files = [\<lparr>vf_Name = ''tx'', vf_Content = nd_json nd (tx_document ''Unwitnessed Tx ConwayEra'' (si_Tx q))\<rparr>,
    \<lparr>vf_Name = ''key'', vf_Content = nd_json nd (key_document key)\<rparr>]"
  have "distinct (map vf_Name files)" "length files \<le> 10" by (simp_all add: files_def)
  note run = run_cli [OF assms(1,2) this(1) sign_words_ok this(2)]
  have fds: "file_fds 0 files = [(''tx'', 3), (''key'', 4)]" by (simp add: files_def file_fds_def)
  have args: "map (subst_word [(''tx'', 3), (''key'', 4)]) sign_words =
    [''conway'', ''transaction'', ''sign'', ''--tx-body-file'', ''/dev/fd/3'', ''--signing-key-file'', ''/dev/fd/4'', ''--out-file'', ''/dev/stdout'']"
    by code_simp
  show ?thesis
    using assms(3) run unfolding fds args
    by (simp add: postTransactionSign_def unmarshalJson_def sign_args_words files_def)
qed

definition build_words :: "TransactionBuildIn \<Rightarrow> string list" where
  "build_words q =
     [''conway'', ''transaction'', ''build'', ''--cardano-mode'', ''--change-address'', ti_ChangeAddress q, ''--out-file'', ''/dev/stdout''] @
     concat (map (\<lambda>i. [''--tx-in'', bi_TxHash i @ ''#'' @ fmt_d (unat (bi_Index i))]) (ti_Inputs q)) @
     concat (map (\<lambda>t. [''--tx-out'', bo_Address t @ ''+'' @ fmt_d (unat (bo_Value t))]) (ti_Outputs q)) @
     (if ti_Memo q \<noteq> [] then [''--metadata-json-file'', ''file://metadata''] else [])"

lemma build_args_words: "join_words (build_args q) = join_words (build_words q)"
proof -
  define wss where "wss = [[''conway'', ''transaction'', ''build''], [''--cardano-mode''], [''--change-address'', ti_ChangeAddress q], [''--out-file'', ''/dev/stdout'']] @
     map (\<lambda>i. [''--tx-in'', bi_TxHash i @ ''#'' @ fmt_d (unat (bi_Index i))]) (ti_Inputs q) @
     map (\<lambda>t. [''--tx-out'', bo_Address t @ ''+'' @ fmt_d (unat (bo_Value t))]) (ti_Outputs q) @
     (if ti_Memo q \<noteq> [] then [[''--metadata-json-file'', ''file://metadata'']] else [])"
  have "build_args q = map join_words wss" by (simp add: build_args_def wss_def)
  moreover have "build_words q = concat wss" by (simp add: build_words_def wss_def)
  moreover have "[] \<notin> set wss" by (auto simp: wss_def)
  ultimately show ?thesis using join_words_concat by simp
qed

text \<open>Claim C25 (build_command): When no field of a build request has white space or a file reference in it, the tool is run with exactly the
  words of the request, and the metadata file, if there is a memo, as descriptor 3.\<close>

theorem build_command:
  assumes "Network_Params (co_Network (cl_Options (hs_client s))) = Ok params" "all_pipes (nd_pipes nd)"
    "\<forall>w\<in>set (build_words q). word_ok w"
  shows "runCardanoBinaryWithFiles nd s (join_words (build_args q)) (build_files nd q) =
    Ok (exec_result (nd_exec nd CardanoBinaryPath (cli_env s params)
      (map (subst_word (if ti_Memo q \<noteq> [] then [(''metadata'', 3)] else [])) (build_words q))
      (if ti_Memo q \<noteq> [] then [nd_json nd (memo_json (ti_Memo q))] else [])))"
proof -
  have "distinct (map vf_Name (build_files nd q))" "length (build_files nd q) \<le> 10" by (simp_all add: build_files_def)
  note run = run_cli [OF assms(1,2) this(1) assms(3) this(2)]
  have "file_fds 0 (build_files nd q) = (if ti_Memo q \<noteq> [] then [(''metadata'', 3)] else [])" by (simp add: build_files_def file_fds_def)
  then show ?thesis using run by (simp add: build_args_words build_files_def)
qed

definition ex_build :: TransactionBuildIn where
  "ex_build = \<lparr>ti_Inputs = [\<lparr>bi_TxHash = ''aa'', bi_Index = 1\<rparr>], ti_Outputs = [\<lparr>bo_Address = ''addr1'', bo_Value = 25\<rparr>],
     ti_ChangeAddress = ''addr2'', ti_Memo = [104]\<rparr>"

theorem build_command_witness:
  "runCardanoBinaryWithFiles ex_block_node ex_server (join_words (build_args ex_build)) (build_files ex_block_node ex_build) =
    Ok (exec_result (nd_exec ex_block_node CardanoBinaryPath (cli_env ex_server MainNetParams)
      [''conway'', ''transaction'', ''build'', ''--cardano-mode'', ''--change-address'', ''addr2'', ''--out-file'', ''/dev/stdout'',
       ''--tx-in'', ''aa#1'', ''--tx-out'', ''addr1+25'', ''--metadata-json-file'', ''/dev/fd/3'']
      [nd_json ex_block_node (memo_json [104])]))"
proof -
  have n: "Network_Params (co_Network (cl_Options (hs_client ex_server))) = Ok MainNetParams"
    by (simp add: ex_server_def ex_client_def ex_opts_def zero_ClientOptions_def setDefaults_def defaultClientOptions_def Let_def Network_Params_Ok)
  have p: "all_pipes (nd_pipes ex_block_node)" by (simp add: ex_block_node_def all_pipes_def)
  have w: "\<forall>w\<in>set (build_words ex_build). word_okb w" by code_simp
  then have w': "\<forall>w\<in>set (build_words ex_build). word_ok w" using word_okb by blast
  have a: "map (subst_word [(''metadata'', 3)]) (build_words ex_build) =
    [''conway'', ''transaction'', ''build'', ''--cardano-mode'', ''--change-address'', ''addr2'', ''--out-file'', ''/dev/stdout'',
     ''--tx-in'', ''aa#1'', ''--tx-out'', ''addr1+25'', ''--metadata-json-file'', ''/dev/fd/3'']" by code_simp
  have m: "ti_Memo ex_build = [104]" by (simp add: ex_build_def)
  show ?thesis using build_command [OF n p w'] unfolding m by (simp add: a)
qed

text \<open>A field with white space adds arguments.\<close>

lemma build_argument_injection:
  "strings_Fields (replace_refs [] (join_words (build_args
     \<lparr>ti_Inputs = [], ti_Outputs = [], ti_ChangeAddress = ''a --tx-out b+1'', ti_Memo = []\<rparr>))) =
   [''conway'', ''transaction'', ''build'', ''--cardano-mode'', ''--change-address'', ''a'', ''--tx-out'', ''b+1'', ''--out-file'', ''/dev/stdout'']"
  by code_simp

end
