(* ===== verification/Spec2Isabelle.thy ===== *)
theory Spec2Isabelle
  imports Prelude Network Bech32 Address AddrTools Database DatabaseSpec BlockProcessor BlockProcessorSpec Era Client
    Protocol MessageReader MessageReaderSpec Util CborValid Cbor CborSpec CborDec CborGrammar CborDecSpec CborTyped CborRoundtrip CborTarget CborTargetSpec CborSafe BlockData BlockDataSpec
    BlockCodec BlockCodecSpec OutputSpec Messages MessagesSpec BatchSpec Cmd RpcTypes Http RpcClient RpcMain RpcSpec
begin

text \<open>
  A verification development for cardano-go (src/), a library and an HTTP server that follow a Cardano node, keep an index of
  blocks and transactions in SQLite, and answer queries about them.

  \<^bold>\<open>The program and its theories.\<close>

  \<^item> \<^bold>\<open>Foundations.\<close> \<open>Prelude\<close> has the Go run-time model: words for machine integers, bytes and strings, error values with the sentinels of
    src/error.go, the outcome type \<open>'a res\<close> (value, error, panic), \<open>encoding/hex\<close> and \<open>encoding/binary\<close>. \<open>Network\<close> (src/network.go)
    has the network names and parameters, \<open>Era\<close> (src/era.go) the eras and decimal printing, \<open>Util\<close> (src/util.go) the helpers.
  \<^item> \<^bold>\<open>Addresses.\<close> \<open>Bech32\<close> is the vendored codec, \<open>Address\<close> (src/address.go) encodes and decodes addresses with it,
    \<open>AddrTools\<close> are the three command line tools (src/cmd/addr_gen, addr_decode, addr_build) over it.
  \<^item> \<^bold>\<open>Index.\<close> \<open>Database\<close> (src/db.go, src/db_sqlite.go) models every SQL statement on three tables; \<open>BlockProcessor\<close>
    (src/block_processor.go) fetches blocks in batches, numbers them and stores them; \<open>Client\<close> (src/client.go) follows the chain, feeds the
    processor, and answers queries. The database interface is the record \<open>Database\<close> of methods; the locale
    \<open>database_contract\<close> of \<open>DatabaseSpec\<close> states what the processor and the client rely on, and the interpretation \<open>sq\<close> proves it for the
    SQLite definitions.
  \<^item> \<^bold>\<open>Wire protocol.\<close> \<open>Protocol\<close> (src/protocol.go, src/protocol_handshake.go) has the tables of protocols and messages and the generic
    CBOR wrappers, \<open>Messages\<close> (src/protocol_*.go) the message structs with their encoders and parsers, \<open>MessageReader\<close> (src/message.go,
    src/segment.go) cuts a stream into segments, messages and batches of blocks. The reader calls the decoder as an argument; \<open>Messages\<close> gives it
    the decoder of the program.
  \<^item> \<^bold>\<open>Blocks and metadata.\<close> \<open>CborValid\<close>, \<open>Cbor\<close> and \<open>CborDec\<close> are the vendored CBOR library (src/vendor/github.com/alexdcox/cbor/v2): heads
    and the check for well-formedness, the values of type \<open>any\<close> and the encoder, the decoder; \<open>CborTarget\<close> is the decoder on a variable of another
    type: integers, strings, slices, maps, structs as arrays and as maps, pointers and types with a method of their own. \<open>BlockData\<close> (src/block.go,
    src/protocol_tx_submission.go) has the structs, auxiliary data and memos, \<open>BlockCodec\<close> the encoding of each of these structs and the decoding into
    it, up to \<open>MessageBlock.Block\<close> (src/protocol_block_fetch.go).
  \<^item> \<^bold>\<open>Server and client.\<close> \<open>Cmd\<close> (src/cmd/rpc/cmd.go) runs the node's command line tool with pipes for files, \<open>RpcTypes\<close> and \<open>RpcClient\<close>
    (src/rpcclient/rpcclient.go) have the structs with their JSON forms and the client, \<open>Http\<close> (src/cmd/rpc/http.go) the handlers, which call
    \<open>Client\<close>, \<open>Address\<close> and \<open>Cmd\<close>, \<open>RpcMain\<close> (src/cmd/rpc/main.go) the start of the program.

  \<^bold>\<open>How code becomes definitions.\<close> Structs are records with the fields of the code under a short prefix; a method is a definition with its
  name, or with the type as prefix where the name is taken. State is passed explicitly, the database as a state \<open>'db\<close> next to its interface value.
  Every error return is \<open>Err\<close> and every run-time panic \<open>Panic\<close>. Goroutines are step relations: \<open>batch_step\<close> for one batch of the processor,
  \<open>bp_step\<close> for the flag and the mutex around it. Message objects that the code shares live in an explicit store. What the code gets
  from outside (the node, the file system, clocks, hashes, ed25519, floats and times in CBOR, the child process) is an argument.

  \<^bold>\<open>What is shown.\<close>

  \<^item> \<open>CborSpec\<close>, \<open>CborGrammar\<close>, \<open>CborDecSpec\<close>, \<open>CborTyped\<close>, \<open>CborRoundtrip\<close>: verdicts of the check are stable under more input; what
    passes it is in a grammar and is decoded without a panic; encodings pass it and are read back; the type of what the decoder returns.
  \<^item> \<open>CborTargetSpec\<close>: the laws of one type's codec as the locale \<open>cbor_codec\<close> (what is encoded is well-formed, is decoded to itself,
    alone or before other bytes, and a cut encoding is an error), and the steps that build the parser of a struct from those of its fields.
  \<^item> \<open>CborSafe\<close>: the decoder on a variable of any type ends where the item ends and does not panic, if that holds for its parts.
    \<open>BlockCodecSpec\<close>: so it does not on a block, and a decoded block has the hash of the header that was received. \<open>OutputSpec\<close>: outputs are read
    back in the format they were written in, and the two formats for which something is lost.
  \<^item> \<open>Bech32\<close>, \<open>Address\<close>, \<open>AddrTools\<close>: round trips, detection of single errors, headers, independence of Go's map order, lengths
    that the 90-character decoder refuses.
  \<^item> \<open>DatabaseSpec\<close>: each write refines an operation on an abstract ledger; keys and ranges are an invariant; what the queue of
    pending points hands out; which sequences of calls lose data or lock the database.
  \<^item> \<open>BlockProcessorSpec\<close>: every interleaving of a batch gives an outcome of the sequential consumer and none gets stuck; heights are consecutive and
    linked by hashes; a committed batch is in the database; mutual exclusion; and the cases in which an error is lost.
  \<^item> \<open>Client\<close>: points are not lost while rolling forward, queries agree with the ledger, connecting ends.
  \<^item> \<open>MessageReaderSpec\<close>: \<open>Read\<close> always returns, a segment is read back however it is cut, and the cases in which the reader gets stuck, panics or
    aliases messages.
  \<^item> \<open>MessagesSpec\<close>: \<open>cbor_codec\<close> is interpreted on points, tips and the data of a roll forward; from \<open>Marshal_Message\<close> through segments, cut
    anywhere, to \<open>Read_messages\<close> every list of messages arrives. \<open>BatchSpec\<close>: which streams of segments of a block fetch are put together again.
  \<^item> \<open>Util\<close>: the search ends with the right answer, calls are spaced, brackets and \<open>IndentCbor\<close>.
  \<^item> \<open>BlockDataSpec\<close>, \<open>RpcSpec\<close>, \<open>Cmd\<close>: which metadata keeps its encoding, memos from request to response, queries and errors end to
    end, the fee formula, descriptors and the words of commands.

  Where the code does something other than what it means to, the behaviour is stated as a theorem or lemma about the definitions, with the
  hypotheses under which it occurs.

  \<^bold>\<open>Loops and fuel.\<close> Structural loops are \<open>fun\<close>, others have a measure. \<open>MessageReader.Read\<close> has as fuel a bound on
  its iterations, and \<open>MessageReaderSpec\<close> shows that it never runs out; \<open>next_messages\<close> and \<open>next_blocks\<close> have the length of their input, of
  which each turn consumes a byte. The recursion of the CBOR check and decoder is bounded by the number of bytes, and the loops over items of
  indefinite length too: \<open>wf_fuel\<close> and \<open>parse_good\<close> show that this is enough. \<open>BinarySearchCallback\<close> may run for ever, so its fuel is an argument: 66 is one more than the 65 halvings of a
  range of \<open>2 ^ 64\<close> numbers. \<open>processBlocks\<close> runs over the list of fetch results it is given.

  \<^bold>\<open>Hypotheses on libraries.\<close> The hash has 28 bytes; an iteration of a Go map visits every entry once (\<open>fair_order\<close>); decoding a CBOR time does not
  panic. Witnesses give instances.

  \<^bold>\<open>Not modelled.\<close> Logging (src/log.go) but for the text of a stack trace, the file src/cmd/rpc/shared/event.go, which is commented out, and tests. Of
  src/util.go, \<open>Cast\<close> (reflection). A nil slice or map and an empty one are the same value, written as null. The blocks that the client and the
  server show come from the ouroboros library, with its own types. Of the server, fiber's listening and shutdown; of the
  client, the connection itself. JSON is a tree, without its text. Text messages keep the format and not the printed arguments.
\<close>

end
